(* ===== verification/Prelude.thy ===== *)
theory Prelude
  imports Main "HOL-Library.Word" "HOL-Library.Char_ord"
begin

text \<open>
  What the components share: the clock (\<open>std::time::Instant\<close> and \<open>Duration\<close>), the few
  functions of Rust's \<open>str\<close> the sources call, decimal formatting, and the interface of a
  deterministic machine (\<open>locale step_machine\<close>) through which every component's invariant is
  lifted from one operation to a whole run.

  Conventions of the whole development. An \<open>Instant\<close> and a \<open>Duration\<close> are nanosecond
  counts in \<open>nat\<close>. Several reads of the clock inside one operation are one argument \<open>now\<close>
  of the operation unless its theory says otherwise. A Rust \<open>String\<close> is a HOL \<open>string\<close>, one
  \<open>char\<close> per Unicode scalar value; scalar values above 255 are outside the model. The sources
  only ask a character whether it is ASCII, whether it is white space, and whether it equals an
  ASCII literal. A serde-deserialised integer is \<open>nat\<close> where the code
  does no arithmetic on it that could wrap, a word where it could.
\<close>

section \<open>Rule collections\<close>

named_theorems time_simps \<open>durations and instants as nanoseconds\<close>
named_theorems text_simps \<open>text functions on concrete text\<close>

section \<open>Instants and durations\<close>

type_synonym instant = nat
type_synonym duration = nat

definition secs :: "nat \<Rightarrow> duration" where
  [time_simps]: "secs n = n * 1000000000"

definition millis :: "nat \<Rightarrow> duration" where
  [time_simps]: "millis n = n * 1000000"

definition micros :: "nat \<Rightarrow> duration" where
  [time_simps]: "micros n = n * 1000"

text \<open>
  \<open>Instant\<close> on Linux is a pair of an \<open>i64\<close> second count and a nanosecond count below
  one billion: \<open>checked_add\<close> fails when the seconds leave \<open>i64\<close>.
\<close>

definition INSTANT_END :: instant where
  "INSTANT_END = 2 ^ 63 * 1000000000"

definition checked_add :: "instant \<Rightarrow> duration \<Rightarrow> instant option" where
  "checked_add t d = (if t + d < INSTANT_END then Some (t + d) else None)"

text \<open>\<open>saturating_duration_since\<close> (and \<open>elapsed\<close>, which saturates too) is truncated subtraction.\<close>

definition since :: "instant \<Rightarrow> instant \<Rightarrow> duration" where
  "since now t = now - t"

lemma since_self [simp]: "since t t = 0"
  by (simp add: since_def)

lemma checked_add_Some_iff:
  "checked_add t d = Some u \<longleftrightarrow> u = t + d \<and> t + d < INSTANT_END"
  by (auto simp: checked_add_def)

lemma checked_add_le: "checked_add t d = Some u \<Longrightarrow> t \<le> u"
  by (auto simp: checked_add_Some_iff)

section \<open>Text\<close>

definition is_ascii :: "char \<Rightarrow> bool" where
  "is_ascii c \<longleftrightarrow> (of_char c :: nat) < 128"

definition is_ascii_control :: "char \<Rightarrow> bool" where
  "is_ascii_control c \<longleftrightarrow> (of_char c :: nat) < 32 \<or> (of_char c :: nat) = 127"

text \<open>Unicode \<open>White_Space\<close> below 256: TAB to CR, space, NEL and the no-break space.\<close>

definition is_whitespace :: "char \<Rightarrow> bool" where
  "is_whitespace c \<longleftrightarrow>
     (let n = (of_char c :: nat) in 9 \<le> n \<and> n \<le> 13 \<or> n = 32 \<or> n = 133 \<or> n = 160)"

definition trim_start :: "string \<Rightarrow> string" where
  "trim_start s = dropWhile is_whitespace s"

definition trim_end :: "string \<Rightarrow> string" where
  "trim_end s = rev (dropWhile is_whitespace (rev s))"

definition trim :: "string \<Rightarrow> string" where
  "trim s = trim_end (trim_start s)"

definition to_ascii_lower_char :: "char \<Rightarrow> char" where
  "to_ascii_lower_char c =
     (let n = (of_char c :: nat) in if 65 \<le> n \<and> n \<le> 90 then char_of (n + 32) else c)"

definition to_ascii_lowercase :: "string \<Rightarrow> string" where
  "to_ascii_lowercase s = map to_ascii_lower_char s"

definition to_ascii_upper_char :: "char \<Rightarrow> char" where
  "to_ascii_upper_char c =
     (let n = (of_char c :: nat) in if 97 \<le> n \<and> n \<le> 122 then char_of (n - 32) else c)"

definition to_ascii_uppercase :: "string \<Rightarrow> string" where
  "to_ascii_uppercase s = map to_ascii_upper_char s"

definition eq_ignore_ascii_case :: "string \<Rightarrow> string \<Rightarrow> bool" where
  "eq_ignore_ascii_case s t \<longleftrightarrow> to_ascii_lowercase s = to_ascii_lowercase t"

definition strip_prefix :: "string \<Rightarrow> string \<Rightarrow> string option" where
  "strip_prefix p s = (if take (length p) s = p then Some (drop (length p) s) else None)"

lemma length_to_ascii_lowercase [simp]: "length (to_ascii_lowercase s) = length s"
  by (simp add: to_ascii_lowercase_def)

text \<open>Decimal formatting of an unsigned number, with and without a zero-padded width.\<close>

definition digit_char :: "nat \<Rightarrow> char" where
  "digit_char d = char_of (48 + d)"

fun nat_str :: "nat \<Rightarrow> string" where
  "nat_str n = (if n < 10 then [digit_char n] else nat_str (n div 10) @ [digit_char (n mod 10)])"

declare nat_str.simps [simp del]

definition pad0 :: "nat \<Rightarrow> nat \<Rightarrow> string" where
  "pad0 w n = (let s = nat_str n in replicate (w - length s) CHR ''0'' @ s)"

definition int_str :: "int \<Rightarrow> string" where
  "int_str i = (if i < 0 then CHR ''-'' # nat_str (nat (- i)) else nat_str (nat i))"

lemma nat_str_nonempty [simp]: "nat_str n \<noteq> []"
  by (subst nat_str.simps) simp

lemma nat_str_small: "n < 10 \<Longrightarrow> nat_str n = [digit_char n]"
  by (subst nat_str.simps) simp

lemma nat_str_step: "10 \<le> n \<Longrightarrow> nat_str n = nat_str (n div 10) @ [digit_char (n mod 10)]"
  by (subst nat_str.simps) simp

lemma length_nat_str_bound: "n < 10 ^ Suc k \<Longrightarrow> length (nat_str n) \<le> Suc k"
proof (induction k arbitrary: n)
  case 0
  then show ?case by (simp add: nat_str_small)
next
  case (Suc k)
  show ?case
  proof (cases "n < 10")
    case True
    then show ?thesis by (simp add: nat_str_small)
  next
    case False
    moreover from Suc.prems have "n div 10 < 10 ^ Suc k"
      by (simp add: less_mult_imp_div_less)
    then have "length (nat_str (n div 10)) \<le> Suc k" by (rule Suc.IH)
    ultimately show ?thesis by (simp add: nat_str_step)
  qed
qed

lemma digit_char_inj: "d < 10 \<Longrightarrow> e < 10 \<Longrightarrow> digit_char d = digit_char e \<longleftrightarrow> d = e"
  by (auto simp: digit_char_def dest: arg_cong [of _ _ "of_char :: char \<Rightarrow> nat"])

lemma nat_str_single: "nat_str n = [c] \<Longrightarrow> n < 10"
  by (rule ccontr) (simp add: nat_str_step)

lemma nat_str_inj [simp]: "nat_str m = nat_str n \<longleftrightarrow> m = n"
proof
  show "nat_str m = nat_str n \<Longrightarrow> m = n"
  proof (induction m arbitrary: n rule: nat_str.induct)
    case (1 m)
    show ?case
    proof (cases "m < 10 \<or> n < 10")
      case True
      with "1.prems" have "m < 10" "n < 10"
        by (metis nat_str_single nat_str_small)+
      with "1.prems" show ?thesis by (simp add: nat_str_small digit_char_inj)
    next
      case False
      with "1.prems" have "nat_str (m div 10) = nat_str (n div 10)"
        and "digit_char (m mod 10) = digit_char (n mod 10)" by (simp_all add: nat_str_step)
      with "1.IH" False have "m div 10 = n div 10" "m mod 10 = n mod 10"
        by (simp_all add: digit_char_inj)
      then show ?thesis by (metis div_mod_decomp)
    qed
  qed
qed simp

fun intercalate :: "string \<Rightarrow> string list \<Rightarrow> string" where
  "intercalate sep [] = []"
| "intercalate sep [x] = x"
| "intercalate sep (x # y # ys) = x @ sep @ intercalate sep (y # ys)"

text \<open>\<open>split_whitespace\<close>: the maximal runs of non-white-space characters.\<close>

fun split_ws_aux :: "string \<Rightarrow> string \<Rightarrow> string list" where
  "split_ws_aux acc [] = (if acc = [] then [] else [rev acc])"
| "split_ws_aux acc (c # cs) =
     (if is_whitespace c
      then (if acc = [] then split_ws_aux [] cs else rev acc # split_ws_aux [] cs)
      else split_ws_aux (c # acc) cs)"

definition split_whitespace :: "string \<Rightarrow> string list" where
  "split_whitespace s = split_ws_aux [] s"

lemma is_whitespace_concrete [simp]:
  "is_whitespace CHR '' ''"
  by (simp add: is_whitespace_def)

text \<open>\<open>str::parse\<close> for an unsigned type of \<open>bound\<close> values: an optional plus sign, at least
  one digit, no overflow. \<open>split_once\<close> cuts at the first occurrence.\<close>

definition is_digit :: "char \<Rightarrow> bool" where
  "is_digit c \<longleftrightarrow> (let n = (of_char c :: nat) in 48 \<le> n \<and> n \<le> 57)"

definition digit_val :: "char \<Rightarrow> nat" where
  "digit_val c = of_char c - 48"

definition digits_val :: "string \<Rightarrow> nat" where
  "digits_val s = foldl (\<lambda>n c. 10 * n + digit_val c) 0 s"

definition parse_uint :: "nat \<Rightarrow> string \<Rightarrow> nat option" where
  "parse_uint bound s =
     (let d = (if s \<noteq> [] \<and> hd s = CHR ''+'' then tl s else s)
      in if d \<noteq> [] \<and> list_all is_digit d \<and> digits_val d < bound then Some (digits_val d) else None)"

definition split_once :: "char \<Rightarrow> string \<Rightarrow> (string \<times> string) option" where
  "split_once c s =
     (if c \<in> set s
      then Some (takeWhile (\<lambda>x. x \<noteq> c) s, tl (dropWhile (\<lambda>x. x \<noteq> c) s)) else None)"

lemma parse_uint_bound: "parse_uint bound s = Some n \<Longrightarrow> n < bound"
  by (auto simp: parse_uint_def Let_def split: if_splits)

lemma digit_char_props [simp]:
  "d < 10 \<Longrightarrow> is_digit (digit_char d)" "d < 10 \<Longrightarrow> digit_val (digit_char d) = d"
  by (simp_all add: is_digit_def digit_val_def digit_char_def)

lemma nat_str_digits: "list_all is_digit (nat_str n) \<and> digits_val (nat_str n) = n"
proof (induction n rule: nat_str.induct)
  case (1 n)
  show ?case
  proof (cases "n < 10")
    case True
    then show ?thesis by (simp add: nat_str_small digits_val_def)
  next
    case False
    with 1 show ?thesis by (simp add: nat_str_step digits_val_def)
  qed
qed

lemma nat_str_not_plus: "hd (nat_str n) \<noteq> CHR ''+''"
proof
  assume "hd (nat_str n) = CHR ''+''"
  moreover have "is_digit (hd (nat_str n))"
    using nat_str_digits [of n] nat_str_nonempty [of n] by (cases "nat_str n") auto
  ultimately show False by (simp add: is_digit_def)
qed

lemma parse_uint_nat_str [simp]: "n < bound \<Longrightarrow> parse_uint bound (nat_str n) = Some n"
  using nat_str_digits [of n] by (simp add: parse_uint_def nat_str_not_plus)

lemma digit_not_whitespace: "is_digit c \<Longrightarrow> \<not> is_whitespace c"
  by (auto simp: is_digit_def is_whitespace_def Let_def)

section \<open>Signed 64-bit arithmetic\<close>

text \<open>\<open>i64\<close> values are \<open>int\<close>; the saturating operations clamp at the ends of the range.\<close>

definition I64_MIN :: int where "I64_MIN = - (2 ^ 63)"
definition I64_MAX :: int where "I64_MAX = 2 ^ 63 - 1"

definition clamp64 :: "int \<Rightarrow> int" where
  "clamp64 n = max I64_MIN (min I64_MAX n)"

definition sat_add :: "int \<Rightarrow> int \<Rightarrow> int" where "sat_add a b = clamp64 (a + b)"
definition sat_sub :: "int \<Rightarrow> int \<Rightarrow> int" where "sat_sub a b = clamp64 (a - b)"
definition sat_mul :: "int \<Rightarrow> int \<Rightarrow> int" where "sat_mul a b = clamp64 (a * b)"

lemma clamp64_id: "I64_MIN \<le> n \<Longrightarrow> n \<le> I64_MAX \<Longrightarrow> clamp64 n = n"
  by (simp add: clamp64_def)

lemma clamp64_range: "I64_MIN \<le> clamp64 n \<and> clamp64 n \<le> I64_MAX"
  by (auto simp: clamp64_def I64_MIN_def I64_MAX_def)

section \<open>Small list facts\<close>

fun find_map :: "('a \<Rightarrow> 'b option) \<Rightarrow> 'a list \<Rightarrow> 'b option" where
  "find_map f [] = None"
| "find_map f (x # xs) = (case f x of None \<Rightarrow> find_map f xs | Some y \<Rightarrow> Some y)"

lemma find_map_Some:
  "find_map f xs = Some y \<Longrightarrow>
     \<exists>us x vs. xs = us @ x # vs \<and> f x = Some y \<and> (\<forall>u\<in>set us. f u = None)"
proof (induction xs)
  case Nil
  then show ?case by simp
next
  case (Cons x xs)
  show ?case
  proof (cases "f x")
    case None
    with Cons obtain us z vs where "xs = us @ z # vs" "f z = Some y" "\<forall>u\<in>set us. f u = None"
      by auto
    with None show ?thesis by (intro exI [of _ "x # us"] exI [of _ z] exI [of _ vs]) simp
  next
    case (Some z)
    with Cons.prems show ?thesis
      by (intro exI [of _ "[]"] exI [of _ x] exI [of _ xs]) simp
  qed
qed

lemma find_map_None: "find_map f xs = None \<longleftrightarrow> (\<forall>x\<in>set xs. f x = None)"
  by (induction xs) (auto split: option.splits)

lemma take_min_length [simp]: "take (min n (length xs)) xs = take n xs"
  by (simp add: min_def)

lemma of_char_less_256: "(of_char c :: nat) < 256"
  by (metis char_of_char mod_less_divisor of_char_of zero_less_numeral)

lemma fold_add_eq_sum_list:
  fixes xs :: "'a::comm_monoid_add list"
  shows "fold (\<lambda>b acc. acc + b) xs a = a + sum_list xs"
  by (induction xs arbitrary: a) (simp_all add: algebra_simps)

lemma trim_end_idem [simp]: "trim_end (trim_end s) = trim_end s"
  by (simp add: trim_end_def)

lemma trim_end_append:
  "ys \<noteq> [] \<Longrightarrow> \<not> is_whitespace (last ys) \<Longrightarrow> trim_end (xs @ ys) = xs @ ys"
  by (cases ys rule: rev_cases) (auto simp: trim_end_def)

section \<open>Deterministic machines\<close>

text \<open>
  Every stateful component is a function \<open>step\<close> from a state and an input to a state. What a
  component promises of one operation, the locale turns into a promise about any sequence of
  operations: an invariant over runs, and a relation between the first and the last state of a
  run from a reflexive and transitive relation kept by each step.
\<close>

locale step_machine =
  fixes step :: "'i \<Rightarrow> 's \<Rightarrow> 's"
    and inv :: "'s \<Rightarrow> bool"
  assumes step_inv: "inv s \<Longrightarrow> inv (step i s)"
begin

lemma run_inv: "inv s \<Longrightarrow> inv (fold step ops s)"
  by (induction ops arbitrary: s) (auto intro: step_inv)

end

locale related_machine = step_machine step inv
  for step :: "'i \<Rightarrow> 's \<Rightarrow> 's" and inv :: "'s \<Rightarrow> bool" +
  fixes rel :: "'s \<Rightarrow> 's \<Rightarrow> bool"
  assumes rel_refl: "rel s s"
    and rel_trans: "rel s t \<Longrightarrow> rel t u \<Longrightarrow> rel s u"
    and step_rel: "inv s \<Longrightarrow> rel s (step i s)"
begin

lemma run_rel: "inv s \<Longrightarrow> rel s (fold step ops s)"
proof (induction ops arbitrary: s)
  case Nil
  show ?case by (simp add: rel_refl)
next
  case (Cons i ops)
  from Cons.prems have "rel s (step i s)" by (rule step_rel)
  moreover from Cons.prems have "inv (step i s)" by (rule step_inv)
  then have "rel (step i s) (fold step ops (step i s))" by (rule Cons.IH)
  ultimately show ?case by (simp add: rel_trans)
qed

end

text \<open>
  A \<open>loop\<close> of the sources that either finishes an iteration with a result or goes round
  again with a smaller measure.
\<close>

locale terminating_loop =
  fixes body :: "'s \<Rightarrow> 'r + 's"
    and loop :: "'s \<Rightarrow> 'r"
    and m :: "'s \<Rightarrow> nat"
  assumes loop_unfold: "loop s = (case body s of Inl r \<Rightarrow> r | Inr s' \<Rightarrow> loop s')"
    and body_decreases: "body s = Inr s' \<Longrightarrow> m s' < m s"
begin

lemma loop_done: "body s = Inl r \<Longrightarrow> loop s = r"
  by (subst loop_unfold) simp

lemma loop_again: "body s = Inr s' \<Longrightarrow> loop s = loop s'"
  by (subst loop_unfold) simp

lemma loop_induct:
  assumes "\<And>s r. body s = Inl r \<Longrightarrow> P s r"
    and "\<And>s s'. body s = Inr s' \<Longrightarrow> P s' (loop s') \<Longrightarrow> P s (loop s')"
  shows "P s (loop s)"
proof (induction "m s" arbitrary: s rule: less_induct)
  case less
  show ?case
  proof (cases "body s")
    case (Inl r)
    then show ?thesis using assms(1) by (simp add: loop_done)
  next
    case (Inr s')
    then have "P s' (loop s')" by (intro less.hyps body_decreases)
    with Inr show ?thesis using assms(2) by (simp add: loop_again)
  qed
qed

text \<open>A reflexive and transitive relation kept by every iteration relates start and end.\<close>

lemma loop_relation:
  assumes "\<And>s r. body s = Inl r \<Longrightarrow> R s (out r)"
    and "\<And>s s'. body s = Inr s' \<Longrightarrow> R s s'"
    and "\<And>s t u. R s t \<Longrightarrow> R t u \<Longrightarrow> R s u"
  shows "R s (out (loop s))"
  by (rule loop_induct [where P = "\<lambda>s r. R s (out r)"]) (auto intro: assms)

text \<open>The result is the result of some iteration.\<close>

lemma loop_result: "\<exists>s'. body s' = Inl (loop s)"
  by (rule loop_induct [where P = "\<lambda>s r. \<exists>s'. body s' = Inl r"]) auto

end

end
