(* ===== verification/Protocol.thy ===== *)
theory Protocol
  imports Prelude
begin

text \<open>
  \<open>src/protocol.rs\<close>: the wire format of the LCM panel (\<open>encode\<close>, \<open>decode\<close>,
  \<open>checksum\<close>, \<open>line_bytes\<close>, \<open>Key\<close>) and the link \<open>Lcm\<close> over it: the byte
  reader with its resynchronisation, the command/acknowledge exchange, the cached text writes.

  The serial port is the environment. It is a script of what each iteration of the reader's loop
  and each \<open>write\<close> call sees (\<open>rx_event\<close>, \<open>tx_event\<close>), consumed from the front; a
  reader that runs out of script polls until its timeout, a writer that runs out has everything
  accepted. Every event carries the clock reading made after it. Bytes the port accepted are kept
  in \<open>lcm_wire\<close>, a history the code does not have. The debug trace file is left out.
\<close>

unbundle bit_operations_syntax

section \<open>Frames\<close>

type_synonym u8 = "8 word"

definition OP_COMMAND :: u8 where "OP_COMMAND = 0xF0"
definition OP_ACK :: u8 where "OP_ACK = 0xF1"
definition SUB_KEY :: u8 where "SUB_KEY = 0x80"
definition SUB_VERSION :: u8 where "SUB_VERSION = 0x13"
definition SUB_SET_TEXT :: u8 where "SUB_SET_TEXT = 0x27"
definition SUB_DISPLAY :: u8 where "SUB_DISPLAY = 0x11"
definition SUB_INIT_2 :: u8 where "SUB_INIT_2 = 0x22"

lemmas opcode_defs = OP_COMMAND_def OP_ACK_def SUB_KEY_def SUB_VERSION_def SUB_SET_TEXT_def
  SUB_DISPLAY_def SUB_INIT_2_def

definition FRAME_MAX :: nat where "FRAME_MAX = 22"
definition PAYLOAD_MAX :: nat where "PAYLOAD_MAX = FRAME_MAX - 4"
definition LINE_WIDTH :: nat where "LINE_WIDTH = 16"
definition ACK_TIMEOUT :: duration where "ACK_TIMEOUT = millis 300"
definition SETTLE :: duration where "SETTLE = millis 20"
definition WRITE_TIMEOUT :: duration where "WRITE_TIMEOUT = secs 1"
definition RETRY_BACKOFF :: duration where "RETRY_BACKOFF = millis 100"

lemmas frame_size_defs = FRAME_MAX_def PAYLOAD_MAX_def

text \<open>Ten bits per byte at 115200 baud, in whole microseconds.\<close>

definition wire_time :: "nat \<Rightarrow> duration" where
  "wire_time bytes = micros (bytes * 10 * 1000000 div 115200)"

record frame =
  opcode :: u8
  subcmd :: u8
  payload :: "u8 list"
  checksum_ok :: bool

datatype key = Up | Down | Back | Enter | Wake | Unknown u8

definition key_from :: "u8 \<Rightarrow> key" where
  "key_from code =
     (if code = 1 then Up else if code = 2 then Down else if code = 3 then Back
      else if code = 4 then Enter else if code = 5 then Wake else Unknown code)"

definition is_unsolicited :: "frame \<Rightarrow> bool" where
  "is_unsolicited f \<longleftrightarrow> checksum_ok f \<and> opcode f = OP_COMMAND"

definition frame_key :: "frame \<Rightarrow> key option" where
  "frame_key f =
     (if is_unsolicited f \<and> subcmd f = SUB_KEY
      then (case payload f of [] \<Rightarrow> None | b # _ \<Rightarrow> Some (key_from b)) else None)"

definition checksum :: "u8 list \<Rightarrow> u8" where
  "checksum header_and_payload = fold (\<lambda>b acc. acc + b) header_and_payload 0"

definition encode :: "u8 \<Rightarrow> u8 \<Rightarrow> u8 list \<Rightarrow> u8 list" where
  "encode op sub pl =
     (let p = take PAYLOAD_MAX pl;
          buf = op # word_of_nat (length p) # sub # p
      in buf @ [checksum buf])"

definition decode :: "u8 list \<Rightarrow> frame option" where
  "decode buf =
     (if length buf < 4 then None
      else
        let n = unat (buf ! 1); cksum_idx = n + 3
        in Some \<lparr>opcode = buf ! 0, subcmd = buf ! 2,
                 payload = drop 3 (take (3 + n) buf),
                 checksum_ok = cksum_idx < length buf \<and>
                   checksum (take cksum_idx buf) = buf ! cksum_idx\<rparr>)"

definition line_char :: "char \<Rightarrow> u8" where
  "line_char c = (if is_ascii c \<and> \<not> is_ascii_control c then of_char c else 63)"

definition line_bytes :: "string \<Rightarrow> u8 list" where
  "line_bytes text = take LINE_WIDTH (map line_char text @ replicate LINE_WIDTH 32)"

section \<open>The link\<close>

datatype io_error = WriteZero | TimedOut | OtherIo nat

text \<open>What one \<open>read\<close> of a byte returns, and what one reader iteration sees.\<close>

datatype read_result = ReadByte u8 | ReadRetry | ReadFail

record rx_event =
  rx_ready :: bool         \<comment> \<open>\<open>poll_fd\<close> reported the port readable\<close>
  rx_read :: read_result   \<comment> \<open>what the \<open>read\<close> after it returned\<close>
  rx_done :: instant       \<comment> \<open>the clock afterwards\<close>

text \<open>
  One \<open>write\<close>: bytes accepted, interrupted, the buffer full (with the clock, and whether
  the \<open>POLLOUT\<close> wait then succeeded), or another error.
\<close>

datatype tx_event = WrOk nat | WrInterrupted | WrBlock instant bool | WrErr nat

text \<open>
  The link. Beside the fields of \<open>Lcm\<close> the record has the port's scripts, the clock, and two
  observations no operation reads: \<open>lcm_wire\<close>, the bytes the host has written, and
  \<open>lcm_heard\<close>, every frame \<open>read_frame\<close> has returned, with the times the read began
  and ended.
\<close>

record lcm =
  lcm_rx :: "rx_event list"
  lcm_tx :: "tx_event list"
  lcm_clock :: instant
  lcm_wire :: "u8 list"
  lcm_pending :: "frame list"
  last_sent :: "nat \<Rightarrow> string option"
  display_on :: "bool option"
  last_rx :: "instant option"
  st_writes :: nat
  st_retries :: nat
  st_failures :: nat
  tx_started :: instant
  lcm_heard :: "(instant \<times> frame \<times> instant) list"

definition with_port :: "rx_event list \<Rightarrow> tx_event list \<Rightarrow> instant \<Rightarrow> lcm" where
  "with_port rx tx now =
     \<lparr>lcm_rx = rx, lcm_tx = tx, lcm_clock = now, lcm_wire = [], lcm_pending = [],
      last_sent = (\<lambda>_. None), display_on = None, last_rx = None,
      st_writes = 0, st_retries = 0, st_failures = 0, tx_started = now, lcm_heard = []\<rparr>"

text \<open>The write loop of \<open>send_within\<close>: what is left of the frame, and the script.\<close>

fun write_loop ::
  "instant option \<Rightarrow> tx_event list \<Rightarrow> u8 list \<Rightarrow> instant \<Rightarrow> u8 list
    \<Rightarrow> (io_error + unit) \<times> u8 list \<times> tx_event list \<times> instant" where
  "write_loop deadline [] rest now sent = (Inr (), sent @ rest, [], now)"
| "write_loop deadline (e # txs) rest now sent =
     (if rest = [] then (Inr (), sent, e # txs, now)
      else
        case e of
          WrOk n \<Rightarrow>
            (if n = 0 then (Inl WriteZero, sent, txs, now)
             else write_loop deadline txs (drop n rest) now (sent @ take n rest))
        | WrInterrupted \<Rightarrow> write_loop deadline txs rest now sent
        | WrBlock t ok \<Rightarrow>
            (let left = (case deadline of None \<Rightarrow> WRITE_TIMEOUT | Some d \<Rightarrow> since d t)
             in if left = 0 \<or> \<not> ok then (Inl TimedOut, sent, txs, max now t)
                else write_loop deadline txs rest (max now t) sent)
        | WrErr k \<Rightarrow> (Inl (OtherIo k), sent, txs, now))"

definition settle_wait :: "lcm \<Rightarrow> instant" where
  "settle_wait l =
     (case last_rx l of
        None \<Rightarrow> lcm_clock l
      | Some t \<Rightarrow> lcm_clock l + (SETTLE - since (lcm_clock l) t))"

definition send :: "u8 \<Rightarrow> u8 \<Rightarrow> u8 list \<Rightarrow> lcm \<Rightarrow> (io_error + unit) \<times> lcm" where
  "send op sub pl l =
     (let now = settle_wait l;
          wire = encode op sub pl;
          deadline = checked_add now WRITE_TIMEOUT
      in case write_loop deadline (lcm_tx l) wire now [] of
           (r, sent, txs, t) \<Rightarrow>
             (r, l\<lparr>lcm_tx := txs, lcm_clock := t, lcm_wire := lcm_wire l @ sent,
                   tx_started := now\<rparr>))"

definition ack :: "u8 \<Rightarrow> lcm \<Rightarrow> (io_error + unit) \<times> lcm" where
  "ack sub l = send OP_ACK sub [0] l"

text \<open>
  The reader. An iteration runs only while the buffer has room and the timeout has not elapsed;
  it waits for the port, reads one byte, drops it while no frame has started and it is no opcode,
  and stops as soon as the announced length is complete.
\<close>

definition frame_complete :: "u8 list \<Rightarrow> bool" where
  "frame_complete buf \<longleftrightarrow>
     2 \<le> length buf \<and> unat (buf ! 1) + 4 \<le> FRAME_MAX \<and> unat (buf ! 1) + 4 \<le> length buf"

fun read_loop ::
  "duration \<Rightarrow> instant \<Rightarrow> rx_event list \<Rightarrow> u8 list \<Rightarrow> instant \<Rightarrow> instant option
    \<Rightarrow> u8 list \<times> rx_event list \<times> instant \<times> instant option" where
  "read_loop timeout start [] buf now seen =
     (if length buf < FRAME_MAX \<and> since now start < timeout
      then (buf, [], start + timeout, seen) else (buf, [], now, seen))"
| "read_loop timeout start (r # rxs) buf now seen =
     (if \<not> (length buf < FRAME_MAX \<and> since now start < timeout) then (buf, r # rxs, now, seen)
      else
        let now' = max now (rx_done r)
        in if \<not> rx_ready r then (buf, rxs, now', seen)
           else
             case rx_read r of
               ReadByte b \<Rightarrow>
                 (if buf = [] \<and> \<not> (b = OP_COMMAND \<or> b = OP_ACK)
                  then read_loop timeout start rxs buf now' (Some now')
                  else if frame_complete (buf @ [b]) then (buf @ [b], rxs, now', Some now')
                  else read_loop timeout start rxs (buf @ [b]) now' (Some now'))
             | ReadRetry \<Rightarrow> read_loop timeout start rxs buf now' seen
             | ReadFail \<Rightarrow> (buf, rxs, now', seen))"

definition read_frame :: "duration \<Rightarrow> lcm \<Rightarrow> frame option \<times> lcm" where
  "read_frame timeout l =
     (case read_loop timeout (lcm_clock l) (lcm_rx l) [] (lcm_clock l) (last_rx l) of
        (buf, rxs, now, seen) \<Rightarrow>
          (let got = (if buf = [] then None else decode buf)
           in (got, l\<lparr>lcm_rx := rxs, lcm_clock := now, last_rx := seen,
                     lcm_heard := lcm_heard l @
                       (case got of None \<Rightarrow> [] | Some f \<Rightarrow> [(lcm_clock l, f, now)])\<rparr>)))"

lemma read_loop_rx:
  "read_loop timeout start rxs buf now seen = (buf', rxs', now', seen') \<Longrightarrow>
     length rxs' \<le> length rxs \<and> (buf' \<noteq> buf \<longrightarrow> length rxs' < length rxs)"
proof (induction rxs arbitrary: buf now seen)
  case Nil
  then show ?case by (auto split: if_splits)
next
  case (Cons r rxs)
  have rest: "length rxs' \<le> length rxs"
    if "read_loop timeout start rxs b n s = (buf', rxs', now', seen')" for b n s
    using Cons.IH [OF that] by simp
  from Cons.prems show ?case
    by (auto simp: Let_def le_Suc_eq less_Suc_eq_le split: if_splits read_result.splits dest: rest)
qed

lemma read_frame_shorter:
  "read_frame timeout l = (Some f, l') \<Longrightarrow> length (lcm_rx l') < length (lcm_rx l)"
  by (auto simp: read_frame_def Let_def split: prod.splits if_splits dest!: read_loop_rx)

lemma ack_rx [simp]: "lcm_rx (snd (ack sub l)) = lcm_rx l"
  by (auto simp: ack_def send_def Let_def split: prod.splits)

text \<open>
  \<open>send_and_ack\<close>: the loop that waits for the acknowledgement. Each frame read
  consumes script, so the loop ends; its other bound is the deadline.
\<close>

definition ack_step ::
  "u8 \<Rightarrow> instant \<Rightarrow> duration \<Rightarrow> lcm \<Rightarrow> (bool \<times> lcm) + lcm" where
  "ack_step sub deadline earliest l =
     (let remaining = since deadline (lcm_clock l)
      in if remaining = 0 then Inl (False, l)
         else
           case read_frame remaining l of
             (None, l') \<Rightarrow> Inl (False, l')
           | (Some f, l') \<Rightarrow>
               (if checksum_ok f \<and> opcode f = OP_ACK \<and> subcmd f = sub
                then
                  (if since (lcm_clock l') (tx_started l') < earliest then Inr l'
                   else Inl (payload f \<noteq> [] \<and> hd (payload f) = 0, l'))
                else if is_unsolicited f
                then
                  (let l2 = snd (ack (subcmd f) l')
                   in Inr (l2\<lparr>lcm_pending := lcm_pending l2 @ [f]\<rparr>))
                else Inr l'))"

lemma ack_step_decreases:
  "ack_step sub deadline earliest l = Inr l' \<Longrightarrow> length (lcm_rx l') < length (lcm_rx l)"
  by (auto simp: ack_step_def Let_def split: if_splits prod.splits option.splits
      dest: read_frame_shorter)

function ack_loop :: "u8 \<Rightarrow> instant \<Rightarrow> duration \<Rightarrow> lcm \<Rightarrow> bool \<times> lcm" where
  "ack_loop sub deadline earliest l =
     (case ack_step sub deadline earliest l of
        Inl r \<Rightarrow> r
      | Inr l' \<Rightarrow> ack_loop sub deadline earliest l')"
  by pat_completeness auto
termination
  by (relation "measure (\<lambda>(sub, deadline, earliest, l). length (lcm_rx l))")
    (auto dest: ack_step_decreases)

declare ack_loop.simps [simp del]

interpretation wait_ack:
  terminating_loop "ack_step sub deadline earliest" "ack_loop sub deadline earliest"
    "\<lambda>l. length (lcm_rx l)"
  for sub deadline earliest
  by unfold_locales (simp add: ack_loop.simps, rule ack_step_decreases)

definition send_and_ack ::
  "u8 \<Rightarrow> u8 \<Rightarrow> u8 list \<Rightarrow> duration \<Rightarrow> lcm \<Rightarrow> (io_error + bool) \<times> lcm" where
  "send_and_ack op sub pl timeout l =
     (case send op sub pl l of
        (Inl e, l1) \<Rightarrow> (Inl e, l1)
      | (Inr _, l1) \<Rightarrow>
          (case ack_loop sub (lcm_clock l1 + timeout)
                  (wire_time (length pl + 4) + wire_time 5) l1 of
             (b, l2) \<Rightarrow> (Inr b, l2)))"

definition lcm_init :: "lcm \<Rightarrow> (io_error + bool \<times> bool) \<times> lcm" where
  "lcm_init l =
     (case send_and_ack OP_COMMAND SUB_DISPLAY [1] ACK_TIMEOUT l of
        (Inl e, l1) \<Rightarrow> (Inl e, l1)
      | (Inr first, l1) \<Rightarrow>
          (let l2 = l1\<lparr>display_on := (if first then Some True else None)\<rparr>
           in case send_and_ack OP_COMMAND SUB_INIT_2 [0] ACK_TIMEOUT l2 of
                (Inl e, l3) \<Rightarrow> (Inl e, l3)
              | (Inr second, l3) \<Rightarrow> (Inr (first, second), l3)))"

definition take_pending :: "lcm \<Rightarrow> frame list \<times> lcm" where
  "take_pending l = (lcm_pending l, l\<lparr>lcm_pending := []\<rparr>)"

text \<open>
  \<open>set_text\<close>: the three attempts. Argument \<open>k\<close> is the number of attempts left of the
  \<open>0..3\<close> range, so \<open>k < 3\<close> is \<open>attempt > 0\<close>; \<open>xmit\<close> is the loop's one call
  of the link, \<open>send_and_ack(OP_COMMAND, SUB_SET_TEXT, &payload, ACK_TIMEOUT)\<close>.
\<close>

definition retry_prep :: "nat \<Rightarrow> nat \<Rightarrow> lcm \<Rightarrow> lcm" where
  "retry_prep k idx l =
     (if k < 3
      then l\<lparr>st_retries := st_retries l + 1,
             last_sent := (last_sent l)(1 - idx := None),
             lcm_clock := lcm_clock l + RETRY_BACKOFF\<rparr>
      else l)"

fun attempt_loop ::
  "(lcm \<Rightarrow> (io_error + bool) \<times> lcm) \<Rightarrow> nat \<Rightarrow> nat \<Rightarrow> string \<Rightarrow> lcm
    \<Rightarrow> (io_error + bool) \<times> lcm" where
  "attempt_loop xmit 0 idx text l = (Inr False, l\<lparr>st_failures := st_failures l + 1\<rparr>)"
| "attempt_loop xmit (Suc k) idx text l =
     (case xmit (retry_prep (Suc k) idx l) of
        (Inl e, l2) \<Rightarrow> (Inl e, l2)
      | (Inr acked, l2) \<Rightarrow>
          (if acked then (Inr True, l2\<lparr>last_sent := (last_sent l2)(idx := Some text)\<rparr>)
           else attempt_loop xmit k idx text l2))"

definition set_text :: "u8 \<Rightarrow> string \<Rightarrow> u8 \<Rightarrow> lcm \<Rightarrow> (io_error + bool) \<times> lcm" where
  "set_text line text flag l =
     (let idx = unat (line AND 1)
      in if last_sent l idx = Some text then (Inr True, l)
         else
           attempt_loop
             (send_and_ack OP_COMMAND SUB_SET_TEXT (line # flag # line_bytes text) ACK_TIMEOUT)
             3 idx text (l\<lparr>st_writes := st_writes l + 1\<rparr>))"

definition forget_text :: "lcm \<Rightarrow> lcm" where
  "forget_text l = l\<lparr>last_sent := (\<lambda>_. None)\<rparr>"

definition set_display :: "bool \<Rightarrow> lcm \<Rightarrow> (io_error + bool) \<times> lcm" where
  "set_display on l =
     (if display_on l = Some on then (Inr True, l)
      else
        case send_and_ack OP_COMMAND SUB_DISPLAY [if on then 1 else 0] ACK_TIMEOUT l of
          (Inl e, l1) \<Rightarrow> (Inl e, l1)
        | (Inr acked, l1) \<Rightarrow> (Inr acked, if acked then l1\<lparr>display_on := Some on\<rparr> else l1))"

section \<open>Frames: sizes, round trip, corruption\<close>

lemma checksum_sum: "checksum xs = sum_list xs"
  by (simp add: checksum_def fold_add_eq_sum_list)

lemma checksum_update:
  assumes "i < length xs"
  shows "checksum (xs[i := b]) = checksum xs - xs ! i + b"
proof -
  from assms have "xs = take i xs @ xs ! i # drop (Suc i) xs" by (rule id_take_nth_drop)
  moreover from assms have "xs[i := b] = take i xs @ b # drop (Suc i) xs"
    by (rule upd_conv_take_nth_drop)
  ultimately show ?thesis
    by (metis (no_types, lifting) add.commute add.left_commute add_diff_cancel_left'
        checksum_sum sum_list.Cons sum_list_append)
qed

lemma length_encode [simp]: "length (encode op sub pl) = min PAYLOAD_MAX (length pl) + 4"
  by (simp add: encode_def Let_def)

lemma unat_payload_length:
  "unat (word_of_nat (min PAYLOAD_MAX n) :: u8) = min PAYLOAD_MAX n"
  by (simp add: frame_size_defs unat_of_nat)

lemma encode_nth:
  "encode op sub pl ! 0 = op" "encode op sub pl ! 2 = sub"
  "unat (encode op sub pl ! 1) = min PAYLOAD_MAX (length pl)"
  "unat (encode op sub pl ! Suc 0) = min PAYLOAD_MAX (length pl)"
  by (simp_all add: encode_def Let_def unat_payload_length [of "length pl"] min.commute)

lemma encode_body:
  "take (min PAYLOAD_MAX (length pl) + 3) (encode op sub pl) =
     op # word_of_nat (min PAYLOAD_MAX (length pl)) # sub # take PAYLOAD_MAX pl"
  by (simp add: encode_def Let_def min.commute numeral_3_eq_3)

lemma encode_checksum:
  "encode op sub pl ! (min PAYLOAD_MAX (length pl) + 3) =
     checksum (take (min PAYLOAD_MAX (length pl) + 3) (encode op sub pl))"
  unfolding encode_body
  by (simp add: encode_def Let_def nth_append min.commute numeral_3_eq_3)

lemma decode_encode_lemma:
  "decode (encode op sub pl) =
     Some \<lparr>opcode = op, subcmd = sub, payload = take PAYLOAD_MAX pl, checksum_ok = True\<rparr>"
proof -
  let ?n = "min PAYLOAD_MAX (length pl)"
  have "drop 3 (take (?n + 3) (encode op sub pl)) = take PAYLOAD_MAX pl"
    unfolding encode_body by simp
  then show ?thesis
    by (simp add: decode_def Let_def encode_nth encode_checksum
        encode_checksum [simplified add.commute] add.commute)
qed

lemma length_line_bytes [simp]: "length (line_bytes text) = LINE_WIDTH"
  by (simp add: line_bytes_def)

lemma unat_line_char: "32 \<le> unat (line_char c) \<and> unat (line_char c) \<le> 126"
proof (cases "is_ascii c \<and> \<not> is_ascii_control c")
  case True
  then have "(of_char c :: nat) < 127" "32 \<le> (of_char c :: nat)"
    by (auto simp: is_ascii_def is_ascii_control_def)
  moreover have "unat (of_char c :: u8) = of_char c"
    by (subst of_nat_of_char [symmetric]) (simp add: unat_of_nat of_char_less_256)
  ultimately show ?thesis using True by (simp add: line_char_def)
next
  case False
  then show ?thesis by (auto simp: line_char_def)
qed

lemma line_bytes_printable: "b \<in> set (line_bytes text) \<Longrightarrow> 32 \<le> unat b \<and> unat b \<le> 126"
  using unat_line_char by (auto simp: line_bytes_def dest!: in_set_takeD)

lemma set_text_payload_fits: "length (line # flag # line_bytes text) = PAYLOAD_MAX"
  by (simp add: LINE_WIDTH_def frame_size_defs)

lemma decode_corrupt_lemma:
  assumes "i < length (encode op sub pl)" and "i \<noteq> 1" and "b \<noteq> encode op sub pl ! i"
  shows "\<exists>f. decode ((encode op sub pl)[i := b]) = Some f \<and> \<not> checksum_ok f"
proof -
  let ?e = "encode op sub pl" and ?n = "min PAYLOAD_MAX (length pl)"
  let ?k = "?n + 3"
  have n: "unat (?e[i := b] ! 1) = ?n"
    using assms(2) by (simp add: encode_nth nth_list_update)
  have sum: "checksum (take ?k ?e) = ?e ! ?k" by (simp add: encode_checksum)
  have "checksum (take ?k (?e[i := b])) \<noteq> ?e[i := b] ! ?k"
  proof (cases "i < ?k")
    case True
    then have "checksum (take ?k (?e[i := b])) = checksum (take ?k ?e) - ?e ! i + b"
      by (simp add: take_update_swap checksum_update)
    moreover have "?e[i := b] ! ?k = ?e ! ?k" using True by simp
    moreover have "?e ! ?k - ?e ! i + b \<noteq> ?e ! ?k"
    proof
      assume "?e ! ?k - ?e ! i + b = ?e ! ?k"
      then have "b = ?e ! i" by (simp add: diff_add_eq diff_eq_eq)
      with assms(3) show False by simp
    qed
    ultimately show ?thesis by (simp add: sum)
  next
    case False
    with assms(1) have i: "i = ?k" by simp
    then have "take ?k (?e[i := b]) = take ?k ?e" by simp
    with i assms(3) sum show ?thesis by simp
  qed
  then show ?thesis using n by (simp add: decode_def Let_def)
qed

section \<open>The reader\<close>

text \<open>The script delivers exactly these bytes, one per iteration, all before the time \<open>t\<close>.\<close>

definition delivers :: "rx_event list \<Rightarrow> u8 list \<Rightarrow> instant \<Rightarrow> bool" where
  "delivers es bs t \<longleftrightarrow>
     list_all2 (\<lambda>e b. rx_ready e \<and> rx_read e = ReadByte b \<and> rx_done e < t) es bs"

lemma delivers_Nil [simp]: "delivers es [] t \<longleftrightarrow> es = []" "delivers [] bs t \<longleftrightarrow> bs = []"
  by (auto simp: delivers_def)

lemma delivers_Cons:
  "delivers es (b # bs) t \<longleftrightarrow>
     (\<exists>e es'. es = e # es' \<and> rx_ready e \<and> rx_read e = ReadByte b \<and> rx_done e < t \<and>
        delivers es' bs t)"
  by (auto simp: delivers_def list_all2_Cons2)

lemma delivers_append:
  "delivers es (bs @ cs) t \<longleftrightarrow> (\<exists>es1 es2. es = es1 @ es2 \<and> delivers es1 bs t \<and> delivers es2 cs t)"
  by (auto simp: delivers_def list_all2_append2 dest: list_all2_lengthD)

text \<open>Noise in front of a frame is skipped without a trace in the buffer.\<close>

lemma read_loop_noise:
  assumes "delivers es noise (start + timeout)" and "start \<le> now" and "now < start + timeout"
    and "\<forall>b\<in>set noise. b \<noteq> OP_COMMAND \<and> b \<noteq> OP_ACK"
  shows "\<exists>now' seen'. now \<le> now' \<and> now' < start + timeout \<and>
    read_loop timeout start (es @ rest) [] now seen = read_loop timeout start rest [] now' seen'"
  using assms
proof (induction noise arbitrary: es now seen)
  case Nil
  then show ?case by auto
next
  case (Cons b noise)
  then obtain e es' where e: "es = e # es'" "rx_ready e" "rx_read e = ReadByte b"
    "rx_done e < start + timeout" and es': "delivers es' noise (start + timeout)"
    by (auto simp: delivers_Cons)
  let ?now = "max now (rx_done e)"
  from Cons.prems e have now: "start \<le> ?now" "?now < start + timeout" by auto
  from Cons.IH [OF es' now, of "Some ?now"] Cons.prems
  obtain n s where "?now \<le> n" "n < start + timeout"
    "read_loop timeout start (es' @ rest) [] ?now (Some ?now) = read_loop timeout start rest [] n s"
    by auto
  moreover have "since now start < timeout" using Cons.prems by (simp add: since_def)
  ultimately show ?case using e Cons.prems
    by (auto simp: Let_def FRAME_MAX_def)
qed

text \<open>Bytes of a frame are collected until the announced length is there.\<close>

lemma read_loop_collect:
  assumes "delivers es bs (start + timeout)" and "start \<le> now" and "now < start + timeout"
    and "bs \<noteq> []" and "buf = [] \<longrightarrow> hd bs = OP_COMMAND \<or> hd bs = OP_ACK"
    and "length (buf @ bs) \<le> FRAME_MAX" and "frame_complete (buf @ bs)"
    and "\<forall>n<length bs. 0 < n \<longrightarrow> \<not> frame_complete (buf @ take n bs)"
  shows "\<exists>now'. read_loop timeout start (es @ rest) buf now seen = (buf @ bs, rest, now', Some now')"
  using assms
proof (induction bs arbitrary: es buf now seen)
  case Nil
  then show ?case by simp
next
  case (Cons b bs)
  then obtain e es' where e: "es = e # es'" "rx_ready e" "rx_read e = ReadByte b"
    "rx_done e < start + timeout" and es': "delivers es' bs (start + timeout)"
    by (auto simp: delivers_Cons)
  let ?now = "max now (rx_done e)"
  from Cons.prems e have now: "start \<le> ?now" "?now < start + timeout" by auto
  have go: "length buf < FRAME_MAX" "since now start < timeout"
    using Cons.prems by (simp_all add: since_def)
  show ?case
  proof (cases "bs = []")
    case True
    with Cons.prems e go es' show ?thesis by (auto simp: Let_def)
  next
    case False
    then have one: "1 < length (b # bs)" by (simp add: Suc_lessI)
    with Cons.prems(8) have nc: "\<not> frame_complete (buf @ [b])"
      by (metis One_nat_def take0 take_Suc_Cons zero_less_one)
    have later: "\<forall>n<length bs. 0 < n \<longrightarrow> \<not> frame_complete ((buf @ [b]) @ take n bs)"
    proof (intro allI impI)
      fix n assume "n < length bs" "0 < n"
      with Cons.prems(8) [rule_format, of "Suc n"]
      show "\<not> frame_complete ((buf @ [b]) @ take n bs)" by simp
    qed
    have "\<exists>now'. read_loop timeout start (es' @ rest) (buf @ [b]) ?now (Some ?now) =
        ((buf @ [b]) @ bs, rest, now', Some now')"
      by (rule Cons.IH [OF es' now False]) (use Cons.prems later in auto)
    then show ?thesis using e go nc Cons.prems by (auto simp: Let_def)
  qed
qed

lemma frame_complete_prefix:
  assumes "n < length (encode op sub pl)"
  shows "\<not> frame_complete (take n (encode op sub pl))"
proof (cases "n < 2")
  case True
  then show ?thesis using assms by (auto simp: frame_complete_def)
next
  case False
  with assms show ?thesis by (auto simp: frame_complete_def encode_nth)
qed

lemma frame_complete_encode: "frame_complete (encode op sub pl)"
  by (simp add: frame_complete_def encode_nth frame_size_defs)

lemma read_frame_resync_lemma:
  assumes "lcm_rx l = es @ rest"
    and "delivers es (noise @ encode op sub pl) (lcm_clock l + timeout)" and "0 < timeout"
    and "\<forall>b\<in>set noise. b \<noteq> OP_COMMAND \<and> b \<noteq> OP_ACK"
    and "op = OP_COMMAND \<or> op = OP_ACK"
  shows "\<exists>l'. read_frame timeout l =
      (Some \<lparr>opcode = op, subcmd = sub, payload = take PAYLOAD_MAX pl, checksum_ok = True\<rparr>, l')
    \<and> lcm_rx l' = rest"
proof -
  let ?e = "encode op sub pl" and ?t = "lcm_clock l"
  from assms(2) obtain es1 es2 where es: "es = es1 @ es2"
    "delivers es1 noise (?t + timeout)" "delivers es2 ?e (?t + timeout)"
    by (auto simp: delivers_append)
  from read_loop_noise [OF es(2) _ _ assms(4), of ?t "es2 @ rest" "last_rx l"] assms(3)
  obtain n s where n: "?t \<le> n" "n < ?t + timeout"
    "read_loop timeout ?t (es1 @ es2 @ rest) [] ?t (last_rx l) =
     read_loop timeout ?t (es2 @ rest) [] n s"
    by auto
  have nonempty: "?e \<noteq> []" and head: "hd ?e = op"
    by (simp_all add: encode_def Let_def)
  have "\<exists>n'. read_loop timeout ?t (es2 @ rest) [] n s = ([] @ ?e, rest, n', Some n')"
    by (rule read_loop_collect [OF es(3) n(1,2) nonempty])
      (use assms(5) head frame_complete_encode frame_complete_prefix in
        \<open>auto simp: frame_size_defs\<close>)
  then show ?thesis
    using n(3) nonempty assms(1) es(1)
    by (auto simp: read_frame_def decode_encode_lemma)
qed

section \<open>The exchange\<close>

text \<open>What the link leaves alone: the caches and the counters belong to its callers.\<close>

definition same_caches :: "lcm \<Rightarrow> lcm \<Rightarrow> bool" where
  "same_caches l l' \<longleftrightarrow>
     last_sent l' = last_sent l \<and> display_on l' = display_on l \<and> st_writes l' = st_writes l \<and>
     st_retries l' = st_retries l \<and> st_failures l' = st_failures l"

lemma same_caches_refl [simp]: "same_caches l l"
  by (simp add: same_caches_def)

lemma same_caches_trans: "same_caches l l' \<Longrightarrow> same_caches l' l'' \<Longrightarrow> same_caches l l''"
  by (simp add: same_caches_def)

lemma send_same_caches: "send op sub pl l = (r, l') \<Longrightarrow> same_caches l l'"
  by (auto simp: send_def Let_def same_caches_def split: prod.splits)

lemma ack_same_caches [simp]: "same_caches l (snd (ack sub l))"
  unfolding ack_def by (metis prod.collapse send_same_caches)

lemma read_frame_same_caches: "read_frame timeout l = (r, l') \<Longrightarrow> same_caches l l'"
  by (auto simp: read_frame_def Let_def same_caches_def split: prod.splits)

lemma read_frame_frame:
  "read_frame timeout l = (r, l') \<Longrightarrow>
     lcm_pending l' = lcm_pending l \<and> lcm_tx l' = lcm_tx l \<and> lcm_wire l' = lcm_wire l \<and>
     lcm_heard l' = lcm_heard l @
       (case r of None \<Rightarrow> [] | Some f \<Rightarrow> [(lcm_clock l, f, lcm_clock l')])"
  by (auto simp: read_frame_def Let_def split: prod.splits option.splits)

lemma send_pending: "send op sub pl l = (r, l') \<Longrightarrow> lcm_pending l' = lcm_pending l"
  by (auto simp: send_def Let_def split: prod.splits)

lemma ack_pending [simp]: "lcm_pending (snd (ack sub l)) = lcm_pending l"
  unfolding ack_def by (metis prod.collapse send_pending)

lemma same_caches_pending [simp]:
  "same_caches l (l'\<lparr>lcm_pending := fs\<rparr>) = same_caches l l'"
  by (simp add: same_caches_def)

lemma ack_step_same_caches:
  "ack_step sub dl e l = Inl (b, l') \<Longrightarrow> same_caches l l'"
  "ack_step sub dl e l = Inr l' \<Longrightarrow> same_caches l l'"
  by (auto simp: ack_step_def Let_def split: if_splits prod.splits option.splits
      dest!: read_frame_same_caches intro: same_caches_trans)

lemma ack_loop_same_caches: "same_caches l (snd (ack_loop sub dl e l))"
proof (rule wait_ack.loop_relation)
  show "same_caches l (snd r)" if "ack_step sub dl e l = Inl r" for l r
    using that by (cases r) (auto dest: ack_step_same_caches)
qed (blast intro: ack_step_same_caches same_caches_trans)+

text \<open>Frames heard: the unsolicited ones are queued behind those already there, in order, and
  on a silent port nothing is heard.\<close>

definition frames_of :: "(instant \<times> frame \<times> instant) list \<Rightarrow> frame list" where
  "frames_of hs = map (fst \<circ> snd) hs"

lemma frames_of_simps [simp]:
  "frames_of [] = []" "frames_of ((b, f, t) # hs) = f # frames_of hs"
  "frames_of (hs @ hs') = frames_of hs @ frames_of hs'"
  by (simp_all add: frames_of_def)

lemma send_heard: "send op sub pl l = (r, l') \<Longrightarrow> lcm_heard l' = lcm_heard l"
  by (auto simp: send_def Let_def split: prod.splits)

lemma ack_heard [simp]: "lcm_heard (snd (ack sub l)) = lcm_heard l"
  unfolding ack_def by (metis prod.collapse send_heard)

lemma read_frame_silent: "lcm_rx l = [] \<Longrightarrow> read_frame timeout l = (r, l') \<Longrightarrow> r = None \<and> lcm_rx l' = []"
  by (auto simp: read_frame_def Let_def split: prod.splits if_splits)

definition hears :: "lcm \<Rightarrow> lcm \<Rightarrow> bool" where
  "hears l l' \<longleftrightarrow>
     (\<exists>hs. lcm_heard l' = lcm_heard l @ hs \<and>
        lcm_pending l' = lcm_pending l @ filter is_unsolicited (frames_of hs)) \<and>
     (lcm_rx l = [] \<longrightarrow> lcm_rx l' = [] \<and> lcm_heard l' = lcm_heard l)"

lemma hears_same:
  "lcm_heard l' = lcm_heard l \<Longrightarrow> lcm_pending l' = lcm_pending l \<Longrightarrow> lcm_rx l' = lcm_rx l \<Longrightarrow> hears l l'"
  by (auto simp: hears_def)

lemma hears_refl [simp]: "hears l l"
  by (rule hears_same) simp_all

lemma hears_trans: "hears l l' \<Longrightarrow> hears l' l'' \<Longrightarrow> hears l l''"
  by (auto simp: hears_def)

lemma send_hears: "send op sub pl l = (r, l') \<Longrightarrow> hears l l'"
  by (rule hears_same) (auto simp: send_def Let_def split: prod.splits)

lemma read_frame_hears:
  assumes "read_frame timeout l = (r, l')"
  shows "r = None \<Longrightarrow> hears l l'" "r = Some f \<Longrightarrow> \<not> is_unsolicited f \<Longrightarrow> hears l l'"
    "r = Some f \<Longrightarrow> is_unsolicited f \<Longrightarrow> hears l (l'\<lparr>lcm_pending := lcm_pending l' @ [f]\<rparr>)"
  using read_frame_frame [OF assms] read_frame_silent [OF _ assms] by (auto simp: hears_def)

lemma ack_pending_hears:
  "hears l0 (snd (ack sub l)\<lparr>lcm_pending := fs\<rparr>) = hears l0 (l\<lparr>lcm_pending := fs\<rparr>)"
  by (simp add: hears_def)

lemma ack_step_hears:
  "ack_step sub dl e l = Inl (b, l') \<Longrightarrow> hears l l'"
  "ack_step sub dl e l = Inr l' \<Longrightarrow> hears l l'"
  by (auto simp: ack_step_def Let_def ack_pending_hears
      split: if_splits prod.splits option.splits dest: read_frame_hears)
    (auto simp: is_unsolicited_def opcode_defs dest: read_frame_hears(2))

lemma ack_loop_hears: "hears l (snd (ack_loop sub dl e l))"
proof (rule wait_ack.loop_relation)
  show "hears l (snd r)" if "ack_step sub dl e l = Inl r" for l r
    using that by (cases r) (auto dest: ack_step_hears)
qed (blast intro: ack_step_hears hears_trans)+

lemma send_and_ack_same_caches: "send_and_ack op sub pl tmo l = (r, l') \<Longrightarrow> same_caches l l'"
  by (auto simp: send_and_ack_def split: prod.splits sum.splits
      dest!: send_same_caches)
    (metis ack_loop_same_caches same_caches_trans snd_conv)

lemma send_and_ack_hears: "send_and_ack op sub pl tmo l = (r, l') \<Longrightarrow> hears l l'"
  by (auto simp: send_and_ack_def split: prod.splits sum.splits dest!: send_hears)
    (metis ack_loop_hears hears_trans snd_conv)

text \<open>With a port that accepts everything, each queued frame has been acknowledged, in order.\<close>

definition acks_of :: "frame list \<Rightarrow> u8 list" where
  "acks_of fs = concat (map (\<lambda>f. encode OP_ACK (subcmd f) [0]) fs)"

definition answered :: "lcm \<Rightarrow> lcm \<Rightarrow> bool" where
  "answered l l' \<longleftrightarrow>
     (lcm_tx l = [] \<longrightarrow> lcm_tx l' = [] \<and>
       (\<exists>hs. lcm_heard l' = lcm_heard l @ hs \<and>
         lcm_pending l' = lcm_pending l @ filter is_unsolicited (frames_of hs) \<and>
         lcm_wire l' = lcm_wire l @ acks_of (filter is_unsolicited (frames_of hs))))"

lemma answered_trans: "answered l l' \<Longrightarrow> answered l' l'' \<Longrightarrow> answered l l''"
  by (auto simp: answered_def acks_of_def)

lemma send_open_port:
  "lcm_tx l = [] \<Longrightarrow> send op sub pl l =
     (Inr (), l\<lparr>lcm_tx := [], lcm_clock := settle_wait l, lcm_wire := lcm_wire l @ encode op sub pl,
              tx_started := settle_wait l\<rparr>)"
  by (simp add: send_def Let_def)

lemma ack_loop_answered: "answered l (snd (ack_loop sub dl e l))"
proof (rule wait_ack.loop_relation)
  show "answered l (snd r)" if "ack_step sub dl e l = Inl r" for l r
    using that
    by (cases r) (auto simp: ack_step_def Let_def answered_def acks_of_def is_unsolicited_def
        opcode_defs split: if_splits prod.splits option.splits dest!: read_frame_frame)
  show "answered l l'" if "ack_step sub dl e l = Inr l'" for l l'
    using that
    by (auto simp: ack_step_def Let_def answered_def acks_of_def ack_def send_open_port
        opcode_defs is_unsolicited_def split: if_splits prod.splits option.splits
        dest!: read_frame_frame)
qed (rule answered_trans)

text \<open>What only ever grows: the bytes written and the frames heard.\<close>

definition grows :: "lcm \<Rightarrow> lcm \<Rightarrow> bool" where
  "grows l l' \<longleftrightarrow> (\<exists>v hs. lcm_wire l' = lcm_wire l @ v \<and> lcm_heard l' = lcm_heard l @ hs)"

lemma grows_refl [simp]: "grows l l"
  by (simp add: grows_def)

lemma grows_trans: "grows l l' \<Longrightarrow> grows l' l'' \<Longrightarrow> grows l l''"
  by (auto simp: grows_def)

lemma grows_pending [simp]: "grows l (l'\<lparr>lcm_pending := fs\<rparr>) = grows l l'"
  by (simp add: grows_def)

lemma read_frame_grows: "read_frame timeout l = (r, l') \<Longrightarrow> grows l l'"
  by (auto simp: read_frame_def Let_def grows_def split: prod.splits)

lemma send_grows: "send op sub pl l = (r, l') \<Longrightarrow> grows l l'"
  by (auto simp: send_def Let_def grows_def split: prod.splits)

lemma ack_grows [simp]: "grows l (snd (ack sub l))"
  unfolding ack_def by (metis prod.collapse send_grows)

lemma ack_step_grows:
  "ack_step sub dl e l = Inl (b, l') \<Longrightarrow> grows l l'"
  "ack_step sub dl e l = Inr l' \<Longrightarrow> grows l l'"
  by (auto simp: ack_step_def Let_def split: if_splits prod.splits option.splits
      dest!: read_frame_grows intro: grows_trans)

text \<open>A good acknowledgement, and how the loop can have returned true: the last frame heard is
  one, read in time and late enough.\<close>

definition good_ack :: "u8 \<Rightarrow> frame \<Rightarrow> bool" where
  "good_ack sub f \<longleftrightarrow>
     checksum_ok f \<and> opcode f = OP_ACK \<and> subcmd f = sub \<and> (\<exists>rest. payload f = 0 # rest)"

lemma ack_step_accepts:
  assumes "ack_step sub deadline earliest l = Inl (True, l')"
  shows "\<exists>f. lcm_heard l' = lcm_heard l @ [(lcm_clock l, f, lcm_clock l')] \<and> good_ack sub f \<and>
    lcm_clock l < deadline \<and> earliest \<le> since (lcm_clock l') (tx_started l') \<and>
    lcm_wire l' = lcm_wire l"
  using assms
  by (auto simp: ack_step_def Let_def since_def neq_Nil_conv good_ack_def
      split: if_splits prod.splits option.splits dest: read_frame_frame)

lemma ack_loop_grows: "grows l (snd (ack_loop sub dl e l))"
proof (rule wait_ack.loop_relation)
  show "grows l (snd r)" if "ack_step sub dl e l = Inl r" for l r
    using that by (cases r) (auto dest: ack_step_grows)
qed (blast intro: ack_step_grows grows_trans)+

lemma ack_loop_accepts:
  assumes "ack_loop sub deadline earliest l = (True, l')"
  shows "\<exists>v hs b f. lcm_wire l' = lcm_wire l @ v \<and>
    lcm_heard l' = lcm_heard l @ hs @ [(b, f, lcm_clock l')] \<and>
    good_ack sub f \<and> b < deadline \<and> earliest \<le> since (lcm_clock l') (tx_started l')"
  using assms
proof (induction sub deadline earliest l rule: ack_loop.induct)
  case (1 sub deadline earliest l)
  show ?case
  proof (cases "ack_step sub deadline earliest l")
    case (Inl r)
    with "1.prems" have "ack_step sub deadline earliest l = Inl (True, l')"
      by (simp add: ack_loop.simps)
    then show ?thesis by (auto dest!: ack_step_accepts intro: exI [of _ "[]"])
  next
    case (Inr l2)
    with "1.prems" have "ack_loop sub deadline earliest l2 = (True, l')"
      by (simp add: ack_loop.simps)
    from "1.IH" [OF Inr this] ack_step_grows(2) [OF Inr] show ?thesis
      by (fastforce simp: grows_def)
  qed
qed

text \<open>A frame that was sent without an error is on the wire in full.\<close>

lemma write_loop_all:
  "write_loop dl txs rest now sent = (Inr (), sent', txs', now') \<Longrightarrow> sent' = sent @ rest"
  by (induction dl txs rest now sent rule: write_loop.induct)
    (auto simp: Let_def split: if_splits tx_event.splits)

lemma send_wire: "send op sub pl l = (Inr (), l') \<Longrightarrow> lcm_wire l' = lcm_wire l @ encode op sub pl"
  by (auto simp: send_def Let_def split: prod.splits dest!: write_loop_all)

lemma send_and_ack_grows: "send_and_ack op sub pl tmo l = (r, l') \<Longrightarrow> grows l l'"
  by (auto simp: send_and_ack_def split: prod.splits sum.splits dest!: send_grows)
    (metis ack_loop_grows grows_trans snd_conv)

lemma send_and_ack_accepts:
  assumes "send_and_ack op sub pl timeout l = (Inr True, l')"
  shows "\<exists>l1 v hs b f. send op sub pl l = (Inr (), l1) \<and>
    lcm_wire l' = lcm_wire l @ encode op sub pl @ v \<and>
    lcm_heard l' = lcm_heard l @ hs @ [(b, f, lcm_clock l')] \<and> good_ack sub f \<and>
    b < lcm_clock l1 + timeout \<and>
    wire_time (length pl + 4) + wire_time 5 \<le> since (lcm_clock l') (tx_started l')"
  using assms
  by (auto simp: send_and_ack_def split: prod.splits sum.splits dest!: ack_loop_accepts
      dest: send_wire send_heard)

text \<open>The bytes went out, and the last frame heard acknowledges them.\<close>

definition acknowledged :: "u8 list \<Rightarrow> u8 \<Rightarrow> lcm \<Rightarrow> lcm \<Rightarrow> bool" where
  "acknowledged bytes sub l l' \<longleftrightarrow>
     (\<exists>u v. lcm_wire l' = lcm_wire l @ u @ bytes @ v) \<and>
     (\<exists>hs b f t. lcm_heard l' = lcm_heard l @ hs @ [(b, f, t)] \<and> good_ack sub f)"

lemma grows_acknowledged: "grows l l' \<Longrightarrow> acknowledged bytes sub l' l'' \<Longrightarrow> acknowledged bytes sub l l''"
  unfolding grows_def acknowledged_def by (metis append_assoc)

section \<open>Cached writes\<close>

lemma attempt_loop_SucE:
  assumes "attempt_loop xmit (Suc k) idx text l = (r, l')"
  obtains (error) e where "xmit (retry_prep (Suc k) idx l) = (Inl e, l')" "r = Inl e"
  | (acked) l2 where "xmit (retry_prep (Suc k) idx l) = (Inr True, l2)" "r = Inr True"
      "l' = l2\<lparr>last_sent := (last_sent l2)(idx := Some text)\<rparr>"
  | (again) l2 where "xmit (retry_prep (Suc k) idx l) = (Inr False, l2)"
      "attempt_loop xmit k idx text l2 = (r, l')"
  using assms by (auto split: prod.splits sum.splits if_splits)

text \<open>
  What the retry loop of \<open>set_text\<close> needs of the link below it: an exchange that keeps the
  caches and counters, loses no frame it reads on the way, and says true only after the bytes
  have gone out and a good acknowledgement has come back.
\<close>

locale cached_link =
  fixes xmit :: "lcm \<Rightarrow> (io_error + bool) \<times> lcm" and bytes :: "u8 list" and sub :: u8
  assumes xmit_caches: "xmit l = (r, l') \<Longrightarrow> same_caches l l'"
    and xmit_hears: "xmit l = (r, l') \<Longrightarrow> hears l l'"
    and xmit_grows: "xmit l = (r, l') \<Longrightarrow> grows l l'"
    and xmit_acked: "xmit l = (Inr True, l') \<Longrightarrow> acknowledged bytes sub l l'"
begin

lemma attempt_loop_cache:
  assumes "attempt_loop xmit k idx text l = (r, l')" and "idx < 2" and "k \<le> 3"
  shows "(r = Inr True \<longrightarrow> last_sent l' idx = Some text \<and> acknowledged bytes sub l l') \<and>
    (r \<noteq> Inr True \<longrightarrow> last_sent l' idx = last_sent l idx) \<and>
    (last_sent l' (1 - idx) =
      (if st_retries l' = st_retries l then last_sent l (1 - idx) else None)) \<and>
    st_retries l \<le> st_retries l'"
  using assms(1,3)
proof (induction k arbitrary: l)
  case 0
  then show ?case by auto
next
  case (Suc k)
  from assms(2) have idx: "idx \<noteq> 1 - idx" by arith
  have grown: "grows l (retry_prep (Suc k) idx l)" by (simp add: retry_prep_def grows_def)
  have prep: "last_sent l2 idx = last_sent l idx \<and> last_sent l2 (1 - idx) =
        (if st_retries l2 = st_retries l then last_sent l (1 - idx) else None) \<and>
      st_retries l \<le> st_retries l2" and more: "grows l l2"
    if "xmit (retry_prep (Suc k) idx l) = (r2, l2)" for r2 l2
    using xmit_caches [OF that] idx grows_trans [OF grown xmit_grows [OF that]]
    by (auto simp: same_caches_def retry_prep_def)
  from Suc.prems(1) show ?case
  proof (cases rule: attempt_loop_SucE)
    case (acked l2)
    then have "acknowledged bytes sub l l'"
      using grows_acknowledged [OF grown xmit_acked [OF acked(1)]] by (simp add: acknowledged_def)
    with acked prep [OF acked(1)] idx show ?thesis by auto
  next
    case (again l2)
    with Suc.IH [of l2] Suc.prems(2) prep [OF again(1)] grows_acknowledged [OF more [OF again(1)]]
    show ?thesis by auto
  qed (use prep idx in auto)
qed

lemma attempt_loop_counts:
  assumes "attempt_loop xmit k idx text l = (r, l')"
  shows "st_writes l' = st_writes l \<and> st_retries l' \<le> st_retries l + min k 2 \<and>
    st_failures l' = st_failures l + (if r = Inr False then 1 else 0)"
  using assms
proof (induction k arbitrary: l)
  case 0
  then show ?case by auto
next
  case (Suc k)
  have prep: "st_writes l2 = st_writes l \<and> st_failures l2 = st_failures l \<and>
      st_retries l2 = st_retries l + (if Suc k < 3 then 1 else 0)"
    if "xmit (retry_prep (Suc k) idx l) = (r2, l2)" for r2 l2
    using xmit_caches [OF that] by (auto simp: same_caches_def retry_prep_def)
  from Suc.prems show ?case
  proof (cases rule: attempt_loop_SucE)
    case (again l2)
    with Suc.IH [of l2] prep [of "Inr False" l2] show ?thesis by (auto split: if_splits)
  qed (use prep in auto)
qed

lemma attempt_loop_hears: "attempt_loop xmit k idx text l = (r, l') \<Longrightarrow> hears l l'"
proof (induction k arbitrary: l)
  case 0
  then show ?case by (auto intro: hears_same)
next
  case (Suc k)
  have prep: "hears l (retry_prep (Suc k) idx l)" by (rule hears_same) (simp_all add: retry_prep_def)
  have h: "hears l l2" if "xmit (retry_prep (Suc k) idx l) = (r2, l2)" for r2 l2
    using hears_trans [OF prep xmit_hears [OF that]] .
  from Suc.prems show ?case
  proof (cases rule: attempt_loop_SucE)
    case (again l2)
    with Suc.IH [of l2] h [of "Inr False" l2] show ?thesis by (blast intro: hears_trans)
  next
    case (acked l2)
    with h [of "Inr True" l2] show ?thesis by (simp add: hears_def)
  qed (auto dest: h)
qed

end

lemma send_and_ack_acknowledged:
  "send_and_ack op sub pl tmo l = (Inr True, l') \<Longrightarrow> acknowledged (encode op sub pl) sub l l'"
  unfolding acknowledged_def by (drule send_and_ack_accepts) (metis append_Nil)

interpretation panel_link: cached_link "send_and_ack op sub pl tmo" "encode op sub pl" sub
  for op sub pl tmo
  by unfold_locales
    (rule send_and_ack_same_caches send_and_ack_hears send_and_ack_grows
      send_and_ack_acknowledged, assumption)+

text \<open>No operation of the link loses a frame.\<close>

lemma set_text_hears: "hears l (snd (set_text line text flag l))"
proof -
  obtain r l' where loop: "attempt_loop
      (send_and_ack OP_COMMAND SUB_SET_TEXT (line # flag # line_bytes text) ACK_TIMEOUT)
      3 (unat (line AND 1)) text (l\<lparr>st_writes := st_writes l + 1\<rparr>) = (r, l')" by fastforce
  then have "hears l l'"
    using panel_link.attempt_loop_hears [OF loop] by (simp add: hears_def)
  with loop show ?thesis by (simp add: set_text_def Let_def)
qed

lemma set_display_hears: "hears l (snd (set_display on l))"
  by (auto simp: set_display_def split: prod.split sum.split dest!: send_and_ack_hears)
    (simp_all add: hears_def)

lemma forget_text_hears: "hears l (forget_text l)"
  by (rule hears_same) (simp_all add: forget_text_def)

lemma lcm_init_hears: "hears l (snd (lcm_init l))"
proof -
  have on: "hears l (l1\<lparr>display_on := x\<rparr>)"
    if "send_and_ack op sub pl tmo l = (r, l1)" for op sub pl tmo r l1 x
    using send_and_ack_hears [OF that] by (simp add: hears_def)
  show ?thesis
    by (auto simp: lcm_init_def Let_def split: prod.split sum.split
        intro: send_and_ack_hears on hears_trans)
qed

section \<open>Properties\<close>

text \<open>Evaluation of the link on a concrete script.\<close>

lemmas link_eval = set_display_def set_text_def retry_prep_def send_and_ack_def send_def
  settle_wait_def ack_loop.simps ack_step_def ack_def read_frame_def decode_def encode_def
  checksum_def with_port_def Let_def since_def frame_complete_def checked_add_def
  INSTANT_END_def opcode_defs frame_size_defs time_simps ACK_TIMEOUT_def SETTLE_def
  WRITE_TIMEOUT_def RETRY_BACKOFF_def wire_time_def is_unsolicited_def

definition got :: "instant \<Rightarrow> u8 \<Rightarrow> rx_event" where
  "got t b = \<lparr>rx_ready = True, rx_read = ReadByte b, rx_done = t\<rparr>"

definition acked_port :: lcm where
  "acked_port = with_port (map (got (millis 3)) (encode OP_ACK SUB_DISPLAY [0])) [] 0"

definition acked_end :: lcm where
  "acked_end = snd (send_and_ack OP_COMMAND SUB_DISPLAY [1] ACK_TIMEOUT acked_port)"

lemma acked_port_ok:
  "send_and_ack OP_COMMAND SUB_DISPLAY [1] ACK_TIMEOUT acked_port = (Inr True, acked_end)"
  by (simp add: acked_end_def acked_port_def link_eval got_def)

text \<open>A key pressed at 1 ms, and the acknowledgement of the command at 30 ms.\<close>

definition key_frame :: "u8 \<Rightarrow> frame" where
  "key_frame k = \<lparr>opcode = OP_COMMAND, subcmd = SUB_KEY, payload = [k], checksum_ok = True\<rparr>"

definition keyed_port :: lcm where
  "keyed_port = with_port
     (map (got (millis 1)) (encode OP_COMMAND SUB_KEY [4]) @
      map (got (millis 30)) (encode OP_ACK SUB_DISPLAY [0])) [] 0"

definition keyed_end :: lcm where
  "keyed_end = snd (send_and_ack OP_COMMAND SUB_DISPLAY [1] ACK_TIMEOUT keyed_port)"

lemma keyed_port_run:
  "send_and_ack OP_COMMAND SUB_DISPLAY [1] ACK_TIMEOUT keyed_port = (Inr True, keyed_end)"
  by (simp add: keyed_end_def keyed_port_def link_eval got_def)

lemma keyed_heard:
  "frames_of (lcm_heard keyed_end) = [key_frame 4,
     \<lparr>opcode = OP_ACK, subcmd = SUB_DISPLAY, payload = [0], checksum_ok = True\<rparr>]"
  by (simp add: keyed_end_def keyed_port_def link_eval got_def key_frame_def)

text \<open>C26. Every frame the host builds decodes to itself: opcode and sub-command unchanged, the
  payload cut at the protocol's maximum, and the checksum accepted.\<close>

theorem decode_encode:
  "decode (encode op sub pl) =
     Some \<lparr>opcode = op, subcmd = sub, payload = take PAYLOAD_MAX pl, checksum_ok = True\<rparr>"
  by (rule decode_encode_lemma)

text \<open>One corrupted byte anywhere in a frame but its length byte is always caught: the frame
  still decodes, with \<open>checksum_ok\<close> false.\<close>

theorem decode_detects_corruption:
  "i < length (encode op sub pl) \<Longrightarrow> i \<noteq> 1 \<Longrightarrow> b \<noteq> encode op sub pl ! i \<Longrightarrow>
     \<exists>f. decode ((encode op sub pl)[i := b]) = Some f \<and> \<not> checksum_ok f"
  by (rule decode_corrupt_lemma)

theorem decode_detects_corruption_witness:
  "\<exists>f. decode ((encode OP_ACK SUB_DISPLAY [0])[3 := 1]) = Some f \<and> \<not> checksum_ok f"
  by (rule decode_detects_corruption) (simp_all add: encode_def Let_def frame_size_defs)

text \<open>C25. The reader resynchronises: whatever bytes that are no opcode precede a frame that
  arrives in time, \<open>read_frame\<close> returns exactly that frame and leaves the bytes behind it
  unread.\<close>

theorem read_frame_resync:
  assumes "lcm_rx l = es @ rest"
    and "delivers es (noise @ encode op sub pl) (lcm_clock l + timeout)" and "0 < timeout"
    and "\<forall>b\<in>set noise. b \<noteq> OP_COMMAND \<and> b \<noteq> OP_ACK"
    and "op = OP_COMMAND \<or> op = OP_ACK"
  shows "\<exists>l'. read_frame timeout l =
      (Some \<lparr>opcode = op, subcmd = sub, payload = take PAYLOAD_MAX pl, checksum_ok = True\<rparr>, l')
    \<and> lcm_rx l' = rest"
  using assms by (rule read_frame_resync_lemma)

lemma delivers_got: "t < u \<Longrightarrow> delivers (map (got t) bs) bs u"
  by (simp add: delivers_def list_all2_conv_all_nth got_def)

theorem read_frame_resync_witness:
  "\<exists>l'. read_frame (millis 5)
      (with_port (map (got 7) ([0, 0x41] @ encode OP_COMMAND SUB_KEY [4])) [] 0) =
      (Some \<lparr>opcode = OP_COMMAND, subcmd = SUB_KEY, payload = take PAYLOAD_MAX [4],
             checksum_ok = True\<rparr>, l')
    \<and> lcm_rx l' = []"
proof (rule read_frame_resync)
  show "delivers (map (got 7) ([0, 0x41] @ encode OP_COMMAND SUB_KEY [4]))
      ([0, 0x41] @ encode OP_COMMAND SUB_KEY [4])
      (lcm_clock (with_port (map (got 7) ([0, 0x41] @ encode OP_COMMAND SUB_KEY [4])) [] 0) +
        millis 5)"
    by (rule delivers_got) (simp add: millis_def with_port_def)
qed (simp_all add: with_port_def millis_def opcode_defs)

text \<open>C23. A command counts as acknowledged only when its frame has gone out in full and, of the
  frames then heard on the line, the last one, whose read began before the deadline, has a good
  checksum, the ACK opcode, the same sub-command and status 0, and came no sooner after the last
  transmission began than the command and its answer take on the wire.\<close>

theorem send_and_ack_sound:
  assumes "send_and_ack op sub pl timeout l = (Inr True, l')"
  shows "\<exists>l1 v hs b f. send op sub pl l = (Inr (), l1) \<and>
    lcm_wire l' = lcm_wire l @ encode op sub pl @ v \<and>
    lcm_heard l' = lcm_heard l @ hs @ [(b, f, lcm_clock l')] \<and>
    b < lcm_clock l1 + timeout \<and>
    checksum_ok f \<and> opcode f = OP_ACK \<and> subcmd f = sub \<and> (\<exists>rest. payload f = 0 # rest) \<and>
    wire_time (length pl + 4) + wire_time 5 \<le> since (lcm_clock l') (tx_started l')"
  using send_and_ack_accepts [OF assms] unfolding good_ack_def by blast

theorem send_and_ack_sound_witness:
  "\<exists>l1 v hs b f. send OP_COMMAND SUB_DISPLAY [1] acked_port = (Inr (), l1) \<and>
    lcm_wire acked_end = lcm_wire acked_port @ encode OP_COMMAND SUB_DISPLAY [1] @ v \<and>
    lcm_heard acked_end = lcm_heard acked_port @ hs @ [(b, f, lcm_clock acked_end)] \<and>
    b < lcm_clock l1 + ACK_TIMEOUT \<and>
    checksum_ok f \<and> opcode f = OP_ACK \<and> subcmd f = SUB_DISPLAY \<and>
    (\<exists>rest. payload f = 0 # rest) \<and>
    wire_time (length [1 :: u8] + 4) + wire_time 5 \<le>
      since (lcm_clock acked_end) (tx_started acked_end)"
  by (rule send_and_ack_sound) (rule acked_port_ok)

text \<open>C24. No unsolicited frame met while waiting for an acknowledgement is lost: on a port that
  accepts writes, of the frames heard during the exchange exactly the unsolicited ones (good
  checksum, command opcode), in the order heard, are queued for the caller behind those already
  there, and each has been answered on the wire with an acknowledgement of its sub-command, right
  behind the command itself.\<close>

theorem send_and_ack_answers:
  assumes "lcm_tx l = []" and "send_and_ack op sub pl timeout l = (r, l')"
  shows "\<exists>hs. lcm_heard l' = lcm_heard l @ hs \<and>
    lcm_pending l' = lcm_pending l @ filter is_unsolicited (frames_of hs) \<and>
    lcm_wire l' =
      lcm_wire l @ encode op sub pl @ acks_of (filter is_unsolicited (frames_of hs))"
proof -
  obtain l1 where l1: "send op sub pl l = (Inr (), l1)" "lcm_tx l1 = []"
    "lcm_pending l1 = lcm_pending l" "lcm_wire l1 = lcm_wire l @ encode op sub pl"
    "lcm_heard l1 = lcm_heard l"
    using assms(1) by (simp add: send_open_port)
  with assms(2) have "l' = snd (ack_loop sub (lcm_clock l1 + timeout)
      (wire_time (length pl + 4) + wire_time 5) l1)"
    by (auto simp: send_and_ack_def split: prod.splits)
  with ack_loop_answered [of l1] l1 show ?thesis by (auto simp: answered_def)
qed

theorem send_and_ack_answers_witness:
  "\<exists>hs. lcm_heard keyed_end = [] @ hs \<and>
    lcm_pending keyed_end = [] @ filter is_unsolicited (frames_of hs) \<and>
    lcm_wire keyed_end = [] @ encode OP_COMMAND SUB_DISPLAY [1] @
      acks_of (filter is_unsolicited (frames_of hs)) \<and>
    frames_of hs = [key_frame 4, \<lparr>opcode = OP_ACK, subcmd = SUB_DISPLAY, payload = [0],
      checksum_ok = True\<rparr>]"
proof -
  have start: "lcm_heard keyed_port = []" "lcm_pending keyed_port = []" "lcm_wire keyed_port = []"
    by (simp_all add: keyed_port_def with_port_def)
  have "lcm_tx keyed_port = []" by (simp add: keyed_port_def with_port_def)
  from send_and_ack_answers [OF this keyed_port_run] keyed_heard show ?thesis
    unfolding start by auto
qed

text \<open>C27. The text cache is written by an acknowledged write only. A text the line is known to
  show costs nothing. Otherwise \<open>set_text\<close> returns true only when the frame of the text has
  gone out in full and the last frame heard is its acknowledgement with a good checksum and status
  0, and then the cache holds the text; after any other result the cache entry of the line is
  exactly what it was. The other line's entry is kept when no attempt was retried, and forgotten
  otherwise.\<close>

theorem set_text_cache:
  assumes "set_text line text flag l = (r, l')"
  defines "idx \<equiv> unat (line AND 1)"
  shows "(last_sent l idx = Some text \<longrightarrow> r = Inr True \<and> l' = l) \<and>
    (last_sent l idx \<noteq> Some text \<and> r = Inr True \<longrightarrow> last_sent l' idx = Some text \<and>
      (\<exists>u v. lcm_wire l' =
        lcm_wire l @ u @ encode OP_COMMAND SUB_SET_TEXT (line # flag # line_bytes text) @ v) \<and>
      (\<exists>hs b f t rest. lcm_heard l' = lcm_heard l @ hs @ [(b, f, t)] \<and> checksum_ok f \<and>
        opcode f = OP_ACK \<and> subcmd f = SUB_SET_TEXT \<and> payload f = 0 # rest)) \<and>
    (r \<noteq> Inr True \<longrightarrow> last_sent l' idx = last_sent l idx) \<and>
    last_sent l' (1 - idx) =
      (if st_retries l' = st_retries l then last_sent l (1 - idx) else None)"
proof (cases "last_sent l idx = Some text")
  case True
  with assms show ?thesis by (auto simp: set_text_def)
next
  case False
  have "idx < 2" unfolding idx_def by (simp add: and_one_eq unat_mod_distrib)
  with assms(1) False show ?thesis
    unfolding set_text_def idx_def [symmetric] Let_def
    by (auto simp: acknowledged_def good_ack_def dest!: panel_link.attempt_loop_cache)
qed

text \<open>A first attempt answered with a NAK, the second acknowledged.\<close>

definition text_port :: lcm where
  "text_port = (with_port
     (map (got (millis 40)) (encode OP_ACK SUB_SET_TEXT [1]) @
      map (got (millis 160)) (encode OP_ACK SUB_SET_TEXT [0])) [] 0)
     \<lparr>last_sent := [0 \<mapsto> ''OLD'', 1 \<mapsto> ''OTHER'']\<rparr>"

definition hello_frame :: "lcm \<Rightarrow> (io_error + bool) \<times> lcm" where
  "hello_frame =
     send_and_ack OP_COMMAND SUB_SET_TEXT (0 # 0 # line_bytes ''HELLO'') ACK_TIMEOUT"

definition text_mid :: lcm where
  "text_mid = snd (hello_frame (text_port\<lparr>st_writes := 1\<rparr>))"

definition text_late :: lcm where
  "text_late = snd (hello_frame (retry_prep 2 0 text_mid))"

lemma text_acks:
  "encode OP_ACK SUB_SET_TEXT [k] = [0xF1, 1, 0x27, k, 0xF1 + 1 + 0x27 + k]"
  by (simp add: encode_def Let_def checksum_def frame_size_defs opcode_defs)

lemmas text_eval = send_and_ack_def send_def settle_wait_def ack_loop.simps ack_step_def
  read_frame_def decode_def checksum_def with_port_def Let_def since_def frame_complete_def
  checked_add_def INSTANT_END_def opcode_defs time_simps ACK_TIMEOUT_def SETTLE_def
  WRITE_TIMEOUT_def RETRY_BACKOFF_def wire_time_def frame_size_defs LINE_WIDTH_def

lemma text_mid_run: "hello_frame (text_port\<lparr>st_writes := 1\<rparr>) = (Inr False, text_mid)"
  unfolding text_mid_def hello_frame_def text_port_def text_acks
  by (simp add: text_eval got_def)

lemma text_mid_state:
  "lcm_rx text_mid = map (got (millis 160)) [0xF1, 1, 0x27, 0, 0x19]" "lcm_tx text_mid = []"
  "lcm_clock text_mid = millis 40" "last_rx text_mid = Some (millis 40)"
  "last_sent text_mid = [0 \<mapsto> ''OLD'', 1 \<mapsto> ''OTHER'']" "st_retries text_mid = 0"
  unfolding text_mid_def hello_frame_def text_port_def text_acks
  by (simp_all add: text_eval got_def)

lemma text_late_run: "hello_frame (retry_prep 2 0 text_mid) = (Inr True, text_late)"
  unfolding text_late_def hello_frame_def retry_prep_def
  by (simp add: text_eval got_def text_mid_state)

lemma text_port_run:
  "set_text 0 ''HELLO'' 0 text_port =
     (Inr True, text_late\<lparr>last_sent := (last_sent text_late)(0 := Some ''HELLO'')\<rparr>)"
proof -
  have "last_sent text_port 0 \<noteq> Some ''HELLO''" and "st_writes text_port = 0"
    by (simp_all add: text_port_def with_port_def)
  moreover have "retry_prep (Suc (Suc (Suc 0))) 0 l = l" for l by (simp add: retry_prep_def)
  ultimately show ?thesis
    using text_mid_run text_late_run
    by (simp add: set_text_def hello_frame_def [symmetric] numeral_3_eq_3 numeral_2_eq_2)
qed

theorem set_text_cache_witness:
  "last_sent text_port 0 = Some ''OLD'' \<and>
   (\<exists>l'. set_text 0 ''HELLO'' 0 text_port = (Inr True, l') \<and> last_sent l' 0 = Some ''HELLO'' \<and>
     last_sent l' 1 = None \<and>
     (\<exists>hs b f t rest. lcm_heard l' = lcm_heard text_port @ hs @ [(b, f, t)] \<and>
       checksum_ok f \<and> opcode f = OP_ACK \<and> subcmd f = SUB_SET_TEXT \<and> payload f = 0 # rest))"
proof -
  have old: "last_sent text_port 0 = Some ''OLD''" "st_retries text_port = 0"
    by (simp_all add: text_port_def with_port_def)
  have "same_caches (retry_prep 2 0 text_mid) text_late"
    using text_late_run unfolding hello_frame_def by (rule send_and_ack_same_caches)
  then have "st_retries text_late = 1"
    by (simp add: same_caches_def retry_prep_def text_mid_state)
  with set_text_cache [OF text_port_run] text_port_run old show ?thesis by auto
qed

text \<open>One \<open>set_text\<close> costs at most one write, two retries and one failure; it counts a
  failure exactly when it gives up, costs nothing when the text is cached, and never loses a key
  press that arrives meanwhile.\<close>

theorem set_text_budget:
  assumes "set_text line text flag l = (r, l')"
  shows "st_writes l' \<le> st_writes l + 1 \<and> st_retries l' \<le> st_retries l + 2 \<and>
    st_failures l' = st_failures l + (if r = Inr False then 1 else 0) \<and>
    (last_sent l (unat (line AND 1)) = Some text \<longrightarrow> r = Inr True \<and> l' = l) \<and>
    (\<exists>fs. lcm_pending l' = lcm_pending l @ fs \<and> (\<forall>f\<in>set fs. is_unsolicited f))"
proof (cases "last_sent l (unat (line AND 1)) = Some text")
  case True
  with assms show ?thesis by (auto simp: set_text_def)
next
  case False
  with assms have loop: "attempt_loop
      (send_and_ack OP_COMMAND SUB_SET_TEXT (line # flag # line_bytes text) ACK_TIMEOUT)
      3 (unat (line AND 1)) text (l\<lparr>st_writes := st_writes l + 1\<rparr>) = (r, l')"
    by (simp add: set_text_def)
  show ?thesis
    using False panel_link.attempt_loop_counts [OF loop] panel_link.attempt_loop_hears [OF loop]
    by (auto simp: hears_def)
qed

theorem set_text_budget_witness:
  "st_writes (snd (set_text 0 ''HELLO'' 0 (with_port [] [WrErr 5] 0))) \<le> 1 \<and>
   st_failures (snd (set_text 0 ''HELLO'' 0 (with_port [] [WrErr 5] 0))) = 0"
proof -
  have "set_text 0 ''HELLO'' 0 (with_port [] [WrErr 5] 0) =
      (Inl (OtherIo 5), snd (set_text 0 ''HELLO'' 0 (with_port [] [WrErr 5] 0)))"
    by (simp add: link_eval numeral_3_eq_3)
  from set_text_budget [OF this] show ?thesis by (simp add: with_port_def)
qed

text \<open>A line of text is always sent as sixteen printable ASCII bytes, so its frame uses
  exactly the largest payload the panel accepts and is never truncated.\<close>

theorem line_frame_exact:
  "list_all (\<lambda>b. 32 \<le> unat b \<and> unat b \<le> 126) (line_bytes text) \<and>
   decode (encode OP_COMMAND SUB_SET_TEXT (line # flag # line_bytes text)) =
     Some \<lparr>opcode = OP_COMMAND, subcmd = SUB_SET_TEXT, payload = line # flag # line_bytes text,
           checksum_ok = True\<rparr>"
  using set_text_payload_fits [of line flag "text"]
  by (simp add: line_bytes_printable decode_encode_lemma list_all_iff)

text \<open>The early-answer check measures from the last transmission of any kind, the
  acknowledgement of an interleaved key press included: a genuine ACK that arrived 3 ms after a
  display command is accepted on a quiet link, and rejected as too early when a key press came in
  at 1 ms, because \<open>ack\<close> restarted \<open>tx_started\<close> before the buffered answer was read.\<close>

theorem interleaved_key_loses_ack:
  "fst (set_display True acked_port) = Inr True \<and>
   fst (set_display True (with_port
     (map (got (millis 1)) (encode OP_COMMAND SUB_KEY [1]) @
      map (got (millis 3)) (encode OP_ACK SUB_DISPLAY [0])) [] 0)) = Inr False"
  by (simp add: link_eval got_def acked_port_def)

end
