(* ===== verification/Levels.thy ===== *)
theory Levels
  imports Prelude
begin

text \<open>
  The value types of \<open>src/socket.rs\<close> every component speaks: severity levels in their order,
  colours, beep modes and the \<open>Look\<close> of a message; and the structured syslog message that
  stands for a formatted line (\<open>src/syslog.rs\<close> writes it, which is I/O).
\<close>

section \<open>Severity\<close>

datatype level = Info | Warn | Error | Critical

primrec level_rank :: "level \<Rightarrow> nat" where
  "level_rank Info = 0"
| "level_rank Warn = 1"
| "level_rank Error = 2"
| "level_rank Critical = 3"

lemma level_rank_inj: "level_rank a = level_rank b \<longleftrightarrow> a = b"
  by (cases a; cases b) auto

text \<open>The derived \<open>PartialOrd, Ord\<close>: by position in the enum.\<close>

instantiation level :: linorder
begin

definition less_eq_level :: "level \<Rightarrow> level \<Rightarrow> bool" where
  "less_eq_level a b \<longleftrightarrow> level_rank a \<le> level_rank b"

definition less_level :: "level \<Rightarrow> level \<Rightarrow> bool" where
  "less_level a b \<longleftrightarrow> level_rank a < level_rank b"

instance
  by standard (auto simp: less_eq_level_def less_level_def level_rank_inj)

end

lemma level_order [simp]:
  "Info \<le> l" "l \<le> Critical" "\<not> l < Info" "\<not> Critical < l"
  "(l \<le> Info) = (l = Info)" "(Critical \<le> l) = (l = Critical)"
  by (cases l; simp add: less_eq_level_def less_level_def)+

lemma level_order_concrete [simp]:
  "Info < Warn" "Info < Error" "Info < Critical" "Warn < Error" "Warn < Critical"
  "Error < Critical" "\<not> Error \<le> Warn" "Warn \<le> Error"
  by (simp_all add: less_eq_level_def less_level_def)

definition level_parse :: "string \<Rightarrow> level option" where
  "level_parse s =
     (let l = to_ascii_lowercase s in
      if l = ''info'' then Some Info
      else if l = ''warn'' \<or> l = ''warning'' then Some Warn
      else if l = ''error'' then Some Error
      else if l = ''critical'' then Some Critical
      else None)"

definition level_debug :: "level \<Rightarrow> string" where
  "level_debug l = (case l of Info \<Rightarrow> ''Info'' | Warn \<Rightarrow> ''Warn'' | Error \<Rightarrow> ''Error'' | Critical \<Rightarrow> ''Critical'')"

definition always_visible :: "level \<Rightarrow> bool" where
  "always_visible l \<longleftrightarrow> Error \<le> l"

lemma always_visible_simps [simp]:
  "\<not> always_visible Info" "\<not> always_visible Warn" "always_visible Error"
  "always_visible Critical"
  by (simp_all add: always_visible_def)

lemma always_visible_mono: "always_visible a \<Longrightarrow> a \<le> b \<Longrightarrow> always_visible b"
  by (auto simp: always_visible_def)

section \<open>Looks\<close>

datatype color = Green | Yellow | Red

definition color_parse :: "string \<Rightarrow> color option" where
  "color_parse s =
     (let l = to_ascii_lowercase s in
      if l = ''green'' then Some Green
      else if l = ''yellow'' \<or> l = ''amber'' then Some Yellow
      else if l = ''red'' then Some Red
      else None)"

datatype beep_mode = BeepNone | BeepOnce | BeepRepeat

definition beep_parse :: "string \<Rightarrow> beep_mode option" where
  "beep_parse s =
     (let l = to_ascii_lowercase s in
      if l = ''none'' \<or> l = ''off'' \<or> l = ''no'' then Some BeepNone
      else if l = ''once'' \<or> l = ''on'' \<or> l = ''yes'' then Some BeepOnce
      else if l = ''repeat'' then Some BeepRepeat
      else None)"

fun default_for :: "level \<Rightarrow> beep_mode" where
  "default_for Info = BeepNone"
| "default_for Warn = BeepNone"
| "default_for Error = BeepOnce"
| "default_for Critical = BeepRepeat"

definition REPEAT_BEEP_SECS :: nat where "REPEAT_BEEP_SECS = 60"

record look =
  look_color :: "color option"
  look_flash :: "bool option"
  look_beep :: "beep_mode option"

definition look_default :: look where
  "look_default = \<lparr>look_color = None, look_flash = None, look_beep = None\<rparr>"

section \<open>Syslog\<close>

text \<open>
  A syslog line: its priority, the place that formats it (\<open>log_id\<close>, a short name for the
  \<open>format!\<close> template) and the texts and numbers put into it.
\<close>

datatype priority = PInfo | PNotice | PWarning | PCritical

record log_line =
  log_priority :: priority
  log_id :: string
  log_texts :: "string list"
  log_nums :: "nat list"

definition syslog :: "priority \<Rightarrow> string \<Rightarrow> string list \<Rightarrow> nat list \<Rightarrow> log_line" where
  "syslog p i ts ns = \<lparr>log_priority = p, log_id = i, log_texts = ts, log_nums = ns\<rparr>"

section \<open>Choosing by rank\<close>

text \<open>
  Rust's \<open>Iterator::max_by_key\<close> keeps the last of several maximal elements. Both it and the
  sources' own fold (\<open>alarm::most_critical\<close>, the first maximal one) keep a candidate and
  replace it or not; the locale holds what every such choice promises.
\<close>

definition pick_best :: "('a \<Rightarrow> 'a \<Rightarrow> bool) \<Rightarrow> 'a list \<Rightarrow> 'a option" where
  "pick_best keep xs =
     fold (\<lambda>a best. (case best of
         None \<Rightarrow> Some a
       | Some b \<Rightarrow> if keep b a then Some b else Some a)) xs None"

definition max_by_key :: "('a \<Rightarrow> 'k::linorder) \<Rightarrow> 'a list \<Rightarrow> 'a option" where
  "max_by_key key xs = pick_best (\<lambda>b a. \<not> key b \<le> key a) xs"

lemma pick_Nil [simp]: "pick_best keep [] = None"
  by (simp add: pick_best_def)

lemma pick_single [simp]: "pick_best keep [x] = Some x"
  by (simp add: pick_best_def)

lemma pick_snoc:
  "pick_best keep (xs @ [a]) = (case pick_best keep xs of
      None \<Rightarrow> Some a | Some b \<Rightarrow> if keep b a then Some b else Some a)"
  by (simp add: pick_best_def)

lemma pick_None [simp]: "pick_best keep xs = None \<longleftrightarrow> xs = []"
  by (induction xs rule: rev_induct) (auto simp: pick_snoc split: option.splits)

locale ranked_choice =
  fixes keep :: "'a \<Rightarrow> 'a \<Rightarrow> bool"
    and key :: "'a \<Rightarrow> 'k::linorder"
  assumes keep_max: "keep b a \<Longrightarrow> key a \<le> key b"
    and replace_max: "\<not> keep b a \<Longrightarrow> key b \<le> key a"
begin

lemma pick_max:
  "pick_best keep xs = Some r \<Longrightarrow> r \<in> set xs \<and> (\<forall>x\<in>set xs. key x \<le> key r)"
proof (induction xs arbitrary: r rule: rev_induct)
  case Nil
  then show ?case by simp
next
  case (snoc a xs)
  then show ?case
    by (auto simp: pick_snoc split: option.splits if_splits
        dest: keep_max replace_max intro: order_trans)
qed

text \<open>The chosen key does not depend on the tie rule.\<close>

lemma pick_key:
  "pick_best keep xs = Some r \<Longrightarrow> key r = Max (key ` set xs)"
  by (rule Max_eqI [symmetric]) (auto dest: pick_max)

end

interpretation last_max: ranked_choice "\<lambda>b a. \<not> key b \<le> key a" key for key :: "'a \<Rightarrow> 'k::linorder"
  by unfold_locales auto

interpretation first_max: ranked_choice "\<lambda>b a. key a \<le> key b" key for key :: "'a \<Rightarrow> 'k::linorder"
  by unfold_locales auto

text \<open>Keeping on a tie finds the first of the maximal elements.\<close>

lemma pick_first:
  assumes "pick_best (\<lambda>b a. key a \<le> (key b :: 'k::linorder)) xs = Some r"
  shows "\<exists>us vs. xs = us @ r # vs \<and> (\<forall>u\<in>set us. key u < key r) \<and> (\<forall>v\<in>set vs. key v \<le> key r)"
  using assms
proof (induction xs arbitrary: r rule: rev_induct)
  case Nil
  then show ?case by simp
next
  case (snoc a xs)
  show ?case
  proof (cases "pick_best (\<lambda>b a. key a \<le> key b) xs")
    case None
    with snoc.prems show ?thesis by (auto simp: pick_snoc intro: exI [of _ "[]"])
  next
    case (Some b)
    then obtain us vs where b: "xs = us @ b # vs" "\<forall>u\<in>set us. key u < key b"
      "\<forall>v\<in>set vs. key v \<le> key b" using snoc.IH by blast
    show ?thesis
    proof (cases "key a \<le> key b")
      case True
      with Some snoc.prems have "r = b" by (simp add: pick_snoc)
      with b True have "xs @ [a] = us @ r # (vs @ [a]) \<and> (\<forall>u\<in>set us. key u < key r) \<and>
          (\<forall>v\<in>set (vs @ [a]). key v \<le> key r)" by auto
      then show ?thesis by blast
    next
      case False
      with Some snoc.prems have "r = a" by (simp add: pick_snoc)
      with b False have "\<forall>u\<in>set xs. key u < key r" by fastforce
      with \<open>r = a\<close> show ?thesis by fastforce
    qed
  qed
qed

lemma max_by_key_max: "max_by_key key xs = Some r \<Longrightarrow> r \<in> set xs \<and> (\<forall>x\<in>set xs. key x \<le> key r)"
  unfolding max_by_key_def by (rule last_max.pick_max)

lemma max_by_key_None [simp]: "max_by_key key xs = None \<longleftrightarrow> xs = []"
  by (simp add: max_by_key_def)

end
