(* ===== verification/Led.thy ===== *)
theory Led
  imports Levels
begin

text \<open>
  \<open>src/led.rs\<close>: which sysfs writes each LED operation makes, the status pattern a message
  asks for, the brightness arithmetic, and the read-back protocol of the NIC LEDs.

  A write is a triple of LED, attribute and value, in order; an operation returns the list of
  its writes. The NIC part of night mode, whose result the code returns, is the single entry
  \<open>NicApply\<close>, and its outcome (the problem text, if any) is an argument. The NIC protocol
  itself is modelled over an arbitrary kernel: a state with a read function and a write function.
\<close>

section \<open>Writes\<close>

datatype front_lan_state = LanLink | LanActivity | LanOff

datatype nic_led_mode = NicLink | NicActivity

fun front_lan_of :: "nic_led_mode \<Rightarrow> front_lan_state" where
  "front_lan_of NicLink = LanLink"
| "front_lan_of NicActivity = LanActivity"

datatype led_op = LedWrite string string string | NicApply front_lan_state

definition set_solid :: "string \<Rightarrow> bool \<Rightarrow> led_op list" where
  "set_solid led on =
     [LedWrite led ''trigger'' ''none'', LedWrite led ''brightness'' (if on then ''1'' else ''0'')]"

definition set_blink :: "string \<Rightarrow> nat \<Rightarrow> nat \<Rightarrow> led_op list" where
  "set_blink led on_ms off_ms =
     [LedWrite led ''trigger'' ''timer'', LedWrite led ''delay_on'' (nat_str on_ms),
      LedWrite led ''delay_off'' (nat_str off_ms)]"

definition LOCATE_BLINK_MS :: nat where "LOCATE_BLINK_MS = 250"

definition bay_green :: "nat \<Rightarrow> string" where
  "bay_green bay = ''sata'' @ nat_str bay @ '':green:disk''"

definition bay_red :: "nat \<Rightarrow> string" where
  "bay_red bay = ''sata'' @ nat_str bay @ '':red:disk''"

definition prime_locate_status :: "led_op list" where
  "prime_locate_status = set_solid ''green:status'' True @ set_solid ''red:status'' True"

definition prime_locate_bay :: "nat \<Rightarrow> led_op list" where
  "prime_locate_bay bay = set_solid (bay_green bay) True @ set_solid (bay_red bay) True"

section \<open>The status and power LEDs\<close>

datatype status_pattern =
  StatusOk | StatusWarning | StatusGreenFlashing | StatusWarningFlashing | StatusDegraded
| StatusFailed | StatusCriticalFlashing | StatusLocate | StatusOff

fun severity :: "status_pattern \<Rightarrow> nat" where
  "severity StatusOk = 0"
| "severity StatusGreenFlashing = 0"
| "severity StatusLocate = 0"
| "severity StatusOff = 0"
| "severity StatusWarning = 1"
| "severity StatusWarningFlashing = 1"
| "severity StatusDegraded = 2"
| "severity StatusFailed = 3"
| "severity StatusCriticalFlashing = 4"

fun set_status :: "status_pattern \<Rightarrow> led_op list" where
  "set_status StatusOk =
     set_solid ''green:status'' True @ [LedWrite ''red:status'' ''trigger'' ''none''] @
     set_solid ''red:status'' False"
| "set_status StatusWarning = set_solid ''green:status'' True @ set_solid ''red:status'' True"
| "set_status StatusGreenFlashing =
     [LedWrite ''red:status'' ''trigger'' ''none''] @ set_solid ''red:status'' False @
     set_blink ''green:status'' 1000 1000"
| "set_status StatusWarningFlashing =
     set_solid ''green:status'' True @ set_solid ''red:status'' True @
     set_blink ''green:status'' 1000 1000 @ set_blink ''red:status'' 1000 1000"
| "set_status StatusDegraded = set_solid ''green:status'' True @ set_blink ''red:status'' 500 500"
| "set_status StatusFailed = set_solid ''green:status'' False @ set_solid ''red:status'' True"
| "set_status StatusCriticalFlashing =
     set_solid ''green:status'' False @ set_blink ''red:status'' 1000 1000"
| "set_status StatusLocate =
     set_blink ''green:status'' LOCATE_BLINK_MS LOCATE_BLINK_MS @
     set_blink ''red:status'' LOCATE_BLINK_MS LOCATE_BLINK_MS"
| "set_status StatusOff = set_solid ''green:status'' False @ set_solid ''red:status'' False"

datatype power_pattern = PowerLedOn | PowerLedOff | PowerLedLocate

definition set_power :: "power_pattern \<Rightarrow> led_op list" where
  "set_power pattern =
     (case pattern of
        PowerLedOn \<Rightarrow> set_solid ''blue:power'' True
      | PowerLedOff \<Rightarrow> set_solid ''blue:power'' False
      | PowerLedLocate \<Rightarrow> set_blink ''blue:power'' LOCATE_BLINK_MS LOCATE_BLINK_MS) @
     set_solid ''red:power'' False"

definition pattern_for_show :: "level \<Rightarrow> look \<Rightarrow> status_pattern option" where
  "pattern_for_show level lk =
     (if level = Info \<and> look_color lk = None \<and> look_flash lk = None then None
      else
        let (color, flash) = (case level of
               Info \<Rightarrow> (Green, False) | Warn \<Rightarrow> (Yellow, False)
             | Error \<Rightarrow> (Red, False) | Critical \<Rightarrow> (Red, True));
            color = (case look_color lk of None \<Rightarrow> color | Some c \<Rightarrow> c);
            flash = (case look_flash lk of None \<Rightarrow> flash | Some f \<Rightarrow> f)
        in Some (case (color, flash) of
               (Green, False) \<Rightarrow> StatusOk
             | (Green, True) \<Rightarrow> StatusGreenFlashing
             | (Yellow, False) \<Rightarrow> StatusWarning
             | (Yellow, True) \<Rightarrow> StatusWarningFlashing
             | (Red, False) \<Rightarrow> StatusFailed
             | (Red, True) \<Rightarrow> StatusCriticalFlashing))"

section \<open>The bay LEDs and night mode\<close>

datatype bay_state = BayNormal | BayFailed | BayAlert | BayStandby | BayLocate

definition driver_trigger :: "nat \<Rightarrow> string" where
  "driver_trigger bay = ''asustor-sata'' @ nat_str bay"

fun set_bay_red :: "nat \<Rightarrow> bay_state \<Rightarrow> led_op list" where
  "set_bay_red bay BayNormal = set_solid (bay_red bay) False"
| "set_bay_red bay BayStandby = set_solid (bay_red bay) False"
| "set_bay_red bay BayFailed = set_solid (bay_red bay) True"
| "set_bay_red bay BayAlert = set_blink (bay_red bay) 1000 1000"
| "set_bay_red bay BayLocate = set_blink (bay_red bay) LOCATE_BLINK_MS LOCATE_BLINK_MS"

definition set_bay :: "nat \<Rightarrow> bay_state \<Rightarrow> led_op list" where
  "set_bay bay state =
     (case state of
        BayNormal \<Rightarrow> [LedWrite (bay_green bay) ''trigger'' (driver_trigger bay)]
      | BayFailed \<Rightarrow> set_solid (bay_green bay) False
      | BayAlert \<Rightarrow> set_solid (bay_green bay) False
      | BayStandby \<Rightarrow> set_blink (bay_green bay) 250 9750
      | BayLocate \<Rightarrow> set_blink (bay_green bay) LOCATE_BLINK_MS LOCATE_BLINK_MS) @
     set_bay_red bay state"

definition set_bay_night :: "nat \<Rightarrow> bay_state \<Rightarrow> led_op list" where
  "set_bay_night bay state =
     (if state = BayLocate then set_bay bay state
      else set_solid (bay_green bay) False @ set_bay_red bay state)"

definition night_bays :: "nat list" where
  "night_bays = [1, 2, 3, 4]"

definition enter_night_mode ::
  "bool \<Rightarrow> (front_lan_state \<Rightarrow> string option) \<Rightarrow> led_op list \<times> string option" where
  "enter_night_mode front nic =
     (let bays = concat (map (\<lambda>bay. LedWrite (bay_green bay) ''trigger'' ''none'' #
                                  set_solid (bay_green bay) False) night_bays)
      in if \<not> front then (bays, None)
         else (bays @ set_status StatusOff @ set_power PowerLedOff @
               set_solid ''green:usb'' False @ [LedWrite ''green:usb'' ''trigger'' ''none''] @
               set_solid ''blue:lan'' False @ [NicApply LanOff],
               nic LanOff))"

definition exit_night_mode ::
  "nic_led_mode \<Rightarrow> bool \<Rightarrow> (front_lan_state \<Rightarrow> string option) \<Rightarrow> led_op list \<times> string option" where
  "exit_night_mode mode front nic =
     (let bays = map (\<lambda>bay. LedWrite (bay_green bay) ''trigger'' (driver_trigger bay)) night_bays
      in if \<not> front then (bays, None)
         else (bays @ [LedWrite ''green:status'' ''trigger'' ''none''] @
               set_solid ''green:status'' True @ [LedWrite ''red:status'' ''trigger'' ''panic''] @
               set_solid ''red:status'' False @ set_power PowerLedOn @
               [LedWrite ''green:usb'' ''trigger'' ''asustor-front-usb''] @
               set_solid ''blue:lan'' True @ [NicApply (front_lan_of mode)],
               nic (front_lan_of mode)))"

section \<open>Brightness\<close>

text \<open>\<open>u8\<close> percent, \<open>u32\<close> level; the \<open>u64\<close> products cannot overflow.\<close>

definition brightness_value :: "nat \<Rightarrow> nat \<Rightarrow> nat" where
  "brightness_value percent max_b = (min percent 100 * max_b + 50) div 100"

definition brightness_percent :: "nat \<Rightarrow> nat \<Rightarrow> nat" where
  "brightness_percent value max_b =
     (if max_b = 0 then 0 else (min value max_b * 100 + max_b div 2) div max_b)"

section \<open>The NIC LEDs\<close>

text \<open>
  \<open>apply_nic_port\<close> over a kernel state \<open>k\<close>: \<open>rd k led attr\<close> is \<open>read_attr\<close>
  (\<open>None\<close> for a missing attribute), \<open>wr led attr value k\<close> is \<open>write_attr\<close>, whose
  own result the code ignores. Problems are values instead of formatted text.
\<close>

datatype nic_problem =
  NoNetdevTrigger string
| AttrReads string string "string option" string
| NotOffloaded string "string option"

definition NETDEV_ATTRS :: "string list" where
  "NETDEV_ATTRS = [''link_10'', ''link_100'', ''link_1000'', ''link_2500'', ''rx'', ''tx'']"

fun front_lan_plan :: "front_lan_state \<Rightarrow> (string \<times> bool list) list" where
  "front_lan_plan LanLink =
     [(''0'', [False, False, False, True, False, False]),
      (''1'', [True, True, True, False, False, False])]"
| "front_lan_plan LanActivity =
     [(''0'', [False, False, False, False, True, True]),
      (''1'', [False, False, False, False, False, False])]"
| "front_lan_plan LanOff =
     [(''0'', [False, False, False, False, False, False]),
      (''1'', [False, False, False, False, False, False])]"

definition as_value :: "bool \<Rightarrow> string" where
  "as_value on = (if on then ''1'' else ''0'')"

definition trigger_selected ::
  "('k \<Rightarrow> string \<Rightarrow> string \<Rightarrow> string option) \<Rightarrow> 'k \<Rightarrow> string \<Rightarrow> string \<Rightarrow> bool" where
  "trigger_selected rd k led name =
     (case rd k led ''trigger'' of
        None \<Rightarrow> False
      | Some t \<Rightarrow> (''['' @ name @ '']'') \<in> set (split_whitespace t))"

fun write_diffs ::
  "('k \<Rightarrow> string \<Rightarrow> string \<Rightarrow> string option) \<Rightarrow> (string \<Rightarrow> string \<Rightarrow> string \<Rightarrow> 'k \<Rightarrow> 'k)
    \<Rightarrow> string \<Rightarrow> (string \<times> bool) list \<Rightarrow> 'k \<Rightarrow> 'k" where
  "write_diffs rd wr led [] k = k"
| "write_diffs rd wr led ((attr, on) # rest) k =
     write_diffs rd wr led rest
       (if rd k led attr \<noteq> Some (as_value on) then wr led attr (as_value on) k else k)"

fun check_attrs ::
  "('k \<Rightarrow> string \<Rightarrow> string \<Rightarrow> string option) \<Rightarrow> 'k \<Rightarrow> string \<Rightarrow> (string \<times> bool) list
    \<Rightarrow> nic_problem option" where
  "check_attrs rd k led [] = None"
| "check_attrs rd k led ((attr, on) # rest) =
     (if rd k led attr \<noteq> Some (as_value on)
      then Some (AttrReads led attr (rd k led attr) (as_value on))
      else check_attrs rd k led rest)"

definition apply_nic_channel ::
  "('k \<Rightarrow> string \<Rightarrow> string \<Rightarrow> string option) \<Rightarrow> (string \<Rightarrow> string \<Rightarrow> string \<Rightarrow> 'k \<Rightarrow> 'k)
    \<Rightarrow> string \<Rightarrow> bool list \<Rightarrow> 'k \<Rightarrow> nic_problem option \<times> 'k" where
  "apply_nic_channel rd wr led want k =
     (let k1 = (if trigger_selected rd k led ''netdev'' then k
                else wr led ''trigger'' ''netdev'' k)
      in if \<not> trigger_selected rd k1 led ''netdev'' then (Some (NoNetdevTrigger led), k1)
         else
           let k2 = write_diffs rd wr led (zip NETDEV_ATTRS want) k1
           in case check_attrs rd k2 led (zip NETDEV_ATTRS want) of
                Some p \<Rightarrow> (Some p, k2)
              | None \<Rightarrow>
                  (if rd k2 led ''offloaded'' \<noteq> Some ''1''
                   then (Some (NotOffloaded led (rd k2 led ''offloaded'')), k2)
                   else (None, k2)))"

definition nic_led :: "string \<Rightarrow> string \<Rightarrow> string" where
  "nic_led port channel = port @ ''-'' @ channel @ ''::lan''"

fun apply_nic_channels ::
  "('k \<Rightarrow> string \<Rightarrow> string \<Rightarrow> string option) \<Rightarrow> (string \<Rightarrow> string \<Rightarrow> string \<Rightarrow> 'k \<Rightarrow> 'k)
    \<Rightarrow> string \<Rightarrow> (string \<times> bool list) list \<Rightarrow> 'k \<Rightarrow> nic_problem option \<times> 'k" where
  "apply_nic_channels rd wr port [] k = (None, k)"
| "apply_nic_channels rd wr port ((channel, want) # rest) k =
     (case apply_nic_channel rd wr (nic_led port channel) want k of
        (Some p, k') \<Rightarrow> (Some p, k')
      | (None, k') \<Rightarrow> apply_nic_channels rd wr port rest k')"

definition apply_nic_port ::
  "('k \<Rightarrow> string \<Rightarrow> string \<Rightarrow> string option) \<Rightarrow> (string \<Rightarrow> string \<Rightarrow> string \<Rightarrow> 'k \<Rightarrow> 'k)
    \<Rightarrow> string \<Rightarrow> front_lan_state \<Rightarrow> 'k \<Rightarrow> nic_problem option \<times> 'k" where
  "apply_nic_port rd wr port st k = apply_nic_channels rd wr port (front_lan_plan st) k"

text \<open>Every port is tried; the problems of all of them are reported.\<close>

fun apply_nic_leds ::
  "('k \<Rightarrow> string \<Rightarrow> string \<Rightarrow> string option) \<Rightarrow> (string \<Rightarrow> string \<Rightarrow> string \<Rightarrow> 'k \<Rightarrow> 'k)
    \<Rightarrow> string list \<Rightarrow> front_lan_state \<Rightarrow> 'k \<Rightarrow> nic_problem list \<times> 'k" where
  "apply_nic_leds rd wr [] st k = ([], k)"
| "apply_nic_leds rd wr (port # ports) st k =
     (case apply_nic_port rd wr port st k of
        (p, k1) \<Rightarrow>
          (case apply_nic_leds rd wr ports st k1 of
             (ps, k2) \<Rightarrow> ((case p of None \<Rightarrow> ps | Some q \<Rightarrow> q # ps), k2)))"

text \<open>The stand-in for sysfs the sources test against (\<open>led::test_writes\<close>): a rejected
  attribute keeps its value, a written trigger reads back in brackets.\<close>

type_synonym led_files = "string \<Rightarrow> string \<Rightarrow> string option"

record test_fs =
  fs_values :: led_files
  fs_rejected :: "(string \<times> string) list"

definition test_store :: "string \<Rightarrow> string \<Rightarrow> string \<Rightarrow> test_fs \<Rightarrow> test_fs" where
  "test_store led attr v fs =
     (if (led, attr) \<in> set (fs_rejected fs) then fs
      else
        let shown = (if attr = ''trigger'' then ''['' @ v @ '']'' else v)
        in fs\<lparr>fs_values := (\<lambda>l a. if l = led \<and> a = attr then Some shown else fs_values fs l a)\<rparr>)"

definition test_value :: "test_fs \<Rightarrow> string \<Rightarrow> string \<Rightarrow> string option" where
  "test_value fs led attr = fs_values fs led attr"

section \<open>What a write sequence shows\<close>

text \<open>
  The attribute files after a sequence of writes, last value stored, and the look of one LED they
  stand for: the \<open>none\<close> trigger leaves the brightness, the \<open>timer\<close> trigger blinks at
  its two delays, any other trigger hands the LED to the driver.
\<close>

fun apply_op :: "led_op \<Rightarrow> led_files \<Rightarrow> led_files" where
  "apply_op (LedWrite led attr v) f = (\<lambda>l a. if l = led \<and> a = attr then Some v else f l a)"
| "apply_op (NicApply st) f = f"

definition apply_ops :: "led_op list \<Rightarrow> led_files \<Rightarrow> led_files" where
  "apply_ops ops f = fold apply_op ops f"

lemma apply_ops_simps [simp]:
  "apply_ops [] f = f" "apply_ops (op # ops) f = apply_ops ops (apply_op op f)"
  "apply_ops (ops @ ops') f = apply_ops ops' (apply_ops ops f)"
  by (simp_all add: apply_ops_def)

datatype light = Dark | Lit | Blinking "string option" "string option" | Driven string | Unset

definition shows_light :: "led_files \<Rightarrow> string \<Rightarrow> light" where
  "shows_light f led =
     (case f led ''trigger'' of
        None \<Rightarrow> Unset
      | Some t \<Rightarrow>
          if t = ''none'' then (if f led ''brightness'' = Some ''1'' then Lit else Dark)
          else if t = ''timer'' then Blinking (f led ''delay_on'') (f led ''delay_off'')
          else Driven t)"

definition blinking :: "nat \<Rightarrow> nat \<Rightarrow> light" where
  "blinking on_ms off_ms = Blinking (Some (nat_str on_ms)) (Some (nat_str off_ms))"

text \<open>The table of status LED patterns in the README: the green and the red status LED.\<close>

fun status_table :: "status_pattern \<Rightarrow> light \<times> light" where
  "status_table StatusOk = (Lit, Dark)"
| "status_table StatusWarning = (Lit, Lit)"
| "status_table StatusGreenFlashing = (blinking 1000 1000, Dark)"
| "status_table StatusWarningFlashing = (blinking 1000 1000, blinking 1000 1000)"
| "status_table StatusDegraded = (Lit, blinking 500 500)"
| "status_table StatusFailed = (Dark, Lit)"
| "status_table StatusCriticalFlashing = (Dark, blinking 1000 1000)"
| "status_table StatusLocate = (blinking 250 250, blinking 250 250)"
| "status_table StatusOff = (Dark, Dark)"

text \<open>The bay table: green and red LED of a bay by day, and by night.\<close>

fun bay_table :: "nat \<Rightarrow> bay_state \<Rightarrow> light \<times> light" where
  "bay_table bay BayNormal = (Driven (driver_trigger bay), Dark)"
| "bay_table bay BayFailed = (Dark, Lit)"
| "bay_table bay BayAlert = (Dark, blinking 1000 1000)"
| "bay_table bay BayStandby = (blinking 250 9750, Dark)"
| "bay_table bay BayLocate = (blinking 250 250, blinking 250 250)"

fun bay_table_night :: "nat \<Rightarrow> bay_state \<Rightarrow> light \<times> light" where
  "bay_table_night bay BayLocate = (blinking 250 250, blinking 250 250)"
| "bay_table_night bay st = (Dark, snd (bay_table bay st))"

definition status_shown :: "led_files \<Rightarrow> light \<times> light" where
  "status_shown f = (shows_light f ''green:status'', shows_light f ''red:status'')"

definition bay_shown :: "led_files \<Rightarrow> nat \<Rightarrow> light \<times> light" where
  "bay_shown f bay = (shows_light f (bay_green bay), shows_light f (bay_red bay))"

lemmas write_defs = set_solid_def set_blink_def

text \<open>An LED no write names keeps its look.\<close>

fun op_led :: "led_op \<Rightarrow> string option" where
  "op_led (LedWrite led attr v) = Some led"
| "op_led (NicApply st) = None"

lemma apply_ops_other: "Some led \<notin> op_led ` set ops \<Longrightarrow> apply_ops ops f led = f led"
proof (induction ops arbitrary: f)
  case Nil
  show ?case by simp
next
  case (Cons op ops)
  then show ?case by (cases op) (auto simp: fun_eq_iff)
qed

lemma shows_light_cong: "f led = g led \<Longrightarrow> shows_light f led = shows_light g led"
  by (simp only: shows_light_def)

lemma shows_light_other:
  "Some led \<notin> op_led ` set ops \<Longrightarrow> shows_light (apply_ops ops f) led = shows_light f led"
  by (rule shows_light_cong) (rule apply_ops_other)

lemma status_table_inj: "status_table p = status_table q \<longleftrightarrow> p = q"
  by (cases p; cases q) (simp_all add: blinking_def)

lemma bay_green_red: "bay_green b \<noteq> bay_red c"
proof
  assume "bay_green b = bay_red c"
  then have "rev (bay_green b) = rev (bay_red c)" by simp
  then show False by (simp add: bay_green_def bay_red_def)
qed

lemma bay_names [simp]:
  "bay_green b \<noteq> bay_red c" "bay_red b \<noteq> bay_green c"
  "bay_green b = bay_green c \<longleftrightarrow> b = c" "bay_red b = bay_red c \<longleftrightarrow> b = c"
  using bay_green_red [of b c] bay_green_red [of c b]
  by (auto simp: bay_green_def bay_red_def)

lemma set_status_view:
  "status_shown (apply_ops (set_status p) f) = status_table p"
  by (cases p)
    (simp_all add: status_shown_def shows_light_def write_defs blinking_def LOCATE_BLINK_MS_def)

lemma set_bay_view: "bay_shown (apply_ops (set_bay bay st) f) bay = bay_table bay st"
  by (cases st)
    (simp_all add: bay_shown_def shows_light_def write_defs blinking_def LOCATE_BLINK_MS_def
      set_bay_def driver_trigger_def)

lemma set_bay_night_view:
  "bay_shown (apply_ops (set_bay_night bay st) f) bay = bay_table_night bay st"
  by (cases st)
    (simp_all add: bay_shown_def shows_light_def write_defs blinking_def LOCATE_BLINK_MS_def
      set_bay_def set_bay_night_def)

section \<open>The NIC protocol\<close>

text \<open>Everything the code asks of one channel before it reports success.\<close>

definition channel_ok ::
  "('k \<Rightarrow> string \<Rightarrow> string \<Rightarrow> string option) \<Rightarrow> 'k \<Rightarrow> string \<Rightarrow> bool list \<Rightarrow> bool" where
  "channel_ok rd k led want \<longleftrightarrow>
     trigger_selected rd k led ''netdev'' \<and>
     check_attrs rd k led (zip NETDEV_ATTRS want) = None \<and>
     rd k led ''offloaded'' = Some ''1''"

text \<open>The two laws of the kernel the protocol relies on: LEDs are independent, and only a write of
  the trigger changes an LED's trigger.\<close>

locale led_class =
  fixes rd :: "'k \<Rightarrow> string \<Rightarrow> string \<Rightarrow> string option"
    and wr :: "string \<Rightarrow> string \<Rightarrow> string \<Rightarrow> 'k \<Rightarrow> 'k"
  assumes wr_other: "led' \<noteq> led \<Longrightarrow> rd (wr led attr v k) led' = rd k led'"
    and wr_trigger: "attr \<noteq> ''trigger'' \<Longrightarrow>
      rd (wr led attr v k) led ''trigger'' = rd k led ''trigger''"
begin

lemma write_diffs_other: "led' \<noteq> led \<Longrightarrow> rd (write_diffs rd wr led ps k) led' = rd k led'"
proof (induction ps arbitrary: k)
  case Nil
  then show ?case by simp
next
  case (Cons p ps)
  then show ?case by (cases p) (simp add: wr_other)
qed

lemma channel_other:
  "apply_nic_channel rd wr led want k = (r, k') \<Longrightarrow> led' \<noteq> led \<Longrightarrow> rd k' led' = rd k led'"
  by (auto simp: apply_nic_channel_def Let_def wr_other write_diffs_other
      split: if_splits option.splits)

lemma write_diffs_trigger:
  "\<forall>p\<in>set ps. fst p \<noteq> ''trigger'' \<Longrightarrow>
     rd (write_diffs rd wr led ps k) led ''trigger'' = rd k led ''trigger''"
proof (induction ps arbitrary: k)
  case Nil
  then show ?case by simp
next
  case (Cons p ps)
  then show ?case by (cases p) (simp add: wr_trigger)
qed

lemma netdev_attrs_no_trigger: "\<forall>p\<in>set (zip NETDEV_ATTRS want). fst p \<noteq> ''trigger''"
  by (auto simp: NETDEV_ATTRS_def dest!: set_zip_leftD)

lemma channel_sound: "apply_nic_channel rd wr led want k = (None, k') \<Longrightarrow> channel_ok rd k' led want"
  by (auto simp: apply_nic_channel_def channel_ok_def Let_def trigger_selected_def
      write_diffs_trigger [OF netdev_attrs_no_trigger] split: if_splits option.splits)

lemma check_attrs_no_writes: "check_attrs rd k led ps = None \<Longrightarrow> write_diffs rd wr led ps k = k"
  by (induction ps) (auto split: if_splits)

lemma channel_ok_no_writes:
  "channel_ok rd k led want \<Longrightarrow> apply_nic_channel rd wr led want k = (None, k)"
  by (simp add: apply_nic_channel_def channel_ok_def Let_def check_attrs_no_writes)

lemma check_attrs_cong: "rd k led = rd k' led \<Longrightarrow> check_attrs rd k led ps = check_attrs rd k' led ps"
  by (induction ps) (auto split: prod.splits)

lemma channel_ok_cong: "rd k led = rd k' led \<Longrightarrow> channel_ok rd k led want = channel_ok rd k' led want"
  by (simp add: channel_ok_def trigger_selected_def check_attrs_cong [of k led k'])

lemma channels_other:
  "apply_nic_channels rd wr port plan k = (r, k') \<Longrightarrow>
     led' \<notin> nic_led port ` fst ` set plan \<Longrightarrow> rd k' led' = rd k led'"
proof (induction plan arbitrary: k)
  case Nil
  then show ?case by simp
next
  case (Cons c plan)
  then show ?case
    by (cases c) (auto split: prod.splits option.splits dest: channel_other)
qed

lemma channels_sound:
  assumes "apply_nic_channels rd wr port plan k = (None, k')"
    and "distinct (map (nic_led port \<circ> fst) plan)"
  shows "list_all (\<lambda>(channel, want). channel_ok rd k' (nic_led port channel) want) plan"
  using assms
proof (induction plan arbitrary: k)
  case Nil
  then show ?case by simp
next
  case (Cons c plan)
  obtain ch want where c: "c = (ch, want)" by fastforce
  with Cons.prems obtain k1 where k1: "apply_nic_channel rd wr (nic_led port ch) want k = (None, k1)"
    "apply_nic_channels rd wr port plan k1 = (None, k')"
    by (auto split: prod.splits option.splits)
  have "rd k' (nic_led port ch) = rd k1 (nic_led port ch)"
    by (rule channels_other [OF k1(2)]) (use Cons.prems(2) c in force)
  then have "channel_ok rd k' (nic_led port ch) want"
    using channel_sound [OF k1(1)] channel_ok_cong [of k' "nic_led port ch" k1] by simp
  with Cons.IH [OF k1(2)] Cons.prems(2) c show ?case by simp
qed

lemma channels_settled:
  "list_all (\<lambda>(channel, want). channel_ok rd k (nic_led port channel) want) plan \<Longrightarrow>
     apply_nic_channels rd wr port plan k = (None, k)"
  by (induction plan) (auto simp: channel_ok_no_writes split: prod.splits)

lemma port_settles:
  assumes "apply_nic_port rd wr port st k = (None, k')"
  shows "list_all (\<lambda>(channel, want). channel_ok rd k' (nic_led port channel) want)
      (front_lan_plan st) \<and>
    apply_nic_port rd wr port st k' = (None, k')"
proof -
  have "distinct (map (nic_led port \<circ> fst) (front_lan_plan st))"
    by (cases st) (simp_all add: nic_led_def)
  with assms channels_sound have
    "list_all (\<lambda>(channel, want). channel_ok rd k' (nic_led port channel) want) (front_lan_plan st)"
    unfolding apply_nic_port_def by blast
  then show ?thesis by (simp add: apply_nic_port_def channels_settled)
qed

end

interpretation test_led: led_class test_value test_store
  by unfold_locales (auto simp: test_value_def test_store_def Let_def)

section \<open>Properties\<close>

text \<open>Every status pattern is written completely: whatever the two status LEDs showed before,
  \<open>set_status\<close> leaves them as the documented table says, no other LED changes, and no two
  patterns look alike.\<close>

theorem set_status_table:
  "status_shown (apply_ops (set_status p) f) = status_table p \<and>
   (status_table p = status_table q \<longleftrightarrow> p = q) \<and>
   bay_shown (apply_ops (set_status p) f) bay = bay_shown f bay"
proof -
  have "shows_light (apply_ops (set_status p) f) led = shows_light f led"
    if "led \<noteq> ''green:status''" "led \<noteq> ''red:status''" for led
    by (rule shows_light_other) (use that in \<open>cases p; auto simp: write_defs\<close>)
  moreover have "bay_green bay \<noteq> ''green:status'' \<and> bay_green bay \<noteq> ''red:status'' \<and>
      bay_red bay \<noteq> ''green:status'' \<and> bay_red bay \<noteq> ''red:status''"
    by (simp add: bay_green_def bay_red_def)
  ultimately show ?thesis
    by (simp add: set_status_view status_table_inj bay_shown_def)
qed

text \<open>A bay's two LEDs show exactly the table entry of the state written, by day and by night,
  whatever they showed before, and no other bay's LEDs change. At night only a locate lights the
  green LED; a failed or alerting bay still shows red.\<close>

theorem set_bay_table:
  "bay_shown (apply_ops (set_bay bay st) f) bay = bay_table bay st \<and>
   bay_shown (apply_ops (set_bay_night bay st) f) bay = bay_table_night bay st \<and>
   (other \<noteq> bay \<longrightarrow> bay_shown (apply_ops (set_bay bay st) f) other = bay_shown f other \<and>
      bay_shown (apply_ops (set_bay_night bay st) f) other = bay_shown f other)"
proof -
  have "shows_light (apply_ops (set_bay bay st) f) led = shows_light f led \<and>
      shows_light (apply_ops (set_bay_night bay st) f) led = shows_light f led"
    if "led \<noteq> bay_green bay" "led \<noteq> bay_red bay" for led
    by (intro conjI shows_light_other)
      (use that in \<open>cases st; auto simp: write_defs set_bay_def set_bay_night_def\<close>)+
  moreover note set_bay_view [of bay st f] set_bay_night_view [of bay st f]
  ultimately show ?thesis
    by (simp add: bay_shown_def)
qed

theorem set_bay_table_witness:
  "bay_shown (apply_ops (set_bay 1 BayAlert) (\<lambda>_ _. None)) 2 = bay_shown (\<lambda>_ _. None) 2"
  using set_bay_table [of 1 BayAlert "\<lambda>_ _. None" 2] by simp

lemma brightness_value_le: "brightness_value p m \<le> m"
proof -
  have "min p 100 * m + 50 \<le> 100 * m + 50" by (intro add_right_mono mult_right_mono) auto
  then have "(min p 100 * m + 50) div 100 \<le> (100 * m + 50) div 100" by (rule div_le_mono)
  then show ?thesis by (simp add: brightness_value_def)
qed

lemma percent_band:
  fixes p m v :: nat
  assumes "p * m \<le> v * 100 + m div 2" and "v * 100 + m div 2 < p * m + m"
  shows "(v * 100 + m div 2) div m = p"
  by (rule div_nat_eqI) (use assms in \<open>simp_all add: algebra_simps\<close>)

text \<open>Brightness survives the round trip: on any LED with at least 100 levels (the panel has
  255) the level written for a percentage reads back as that percentage, and no level exceeds the
  maximum.\<close>

theorem brightness_roundtrip:
  assumes "p \<le> 100" and "100 \<le> m"
  shows "brightness_percent (brightness_value p m) m = p \<and> brightness_value p m \<le> m"
proof -
  let ?v = "brightness_value p m"
  have v: "?v = (p * m + 50) div 100" using assms by (simp add: brightness_value_def)
  have "?v * 100 \<le> p * m + 50" "p * m + 50 < ?v * 100 + 100"
    unfolding v by (simp_all add: div_times_less_eq_dividend)
  moreover have "?v * 100 = p * m" if "m = 100" using that v by simp
  ultimately have "p * m \<le> ?v * 100 + m div 2" "?v * 100 + m div 2 < p * m + m"
    using assms(2) by (cases "m = 100"; linarith)+
  then have "(?v * 100 + m div 2) div m = p" by (rule percent_band)
  with brightness_value_le [of p m] assms show ?thesis
    by (simp add: brightness_percent_def min_def)
qed

theorem brightness_roundtrip_witness:
  "brightness_percent (brightness_value 30 255) 255 = 30 \<and> brightness_value 30 255 \<le> 255"
  by (rule brightness_roundtrip) simp_all

text \<open>\<open>apply_nic_port\<close> never reports success it has not read back: on any kernel that keeps
  LEDs independent and changes a trigger only when the trigger is written, an \<open>Ok\<close> means both
  channels have the netdev trigger, every attribute of the plan and hardware offload; and applying
  the same mode again then writes nothing at all.\<close>

theorem nic_port_settles:
  assumes "\<And>led led' attr v k. led' \<noteq> led \<Longrightarrow> rd (wr led attr v k) led' = rd k led'"
    and "\<And>led attr v k. attr \<noteq> ''trigger'' \<Longrightarrow>
      rd (wr led attr v k) led ''trigger'' = rd k led ''trigger''"
    and "apply_nic_port rd wr port st k = (None, k')"
  shows "list_all (\<lambda>(channel, want). channel_ok rd k' (nic_led port channel) want)
      (front_lan_plan st) \<and>
    apply_nic_port rd wr port st k' = (None, k')"
proof -
  from assms(1,2) have "led_class rd wr" by unfold_locales
  then show ?thesis using assms(3) by (rule led_class.port_settles)
qed

definition dark_port :: test_fs where
  "dark_port = \<lparr>fs_values = (\<lambda>led attr. Some (if attr = ''trigger'' then ''none [netdev]''
      else if attr = ''offloaded'' then ''1'' else ''0'')), fs_rejected = []\<rparr>"

theorem nic_port_settles_witness:
  "list_all (\<lambda>(channel, want). channel_ok test_value dark_port (nic_led ''enp2s0'' channel) want)
      (front_lan_plan LanOff) \<and>
    apply_nic_port test_value test_store ''enp2s0'' LanOff dark_port = (None, dark_port)"
proof (rule nic_port_settles)
  show "apply_nic_port test_value test_store ''enp2s0'' LanOff dark_port = (None, dark_port)"
    by (simp add: test_value_def dark_port_def apply_nic_port_def apply_nic_channel_def
        trigger_selected_def NETDEV_ATTRS_def as_value_def split_whitespace_def
        is_whitespace_def)
qed (rule test_led.wr_other test_led.wr_trigger, assumption)+

end
