(* ===== verification/Alarm.thy ===== *)
theory Alarm
  imports Led
begin

text \<open>
  \<open>src/alarm.rs\<close>: an alarm couples the status LED pattern with the text the LCD shows, and
  \<open>most_critical\<close> picks the one that decides both.
\<close>

record alarm =
  al_level :: level
  al_pattern :: status_pattern
  al_line0 :: string
  al_line1 :: string

fun health_pattern :: "level \<Rightarrow> status_pattern option" where
  "health_pattern Info = None"
| "health_pattern Warn = Some StatusWarning"
| "health_pattern Error = Some StatusFailed"
| "health_pattern Critical = Some StatusCriticalFlashing"

definition with_pattern :: "level \<Rightarrow> status_pattern \<Rightarrow> string \<Rightarrow> string \<Rightarrow> alarm" where
  "with_pattern l p line0 line1 =
     \<lparr>al_level = l, al_pattern = p, al_line0 = line0, al_line1 = line1\<rparr>"

definition alarm_new :: "level \<Rightarrow> string \<Rightarrow> string \<Rightarrow> alarm option" where
  "alarm_new l line0 line1 =
     (case health_pattern l of
        None \<Rightarrow> None
      | Some p \<Rightarrow> Some \<lparr>al_level = l, al_pattern = p, al_line0 = line0, al_line1 = line1\<rparr>)"

definition most_critical :: "alarm list \<Rightarrow> alarm option" where
  "most_critical alarms =
     pick_best (\<lambda>b a. severity (al_pattern a) \<le> severity (al_pattern b)) alarms"

definition short_chip_name :: "string \<Rightarrow> string" where
  "short_chip_name chip =
     (if chip = ''coretemp'' then ''CPU'' else if chip = ''drivetemp'' then ''HDD''
      else if chip = ''nvme'' then ''NVMe'' else if chip = ''it8625'' then ''SYSTEM''
      else chip)"

section \<open>Facts\<close>

lemma alarm_new_None [simp]: "alarm_new l x y = None \<longleftrightarrow> l = Info"
  by (cases l) (simp_all add: alarm_new_def)

lemma alarm_new_Some:
  "alarm_new l x y = Some a \<Longrightarrow>
     al_level a = l \<and> health_pattern l = Some (al_pattern a) \<and> al_line0 a = x \<and> al_line1 a = y"
  by (auto simp: alarm_new_def split: option.splits)

lemma most_critical_None [simp]: "most_critical as = None \<longleftrightarrow> as = []"
  by (simp add: most_critical_def)

lemma most_critical_max:
  "most_critical as = Some r \<Longrightarrow>
     r \<in> set as \<and> (\<forall>a\<in>set as. severity (al_pattern a) \<le> severity (al_pattern r))"
  unfolding most_critical_def by (rule first_max.pick_max)

text \<open>A plain message and a health alarm of the same level look alike.\<close>

lemma show_default_matches_health: "pattern_for_show l look_default = health_pattern l"
  by (cases l) (simp_all add: pattern_for_show_def look_default_def)

lemma health_severity_mono:
  "health_pattern l = Some p \<Longrightarrow> health_pattern l' = Some p' \<Longrightarrow> l \<le> l' \<longleftrightarrow> severity p \<le> severity p'"
  by (cases l; cases l') (auto simp: less_eq_level_def)

text \<open>The alarm shown is the first of the most severe ones: it is in the list, everything
  before it is strictly less severe and everything behind it at most as severe; there is one
  exactly when there is any alarm.\<close>

theorem most_critical_first:
  "(most_critical as = None \<longleftrightarrow> as = []) \<and>
   (most_critical as = Some r \<longrightarrow>
      (\<exists>us vs. as = us @ r # vs \<and>
         (\<forall>u\<in>set us. severity (al_pattern u) < severity (al_pattern r)) \<and>
         (\<forall>v\<in>set vs. severity (al_pattern v) \<le> severity (al_pattern r))))"
  using pick_first [of "\<lambda>a. severity (al_pattern a)" "as" r]
  by (simp add: most_critical_def)

theorem most_critical_first_witness:
  "most_critical [with_pattern Warn StatusWarning ''A'' ''B'',
                  with_pattern Error StatusFailed ''C'' ''D''] =
     Some (with_pattern Error StatusFailed ''C'' ''D'') \<and>
   (\<exists>us vs. [with_pattern Warn StatusWarning ''A'' ''B'',
             with_pattern Error StatusFailed ''C'' ''D''] =
      us @ with_pattern Error StatusFailed ''C'' ''D'' # vs)"
proof -
  let ?as = "[with_pattern Warn StatusWarning ''A'' ''B'', with_pattern Error StatusFailed ''C'' ''D'']"
  have "most_critical ?as = Some (with_pattern Error StatusFailed ''C'' ''D'')"
    by (simp add: most_critical_def pick_best_def with_pattern_def)
  with most_critical_first [of ?as] show ?thesis by blast
qed

end
