(* ===== verification/Template.thy ===== *)
theory Template
  imports Prelude
begin

text \<open>
  \<open>src/template.rs\<close>: the \<open>{var}\<close> templates of the LCD lines. \<open>placeholders\<close> is the
  check at configuration load, \<open>render\<close> the substitution. Both loops search for the next
  brace; the remaining text gets shorter in every round.
\<close>

datatype template_error = StrayBrace string | UnclosedBrace string

abbreviation lbrace :: char where "lbrace \<equiv> CHR ''{''"
abbreviation rbrace :: char where "rbrace \<equiv> CHR ''}''"

definition no_brace :: "char \<Rightarrow> bool" where
  "no_brace c \<longleftrightarrow> c \<noteq> lbrace \<and> c \<noteq> rbrace"

text \<open>\<open>str::find\<close> and slicing: the text before the first character outside \<open>P\<close>, and the
  text from it on.\<close>

definition before_first :: "(char \<Rightarrow> bool) \<Rightarrow> string \<Rightarrow> string" where
  "before_first P s = takeWhile P s"

definition from_first :: "(char \<Rightarrow> bool) \<Rightarrow> string \<Rightarrow> string" where
  "from_first P s = dropWhile P s"

lemma from_first_length: "from_first P s = c # t \<Longrightarrow> length t < length s"
  by (metis from_first_def length_Cons length_dropWhile_le less_eq_Suc_le)

function placeholders_loop ::
  "string \<Rightarrow> string \<Rightarrow> string list \<Rightarrow> template_error + string list" where
  "placeholders_loop tpl rest names =
     (case from_first no_brace rest of
        [] \<Rightarrow> Inr names
      | c # after \<Rightarrow>
          if after \<noteq> [] \<and> hd after = c then placeholders_loop tpl (tl after) names
          else if c = rbrace then Inl (StrayBrace tpl)
          else
            case from_first (\<lambda>x. x \<noteq> rbrace) after of
              [] \<Rightarrow> Inl (UnclosedBrace tpl)
            | _ # rest' \<Rightarrow>
                placeholders_loop tpl rest' (names @ [before_first (\<lambda>x. x \<noteq> rbrace) after]))"
  by pat_completeness auto
termination
proof (relation "measure (\<lambda>(tpl, rest, names). length rest)", goal_cases)
  case (2 tpl rest names c after)
  then show ?case by (cases after) (auto dest: from_first_length)
next
  case (3 tpl rest names c after d rest')
  then show ?case by (auto dest!: from_first_length)
qed simp

declare placeholders_loop.simps [simp del]

definition placeholders :: "string \<Rightarrow> template_error + string list" where
  "placeholders tpl = placeholders_loop tpl tpl []"

function render_loop :: "(string \<times> string) list \<Rightarrow> string \<Rightarrow> string \<Rightarrow> string" where
  "render_loop vars rest out =
     (case from_first no_brace rest of
        [] \<Rightarrow> out @ rest
      | c # after \<Rightarrow>
          let out1 = out @ before_first no_brace rest
          in if after \<noteq> [] \<and> hd after = c then render_loop vars (tl after) (out1 @ [c])
             else
               case (c = lbrace, from_first (\<lambda>x. x \<noteq> rbrace) after) of
                 (True, d # rest') \<Rightarrow>
                   (let name = before_first (\<lambda>x. x \<noteq> rbrace) after
                    in case map_of vars name of
                         Some v \<Rightarrow> render_loop vars rest' (out1 @ v)
                       | None \<Rightarrow> render_loop vars rest' (out1 @ lbrace # name @ [rbrace]))
               | _ \<Rightarrow> render_loop vars after (out1 @ [c]))"
  by pat_completeness auto
termination
proof (relation "measure (\<lambda>(vars, rest, out). length rest)", goal_cases)
  case (2 vars rest out c after)
  then show ?case by (cases after) (auto dest: from_first_length)
qed (auto dest!: from_first_length sym [THEN from_first_length])

declare render_loop.simps [simp del]

definition render :: "string \<Rightarrow> (string \<times> string) list \<Rightarrow> string" where
  "render tpl vars = trim_end (render_loop vars tpl [])"

section \<open>Templates as token lists\<close>

text \<open>
  What a template means: literal characters (a brace doubled) and variables in braces. A name
  contains no closing brace and does not begin with an opening one, which would be a literal.
\<close>

datatype tok = Lit char | Var string

fun wf_tok :: "tok \<Rightarrow> bool" where
  "wf_tok (Lit c) \<longleftrightarrow> True"
| "wf_tok (Var n) \<longleftrightarrow> rbrace \<notin> set n \<and> (n = [] \<or> hd n \<noteq> lbrace)"

fun unparse_tok :: "tok \<Rightarrow> string" where
  "unparse_tok (Lit c) = (if no_brace c then [c] else [c, c])"
| "unparse_tok (Var n) = lbrace # n @ [rbrace]"

fun tok_names :: "tok \<Rightarrow> string list" where
  "tok_names (Lit c) = []"
| "tok_names (Var n) = [n]"

fun subst_tok :: "(string \<times> string) list \<Rightarrow> tok \<Rightarrow> string" where
  "subst_tok vars (Lit c) = [c]"
| "subst_tok vars (Var n) = (case map_of vars n of Some v \<Rightarrow> v | None \<Rightarrow> lbrace # n @ [rbrace])"

definition unparse :: "tok list \<Rightarrow> string" where
  "unparse ts = concat (map unparse_tok ts)"

lemma unparse_simps [simp]:
  "unparse [] = []" "unparse (t # ts) = unparse_tok t @ unparse ts"
  "unparse (ts @ us) = unparse ts @ unparse us"
  by (simp_all add: unparse_def)

lemma unparse_lits: "\<forall>c\<in>set s. no_brace c \<Longrightarrow> unparse (map Lit s) = s"
  by (induction s) auto

lemma first_simps [simp]:
  "from_first P [] = []" "before_first P [] = []"
  "from_first P (c # s) = (if P c then from_first P s else c # s)"
  "before_first P (c # s) = (if P c then c # before_first P s else [])"
  by (simp_all add: from_first_def before_first_def)

lemma first_append [simp]:
  "\<forall>c\<in>set s. P c \<Longrightarrow> from_first P (s @ t) = from_first P t"
  "\<forall>c\<in>set s. P c \<Longrightarrow> before_first P (s @ t) = s @ before_first P t"
  by (simp_all add: from_first_def before_first_def)

lemma first_split: "s = before_first P s @ from_first P s"
  by (simp add: from_first_def before_first_def)

lemma before_first_all: "\<forall>c\<in>set (before_first P s). P c"
  by (auto simp: before_first_def dest: set_takeWhileD)

lemma no_brace_braces [simp]: "\<not> no_brace lbrace" "\<not> no_brace rbrace"
  by (simp_all add: no_brace_def)

lemma placeholders_tok:
  assumes "wf_tok t"
  shows "placeholders_loop tpl (unparse_tok t @ s) names =
    placeholders_loop tpl s (names @ tok_names t)"
proof (cases t)
  case (Lit c)
  show ?thesis
  proof (cases "no_brace c")
    case True
    with Lit show ?thesis
      by (simp add: placeholders_loop.simps [of tpl "c # s"] placeholders_loop.simps [of tpl s])
  next
    case False
    with Lit show ?thesis by (simp add: placeholders_loop.simps [of tpl "c # c # s"])
  qed
next
  case (Var n)
  with assms have "\<forall>c\<in>set n. c \<noteq> rbrace" by auto
  with Var assms show ?thesis
    by (cases n) (auto simp: placeholders_loop.simps [of tpl "lbrace # _"])
qed

lemma placeholders_toks:
  "list_all wf_tok ts \<Longrightarrow>
     placeholders_loop tpl (unparse ts) names = Inr (names @ concat (map tok_names ts))"
proof (induction ts arbitrary: names)
  case Nil
  then show ?case by (simp add: placeholders_loop.simps)
next
  case (Cons t ts)
  then show ?case by (simp add: placeholders_tok)
qed

lemma render_tok:
  assumes "wf_tok t"
  shows "render_loop vars (unparse_tok t @ s) out = render_loop vars s (out @ subst_tok vars t)"
proof (cases t)
  case (Lit c)
  show ?thesis
  proof (cases "no_brace c")
    case True
    with Lit show ?thesis
      by (simp add: render_loop.simps [of vars "c # s"] render_loop.simps [of vars s] Let_def
          split: list.split)
  next
    case False
    with Lit show ?thesis by (simp add: render_loop.simps [of vars "c # c # s"])
  qed
next
  case (Var n)
  with assms have "\<forall>c\<in>set n. c \<noteq> rbrace" by auto
  with Var assms show ?thesis
    by (cases n) (auto simp: render_loop.simps [of vars "lbrace # _"] Let_def split: option.split)
qed

lemma render_toks:
  "list_all wf_tok ts \<Longrightarrow>
     render_loop vars (unparse ts) out = out @ concat (map (subst_tok vars) ts)"
proof (induction ts arbitrary: out)
  case Nil
  then show ?case by (simp add: render_loop.simps)
next
  case (Cons t ts)
  then show ?case by (simp add: render_tok)
qed

text \<open>Every accepted template is the text of a token list.\<close>

lemma placeholders_complete:
  "placeholders_loop tpl rest names = Inr names' \<Longrightarrow>
     \<exists>ts. list_all wf_tok ts \<and> rest = unparse ts \<and> names' = names @ concat (map tok_names ts)"
proof (induction tpl rest names rule: placeholders_loop.induct)
  case (1 tpl rest names)
  let ?b = "before_first no_brace rest"
  have split: "rest = ?b @ from_first no_brace rest" by (rule first_split)
  have lits: "unparse (map Lit ?b) = ?b" "list_all wf_tok (map Lit ?b)"
    "concat (map tok_names (map Lit ?b)) = []"
    using before_first_all [of no_brace rest] by (simp_all add: unparse_lits list_all_iff)
  show ?case
  proof (cases "from_first no_brace rest")
    case Nil
    with "1.prems" split lits show ?thesis
      by (intro exI [of _ "map Lit ?b"]) (simp add: placeholders_loop.simps [of tpl rest])
  next
    case (Cons c after)
    then have brace: "\<not> no_brace c" by (metis from_first_def hd_dropWhile list.discI list.sel(1))
    show ?thesis
    proof (cases "after \<noteq> [] \<and> hd after = c")
      case True
      with Cons "1.prems" have "placeholders_loop tpl (tl after) names = Inr names'"
        by (simp add: placeholders_loop.simps [of tpl rest])
      with "1.IH"(1) [OF Cons True] obtain ts where ts: "list_all wf_tok ts"
        "tl after = unparse ts" "names' = names @ concat (map tok_names ts)" by blast
      from True have "after = c # tl after" by (cases after) auto
      with Cons split lits ts brace show ?thesis
        by (intro exI [of _ "map Lit ?b @ Lit c # ts"]) simp
    next
      case False
      with Cons "1.prems" brace obtain d rest' where c: "c = lbrace"
        and d: "from_first (\<lambda>x. x \<noteq> rbrace) after = d # rest'"
        and loop: "placeholders_loop tpl rest' (names @ [before_first (\<lambda>x. x \<noteq> rbrace) after])
          = Inr names'"
        by (auto simp: placeholders_loop.simps [of tpl rest] no_brace_def split: if_splits list.splits)
      let ?n = "before_first (\<lambda>x. x \<noteq> rbrace) after"
      have "c \<noteq> rbrace" using c by simp
      with "1.IH"(2) [OF Cons False _ d loop] obtain ts where ts: "list_all wf_tok ts"
        "rest' = unparse ts" "names' = (names @ [?n]) @ concat (map tok_names ts)" by blast
      have "d = rbrace" using d by (metis (mono_tags) from_first_def hd_dropWhile list.discI list.sel(1))
      then have after: "after = ?n @ rbrace # rest'"
        using first_split [of after "\<lambda>x. x \<noteq> rbrace"] d by simp
      have "wf_tok (Var ?n)"
        using before_first_all [of "\<lambda>x. x \<noteq> rbrace" after] False after c
        by (cases ?n) (auto simp: hd_append)
      with Cons split lits ts after c show ?thesis
        by (intro exI [of _ "map Lit ?b @ Var ?n # ts"]) simp
    qed
  qed
qed

text \<open>\<open>placeholders\<close> accepts exactly the texts of well-formed templates and returns
  their variables in order.\<close>

theorem placeholders_correct:
  "placeholders tpl = Inr names \<longleftrightarrow>
     (\<exists>ts. list_all wf_tok ts \<and> unparse ts = tpl \<and> names = concat (map tok_names ts))"
  unfolding placeholders_def
  using placeholders_complete [of tpl tpl "[]" names] placeholders_toks by fastforce

text \<open>C40. \<open>render\<close> replaces exactly the variables of a template: each by its first value in
  the list, an unknown one by itself in braces, every other character by itself and a doubled
  brace by one; only trailing white space is dropped, and rendering never loops.\<close>

theorem render_correct:
  assumes "list_all wf_tok ts"
  shows "render (unparse ts) vars = trim_end (concat (map (subst_tok vars) ts))"
  using render_toks [OF assms, of vars "[]"] by (simp add: render_def)

theorem render_correct_witness:
  "render (unparse [Lit CHR ''T'', Var ''t'', Lit rbrace]) [(''t'', ''42'')] = ''T42}''"
  by (subst render_correct) (simp_all add: trim_end_def is_whitespace_def)

end
