(* ===== verification/Schedule.thy ===== *)
theory Schedule
  imports Levels
begin

text \<open>
  \<open>src/power.rs\<close>: the weekly power schedule. Rules and their parser, local wall-clock time
  with the UTC fallback, the search for the next occurrence, the scheduler that fires shutdowns and
  restarts on a minute boundary, and the RTC wake alarm it keeps armed.

  Epoch seconds (\<open>i64\<close>) are \<open>int\<close> with saturating operations. The system's conversion to
  local time is the argument \<open>local\<close>, as in the code (\<open>poll_with\<close>). The wake alarm file is
  a device \<open>'d\<close> with a read and a write function. Error texts are constructors.
\<close>

unbundle bit_operations_syntax

section \<open>Rules\<close>

datatype action = Shutdown | Restart

datatype power_action = PowerOn | PowerShutdown | PowerRestart

definition power_action_parse :: "string \<Rightarrow> power_action option" where
  "power_action_parse s =
     (let l = to_ascii_lowercase (trim s) in
      if l = ''power_on'' \<or> l = ''poweron'' \<or> l = ''wake'' then Some PowerOn
      else if l = ''shutdown'' \<or> l = ''power_off'' \<or> l = ''poweroff'' then Some PowerShutdown
      else if l = ''restart'' \<or> l = ''reboot'' then Some PowerRestart
      else None)"

fun power_action_name :: "power_action \<Rightarrow> string" where
  "power_action_name PowerOn = ''power on''"
| "power_action_name PowerShutdown = ''shutdown''"
| "power_action_name PowerRestart = ''restart''"

fun menu_action :: "power_action \<Rightarrow> action option" where
  "menu_action PowerOn = None"
| "menu_action PowerShutdown = Some Shutdown"
| "menu_action PowerRestart = Some Restart"

record power_rule =
  pr_enabled :: bool
  pr_days :: "string list"
  pr_time :: string
  pr_action :: string
  pr_countdown_secs :: nat

record rule =
  r_days :: "8 word"
  r_minute_of_day :: nat
  r_action :: power_action
  r_countdown_secs :: nat
  r_label :: string

datatype rule_error =
  NoAction | UnknownAction string | NoDays | UnknownDay string | BadTime string
| CountdownTooLong nat

definition MAX_COUNTDOWN_SECS :: nat where "MAX_COUNTDOWN_SECS = 3600"
definition MAX_GAP_SECS :: int where "MAX_GAP_SECS = 300"
definition RTC_RECHECK_SECS :: int where "RTC_RECHECK_SECS = 60"
definition LOOKAHEAD_MINUTES :: int where "LOOKAHEAD_MINUTES = 8 * 24 * 60"
definition SHUTDOWN_MARGIN_MINUTES :: nat where "SHUTDOWN_MARGIN_MINUTES = 5"

definition DAY_NAMES :: "string list" where
  "DAY_NAMES = [''sun'', ''mon'', ''tue'', ''wed'', ''thu'', ''fri'', ''sat'']"

definition FULL_DAY_NAMES :: "string list" where
  "FULL_DAY_NAMES =
     [''sunday'', ''monday'', ''tuesday'', ''wednesday'', ''thursday'', ''friday'', ''saturday'']"

definition day_mask :: "string \<Rightarrow> rule_error + 8 word" where
  "day_mask day =
     (let d = to_ascii_lowercase (trim day) in
      if d = ''daily'' \<or> d = ''everyday'' \<or> d = ''all'' then Inr 0b1111111
      else if d = ''weekdays'' then Inr 0b0111110
      else if d = ''weekends'' then Inr 0b1000001
      else case find (\<lambda>i. d = DAY_NAMES ! i \<or> d = FULL_DAY_NAMES ! i) [0..<7] of
             None \<Rightarrow> Inl (UnknownDay day)
           | Some i \<Rightarrow> Inr (push_bit i 1))"

fun parse_days_loop :: "8 word \<Rightarrow> string list \<Rightarrow> rule_error + 8 word" where
  "parse_days_loop acc [] = Inr acc"
| "parse_days_loop acc (day # days) =
     (case day_mask day of
        Inl e \<Rightarrow> Inl e
      | Inr b \<Rightarrow> parse_days_loop (acc OR b) days)"

definition parse_days :: "string list \<Rightarrow> rule_error + 8 word" where
  "parse_days days = (if days = [] then Inl NoDays else parse_days_loop 0 days)"

definition days_text :: "8 word \<Rightarrow> string" where
  "days_text days =
     (if days = 0b1111111 then ''daily''
      else if days = 0b0111110 then ''weekdays''
      else if days = 0b1000001 then ''weekends''
      else intercalate '','' (map (\<lambda>i. DAY_NAMES ! i) (filter (\<lambda>i. bit days i) [0..<7])))"

definition parse_hhmm :: "string \<Rightarrow> nat option" where
  "parse_hhmm s =
     (case split_once CHR '':'' (trim s) of
        None \<Rightarrow> None
      | Some (h, m) \<Rightarrow>
          (case (parse_uint (2 ^ 32) h, parse_uint (2 ^ 32) m) of
             (Some h, Some m) \<Rightarrow> (if h < 24 \<and> m < 60 then Some (h * 60 + m) else None)
           | _ \<Rightarrow> None))"

definition rule_parse :: "nat \<Rightarrow> power_rule \<Rightarrow> rule_error + rule" where
  "rule_parse index raw =
     (case power_action_parse (pr_action raw) of
        None \<Rightarrow> Inl (if pr_action raw = [] then NoAction else UnknownAction (pr_action raw))
      | Some act \<Rightarrow>
          (case parse_days (pr_days raw) of
             Inl e \<Rightarrow> Inl e
           | Inr days \<Rightarrow>
               (case parse_hhmm (pr_time raw) of
                  None \<Rightarrow> Inl (BadTime (pr_time raw))
                | Some minute \<Rightarrow>
                    if MAX_COUNTDOWN_SECS < pr_countdown_secs raw
                    then Inl (CountdownTooLong (pr_countdown_secs raw))
                    else Inr \<lparr>r_days = days, r_minute_of_day = minute, r_action = act,
                               r_countdown_secs = pr_countdown_secs raw,
                               r_label = ''#'' @ nat_str (index + 1) @ '' '' @
                                 power_action_name act @ '' '' @ days_text days @ '' '' @
                                 pad0 2 (minute div 60) @ '':'' @ pad0 2 (minute mod 60)\<rparr>)))"

definition parse_rules :: "power_rule list \<Rightarrow> rule list" where
  "parse_rules raw =
     List.map_filter
       (\<lambda>(i, r). if pr_enabled r then (case rule_parse i r of Inl e \<Rightarrow> None | Inr x \<Rightarrow> Some x)
                 else None)
       (zip [0..<length raw] raw)"

section \<open>Local time\<close>

record local_time =
  lt_year :: int
  lt_month :: nat
  lt_day :: nat
  lt_weekday :: nat
  lt_hour :: nat
  lt_minute :: nat
  lt_utc_offset :: int

definition small :: "int \<Rightarrow> nat" where
  "small v = (if 0 \<le> v \<and> v < 2 ^ 32 then nat v else 0)"

definition clamp_year :: "int \<Rightarrow> int" where
  "clamp_year y = (if - (2 ^ 31) \<le> y \<and> y < 2 ^ 31 then y
                   else if y < 0 then - (2 ^ 31) else 2 ^ 31 - 1)"

text \<open>Rust's \<open>/\<close> truncates; every dividend below is non-negative, so it is \<open>div\<close>.\<close>

definition from_utc :: "int \<Rightarrow> local_time" where
  "from_utc t =
     (let days = t div 86400;
          s = t mod 86400;
          z = sat_add days 719468;
          era = z div 146097;
          doe = z mod 146097;
          yoe = (doe - doe div 1460 + doe div 36524 - doe div 146096) div 365;
          doy = doe - (365 * yoe + yoe div 4 - yoe div 100);
          mp = (5 * doy + 2) div 153;
          month = (if mp < 10 then mp + 3 else mp - 9);
          year = sat_add (sat_add yoe (sat_mul era 400)) (if month \<le> 2 then 1 else 0)
      in \<lparr>lt_year = clamp_year year, lt_month = small month,
          lt_day = small (doy - (153 * mp + 2) div 5 + 1),
          lt_weekday = small (sat_add days 4 mod 7),
          lt_hour = small (s div 3600), lt_minute = small (s div 60 mod 60),
          lt_utc_offset = 0\<rparr>)"

text \<open>\<open>libc\<close> stands for \<open>localtime_r\<close>: the broken-down time, or a failure.\<close>

definition from_epoch :: "(int \<Rightarrow> local_time option) \<Rightarrow> int \<Rightarrow> local_time" where
  "from_epoch libc t = (case libc t of None \<Rightarrow> from_utc t | Some lt \<Rightarrow> lt)"

definition wall :: "local_time \<Rightarrow> int \<times> nat \<times> nat \<times> nat \<times> nat" where
  "wall t = (lt_year t, lt_month t, lt_day t, lt_hour t, lt_minute t)"

definition rule_matches :: "rule \<Rightarrow> local_time \<Rightarrow> bool" where
  "rule_matches r t \<longleftrightarrow>
     bit (r_days r) (lt_weekday t) \<and> lt_hour t * 60 + lt_minute t = r_minute_of_day r"

definition week_minutes :: "rule \<Rightarrow> nat list" where
  "week_minutes r = map (\<lambda>d. d * 1440 + r_minute_of_day r) (filter (bit (r_days r)) [0..<7])"

section \<open>Questionable combinations\<close>

datatype lint_warning = SameMinute string string | TooSoon string nat string

definition is_off :: "rule \<Rightarrow> bool" where
  "is_off r \<longleftrightarrow> (case r_action r of PowerShutdown \<Rightarrow> True | PowerRestart \<Rightarrow> True | _ \<Rightarrow> False)"

definition share_minute :: "rule \<Rightarrow> rule \<Rightarrow> bool" where
  "share_minute a b \<longleftrightarrow>
     list_ex (\<lambda>m. list_ex (\<lambda>n. n = m) (week_minutes b)) (week_minutes a)"

fun lint_clashes :: "rule list \<Rightarrow> lint_warning list" where
  "lint_clashes [] = []"
| "lint_clashes (a # rest) =
     map (\<lambda>b. SameMinute (r_label a) (r_label b))
       (filter (\<lambda>b. r_action a \<noteq> r_action b \<and> share_minute a b) rest)
     @ lint_clashes rest"

definition WEEK :: nat where "WEEK = 7 * 1440"

definition div_ceil :: "nat \<Rightarrow> nat \<Rightarrow> nat" where
  "div_ceil a b = (if a mod b = 0 then a div b else a div b + 1)"

definition lint_window :: "rule \<Rightarrow> nat" where
  "lint_window off =
     (let w = div_ceil (r_countdown_secs off) 60 + SHUTDOWN_MARGIN_MINUTES
      in if w < 2 ^ 32 then w else 2 ^ 32 - 1)"

definition too_soon :: "rule \<Rightarrow> rule \<Rightarrow> bool" where
  "too_soon off on \<longleftrightarrow>
     list_ex (\<lambda>m. list_ex (\<lambda>n. (n + WEEK - m) mod WEEK < lint_window off) (week_minutes on))
       (week_minutes off)"

definition lint :: "rule list \<Rightarrow> lint_warning list" where
  "lint rules =
     lint_clashes (filter is_off rules)
     @ concat (map (\<lambda>off.
         map (\<lambda>on. TooSoon (r_label on) (lint_window off) (r_label off))
           (filter (too_soon off) (filter (\<lambda>r. r_action r = PowerOn) rules)))
       (filter (\<lambda>r. r_action r = PowerShutdown) (filter is_off rules)))"

section \<open>The next occurrence\<close>

definition is_repeated_wall_time :: "int \<Rightarrow> (int \<Rightarrow> local_time) \<Rightarrow> bool" where
  "is_repeated_wall_time m local \<longleftrightarrow>
     (let now = local m;
          shift = sat_sub (lt_utc_offset (local (sat_sub m (4 * 3600)))) (lt_utc_offset now)
      in 0 < shift \<and> wall (local (sat_sub m shift)) = wall now)"

definition first_boundary :: "int \<Rightarrow> int" where
  "first_boundary after = sat_add (sat_mul (after div 60) 60) 60"

definition minute_boundaries :: "int \<Rightarrow> int \<Rightarrow> int list" where
  "minute_boundaries after until =
     (let first = first_boundary after
      in if until < first then []
         else map (\<lambda>k. first + 60 * int k) [0..<Suc (nat ((until - first) div 60))])"

definition due_at :: "rule list \<Rightarrow> int \<Rightarrow> (int \<Rightarrow> local_time) \<Rightarrow> (rule \<Rightarrow> bool) \<Rightarrow> rule list" where
  "due_at rules m local P =
     (let t = local m;
          due = filter (\<lambda>r. P r \<and> rule_matches r t) rules;
          repeated = (due \<noteq> [] \<and> is_repeated_wall_time m local)
      in filter (\<lambda>_. \<not> repeated) due)"

text \<open>The derived order on \<open>bool\<close> is HOL's: \<open>False < True\<close>.\<close>

definition best :: "rule list \<Rightarrow> rule option" where
  "best rules = max_by_key (\<lambda>r. r_action r = PowerShutdown) rules"

definition next_occurrence ::
  "rule list \<Rightarrow> int \<Rightarrow> (int \<Rightarrow> local_time) \<Rightarrow> (rule \<Rightarrow> bool) \<Rightarrow> (int \<times> rule) option" where
  "next_occurrence rules after local P =
     (if \<not> list_ex P rules then None
      else find_map
             (\<lambda>m. map_option (\<lambda>r. (m, r)) (best (due_at rules m local P)))
             (minute_boundaries after (sat_add after (LOOKAHEAD_MINUTES * 60))))"

definition is_power_on :: "rule \<Rightarrow> bool" where
  "is_power_on r \<longleftrightarrow> r_action r = PowerOn"

definition is_power_off :: "rule \<Rightarrow> bool" where
  "is_power_off r \<longleftrightarrow> r_action r \<noteq> PowerOn"

section \<open>Searching the minutes\<close>

text \<open>Epoch times far from the ends of \<open>i64\<close>: nothing saturates.\<close>

definition epoch_ok :: "int \<Rightarrow> bool" where
  "epoch_ok t \<longleftrightarrow> 0 \<le> t \<and> t \<le> 2 ^ 62"

definition is_due :: "(int \<Rightarrow> local_time) \<Rightarrow> (rule \<Rightarrow> bool) \<Rightarrow> int \<Rightarrow> rule \<Rightarrow> bool" where
  "is_due local P m r \<longleftrightarrow> P r \<and> rule_matches r (local m) \<and> \<not> is_repeated_wall_time m local"

lemma sat_id:
  "I64_MIN \<le> a + b \<Longrightarrow> a + b \<le> I64_MAX \<Longrightarrow> sat_add a b = a + b"
  "I64_MIN \<le> a - b \<Longrightarrow> a - b \<le> I64_MAX \<Longrightarrow> sat_sub a b = a - b"
  "I64_MIN \<le> a * b \<Longrightarrow> a * b \<le> I64_MAX \<Longrightarrow> sat_mul a b = a * b"
  by (simp_all add: sat_add_def sat_sub_def sat_mul_def clamp64_id)

lemma first_boundary_eq: "epoch_ok a \<Longrightarrow> first_boundary a = a div 60 * 60 + 60"
proof -
  assume "epoch_ok a"
  then have "0 \<le> a div 60 * 60" "a div 60 * 60 \<le> 2 ^ 62" by (auto simp: epoch_ok_def)
  then show ?thesis by (simp add: first_boundary_def sat_id I64_MIN_def I64_MAX_def)
qed

lemma minute_boundaries_sorted: "sorted_wrt (<) (minute_boundaries a u)"
proof -
  have "sorted_wrt (<) (map (\<lambda>k. f + 60 * int k) [0..<n])" for f n
    by (auto simp: sorted_wrt_map intro: sorted_wrt_mono_rel [OF _ sorted_wrt_upt])
  from this [of _ "Suc _"] show ?thesis by (simp add: minute_boundaries_def Let_def del: upt_Suc)
qed

lemma minute_boundaries_set:
  assumes "epoch_ok a"
  shows "set (minute_boundaries a u) = {m. a < m \<and> m \<le> u \<and> 60 dvd m}"
proof (intro set_eqI iffI)
  fix m
  assume "m \<in> set (minute_boundaries a u)"
  then obtain k where "a div 60 * 60 + 60 \<le> u" "m = a div 60 * 60 + 60 + 60 * int k"
    "k < Suc (nat ((u - (a div 60 * 60 + 60)) div 60))"
    unfolding minute_boundaries_def Let_def first_boundary_eq [OF assms]
    by (cases "u < a div 60 * 60 + 60") (auto simp del: upt_Suc)
  moreover then have "int k \<le> (u - (a div 60 * 60 + 60)) div 60" by simp
  ultimately show "m \<in> {m. a < m \<and> m \<le> u \<and> 60 dvd m}" by auto
next
  fix m
  assume "m \<in> {m. a < m \<and> m \<le> u \<and> 60 dvd m}"
  then obtain j where m: "a < 60 * j" "60 * j \<le> u" "m = 60 * j" by (auto elim!: dvdE)
  moreover have "60 * (a div 60) \<le> a" by simp
  ultimately have j: "a div 60 + 1 \<le> j" by linarith
  define k where "k = nat (j - (a div 60 + 1))"
  with j have k: "int k = j - (a div 60 + 1)" by simp
  with m j have "m = a div 60 * 60 + 60 + 60 * int k" "a div 60 * 60 + 60 \<le> u" by auto
  moreover from k m have "60 * int k \<le> u - (a div 60 * 60 + 60)" by linarith
  then have "int k \<le> (u - (a div 60 * 60 + 60)) div 60" by simp
  then have "k < Suc (nat ((u - (a div 60 * 60 + 60)) div 60))" by linarith
  ultimately show "m \<in> set (minute_boundaries a u)"
    unfolding minute_boundaries_def Let_def first_boundary_eq [OF assms] set_map set_upt if_not_P
    by (simp del: upt_Suc)
qed

lemma due_at_set: "set (due_at rules m local P) = {r \<in> set rules. is_due local P m r}"
  by (auto simp: due_at_def Let_def is_due_def filter_empty_conv)

lemma best_Some:
  "best rs = Some r \<Longrightarrow> r \<in> set rs \<and>
     (r_action r = PowerShutdown \<or> list_all (\<lambda>x. r_action x \<noteq> PowerShutdown) rs)"
  using max_by_key_max [of "\<lambda>r. r_action r = PowerShutdown" rs r]
  by (auto simp: best_def list_all_iff)

lemma best_None [simp]: "best rs = None \<longleftrightarrow> rs = []"
  by (simp add: best_def)

lemma due_at_empty: "due_at rules m local P = [] \<longleftrightarrow> (\<forall>r\<in>set rules. \<not> is_due local P m r)"
  using due_at_set [of rules m local P] by (auto simp flip: set_empty)

lemma lookahead: "epoch_ok a \<Longrightarrow> sat_add a (LOOKAHEAD_MINUTES * 60) = a + 691200"
  by (simp add: LOOKAHEAD_MINUTES_def sat_id epoch_ok_def I64_MIN_def I64_MAX_def)

lemma next_occurrence_None:
  assumes "epoch_ok a"
  shows "next_occurrence rules a local P = None \<longleftrightarrow>
    (\<forall>m. a < m \<longrightarrow> m \<le> a + 691200 \<longrightarrow> 60 dvd m \<longrightarrow> (\<forall>r\<in>set rules. \<not> is_due local P m r))"
  by (auto simp: next_occurrence_def find_map_None lookahead [OF assms]
      minute_boundaries_set [OF assms] due_at_empty list_ex_iff is_due_def)

lemma next_occurrence_Some:
  assumes "epoch_ok a" and "next_occurrence rules a local P = Some (t, r)"
  shows "a < t \<and> t \<le> a + 691200 \<and> 60 dvd t \<and> best (due_at rules t local P) = Some r
    \<and> (\<forall>m. a < m \<longrightarrow> m < t \<longrightarrow> 60 dvd m \<longrightarrow> (\<forall>x\<in>set rules. \<not> is_due local P m x))"
proof -
  let ?ms = "minute_boundaries a (a + 691200)"
  obtain us vs where ms: "?ms = us @ t # vs" and b: "best (due_at rules t local P) = Some r"
    and us: "\<forall>u\<in>set us. due_at rules u local P = []"
    using assms(2) by (auto simp: next_occurrence_def lookahead [OF assms(1)] split: if_splits
        dest!: find_map_Some)
  have t: "t \<in> {m. a < m \<and> m \<le> a + 691200 \<and> 60 dvd m}"
    unfolding minute_boundaries_set [OF assms(1), symmetric] ms by simp
  have "m \<in> set us" if "a < m" "m < t" "60 dvd m" for m
  proof -
    from t that have "m \<in> set ?ms" by (simp add: minute_boundaries_set [OF assms(1)])
    moreover have "\<forall>v\<in>set vs. t < v"
      using minute_boundaries_sorted [of a "a + 691200"] by (simp add: ms sorted_wrt_append)
    ultimately show ?thesis using \<open>m < t\<close> by (auto simp: ms)
  qed
  with us t b show ?thesis by (auto simp: due_at_empty)
qed

section \<open>What a parsed rule satisfies\<close>

definition rule_ok :: "rule \<Rightarrow> bool" where
  "rule_ok r \<longleftrightarrow> list_ex (\<lambda>d. bit (r_days r) d) [0..<7] \<and> \<not> bit (r_days r) 7
     \<and> r_minute_of_day r < 1440 \<and> r_countdown_secs r \<le> MAX_COUNTDOWN_SECS"

lemma less_7: "(d::nat) < 7 \<Longrightarrow> d = 0 \<or> d = 1 \<or> d = 2 \<or> d = 3 \<or> d = 4 \<or> d = 5 \<or> d = 6"
  by presburger

lemma upt_7 [simp]: "[0..<7] = [0, 1, 2, 3, 4, 5, 6::nat]"
  by (simp add: upt_rec)

text \<open>Every day entry sets at least one bit below the seventh, and not the seventh.\<close>

definition days_ok :: "8 word \<Rightarrow> bool" where
  "days_ok w \<longleftrightarrow> list_ex (\<lambda>d. bit w d) [0..<7] \<and> \<not> bit w 7"

lemma days_ok_or: "days_ok b \<Longrightarrow> \<not> bit a 7 \<Longrightarrow> days_ok (a OR b)"
  by (auto simp: days_ok_def bit_or_iff)

lemma day_mask_ok:
  assumes "day_mask s = Inr b" shows "days_ok b"
proof -
  have "days_ok (push_bit i 1)" if "i < 7" for i
    using less_7 [OF that] by (elim disjE) (simp_all add: days_ok_def)
  moreover have "days_ok 0b1111111" "days_ok 0b0111110" "days_ok 0b1000001"
    by (simp_all add: days_ok_def)
  moreover have "i < 7" if "find P [0..<7::nat] = Some i" for P i
    using that by (auto simp: find_Some_iff simp del: upt_7)
  ultimately show ?thesis
    using assms by (auto simp: day_mask_def Let_def simp del: upt_7 split: if_splits option.splits)
qed

lemma parse_days_loop_ok:
  "parse_days_loop acc ds = Inr w \<Longrightarrow> \<not> bit acc 7 \<Longrightarrow> days_ok acc \<or> ds \<noteq> [] \<Longrightarrow> days_ok w"
proof (induction ds arbitrary: acc)
  case Nil
  then show ?case by simp
next
  case (Cons d ds)
  then obtain b where b: "day_mask d = Inr b" "parse_days_loop (acc OR b) ds = Inr w"
    by (auto split: sum.splits)
  with Cons.prems have "days_ok (acc OR b)" by (blast intro: days_ok_or day_mask_ok)
  then have "\<not> bit (acc OR b) 7" by (simp add: days_ok_def)
  with Cons.IH b \<open>days_ok (acc OR b)\<close> show ?case by blast
qed

lemma parse_hhmm_less: "parse_hhmm s = Some n \<Longrightarrow> n < 1440"
  by (auto simp: parse_hhmm_def split: option.splits prod.splits if_splits)

lemma rule_parse_ok: "rule_parse i raw = Inr r \<Longrightarrow> rule_ok r"
  using parse_days_loop_ok [of 0 "pr_days raw"]
  by (auto simp: rule_parse_def rule_ok_def parse_days_def days_ok_def parse_hhmm_less
      simp del: upt_7 split: option.splits sum.splits if_splits)

lemma parse_rules_ok: "r \<in> set (parse_rules raw) \<Longrightarrow> rule_ok r"
  by (auto simp: parse_rules_def List.map_filter_def rule_parse_ok split: if_splits sum.splits)

section \<open>Time zones without shifts\<close>

text \<open>
  A zone with one constant offset, which is UTC shifted: the instance of \<open>local\<close> on which the
  schedule is shown to be live. \<open>fixed_zone 0\<close> is the fallback \<open>from_utc\<close>.
\<close>

definition fixed_zone :: "int \<Rightarrow> int \<Rightarrow> local_time" where
  "fixed_zone off t = (from_utc (t + off))\<lparr>lt_utc_offset := off\<rparr>"

lemma from_utc_sel:
  "lt_weekday (from_utc t) = small (sat_add (t div 86400) 4 mod 7)"
  "lt_hour (from_utc t) = small (t mod 86400 div 3600)"
  "lt_minute (from_utc t) = small (t mod 86400 div 60 mod 60)"
  by (simp_all only: from_utc_def Let_def local_time.simps)

lemma from_utc_fields:
  assumes "0 \<le> t" "t \<le> 2 ^ 63"
  shows "lt_weekday (from_utc t) = nat ((t div 86400 + 4) mod 7)"
    and "lt_hour (from_utc t) * 60 + lt_minute (from_utc t) = nat (t mod 86400 div 60)"
proof -
  have "sat_add (t div 86400) 4 = t div 86400 + 4"
    using assms by (simp add: sat_id I64_MIN_def I64_MAX_def)
  then show "lt_weekday (from_utc t) = nat ((t div 86400 + 4) mod 7)"
    by (simp add: from_utc_sel small_def)
  define s where "s = t mod 86400"
  have s: "0 \<le> s" "s < 86400" by (simp_all add: s_def)
  have "s div 3600 = s div 60 div 60" by (simp add: zdiv_zmult2_eq [symmetric])
  then have "s div 3600 * 60 + s div 60 mod 60 = s div 60" by simp
  moreover have "0 \<le> s div 3600" "0 \<le> s div 60 mod 60" "0 \<le> s div 60" using s by auto
  ultimately have "nat (s div 3600) * 60 + nat (s div 60 mod 60) = nat (s div 60)"
    by (metis nat_add_distrib nat_mult_distrib nat_numeral mult_nonneg_nonneg zero_le_numeral)
  moreover from s have "s div 3600 < 2 ^ 32" "0 \<le> s div 3600" "s div 60 mod 60 < 2 ^ 32"
    by auto
  ultimately show "lt_hour (from_utc t) * 60 + lt_minute (from_utc t) = nat (t mod 86400 div 60)"
    by (simp add: from_utc_sel small_def flip: s_def)
qed

lemma fixed_zone_not_repeated [simp]: "\<not> is_repeated_wall_time m (fixed_zone off)"
  by (simp add: is_repeated_wall_time_def fixed_zone_def Let_def sat_sub_def clamp64_def
      I64_MIN_def I64_MAX_def)

lemma fixed_zone_matches:
  assumes "epoch_ok a" "0 \<le> off" "off \<le> 86400" "60 dvd off" "rule_ok r"
  shows "\<exists>m. a < m \<and> m \<le> a + 604800 \<and> 60 dvd m \<and> rule_matches r (fixed_zone off m)"
proof -
  obtain d where d: "d < 7" "bit (r_days r) d"
    using assms(5) by (auto simp: rule_ok_def list_ex_iff simp del: upt_7)
  define c where "c = (int d + 3) mod 7 * 86400 + 60 * int (r_minute_of_day r)"
  have mod: "r_minute_of_day r < 1440" using assms(5) by (simp add: rule_ok_def)
  define q where "q = (a + off - c) div 604800 + 1"
  define m where "m = c + 604800 * q - off"
  have bounds: "a < m" "m \<le> a + 604800"
    using mult_div_mod_eq [of 604800 "a + off - c"] pos_mod_bound [of 604800 "a + off - c"]
      pos_mod_sign [of 604800 "a + off - c"] unfolding m_def q_def by simp_all
  have "60 dvd c" unfolding c_def by presburger
  then have "60 dvd m" using assms(4) unfolding m_def by (simp add: dvd_add dvd_diff)
  moreover have "rule_matches r (fixed_zone off m)"
  proof -
    have u: "m + off = (7 * q + (int d + 3) mod 7) * 86400 + 60 * int (r_minute_of_day r)"
      by (simp add: m_def c_def)
    have w: "0 \<le> (int d + 3) mod 7" "(int d + 3) mod 7 < 7" by auto
    have "(m + off) div 86400 = 7 * q + (int d + 3) mod 7"
      and s: "(m + off) mod 86400 = 60 * int (r_minute_of_day r)"
      using mod unfolding u div_mult_self3 mod_mult_self3 by simp_all
    moreover have "(7 * q + (int d + 3) mod 7 + 4) mod 7 = int d"
      using less_7 [OF d(1)] by (elim disjE) (simp; presburger)+
    ultimately have "((m + off) div 86400 + 4) mod 7 = int d" by simp
    moreover have "0 \<le> m + off" "m + off \<le> 2 ^ 63"
      using bounds assms by (auto simp: epoch_ok_def)
    ultimately show ?thesis
      using d s by (simp add: rule_matches_def fixed_zone_def from_utc_fields)
  qed
  ultimately show ?thesis using bounds by blast
qed

section \<open>Properties\<close>

text \<open>C16. \<open>next_occurrence\<close> is the earliest due minute: when it answers \<open>(t, r)\<close>, \<open>t\<close> is a
  minute boundary in the eight days after \<open>after\<close>, \<open>r\<close> is one of the rules, selected by the filter
  and due at \<open>t\<close> (a shutdown if any is due then), and no selected rule is due at an earlier minute;
  when it answers nothing, no selected rule is due in those eight days.\<close>

theorem next_occurrence_earliest:
  assumes "epoch_ok after"
  shows "case next_occurrence rules after local P of
      None \<Rightarrow> \<forall>m. after < m \<and> m \<le> after + 691200 \<and> 60 dvd m \<longrightarrow>
                list_all (\<lambda>r. \<not> is_due local P m r) rules
    | Some (t, r) \<Rightarrow> after < t \<and> t \<le> after + 691200 \<and> 60 dvd t
        \<and> r \<in> set rules \<and> is_due local P t r
        \<and> (r_action r = PowerShutdown
            \<or> list_all (\<lambda>x. is_due local P t x \<longrightarrow> r_action x \<noteq> PowerShutdown) rules)
        \<and> (\<forall>m. after < m \<and> m < t \<and> 60 dvd m \<longrightarrow> list_all (\<lambda>x. \<not> is_due local P m x) rules)"
proof (cases "next_occurrence rules after local P")
  case None
  then show ?thesis using next_occurrence_None [OF assms, of rules local P]
    by (auto simp: list_all_iff None)
next
  case (Some p)
  then obtain t r where p: "next_occurrence rules after local P = Some (t, r)" by (cases p) simp
  note n = next_occurrence_Some [OF assms this]
  then have "best (due_at rules t local P) = Some r" by simp
  from best_Some [OF this] have "r \<in> set rules \<and> is_due local P t r"
    "r_action r = PowerShutdown
      \<or> list_all (\<lambda>x. is_due local P t x \<longrightarrow> r_action x \<noteq> PowerShutdown) rules"
    by (auto simp: due_at_set list_all_iff)
  with n show ?thesis by (auto simp: p list_all_iff)
qed

definition midnight_rule :: rule where
  "midnight_rule = \<lparr>r_days = 0b1111111, r_minute_of_day = 1, r_action = PowerRestart,
     r_countdown_secs = 60, r_label = ''x''\<rparr>"

lemma midnight_fields [simp]:
  "r_days midnight_rule = 0b1111111" "r_minute_of_day midnight_rule = 1"
  "r_action midnight_rule = PowerRestart" "r_countdown_secs midnight_rule = 60"
  "r_label midnight_rule = ''x''"
  by (simp_all add: midnight_rule_def)

lemma midnight_matches: "rule_matches midnight_rule (fixed_zone 0 60)"
  by (simp add: rule_matches_def fixed_zone_def from_utc_fields)

lemma midnight_due: "is_due (fixed_zone 0) is_power_off 60 midnight_rule"
  using midnight_matches by (simp add: is_due_def is_power_off_def)

theorem next_occurrence_earliest_witness:
  "\<exists>r. next_occurrence [midnight_rule] 0 (fixed_zone 0) is_power_off = Some (60, r)"
proof (cases "next_occurrence [midnight_rule] 0 (fixed_zone 0) is_power_off")
  case None
  with next_occurrence_earliest
    [where after = 0 and rules = "[midnight_rule]" and local = "fixed_zone 0" and P = is_power_off]
  have "\<not> is_due (fixed_zone 0) is_power_off 60 midnight_rule"
    by (auto simp: epoch_ok_def)
  with midnight_due show ?thesis by simp
next
  case (Some p)
  obtain t r where p: "p = (t, r)" by (cases p)
  with Some next_occurrence_earliest
    [where after = 0 and rules = "[midnight_rule]" and local = "fixed_zone 0" and P = is_power_off]
  have "0 < t" "60 dvd t" "\<forall>m. 0 < m \<and> m < t \<and> 60 dvd m \<longrightarrow>
      \<not> is_due (fixed_zone 0) is_power_off m midnight_rule"
    by (auto simp: epoch_ok_def)
  with midnight_due have "t = 60" by (metis linorder_neqE_linordered_idom dvd_refl zdvd_imp_le
      zero_less_numeral verit_comp_simplify1(3))
  with Some p show ?thesis by auto
qed

text \<open>Weekly rules never run dry: in a zone without shifts, every enabled rule of a validated
  configuration that the filter selects occurs again within the eight days searched, whatever the
  time; so the next power on and the next power off of a non-empty schedule always exist.\<close>

theorem schedule_always_recurs:
  assumes "epoch_ok after" "0 \<le> off" "off \<le> 86400" "60 dvd off"
    and "r \<in> set (parse_rules raw)" "P r"
  shows "next_occurrence (parse_rules raw) after (fixed_zone off) P \<noteq> None"
proof -
  obtain m where "after < m \<and> m \<le> after + 604800 \<and> 60 dvd m \<and> rule_matches r (fixed_zone off m)"
    using fixed_zone_matches [OF assms(1-4) parse_rules_ok [OF assms(5)]] by blast
  with assms(5,6) have "after < m" "m \<le> after + 691200" "60 dvd m" "is_due (fixed_zone off) P m r"
    by (auto simp: is_due_def)
  with assms(5) show ?thesis unfolding next_occurrence_None [OF assms(1)] by blast
qed

definition sunday_wake :: power_rule where
  "sunday_wake = \<lparr>pr_enabled = True, pr_days = [''Sun''], pr_time = ''07:30'',
     pr_action = ''wake'', pr_countdown_secs = 60\<rparr>"

lemma sunday_wake_parts:
  "power_action_parse ''wake'' = Some PowerOn" "day_mask ''Sun'' = Inr 1"
  "parse_hhmm ''07:30'' = Some 450" "days_text 1 = ''sun''"
proof -
  show "power_action_parse ''wake'' = Some PowerOn" by code_simp
  show "day_mask ''Sun'' = Inr 1" by code_simp
  show "days_text 1 = ''sun''" by code_simp
  show "parse_hhmm ''07:30'' = Some 450"
    by (simp add: parse_hhmm_def trim_def trim_start_def trim_end_def is_whitespace_def
        split_once_def parse_uint_def is_digit_def digits_val_def digit_val_def)
qed

lemma sunday_wake_parses:
  "parse_rules [sunday_wake] = [\<lparr>r_days = 1, r_minute_of_day = 450, r_action = PowerOn,
     r_countdown_secs = 60, r_label = r_label (hd (parse_rules [sunday_wake]))\<rparr>]"
  by (simp add: parse_rules_def List.map_filter_def sunday_wake_def rule_parse_def
      parse_days_def sunday_wake_parts MAX_COUNTDOWN_SECS_def)

theorem schedule_always_recurs_witness:
  "next_occurrence (parse_rules [sunday_wake]) 1700000000 (fixed_zone 3600) is_power_on \<noteq> None"
proof (rule schedule_always_recurs [where r = "hd (parse_rules [sunday_wake])"])
  show "hd (parse_rules [sunday_wake]) \<in> set (parse_rules [sunday_wake])"
    by (subst (2) sunday_wake_parses, subst (1) sunday_wake_parses) simp
  show "is_power_on (hd (parse_rules [sunday_wake]))"
    by (subst sunday_wake_parses) (simp add: is_power_on_def)
qed (simp_all add: epoch_ok_def)

lemma lint_clashes_Nil:
  "lint_clashes rs = [] \<longleftrightarrow>
     sorted_wrt (\<lambda>a b. \<not> (r_action a \<noteq> r_action b \<and> share_minute a b)) rs"
  by (induction rs) (auto simp: filter_empty_conv)

lemma share_minute_sym: "share_minute a b = share_minute b a"
  by (auto simp: share_minute_def list_ex_iff)

lemma share_minute_of_match:
  assumes "rule_ok a" "rule_matches a t" "rule_matches b t"
  shows "share_minute a b"
proof -
  have "lt_weekday t < 8"
    using assms(2) bit_imp_le_length [of "r_days a" "lt_weekday t"] by (simp add: rule_matches_def)
  moreover have "lt_weekday t \<noteq> 7" using assms(1,2) by (auto simp: rule_ok_def rule_matches_def)
  ultimately have "lt_weekday t < 7" by simp
  then have "lt_weekday t * 1440 + r_minute_of_day a \<in> set (week_minutes a)"
    "lt_weekday t * 1440 + r_minute_of_day a \<in> set (week_minutes b)"
    using assms by (auto simp: week_minutes_def rule_matches_def simp del: upt_7)
  then show ?thesis by (auto simp: share_minute_def list_ex_iff)
qed

lemma sorted_wrt_pair:
  assumes "sorted_wrt R xs" "symp R" "a \<in> set xs" "b \<in> set xs" "a \<noteq> b" shows "R a b"
  using assms by (induction xs) (auto simp: symp_def)

text \<open>When \<open>lint\<close> reports nothing about a validated schedule, no minute is ambiguous:
  all the shutdown and restart rules due at the same moment ask for the same action, so it
  does not matter which of them \<open>best\<close> picks.\<close>

theorem lint_silent_unambiguous:
  assumes "lint (parse_rules raw) = []"
    and "a \<in> set (parse_rules raw)" "is_due local is_power_off m a"
    and "b \<in> set (parse_rules raw)" "is_due local is_power_off m b"
  shows "r_action a = r_action b"
proof (rule ccontr)
  assume ne: "r_action a \<noteq> r_action b"
  have off: "is_off r" if "is_power_off r" for r
    using that by (cases "r_action r") (auto simp: is_off_def is_power_off_def)
  have "lint_clashes (filter is_off (parse_rules raw)) = []"
    using assms(1) by (simp add: lint_def)
  then have "sorted_wrt (\<lambda>a b. \<not> (r_action a \<noteq> r_action b \<and> share_minute a b))
      (filter is_off (parse_rules raw))" by (simp only: lint_clashes_Nil)
  from sorted_wrt_pair [OF this, of a b] have "\<not> (r_action a \<noteq> r_action b \<and> share_minute a b)"
    using assms ne off share_minute_sym by (auto simp: symp_def is_due_def)
  moreover have "share_minute a b"
    using assms by (intro share_minute_of_match [of a "local m"] parse_rules_ok) (auto simp: is_due_def)
  ultimately show False using ne by simp
qed

theorem lint_silent_unambiguous_witness:
  "\<exists>a raw. a \<in> set (parse_rules raw) \<and> is_due (fixed_zone 0) is_power_off 60 a
     \<and> lint (parse_rules raw) = [] \<and> r_action a = r_action a"
proof -
  define raw where "raw = [\<lparr>pr_enabled = True, pr_days = [''daily''], pr_time = ''0:1'',
     pr_action = ''reboot'', pr_countdown_secs = 60\<rparr>]"
  define a where "a = hd (parse_rules raw)"
  have "power_action_parse ''reboot'' = Some PowerRestart" by code_simp
  moreover have "day_mask ''daily'' = Inr 0b1111111" by code_simp
  moreover have "parse_hhmm ''0:1'' = Some 1"
    by (simp add: parse_hhmm_def trim_def trim_start_def trim_end_def is_whitespace_def
        split_once_def parse_uint_def is_digit_def digits_val_def digit_val_def)
  ultimately have "\<exists>l. parse_rules raw = [midnight_rule\<lparr>r_label := l\<rparr>]"
    by (simp add: parse_rules_def List.map_filter_def raw_def rule_parse_def
        parse_days_def MAX_COUNTDOWN_SECS_def midnight_rule_def)
  then obtain l where l: "parse_rules raw = [midnight_rule\<lparr>r_label := l\<rparr>]" ..
  then have a: "a \<in> set (parse_rules raw)" "is_due (fixed_zone 0) is_power_off 60 a"
    using midnight_due by (simp_all add: a_def is_due_def is_power_off_def rule_matches_def)
  moreover have lint: "lint (parse_rules raw) = []"
    by (simp add: l lint_def is_off_def)
  moreover have "r_action a = r_action a"
    by (rule lint_silent_unambiguous [OF lint a a])
  ultimately show ?thesis by blast
qed

end
