(* ===== verification/Calendar.thy ===== *)
theory Calendar
  imports Schedule
begin

text \<open>
  \<open>LocalTime::from_utc\<close> (\<open>src/power.rs\<close>) is the proleptic Gregorian calendar. The
  specification is the calendar's own: leap years, month lengths and the date after a date.
  The proof names a day by its 400-year era, its year of the era counted from March and
  its day of that year; the 400 years and the 366 days are checked one by one.
\<close>

section \<open>The calendar\<close>

definition leap :: "int \<Rightarrow> bool" where
  "leap y \<longleftrightarrow> 4 dvd y \<and> \<not> 100 dvd y \<or> 400 dvd y"

definition month_days :: "int \<Rightarrow> nat \<Rightarrow> nat" where
  "month_days y m =
     (if m = 2 then if leap y then 29 else 28
      else if m = 4 \<or> m = 6 \<or> m = 9 \<or> m = 11 then 30 else 31)"

fun next_date :: "int \<times> nat \<times> nat \<Rightarrow> int \<times> nat \<times> nat" where
  "next_date (y, m, d) =
     (if d < month_days y m then (y, m, d + 1)
      else if m < 12 then (y, m + 1, 1) else (y + 1, 1, 1))"

definition date_of :: "local_time \<Rightarrow> int \<times> nat \<times> nat" where
  "date_of t = (lt_year t, lt_month t, lt_day t)"

section \<open>Years of an era\<close>

definition yoe_num :: "int \<Rightarrow> int" where
  "yoe_num d = d - d div 1460 + d div 36524 - d div 146096"

definition year_start :: "int \<Rightarrow> int" where
  "year_start y = 365 * y + y div 4 - y div 100"

definition year_len :: "int \<Rightarrow> int" where
  "year_len y = (if leap (y + 1) then 366 else 365)"

lemma years_checked:
  "list_all (\<lambda>y. let s = year_start y; e = s + year_len y - 1 in
     365 * y \<le> yoe_num s \<and> yoe_num e < 365 * (y + 1) \<and> e < 146097
     \<and> (if y = 399 then e = 146096 else year_start (y + 1) = e + 1)) [0..399]"
  by code_simp

lemma years:
  assumes "0 \<le> y" "y \<le> 399"
  shows "365 * y \<le> yoe_num (year_start y)"
    and "yoe_num (year_start y + year_len y - 1) < 365 * (y + 1)"
    and "year_start y + year_len y \<le> 146097"
    and "y = 399 \<Longrightarrow> year_start y + year_len y = 146097"
    and "y < 399 \<Longrightarrow> year_start (y + 1) = year_start y + year_len y"
proof -
  have "y \<in> set [0..399]" using assms by simp
  then have *: "365 * y \<le> yoe_num (year_start y) \<and>
      yoe_num (year_start y + year_len y - 1) < 365 * (y + 1) \<and>
      year_start y + year_len y - 1 < 146097 \<and>
      (if y = 399 then year_start y + year_len y - 1 = 146096
       else year_start (y + 1) = year_start y + year_len y - 1 + 1)"
    using years_checked unfolding list_all_iff Let_def by (rule bspec [rotated])
  then show "365 * y \<le> yoe_num (year_start y)"
    "yoe_num (year_start y + year_len y - 1) < 365 * (y + 1)"
    "year_start y + year_len y \<le> 146097"
    by linarith+
  show "y = 399 \<Longrightarrow> year_start y + year_len y = 146097"
    using * by (simp only: if_P refl) linarith
  show "y < 399 \<Longrightarrow> year_start (y + 1) = year_start y + year_len y"
    using * by (cases "y = 399") simp_all
qed

lemma yoe_num_step:
  assumes "0 \<le> d" "d < 146096" shows "yoe_num d \<le> yoe_num (d + 1)"
proof (cases "d + 1 = 146096")
  case True
  then have "d = 146095" by simp
  then show ?thesis by (simp add: yoe_num_def)
next
  case False
  with assms have "(d + 1) div 146096 = 0" "d div 146096 = 0" by auto
  moreover have "(d + 1) div 1460 \<le> d div 1460 + 1"
  proof -
    have "(d + 1) div 1460 \<le> (d + 1460) div 1460" by (rule zdiv_mono1) simp_all
    then show ?thesis by simp
  qed
  moreover have "d div 36524 \<le> (d + 1) div 36524" by (rule zdiv_mono1) simp_all
  ultimately show ?thesis unfolding yoe_num_def by linarith
qed

lemma yoe_num_mono:
  assumes "0 \<le> d" "d \<le> e" "e \<le> 146096" shows "yoe_num d \<le> yoe_num e"
  using assms(2,3)
proof (induction e rule: int_ge_induct)
  case base
  show ?case by simp
next
  case (step e)
  with assms(1) have "yoe_num e \<le> yoe_num (e + 1)" by (intro yoe_num_step) auto
  with step show ?case by simp
qed

lemma year_start_nonneg: "0 \<le> y \<Longrightarrow> 0 \<le> year_start y"
proof -
  assume "0 \<le> y"
  moreover then have "0 \<le> y div 100" "0 \<le> y div 4" by auto
  moreover have "100 * (y div 100) \<le> y" by simp
  ultimately show ?thesis unfolding year_start_def by linarith
qed

lemma yoe_correct:
  assumes "0 \<le> y" "y \<le> 399" "0 \<le> doy" "doy < year_len y"
  shows "yoe_num (year_start y + doy) div 365 = y"
proof -
  note Y = years [OF assms(1,2)] and S = year_start_nonneg [OF assms(1)]
  have "yoe_num (year_start y) \<le> yoe_num (year_start y + doy)"
    using assms S Y(3) by (intro yoe_num_mono) auto
  moreover have "yoe_num (year_start y + doy) \<le> yoe_num (year_start y + year_len y - 1)"
    using assms S Y(3) by (intro yoe_num_mono) auto
  ultimately have "365 * y \<le> yoe_num (year_start y + doy)"
    "yoe_num (year_start y + doy) < 365 * (y + 1)" using Y(1,2) by linarith+
  then show ?thesis
    by (intro int_div_pos_eq [of _ 365 y "yoe_num (year_start y + doy) - 365 * y"]) auto
qed

section \<open>Days of a year\<close>

definition month_of :: "int \<Rightarrow> int" where
  "month_of doy = (let mp = (5 * doy + 2) div 153 in if mp < 10 then mp + 3 else mp - 9)"

definition day_of :: "int \<Rightarrow> int" where
  "day_of doy = doy - (153 * ((5 * doy + 2) div 153) + 2) div 5 + 1"

lemma days_checked:
  "list_all (\<lambda>doy. let m = month_of doy; d = day_of doy;
       m' = month_of (doy + 1); d' = day_of (doy + 1) in
     1 \<le> m \<and> m \<le> 12 \<and> 1 \<le> d \<and> d \<le> 31 \<and> (m = 2 \<longrightarrow> d < 28) \<and>
     (if m = 2 \<or> d < (if m = 4 \<or> m = 6 \<or> m = 9 \<or> m = 11 then 30 else 31)
      then m' = m \<and> d' = d + 1
      else d' = 1 \<and> m' = (if m < 12 then m + 1 else 1))) [0..363]"
  by code_simp

lemma days_end:
  "month_of 0 = 3" "day_of 0 = 1" "month_of 364 = 2" "day_of 364 = 28"
  "month_of 365 = 2" "day_of 365 = 29" "month_of 306 = 1" "day_of 306 = 1"
  by (simp_all add: month_of_def day_of_def)

section \<open>The date of a day\<close>

text \<open>Day \<open>z\<close>, counted from 1 March of the year 0, as era, year and day of the year.\<close>

definition civil :: "int \<Rightarrow> int \<Rightarrow> int \<Rightarrow> int \<Rightarrow> bool" where
  "civil z era y doy \<longleftrightarrow> z = 146097 * era + (year_start y + doy)
     \<and> 0 \<le> y \<and> y \<le> 399 \<and> 0 \<le> doy \<and> doy < year_len y"

definition civil_date :: "int \<Rightarrow> int \<Rightarrow> int \<Rightarrow> int \<times> nat \<times> nat" where
  "civil_date era y doy =
     (y + 400 * era + (if month_of doy \<le> 2 then 1 else 0), nat (month_of doy), nat (day_of doy))"

lemma year_len_cases: "year_len y = 365 \<or> year_len y = 366"
  by (simp add: year_len_def)

text \<open>The next day is the next day of the year, the first of the next year, or of the next era.\<close>

definition civil_next :: "int \<Rightarrow> int \<Rightarrow> int \<Rightarrow> int \<times> int \<times> int" where
  "civil_next era y doy =
     (if doy + 1 < year_len y then (era, y, doy + 1)
      else if y < 399 then (era, y + 1, 0) else (era + 1, 0, 0))"

lemma year_start_0: "year_start 0 = 0"
  by (simp add: year_start_def)

lemma civil_step:
  assumes "civil z era y doy" and "civil_next era y doy = (era', y', doy')"
  shows "civil (z + 1) era' y' doy'"
proof -
  have y: "0 \<le> y" "y \<le> 399" using assms(1) by (auto simp: civil_def)
  have "0 < year_len (y + 1)" "0 < year_len 0" by (simp_all add: year_len_def)
  with assms years [OF y] show ?thesis
    by (auto simp: civil_def civil_next_def year_start_0 split: if_splits)
qed

lemma civil_exists: "\<exists>era y doy. civil z era y doy"
proof -
  have "\<exists>era y doy. civil (146097 * (z div 146097) + int n) era y doy" for n
  proof (induction n)
    case 0
    have "civil (146097 * (z div 146097)) (z div 146097) 0 0"
      by (simp add: civil_def year_start_0 year_len_def)
    then show ?case by auto
  next
    case (Suc n)
    then obtain era y doy where c: "civil (146097 * (z div 146097) + int n) era y doy" by blast
    obtain era' y' doy' where "civil_next era y doy = (era', y', doy')" by (cases "civil_next era y doy")
    with civil_step [OF c this] show ?case by (auto simp: algebra_simps)
  qed
  from this [of "nat (z mod 146097)"] show ?thesis by simp
qed

lemma day_range:
  assumes "0 \<le> doy" "doy \<le> 365"
  shows "1 \<le> month_of doy \<and> month_of doy \<le> 12 \<and> 1 \<le> day_of doy \<and> day_of doy \<le> 31"
proof (cases "doy \<le> 363")
  case True
  with assms have "doy \<in> set [0..363]" by simp
  from bspec [OF days_checked [unfolded list_all_iff Let_def] this] show ?thesis by auto
next
  case False
  with assms have "doy = 364 \<or> doy = 365" by auto
  then show ?thesis by (auto simp: days_end)
qed

lemma from_utc_date:
  assumes c: "civil (t div 86400 + 719468) era y doy" and t: "\<bar>t\<bar> \<le> 2 ^ 55"
  shows "date_of (from_utc t) = civil_date era y doy"
proof -
  define z where "z = t div 86400 + 719468"
  have z: "z = 146097 * era + (year_start y + doy)" and y: "0 \<le> y" "y \<le> 399"
    and doy: "0 \<le> doy" "doy < year_len y" using c by (auto simp: civil_def z_def)
  have doe: "0 \<le> year_start y + doy" "year_start y + doy < 146097"
    using years(3) [OF y] year_start_nonneg [OF y(1)] doy by auto
  have "86400 * (t div 86400) \<le> t" "t < 86400 * (t div 86400) + 86400" by simp_all
  with t have days: "- (2 ^ 39) \<le> t div 86400" "t div 86400 \<le> 2 ^ 39" by auto
  have zs: "sat_add (t div 86400) 719468 = z"
    using days by (simp add: sat_id I64_MIN_def I64_MAX_def z_def)
  have ze: "z div 146097 = era" "z mod 146097 = year_start y + doy"
    using doe by (simp_all add: z)
  have yoe: "(year_start y + doy - (year_start y + doy) div 1460 + (year_start y + doy) div 36524
      - (year_start y + doy) div 146096) div 365 = y"
    using yoe_correct [OF y doy] by (simp add: yoe_num_def)
  have d: "year_start y + doy - (365 * y + y div 4 - y div 100) = doy"
    by (simp add: year_start_def)
  have era: "- (2 ^ 22) \<le> era" "era \<le> 2 ^ 22"
    using doe days z by (auto simp: z_def)
  have mr: "1 \<le> month_of doy \<and> month_of doy \<le> 12 \<and> 1 \<le> day_of doy \<and> day_of doy \<le> 31"
    using doy year_len_cases [of y] by (intro day_range) auto
  have mo: "(if (5 * doy + 2) div 153 < 10 then (5 * doy + 2) div 153 + 3
      else (5 * doy + 2) div 153 - 9) = month_of doy" by (simp only: month_of_def Let_def)
  have da: "doy - (153 * ((5 * doy + 2) div 153) + 2) div 5 + 1 = day_of doy"
    by (simp only: day_of_def)
  have "sat_mul era 400 = era * 400" using era by (simp add: sat_id I64_MIN_def I64_MAX_def)
  moreover have "sat_add y (era * 400) = y + era * 400"
    using era y by (simp add: sat_id I64_MIN_def I64_MAX_def)
  moreover have "sat_add (y + era * 400) (if month_of doy \<le> 2 then 1 else 0)
      = y + era * 400 + (if month_of doy \<le> 2 then 1 else 0)"
    using era y by (simp add: sat_id I64_MIN_def I64_MAX_def)
  moreover have "clamp_year (y + era * 400 + (if month_of doy \<le> 2 then 1 else 0))
      = y + era * 400 + (if month_of doy \<le> 2 then 1 else 0)"
    using era y by (simp add: clamp_year_def)
  moreover have "small (month_of doy) = nat (month_of doy)" "small (day_of doy) = nat (day_of doy)"
    using mr by (simp_all add: small_def)
  ultimately show ?thesis
    unfolding date_of_def from_utc_def Let_def local_time.simps zs ze yoe d mo da civil_date_def
    by (simp only:) simp
qed

lemma civil_date_next:
  assumes "civil z era y doy" and "civil_next era y doy = (era', y', doy')"
  shows "civil_date era' y' doy' = next_date (civil_date era y doy)"
proof -
  have doy: "0 \<le> doy" "doy < year_len y" using assms(1) by (auto simp: civil_def)
  show ?thesis
  proof (cases "doy \<le> 363")
    case True
    with doy have "doy \<in> set [0..363]" by simp
    from bspec [OF days_checked [unfolded list_all_iff Let_def] this] have *:
      "1 \<le> month_of doy" "month_of doy \<le> 12" "1 \<le> day_of doy" "month_of doy = 2 \<longrightarrow> day_of doy < 28"
      "if month_of doy = 2 \<or> day_of doy <
          (if month_of doy = 4 \<or> month_of doy = 6 \<or> month_of doy = 9 \<or> month_of doy = 11 then 30 else 31)
       then month_of (doy + 1) = month_of doy \<and> day_of (doy + 1) = day_of doy + 1
       else day_of (doy + 1) = 1 \<and> month_of (doy + 1) = (if month_of doy < 12 then month_of doy + 1 else 1)"
      by auto
    have "era' = era" "y' = y" "doy' = doy + 1"
      using assms(2) True year_len_cases [of y] by (auto simp: civil_next_def)
    with * show ?thesis
      by (auto simp: civil_date_def month_days_def nat_add_distrib nat_eq_iff split: if_splits)
  next
    case False
    with doy year_len_cases [of y] have "doy = 364 \<or> doy = 365" by auto
    moreover have "leap (y + 400 * era + 1) = leap (y + 1)"
    proof -
      have "(m dvd y + 1 + m * (k * era)) = (m dvd y + 1)" for m k :: int
        by (simp add: dvd_add_left_iff)
      from this [of 4 100] this [of 100 4] this [of 400 1] show ?thesis
        by (simp add: leap_def add_ac)
    qed
    moreover have "leap 400" by (simp add: leap_def)
    ultimately show ?thesis
      using assms doy by (elim disjE) (auto simp: civil_def civil_date_def civil_next_def days_end
          month_days_def year_len_def add_ac split: if_splits)
  qed
qed

lemma small_mod_7: "small ((x + 1) mod 7) = (small (x mod 7) + 1) mod 7"
proof -
  define r where "r = x mod 7"
  have "(x + 1) mod 7 = (r + 1) mod 7" by (simp add: r_def mod_add_left_eq)
  moreover have "r = 0 \<or> r = 1 \<or> r = 2 \<or> r = 3 \<or> r = 4 \<or> r = 5 \<or> r = 6"
    unfolding r_def by presburger
  ultimately show ?thesis by (auto simp: small_def simp flip: r_def)
qed

text \<open>\<open>LocalTime::from_utc\<close> is the proleptic Gregorian calendar: second 0 is Thursday
  1970-01-01 00:00, the day after any day has the next date and the next weekday, the date
  only depends on the day, and hour and minute are those of the second within the day; for
  every time of a billion years either way.\<close>

theorem from_utc_gregorian:
  assumes "\<bar>t\<bar> \<le> 2 ^ 55 - 86400"
  shows "date_of (from_utc (t + 86400)) = next_date (date_of (from_utc t))
     \<and> lt_weekday (from_utc (t + 86400)) = (lt_weekday (from_utc t) + 1) mod 7
     \<and> date_of (from_utc (t div 86400 * 86400)) = date_of (from_utc t)
     \<and> lt_hour (from_utc t) = nat (t mod 86400 div 3600)
     \<and> lt_minute (from_utc t) = nat (t mod 3600 div 60)
     \<and> date_of (from_utc 0) = (1970, 1, 1) \<and> lt_weekday (from_utc 0) = 4"
proof -
  obtain era y doy where c: "civil (t div 86400 + 719468) era y doy" using civil_exists by blast
  obtain era' y' doy' where n: "civil_next era y doy = (era', y', doy')"
    by (cases "civil_next era y doy")
  have nd: "(t + 86400) div 86400 = t div 86400 + 1" by simp
  from civil_step [OF c n] have "civil ((t + 86400) div 86400 + 719468) era' y' doy'"
    unfolding nd by (simp add: add_ac)
  then have date: "date_of (from_utc (t + 86400)) = next_date (date_of (from_utc t))"
    using assms c civil_date_next [OF c n] by (subst (1 2) from_utc_date) auto
  define s where "s = t mod 86400"
  have s: "0 \<le> s" "s < 86400" by (simp_all add: s_def)
  have mins: "s div 60 mod 60 = t mod 3600 div 60"
  proof -
    have "t mod 3600 = s mod 3600" by (simp add: s_def mod_mod_cancel)
    moreover have "s mod (60 * 60) = 60 * (s div 60 mod 60) + s mod 60"
      by (rule zmod_zmult2_eq) simp
    ultimately show ?thesis by simp
  qed
  have "86400 * (t div 86400) \<le> t" "t < 86400 * (t div 86400) + 86400" by simp_all
  with assms have days: "- (2 ^ 39) \<le> t div 86400" "t div 86400 \<le> 2 ^ 39"
    and low: "\<bar>t div 86400 * 86400\<bar> \<le> 2 ^ 55" by auto
  have "civil (0 div 86400 + 719468) 4 369 306"
    by (simp add: civil_def year_start_def year_len_def leap_def)
  from from_utc_date [OF this] have zero: "date_of (from_utc 0) = (1970, 1, 1)"
    by (simp add: civil_date_def days_end)
  have zero_day: "lt_weekday (from_utc 0) = 4"
    by (simp add: from_utc_sel small_def sat_id I64_MIN_def I64_MAX_def)
  from days have "sat_add (t div 86400) 4 = t div 86400 + 4"
    "sat_add ((t + 86400) div 86400) 4 = t div 86400 + 5"
    by (simp_all add: sat_id I64_MIN_def I64_MAX_def)
  then have wd: "lt_weekday (from_utc (t + 86400)) = (lt_weekday (from_utc t) + 1) mod 7"
    using small_mod_7 [of "t div 86400 + 4"] by (simp add: from_utc_sel add_ac)
  have "s div 3600 \<le> 24" "s div 60 mod 60 < 60" "0 \<le> s div 3600" using s by auto
  then have hm: "lt_hour (from_utc t) = nat (t mod 86400 div 3600)"
    "lt_minute (from_utc t) = nat (t mod 3600 div 60)"
    by (simp_all add: from_utc_sel small_def flip: s_def mins)
  have "date_of (from_utc (t div 86400 * 86400)) = date_of (from_utc t)"
    using assms c low by (subst (1 2) from_utc_date) auto
  with date wd hm zero zero_day show ?thesis by simp
qed

theorem from_utc_gregorian_witness:
  "date_of (from_utc (951696000 + 86400)) = next_date (date_of (from_utc 951696000))
    \<and> lt_weekday (from_utc 0) = 4"
  using from_utc_gregorian [of 951696000] by simp

end
