(* ===== verification/Scheduler.thy ===== *)
theory Scheduler
  imports Schedule
begin

text \<open>
  The \<open>Scheduler\<close> of \<open>src/power.rs\<close>: \<open>poll_with\<close> and \<open>sync_rtc_with\<close> in the order of
  the code. The wake alarm file is an arbitrary device \<open>'d\<close>: \<open>rd path d\<close> is the
  file's text or an error, \<open>wr path text d\<close> the outcome of a write and the device after it.
  An \<open>std::io::Error\<close> is its \<open>Display\<close> text and whether its kind is \<open>InvalidInput\<close>.
\<close>

section \<open>Errors, numbers and the device\<close>

record file_error =
  io_invalid_input :: bool
  io_text :: string

record 'd device =
  rd :: "string \<Rightarrow> 'd \<Rightarrow> file_error + string"
  wr :: "string \<Rightarrow> string \<Rightarrow> 'd \<Rightarrow> file_error option \<times> 'd"

text \<open>\<open>str::parse::<i64>\<close> with the messages of its \<open>ParseIntError\<close>.\<close>

fun parse_i64_digits :: "bool \<Rightarrow> int \<Rightarrow> string \<Rightarrow> string + int" where
  "parse_i64_digits neg acc [] = Inr acc"
| "parse_i64_digits neg acc (c # cs) =
     (if \<not> is_digit c then Inl ''invalid digit found in string''
      else let acc' = (if neg then acc * 10 - int (digit_val c) else acc * 10 + int (digit_val c)) in
        if acc' < I64_MIN then Inl ''number too small to fit in target type''
        else if I64_MAX < acc' then Inl ''number too large to fit in target type''
        else parse_i64_digits neg acc' cs)"

definition parse_i64 :: "string \<Rightarrow> string + int" where
  "parse_i64 s =
     (if s = [] then Inl ''cannot parse integer from empty string''
      else if s = ''+'' \<or> s = ''-'' then Inl ''invalid digit found in string''
      else if hd s = CHR ''-'' then parse_i64_digits True 0 (tl s)
      else if hd s = CHR ''+'' then parse_i64_digits False 0 (tl s)
      else parse_i64_digits False 0 s)"

definition WAKEALARM_PATH :: string where
  "WAKEALARM_PATH = ''/sys/class/rtc/rtc0/wakealarm''"

definition read_wakealarm :: "'d device \<Rightarrow> string \<Rightarrow> 'd \<Rightarrow> file_error + int option" where
  "read_wakealarm D path d =
     (case rd D path d of
        Inl e \<Rightarrow> Inl e
      | Inr txt \<Rightarrow>
          let txt = trim txt in
          if txt = [] then Inr None
          else (case parse_i64 txt of
                  Inr t \<Rightarrow> Inr (Some t)
                | Inl e \<Rightarrow> Inl \<lparr>io_invalid_input = False,
                     io_text = ''unexpected contents '' @ [CHR 0x22] @ txt @ [CHR 0x22] @ '': '' @ e\<rparr>))"

section \<open>Texts\<close>

definition padi :: "nat \<Rightarrow> int \<Rightarrow> string" where
  "padi w i = (if i < 0 then CHR ''-'' # pad0 (w - 1) (nat (- i)) else pad0 w (nat i))"

definition format_local :: "local_time \<Rightarrow> string" where
  "format_local t =
     (let day = DAY_NAMES ! (lt_weekday t mod 7);
          day = map to_ascii_upper_char (take 1 day) @ drop 1 day
      in day @ '' '' @ padi 4 (lt_year t) @ ''-'' @ pad0 2 (lt_month t) @ ''-'' @ pad0 2 (lt_day t)
         @ '' '' @ pad0 2 (lt_hour t) @ '':'' @ pad0 2 (lt_minute t))"

definition in_text :: "int \<Rightarrow> string" where
  "in_text s =
     (let mins = sat_add (max s 0) 59 div 60;
          d = mins div 1440; h = mins div 60 mod 24; m = mins mod 60
      in if d = 0 \<and> h = 0 then ''in '' @ int_str m @ ''m''
         else if d = 0 then ''in '' @ int_str h @ ''h '' @ int_str m @ ''m''
         else ''in '' @ int_str d @ ''d '' @ int_str h @ ''h '' @ int_str m @ ''m'')"

definition describe_next ::
  "rule list \<Rightarrow> int \<Rightarrow> (int \<Rightarrow> local_time) \<Rightarrow> (rule \<Rightarrow> bool) \<Rightarrow> string" where
  "describe_next rules now local P =
     (case next_occurrence rules now local P of
        None \<Rightarrow> ''none''
      | Some (t, r) \<Rightarrow> format_local (local t) @ '' ('' @ in_text (sat_sub t now) @ '', ''
          @ r_label r @ '')'')"

definition describe_with ::
  "'d device \<Rightarrow> rule list \<Rightarrow> int \<Rightarrow> bool \<Rightarrow> bool \<Rightarrow> (int \<Rightarrow> local_time) \<Rightarrow> 'd \<Rightarrow> string list" where
  "describe_with D rules now read_rtc manages local d =
     (if rules = [] then [''no rules configured'']
      else [''next power on:   '' @ describe_next rules now local is_power_on,
            ''next power off:  '' @ describe_next rules now local is_power_off]
        @ (if read_rtc
           then [''RTC wake alarm:  ''
                 @ (case read_wakealarm D WAKEALARM_PATH d of
                      Inr (Some t) \<Rightarrow> ''set for '' @ format_local (local t)
                    | Inr None \<Rightarrow> ''not set''
                    | Inl e \<Rightarrow> ''unreadable ('' @ io_text e @ '')'')
                 @ (if manages then [] else '' (not managed: no power_on rule)'')]
           else []))"

section \<open>The scheduler\<close>

record scheduler =
  sch_rules :: "rule list"
  sch_rtc :: "string option"
  sch_checked_until :: "int option"
  sch_armed :: "int option"
  sch_next_rtc_check :: int
  sch_rtc_error :: "string option"

definition with_rtc :: "rule list \<Rightarrow> string \<Rightarrow> scheduler" where
  "with_rtc rules path =
     \<lparr>sch_rules = rules, sch_rtc = (if list_ex is_power_on rules then Some path else None),
      sch_checked_until = None, sch_armed = None, sch_next_rtc_check = I64_MIN,
      sch_rtc_error = None\<rparr>"

definition scheduler_new :: "power_rule list \<Rightarrow> scheduler" where
  "scheduler_new raw = with_rtc (parse_rules raw) WAKEALARM_PATH"

text \<open>The closure of \<open>sync_rtc_with\<close>: whether the alarm was changed, or the first error.\<close>

definition set_alarm ::
  "'d device \<Rightarrow> string \<Rightarrow> int option \<Rightarrow> 'd \<Rightarrow> (file_error + bool) \<times> 'd" where
  "set_alarm D path want_at d =
     (case read_wakealarm D path d of
        Inl e \<Rightarrow> (Inl e, d)
      | Inr at \<Rightarrow>
          if at = want_at then (Inr False, d)
          else (case wr D path ''0'' d of
                  (Some e, d) \<Rightarrow> (Inl e, d)
                | (None, d) \<Rightarrow>
                    (case want_at of
                       None \<Rightarrow> (Inr True, d)
                     | Some t \<Rightarrow>
                         (case wr D path (int_str t) d of
                            (Some e, d) \<Rightarrow> (Inl e, d)
                          | (None, d) \<Rightarrow> (Inr True, d)))))"

definition rtc_message :: "string \<Rightarrow> file_error \<Rightarrow> string" where
  "rtc_message path e =
     ''power schedule: failed to set the RTC wake alarm at '' @ path @ '': '' @ io_text e
     @ (if io_invalid_input e then '' (this RTC may not support alarms that far ahead)'' else [])
     @ ''; scheduled power on will not happen''"

definition sync_rtc_with ::
  "'d device \<Rightarrow> (int \<Rightarrow> local_time) \<Rightarrow> int \<Rightarrow> scheduler \<times> 'd \<Rightarrow> (scheduler \<times> 'd) \<times> log_line list" where
  "sync_rtc_with D local now sd =
     (let (s, d) = sd in
      case sch_rtc s of
        None \<Rightarrow> ((s, d), [])
      | Some path \<Rightarrow>
          let s = s\<lparr>sch_next_rtc_check := sat_add now RTC_RECHECK_SECS\<rparr>;
              want = next_occurrence (sch_rules s) now local is_power_on;
              want_at = map_option fst want
          in (case set_alarm D path want_at d of
                (Inr changed, d) \<Rightarrow>
                  ((s\<lparr>sch_rtc_error := None, sch_armed := want_at\<rparr>, d),
                   (case want of
                      Some (t, r) \<Rightarrow>
                        if changed
                        then [syslog PInfo ''rtc_set'' [format_local (local t), r_label r] []] else []
                    | None \<Rightarrow> [])
                   @ (if sch_rtc_error s \<noteq> None then [syslog PNotice ''rtc_set_again'' [] []] else []))
              | (Inl e, d) \<Rightarrow>
                  ((s\<lparr>sch_rtc_error := Some (rtc_message path e), sch_armed := None\<rparr>, d),
                   (if sch_rtc_error s \<noteq> Some (rtc_message path e)
                    then [syslog PWarning (rtc_message path e) [] []] else []))))"

record fired =
  fired_action :: action
  fired_countdown_secs :: nat
  fired_label :: string

definition due_minutes :: "rule list \<Rightarrow> (int \<Rightarrow> local_time) \<Rightarrow> int \<Rightarrow> int \<Rightarrow> rule list" where
  "due_minutes rules local prev now =
     List.map_filter (\<lambda>m. best (due_at rules m local is_power_off)) (minute_boundaries prev now)"

definition fired_of :: "rule \<Rightarrow> fired option" where
  "fired_of r = map_option (\<lambda>a. \<lparr>fired_action = a, fired_countdown_secs = r_countdown_secs r,
                               fired_label = r_label r\<rparr>) (menu_action (r_action r))"

text \<open>The \<open>match\<close> on \<open>checked_until\<close>.\<close>

definition poll_rules ::
  "(int \<Rightarrow> local_time) \<Rightarrow> int \<Rightarrow> scheduler \<Rightarrow> fired option \<times> scheduler \<times> log_line list" where
  "poll_rules local now s =
     (case sch_checked_until s of
        None \<Rightarrow>
          (None, s\<lparr>sch_checked_until := Some now, sch_next_rtc_check := I64_MIN\<rparr>, [])
      | Some prev \<Rightarrow>
          if MAX_GAP_SECS < \<bar>now - prev\<bar>
          then (None, s\<lparr>sch_checked_until := Some now, sch_next_rtc_check := I64_MIN\<rparr>,
                [syslog PNotice ''clock_jumped'' [int_str (sat_sub now prev)] []])
          else if now \<le> prev then (None, s, [])
          else let due = due_minutes (sch_rules s) local prev now
               in ((if due = [] then None else fired_of (last due)),
                   s\<lparr>sch_checked_until := Some now\<rparr>, []))"

definition poll_with ::
  "'d device \<Rightarrow> (int \<Rightarrow> local_time) \<Rightarrow> int \<Rightarrow> scheduler \<times> 'd
     \<Rightarrow> fired option \<times> (scheduler \<times> 'd) \<times> log_line list" where
  "poll_with D local now sd =
     (let (s, d) = sd;
          (fired, s, logs) = poll_rules local now s
      in if sch_rtc s \<noteq> None
            \<and> (sch_next_rtc_check s \<le> now
               \<or> (case sch_armed s of None \<Rightarrow> False | Some a \<Rightarrow> a \<le> now))
         then let (sd, logs') = sync_rtc_with D local now (s, d) in (fired, sd, logs @ logs')
         else (fired, (s, d), logs))"

section \<open>What a poll fires\<close>

lemma poll_with_fired [simp]: "fst (poll_with D local now (s, d)) = fst (poll_rules local now s)"
  by (auto simp: poll_with_def Let_def split: prod.splits)

lemma sync_rtc_keeps:
  "sync_rtc_with D local now sd = (sd', logs) \<Longrightarrow>
     sch_rules (fst sd') = sch_rules (fst sd) \<and> sch_rtc (fst sd') = sch_rtc (fst sd)
     \<and> sch_checked_until (fst sd') = sch_checked_until (fst sd)
     \<and> (sch_rtc (fst sd) = None \<longrightarrow> sd' = sd)"
  by (auto simp: sync_rtc_with_def Let_def split: prod.splits option.splits sum.splits)

definition next_mark :: "int option \<Rightarrow> int \<Rightarrow> int" where
  "next_mark c now = (case c of None \<Rightarrow> now
      | Some prev \<Rightarrow> if now \<le> prev \<and> prev - now \<le> MAX_GAP_SECS then prev else now)"

lemma poll_with_keeps:
  assumes "poll_with D local now sd = (f, sd', logs)"
  shows "sch_rules (fst sd') = sch_rules (fst sd)" "sch_rtc (fst sd') = sch_rtc (fst sd)"
    "sch_checked_until (fst sd') = Some (next_mark (sch_checked_until (fst sd)) now)"
    "sch_rtc (fst sd) = None \<Longrightarrow> snd sd' = snd sd"
  using assms by (auto simp: poll_with_def poll_rules_def next_mark_def Let_def MAX_GAP_SECS_def
      dest!: sync_rtc_keeps split: prod.splits option.splits if_splits)

lemma map_filter_last:
  "List.map_filter f ms \<noteq> [] \<Longrightarrow>
     \<exists>us m vs. ms = us @ m # vs \<and> f m = Some (last (List.map_filter f ms)) \<and> (\<forall>v\<in>set vs. f v = None)"
proof (induction ms rule: rev_induct)
  case Nil
  then show ?case by (simp add: List.map_filter_simps)
next
  case (snoc m ms)
  have app: "List.map_filter f (ms @ [m]) =
      List.map_filter f ms @ (case f m of None \<Rightarrow> [] | Some y \<Rightarrow> [y])"
    by (auto simp: List.map_filter_def split: option.splits)
  show ?case
  proof (cases "f m")
    case (Some y)
    then show ?thesis by (intro exI [of _ ms] exI [of _ m] exI [of _ "[]"]) (simp add: app)
  next
    case None
    with snoc app obtain us n vs where "ms = us @ n # vs"
      "f n = Some (last (List.map_filter f ms))" "\<forall>v\<in>set vs. f v = None" by auto
    with None app show ?thesis
      by (intro exI [of _ us] exI [of _ n] exI [of _ "vs @ [m]"]) simp
  qed
qed

lemma map_filter_Nil: "List.map_filter f ms = [] \<longleftrightarrow> (\<forall>m\<in>set ms. f m = None)"
  by (induction ms) (auto simp: List.map_filter_simps split: option.splits)

lemma due_minutes_Nil:
  assumes "epoch_ok prev"
  shows "due_minutes rules local prev now = [] \<longleftrightarrow>
    (\<forall>m. prev < m \<and> m \<le> now \<and> 60 dvd m \<longrightarrow> list_all (\<lambda>r. \<not> is_due local is_power_off m r) rules)"
  by (auto simp: due_minutes_def map_filter_Nil minute_boundaries_set [OF assms] due_at_empty
      list_all_iff)

lemma due_minutes_last:
  assumes "epoch_ok prev" "due_minutes rules local prev now \<noteq> []"
  obtains m where "prev < m" "m \<le> now" "60 dvd m"
    "best (due_at rules m local is_power_off) = Some (last (due_minutes rules local prev now))"
    "\<forall>n. m < n \<and> n \<le> now \<and> 60 dvd n \<longrightarrow> list_all (\<lambda>r. \<not> is_due local is_power_off n r) rules"
proof -
  let ?f = "\<lambda>m. best (due_at rules m local is_power_off)"
  let ?ms = "minute_boundaries prev now"
  obtain us m vs where ms: "?ms = us @ m # vs"
    and f: "?f m = Some (last (due_minutes rules local prev now))"
    and vs: "\<forall>v\<in>set vs. ?f v = None"
    using map_filter_last [of ?f ?ms] assms(2) by (auto simp: due_minutes_def)
  have m: "prev < m" "m \<le> now" "60 dvd m"
    using minute_boundaries_set [OF assms(1), of now] unfolding ms by auto
  have us: "\<forall>u\<in>set us. u < m"
    using minute_boundaries_sorted [of prev now] unfolding ms by (simp add: sorted_wrt_append)
  have "list_all (\<lambda>r. \<not> is_due local is_power_off n r) rules"
    if "m < n" "n \<le> now" "60 dvd n" for n
  proof -
    from that m have "n \<in> set ?ms" unfolding minute_boundaries_set [OF assms(1)] by simp
    with that us have "n \<in> set vs" unfolding ms by auto
    with vs show ?thesis by (auto simp: due_at_empty list_all_iff)
  qed
  with m f that show ?thesis by blast
qed

lemma fired_of_off: "is_power_off r \<Longrightarrow>
  fired_of r = Some \<lparr>fired_action = the (menu_action (r_action r)),
    fired_countdown_secs = r_countdown_secs r, fired_label = r_label r\<rparr>"
  by (cases "r_action r") (auto simp: fired_of_def is_power_off_def)

text \<open>What a firing poll promises of the minute \<open>m\<close> it fired.\<close>

definition fires_at :: "rule list \<Rightarrow> (int \<Rightarrow> local_time) \<Rightarrow> fired \<Rightarrow> int \<Rightarrow> bool" where
  "fires_at rules local f m \<longleftrightarrow> 60 dvd m \<and>
     list_ex (\<lambda>r. is_due local is_power_off m r \<and> fired_of r = Some f
       \<and> (r_action r = PowerShutdown
          \<or> list_all (\<lambda>x. is_due local is_power_off m x \<longrightarrow> r_action x \<noteq> PowerShutdown) rules)) rules"

lemma poll_rules_fires:
  assumes "sch_checked_until s = Some prev" "epoch_ok prev" "fst (poll_rules local now s) = Some f"
  obtains m where "prev < m" "m \<le> now" "now - prev \<le> MAX_GAP_SECS"
    "fires_at (sch_rules s) local f m"
    "\<forall>n. m < n \<and> n \<le> now \<and> 60 dvd n \<longrightarrow>
       list_all (\<lambda>r. \<not> is_due local is_power_off n r) (sch_rules s)"
proof -
  let ?due = "due_minutes (sch_rules s) local prev now"
  have ne: "?due \<noteq> []" and f: "fired_of (last ?due) = Some f" and gap: "now - prev \<le> MAX_GAP_SECS"
    using assms by (auto simp: poll_rules_def Let_def split: if_splits)
  obtain m where m: "prev < m" "m \<le> now" "60 dvd m"
    "best (due_at (sch_rules s) m local is_power_off) = Some (last ?due)"
    "\<forall>n. m < n \<and> n \<le> now \<and> 60 dvd n \<longrightarrow>
       list_all (\<lambda>r. \<not> is_due local is_power_off n r) (sch_rules s)"
    using due_minutes_last [OF assms(2) ne] by blast
  moreover from best_Some [OF m(4)] f have "fires_at (sch_rules s) local f m"
    using m(3) by (auto simp: fires_at_def due_at_set list_ex_iff list_all_iff)
  ultimately show ?thesis using gap that by blast
qed

lemma poll_rules_silent:
  assumes "sch_checked_until s = Some prev" "epoch_ok prev"
  shows "fst (poll_rules local now s) = None \<longleftrightarrow>
    \<not> (prev < now \<and> now - prev \<le> MAX_GAP_SECS) \<or>
    (\<forall>m. prev < m \<and> m \<le> now \<and> 60 dvd m \<longrightarrow>
       list_all (\<lambda>r. \<not> is_due local is_power_off m r) (sch_rules s))"
proof -
  let ?due = "due_minutes (sch_rules s) local prev now"
  have off: "fired_of (last ?due) \<noteq> None" if ne: "?due \<noteq> []"
  proof -
    obtain m where "best (due_at (sch_rules s) m local is_power_off) = Some (last ?due)"
      using due_minutes_last [OF assms(2) ne] by blast
    from best_Some [OF this] have "is_power_off (last ?due)" by (auto simp: due_at_set is_due_def)
    then show ?thesis by (simp add: fired_of_off)
  qed
  have "fst (poll_rules local now s) = None \<longleftrightarrow>
      \<not> (prev < now \<and> now - prev \<le> MAX_GAP_SECS) \<or> ?due = []"
    using assms(1) off by (auto simp: poll_rules_def Let_def MAX_GAP_SECS_def)
  then show ?thesis by (simp only: due_minutes_Nil [OF assms(2)])
qed

section \<open>Runs of the scheduler\<close>

definition poll_state :: "'d device \<Rightarrow> (int \<Rightarrow> local_time) \<Rightarrow> int \<Rightarrow> scheduler \<times> 'd \<Rightarrow> scheduler \<times> 'd" where
  "poll_state D local now sd = fst (snd (poll_with D local now sd))"

fun poll_run :: "'d device \<Rightarrow> (int \<Rightarrow> local_time) \<Rightarrow> int list \<Rightarrow> scheduler \<times> 'd \<Rightarrow> fired list" where
  "poll_run D local [] sd = []"
| "poll_run D local (now # nows) sd =
     (case fst (poll_with D local now sd) of None \<Rightarrow> [] | Some f \<Rightarrow> [f])
     @ poll_run D local nows (poll_state D local now sd)"

lemma poll_state_keeps:
  "sch_rules (fst (poll_state D local now sd)) = sch_rules (fst sd)"
  "sch_rtc (fst (poll_state D local now sd)) = sch_rtc (fst sd)"
  "sch_checked_until (fst (poll_state D local now sd))
     = Some (next_mark (sch_checked_until (fst sd)) now)"
  "sch_rtc (fst sd) = None \<Longrightarrow> snd (poll_state D local now sd) = snd sd"
  using poll_with_keeps [of D local now sd "fst (poll_with D local now sd)"
      "poll_state D local now sd" "snd (snd (poll_with D local now sd))"]
  by (auto simp: poll_state_def)

interpretation poll_machine: related_machine "\<lambda>now. poll_state D local now" "\<lambda>_. True"
  "\<lambda>a b. sch_rules (fst b) = sch_rules (fst a) \<and> sch_rtc (fst b) = sch_rtc (fst a)
     \<and> (sch_rtc (fst a) = None \<longrightarrow> snd b = snd a)"
  for D :: "'d device" and local
  by unfold_locales (auto simp: poll_state_keeps)

text \<open>A clock that steps back, if at all, by no more than the tolerated gap behind the mark.\<close>

fun clock_steady :: "int \<Rightarrow> int list \<Rightarrow> bool" where
  "clock_steady mark [] = True"
| "clock_steady mark (now # nows) \<longleftrightarrow>
     epoch_ok now \<and> mark - now \<le> MAX_GAP_SECS \<and> clock_steady (max mark now) nows"

lemma run_fires_increasing:
  assumes "sch_checked_until (fst sd) = Some mark" "epoch_ok mark" "clock_steady mark nows"
  shows "\<exists>ms. list_all2 (fires_at (sch_rules (fst sd)) local) (poll_run D local nows sd) ms
     \<and> sorted_wrt (<) ms \<and> list_all (\<lambda>m. mark < m) ms"
  using assms
proof (induction nows arbitrary: sd mark)
  case Nil
  then show ?case by simp
next
  case (Cons now nows)
  let ?sd = "poll_state D local now sd"
  have mark': "sch_checked_until (fst ?sd) = Some (max mark now)" "epoch_ok (max mark now)"
    using Cons.prems by (auto simp: poll_state_keeps next_mark_def max_def)
  with Cons.IH [of ?sd "max mark now"] Cons.prems obtain ms
    where ms: "list_all2 (fires_at (sch_rules (fst sd)) local) (poll_run D local nows ?sd) ms"
      "sorted_wrt (<) ms" "list_all (\<lambda>m. max mark now < m) ms" by (auto simp: poll_state_keeps)
  show ?case
  proof (cases "fst (poll_with D local now sd)")
    case None
    with ms show ?thesis by (intro exI [of _ ms]) (auto simp: list_all_iff)
  next
    case (Some f)
    then have "fst (poll_rules local now (fst sd)) = Some f" by (metis poll_with_fired prod.collapse)
    from poll_rules_fires [OF Cons.prems(1,2) this] obtain m
      where "mark < m" "m \<le> now" "fires_at (sch_rules (fst sd)) local f m" by blast
    with Some ms show ?thesis by (intro exI [of _ "m # ms"]) (auto simp: list_all_iff)
  qed
qed

section \<open>Properties\<close>

text \<open>C13. A poll fires exactly when it should. After a first poll up to \<open>prev\<close>, a poll at \<open>now\<close>
  fires nothing if and only if the clock did not advance, or jumped by more than
  \<open>MAX_GAP_SECS\<close>, or no shutdown or restart rule is due in \<open>(prev, now]\<close>; what it fires is a
  rule due at the last such minute \<open>m\<close>, a shutdown if any is due then. The first poll ever
  fires nothing.\<close>

theorem poll_fires_exactly:
  assumes "sch_checked_until s = Some prev" "epoch_ok prev"
  shows "(fst (poll_with D local now (s, d)) = None \<longleftrightarrow>
      \<not> (prev < now \<and> now - prev \<le> MAX_GAP_SECS) \<or>
      (\<forall>m. prev < m \<and> m \<le> now \<and> 60 dvd m \<longrightarrow>
         list_all (\<lambda>r. \<not> is_due local is_power_off m r) (sch_rules s)))
    \<and> (\<forall>f. fst (poll_with D local now (s, d)) = Some f \<longrightarrow>
      (\<exists>m. prev < m \<and> m \<le> now \<and> fires_at (sch_rules s) local f m
        \<and> (\<forall>n. m < n \<and> n \<le> now \<and> 60 dvd n \<longrightarrow>
             list_all (\<lambda>r. \<not> is_due local is_power_off n r) (sch_rules s))))
    \<and> fst (poll_with D local now (s\<lparr>sch_checked_until := None\<rparr>, d)) = None"
proof (intro conjI allI impI)
  show "fst (poll_with D local now (s, d)) = None \<longleftrightarrow>
      \<not> (prev < now \<and> now - prev \<le> MAX_GAP_SECS) \<or>
      (\<forall>m. prev < m \<and> m \<le> now \<and> 60 dvd m \<longrightarrow>
         list_all (\<lambda>r. \<not> is_due local is_power_off m r) (sch_rules s))"
    unfolding poll_with_fired by (rule poll_rules_silent [OF assms])
next
  fix f
  assume "fst (poll_with D local now (s, d)) = Some f"
  then have "fst (poll_rules local now s) = Some f" by simp
  from poll_rules_fires [OF assms this] show "\<exists>m. prev < m \<and> m \<le> now
      \<and> fires_at (sch_rules s) local f m
      \<and> (\<forall>n. m < n \<and> n \<le> now \<and> 60 dvd n \<longrightarrow>
           list_all (\<lambda>r. \<not> is_due local is_power_off n r) (sch_rules s))" by blast
qed (simp add: poll_rules_def)

definition null_device :: "unit device" where
  "null_device = \<lparr>rd = (\<lambda>_ _. Inr []), wr = (\<lambda>_ _ d. (None, d))\<rparr>"

definition midnight_scheduler :: scheduler where
  "midnight_scheduler = (with_rtc [midnight_rule] WAKEALARM_PATH)\<lparr>sch_checked_until := Some 30\<rparr>"

lemma midnight_scheduler_fields [simp]:
  "sch_checked_until midnight_scheduler = Some 30" "sch_rules midnight_scheduler = [midnight_rule]"
  "sch_rtc midnight_scheduler = None"
  by (simp_all add: midnight_scheduler_def with_rtc_def is_power_on_def)

theorem poll_fires_exactly_witness:
  "fst (poll_with null_device (fixed_zone 0) 90 (midnight_scheduler, ())) \<noteq> None
     \<and> fst (poll_with null_device (fixed_zone 0) 90
              (midnight_scheduler\<lparr>sch_checked_until := None\<rparr>, ())) = None"
proof -
  note p = poll_fires_exactly [of midnight_scheduler 30 null_device "fixed_zone 0" 90 "()"]
  have "fst (poll_with null_device (fixed_zone 0) 90 (midnight_scheduler, ())) \<noteq> None"
  proof
    assume "fst (poll_with null_device (fixed_zone 0) 90 (midnight_scheduler, ())) = None"
    with p have "\<forall>m. 30 < m \<and> m \<le> 90 \<and> 60 dvd m \<longrightarrow>
        \<not> is_due (fixed_zone 0) is_power_off m midnight_rule"
      by (simp add: epoch_ok_def MAX_GAP_SECS_def)
    from this [rule_format, of 60] midnight_due show False by simp
  qed
  with p show ?thesis by (simp add: epoch_ok_def)
qed

text \<open>C14. Nothing fires twice. As long as the clock never falls more than \<open>MAX_GAP_SECS\<close> behind
  the high-water mark, the shutdowns and restarts a whole run of polls fires belong to strictly
  increasing minutes, all after the mark the run started from, whatever the time zone does.\<close>

theorem poll_run_never_repeats:
  assumes "sch_checked_until s = Some mark" "epoch_ok mark" "clock_steady mark nows"
  shows "\<exists>ms. list_all2 (fires_at (sch_rules s) local) (poll_run D local nows (s, d)) ms
     \<and> sorted_wrt (<) ms \<and> list_all (\<lambda>m. mark < m) ms"
  using run_fires_increasing [of "(s, d)" mark nows local D] assms by simp

theorem poll_run_never_repeats_witness:
  "\<exists>ms. list_all2 (fires_at [midnight_rule] (fixed_zone 0))
         (poll_run null_device (fixed_zone 0) [90, 40, 100, 900] (midnight_scheduler, ())) ms
       \<and> sorted_wrt (<) ms \<and> list_all (\<lambda>m. 30 < m) ms"
  using poll_run_never_repeats [of midnight_scheduler 30 "[90, 40, 100, 900]" "fixed_zone 0" null_device "()"]
  by (simp add: epoch_ok_def MAX_GAP_SECS_def)

text \<open>
  The wake alarm as the kernel implements it: reads empty while disarmed, \<open>0\<close> disarms, a
  number arms, and an armed alarm is not replaced by another (\<open>EBUSY\<close>).
\<close>

definition kernel_rtc :: "int option device" where
  "kernel_rtc =
     \<lparr>rd = (\<lambda>_ d. Inr (case d of None \<Rightarrow> [] | Some t \<Rightarrow> int_str t @ [CHR 0x0A])),
      wr = (\<lambda>_ txt d.
        case parse_i64 txt of
          Inl e \<Rightarrow> (Some \<lparr>io_invalid_input = True, io_text = ''Invalid argument''\<rparr>, d)
        | Inr t \<Rightarrow> if t = 0 then (None, None)
                 else if d = None then (None, Some t)
                 else (Some \<lparr>io_invalid_input = False, io_text = ''Device or resource busy''\<rparr>, d))\<rparr>"

text \<open>Without an enabled power-on rule the RTC is never touched: over any run of polls of
  a new scheduler, whatever the clock does, the wake alarm device is never changed.\<close>

theorem rtc_left_alone:
  assumes "list_all (\<lambda>r. \<not> is_power_on r) (parse_rules raw)"
  shows "snd (fold (poll_state D local) nows (scheduler_new raw, d)) = d"
  using assms poll_machine.run_rel [where s = "(scheduler_new raw, d)" and D = D and local = local and ops = nows]
  by (simp add: scheduler_new_def with_rtc_def list_all_iff list_ex_iff)

theorem rtc_left_alone_witness:
  "snd (fold (poll_state kernel_rtc (fixed_zone 0)) [60, 120, 7000] (scheduler_new [], Some 5)) = Some 5"
  by (rule rtc_left_alone) (simp add: parse_rules_def List.map_filter_simps)

section \<open>Arming the wake alarm\<close>

lemma foldl_digits_mono: "n \<le> foldl (\<lambda>n c. 10 * n + digit_val c) n s"
proof (induction s arbitrary: n)
  case (Cons c s)
  have "n \<le> 10 * n + digit_val c" by simp
  also have "\<dots> \<le> foldl (\<lambda>n c. 10 * n + digit_val c) (10 * n + digit_val c) s" by (rule Cons.IH)
  finally show ?case by simp
qed simp

lemma parse_i64_digits_value:
  "list_all is_digit s \<Longrightarrow> int (foldl (\<lambda>n c. 10 * n + digit_val c) n s) \<le> I64_MAX \<Longrightarrow>
     parse_i64_digits False (int n) s = Inr (int (foldl (\<lambda>n c. 10 * n + digit_val c) n s))"
proof (induction s arbitrary: n)
  case Nil
  then show ?case by simp
next
  case (Cons c s)
  have e: "int n * 10 + int (digit_val c) = int (10 * n + digit_val c)" by simp
  have "int (10 * n + digit_val c) \<le> int (foldl (\<lambda>n c. 10 * n + digit_val c) (10 * n + digit_val c) s)"
    using foldl_digits_mono [of "10 * n + digit_val c" s] by simp
  with Cons.prems have "int (10 * n + digit_val c) \<le> I64_MAX" by simp
  then have "\<not> int (10 * n + digit_val c) < I64_MIN" "\<not> I64_MAX < int (10 * n + digit_val c)"
    by (auto simp: I64_MIN_def)
  with Cons show ?case unfolding parse_i64_digits.simps e by (simp add: Let_def del: of_nat_add of_nat_mult)
qed

lemma int_str_digits: "0 \<le> t \<Longrightarrow> list_all is_digit (int_str t) \<and> int_str t \<noteq> []"
  using nat_str_digits [of "nat t"] by (simp add: int_str_def)

lemma int_str_no_sign:
  assumes "0 \<le> t"
  shows "hd (int_str t) \<noteq> CHR ''-''" "hd (int_str t) \<noteq> CHR ''+''"
proof -
  have "is_digit (hd (int_str t))"
    using int_str_digits [OF assms] by (cases "int_str t") auto
  moreover have "\<not> is_digit CHR ''-''" "\<not> is_digit CHR ''+''" by (simp_all add: is_digit_def)
  ultimately show "hd (int_str t) \<noteq> CHR ''-''" "hd (int_str t) \<noteq> CHR ''+''" by auto
qed

lemma parse_i64_int_str:
  assumes "0 \<le> t" "t \<le> I64_MAX" shows "parse_i64 (int_str t) = Inr t"
proof -
  have "digits_val (int_str t) = nat t"
    using assms(1) nat_str_digits [of "nat t"] by (simp add: int_str_def)
  moreover have "int_str t \<noteq> ''+''" "int_str t \<noteq> ''-''" using int_str_no_sign [OF assms(1)] by auto
  ultimately show ?thesis
    using parse_i64_digits_value [of "int_str t" 0] int_str_digits [OF assms(1)] int_str_no_sign [OF assms(1)]
      assms by (simp add: parse_i64_def digits_val_def)
qed

lemma trim_digits_nl:
  assumes "list_all is_digit s" "s \<noteq> []" shows "trim (s @ [CHR 0x0A]) = s"
proof -
  obtain c cs where s: "s = c # cs" using assms(2) by (cases s) auto
  have "\<not> is_whitespace c" "\<not> is_whitespace (last s)"
    using assms by (auto simp: s list_all_iff intro!: digit_not_whitespace)
  moreover have "is_whitespace CHR 0x0A" by (simp add: is_whitespace_def)
  ultimately show ?thesis
    using assms(2) by (simp add: trim_def trim_start_def trim_end_def s)
      (cases "rev cs"; simp add: hd_rev [symmetric] split: if_splits)
qed

text \<open>
  What the sources say of the wake alarm file: after \<open>0\<close> has been written it reads empty, and
  after a time has been written it reads that time (and a newline, as every sysfs attribute).
\<close>

definition obeys_wakealarm :: "'d device \<Rightarrow> bool" where
  "obeys_wakealarm D \<longleftrightarrow>
     (\<forall>p d d'. wr D p ''0'' d = (None, d') \<longrightarrow> rd D p d' = Inr []) \<and>
     (\<forall>p t d d'. 0 < t \<longrightarrow> wr D p (int_str t) d = (None, d') \<longrightarrow>
        rd D p d' = Inr (int_str t @ [CHR 0x0A]))"

lemma set_alarm_reads_back:
  assumes "obeys_wakealarm D" "set_alarm D path want d = (Inr changed, d')"
    and "\<forall>t. want = Some t \<longrightarrow> 0 < t \<and> t \<le> I64_MAX"
  shows "read_wakealarm D path d' = Inr want"
proof -
  have "trim [] = []" by (simp add: trim_def trim_start_def trim_end_def)
  moreover have "read_wakealarm D path e = Inr (Some t)"
    if "rd D path e = Inr (int_str t @ [CHR 0x0A])" "0 < t" "t \<le> I64_MAX" for e t
    using that int_str_digits [of t] by (simp add: read_wakealarm_def trim_digits_nl parse_i64_int_str)
  ultimately show ?thesis
    using assms unfolding set_alarm_def obeys_wakealarm_def
    by (fastforce simp: read_wakealarm_def split: sum.splits prod.splits option.splits if_splits)
qed

lemma next_occurrence_range:
  "epoch_ok now \<Longrightarrow> next_occurrence rules now local P = Some (t, r) \<Longrightarrow> 0 < t \<and> t \<le> I64_MAX"
  using next_occurrence_Some [of now rules local P t r] by (auto simp: epoch_ok_def I64_MAX_def)

text \<open>C15. \<open>sync_rtc_with\<close> arms what the schedule wants. On a wake alarm that reads back what was
  written, a call that logs no error leaves the device reading exactly the next power on (or
  disarmed when there is none) and \<open>armed\<close> saying so, and a second call at the same moment
  changes neither the device nor the state and logs nothing; a call that fails leaves
  \<open>armed\<close> empty, and warns only if the error is not the one already reported.\<close>

theorem sync_rtc_arms:
  assumes "sch_rtc s = Some path" "epoch_ok now" "obeys_wakealarm D"
    and "sync_rtc_with D local now (s, d) = ((s1, d1), l1)"
  shows "(case sch_rtc_error s1 of
      None \<Rightarrow> sch_armed s1 = map_option fst (next_occurrence (sch_rules s) now local is_power_on)
        \<and> read_wakealarm D path d1 = Inr (sch_armed s1)
        \<and> sync_rtc_with D local now (s1, d1) = ((s1, d1), [])
    | Some msg \<Rightarrow> sch_armed s1 = None
        \<and> l1 = (if sch_rtc_error s = Some msg then [] else [syslog PWarning msg [] []]))"
proof -
  let ?want = "next_occurrence (sch_rules s) now local is_power_on"
  have range: "\<forall>t. map_option fst ?want = Some t \<longrightarrow> 0 < t \<and> t \<le> I64_MAX"
    using next_occurrence_range [OF assms(2)] by auto
  show ?thesis
  proof (cases "set_alarm D path (map_option fst ?want) d")
    case (Pair res d')
    show ?thesis
    proof (cases res)
      case (Inl e)
      with assms(1,4) Pair show ?thesis by (auto simp: sync_rtc_with_def Let_def)
    next
      case (Inr changed)
      with Pair range have read: "read_wakealarm D path d' = Inr (map_option fst ?want)"
        using set_alarm_reads_back [OF assms(3)] by blast
      from assms(1,4) Pair Inr have s1: "s1 = s\<lparr>sch_next_rtc_check := sat_add now RTC_RECHECK_SECS,
          sch_rtc_error := None, sch_armed := map_option fst ?want\<rparr>" "d1 = d'"
        by (auto simp: sync_rtc_with_def Let_def)
      from read have "set_alarm D path (map_option fst ?want) d' = (Inr False, d')"
        by (simp add: set_alarm_def)
      with s1 read assms(1) show ?thesis
        by (auto simp: sync_rtc_with_def Let_def split: option.splits)
    qed
  qed
qed

lemma parse_i64_digits_sound:
  "list_all is_digit s \<Longrightarrow> parse_i64_digits False (int n) s = Inr u \<Longrightarrow>
     u = int (foldl (\<lambda>n c. 10 * n + digit_val c) n s)"
proof (induction s arbitrary: n)
  case (Cons c s)
  have e: "int n * 10 + int (digit_val c) = int (10 * n + digit_val c)" by simp
  from Cons show ?case
    unfolding parse_i64_digits.simps e by (auto simp: Let_def simp del: of_nat_add of_nat_mult split: if_splits)
qed simp

lemma parse_i64_int_str_inv:
  assumes "parse_i64 (int_str t) = Inr u" "0 \<le> t" shows "u = t"
proof -
  have "parse_i64_digits False (int 0) (int_str t) = Inr u"
    using assms int_str_no_sign [OF assms(2)] by (auto simp: parse_i64_def split: if_splits)
  moreover have "list_all is_digit (int_str t)" using int_str_digits assms(2) by blast
  moreover have "digits_val (int_str t) = nat t"
    using assms(2) nat_str_digits [of "nat t"] by (simp add: int_str_def)
  ultimately show ?thesis using parse_i64_digits_sound [of "int_str t" 0 u] assms(2)
    by (simp add: digits_val_def)
qed

lemma kernel_rtc_obeys: "obeys_wakealarm kernel_rtc"
proof -
  have "parse_i64 ''0'' = Inr 0" by (simp add: parse_i64_def is_digit_def digit_val_def I64_MIN_def I64_MAX_def)
  then show ?thesis
    by (auto simp: obeys_wakealarm_def kernel_rtc_def split: sum.splits if_splits
        dest: parse_i64_int_str_inv [OF _ less_imp_le])
qed

lemma kernel_rtc_set:
  assumes "0 < t" "t \<le> I64_MAX"
  shows "set_alarm kernel_rtc path (Some t) None = (Inr True, Some t)"
proof -
  have "parse_i64 ''0'' = Inr 0" by (simp add: parse_i64_def is_digit_def digit_val_def I64_MIN_def I64_MAX_def)
  with assms show ?thesis
    by (simp add: set_alarm_def read_wakealarm_def kernel_rtc_def trim_def trim_start_def trim_end_def
        parse_i64_int_str)
qed

lemma sunday_wake_on: "\<exists>r. r \<in> set (parse_rules [sunday_wake]) \<and> is_power_on r"
  by (subst sunday_wake_parses) (simp add: is_power_on_def)

theorem sync_rtc_arms_witness:
  "\<exists>t s1 l1. sync_rtc_with kernel_rtc (fixed_zone 0) 1700000000
       (with_rtc (parse_rules [sunday_wake]) WAKEALARM_PATH, None) = ((s1, Some t), l1)
     \<and> sch_armed s1 = Some t \<and> read_wakealarm kernel_rtc WAKEALARM_PATH (Some t) = Inr (Some t)"
proof -
  let ?s = "with_rtc (parse_rules [sunday_wake]) WAKEALARM_PATH"
  obtain r where r: "r \<in> set (parse_rules [sunday_wake])" "is_power_on r" using sunday_wake_on by blast
  have rtc: "sch_rtc ?s = Some WAKEALARM_PATH" "sch_rules ?s = parse_rules [sunday_wake]"
    using r by (auto simp: with_rtc_def list_ex_iff)
  have ok: "epoch_ok 1700000000" by (simp add: epoch_ok_def)
  obtain m where "1700000000 < m \<and> m \<le> 1700000000 + 604800 \<and> 60 dvd m \<and> rule_matches r (fixed_zone 0 m)"
    using fixed_zone_matches [OF ok, of 0 r] parse_rules_ok [OF r(1)] by auto
  with r have "next_occurrence (parse_rules [sunday_wake]) 1700000000 (fixed_zone 0) is_power_on \<noteq> None"
    unfolding next_occurrence_None [OF ok] by (fastforce simp: is_due_def)
  then obtain t x where t: "next_occurrence (parse_rules [sunday_wake]) 1700000000 (fixed_zone 0) is_power_on
      = Some (t, x)" by fastforce
  from next_occurrence_range [OF ok t] have "set_alarm kernel_rtc WAKEALARM_PATH (Some t) None = (Inr True, Some t)"
    by (intro kernel_rtc_set) auto
  then obtain s1 l1 where run: "sync_rtc_with kernel_rtc (fixed_zone 0) 1700000000 (?s, None) = ((s1, Some t), l1)"
    "sch_rtc_error s1 = None"
    using rtc t by (auto simp: sync_rtc_with_def Let_def)
  from sync_rtc_arms [OF rtc(1) ok kernel_rtc_obeys run(1)] run t rtc show ?thesis by auto
qed

text \<open>\<open>poll\<close>'s comment promises never to return the same shutdown or restart twice; a clock set
  back by more than \<open>MAX_GAP_SECS\<close> breaks that. With a restart rule due at minute 60, a run
  that passes 60, jumps forward, is set back before 60 and passes it again fires it twice.\<close>

theorem clock_set_back_fires_again:
  "map fired_action (poll_run null_device (fixed_zone 0) [90, 500, 30, 90] (midnight_scheduler, ()))
     = [Restart, Restart]"
proof -
  have due: "due_minutes [midnight_rule] (fixed_zone 0) 30 90 = [midnight_rule]"
  proof -
    have "minute_boundaries 30 90 = [60]"
      by (simp add: minute_boundaries_def first_boundary_def sat_id I64_MIN_def I64_MAX_def Let_def)
    moreover have "best (due_at [midnight_rule] 60 (fixed_zone 0) is_power_off) = Some midnight_rule"
      using midnight_due by (simp add: due_at_def is_due_def Let_def best_def max_by_key_def)
    ultimately show ?thesis by (simp add: due_minutes_def List.map_filter_simps)
  qed
  have fire: "fired_of midnight_rule = Some \<lparr>fired_action = Restart, fired_countdown_secs = 60,
      fired_label = ''x''\<rparr>" by (simp add: fired_of_def)
  have step: "poll_with null_device (fixed_zone 0) now (s, ()) =
      (fst (poll_rules (fixed_zone 0) now s), (fst (snd (poll_rules (fixed_zone 0) now s)), ()),
       snd (snd (poll_rules (fixed_zone 0) now s)))" if "sch_rtc s = None" for now s
  proof -
    have "sch_rtc (fst (snd (poll_rules (fixed_zone 0) now s))) = None"
      using that by (auto simp: poll_rules_def Let_def split: option.splits)
    then show ?thesis by (simp add: poll_with_def Let_def split_beta)
  qed
  show ?thesis
    by (simp add: poll_state_def step poll_rules_def MAX_GAP_SECS_def due fire Let_def)
qed

end
