(* ===== verification/Floats.thy ===== *)
theory Floats
  imports Prelude Complex_Main "HOL-Library.Log_Nat"
begin

text \<open>
  \<open>f32\<close> arithmetic. A finite \<open>f32\<close> is its exact value, a \<open>rat\<close>; every operation rounds its
  exact result to 24 significant bits, ties to even (\<open>f32_round\<close>). Temperatures, duty
  cycles and speeds stay far from the ends of the exponent range, which is not modelled; the
  sources filter infinities and NaN where a number enters (\<open>is_finite\<close>). \<open>round\<close> is the one
  of \<open>f32\<close>, halves away from zero; \<open>{:.1}\<close> and the like round the exact value, ties to even.
\<close>

section \<open>Rounding to integers\<close>

definition round_even :: "rat \<Rightarrow> int" where
  "round_even x =
     (let n = \<lfloor>x\<rfloor>; d = x - of_int n in
      if d < 1 / 2 then n else if 1 / 2 < d then n + 1 else if even n then n else n + 1)"

definition round_away :: "rat \<Rightarrow> int" where
  "round_away x = (if x < 0 then - \<lfloor>1 / 2 - x\<rfloor> else \<lfloor>x + 1 / 2\<rfloor>)"

lemma round_even_bounds: "\<lfloor>x\<rfloor> \<le> round_even x" "round_even x \<le> \<lfloor>x\<rfloor> + 1"
  by (simp_all add: round_even_def Let_def)

lemma round_even_of_int [simp]: "round_even (of_int k) = k"
  by (simp add: round_even_def)

lemma round_even_mono: "x \<le> y \<Longrightarrow> round_even x \<le> round_even y"
proof (cases "\<lfloor>x\<rfloor> = \<lfloor>y\<rfloor>")
  case True
  assume "x \<le> y"
  with True show ?thesis by (auto simp: round_even_def Let_def)
next
  case False
  assume "x \<le> y"
  then have "\<lfloor>x\<rfloor> \<le> \<lfloor>y\<rfloor>" by (rule floor_mono)
  with False have "\<lfloor>x\<rfloor> + 1 \<le> \<lfloor>y\<rfloor>" by simp
  with round_even_bounds [of x] round_even_bounds [of y] show ?thesis by linarith
qed

lemma round_even_error: "\<bar>of_int (round_even x) - x\<bar> \<le> 1 / 2"
proof -
  have "of_int \<lfloor>x\<rfloor> \<le> x" "x < of_int \<lfloor>x\<rfloor> + 1" by linarith+
  then show ?thesis by (auto simp: round_even_def Let_def abs_le_iff)
qed

lemma round_away_mono: "x \<le> y \<Longrightarrow> round_away x \<le> round_away y"
proof -
  assume xy: "x \<le> y"
  then have "x + 1 / 2 \<le> y + 1 / 2" "1 / 2 - y \<le> 1 / 2 - x" by simp_all
  from floor_mono [OF this(1)] floor_mono [OF this(2)]
  have m: "\<lfloor>x + 1 / 2\<rfloor> \<le> \<lfloor>y + 1 / 2\<rfloor>" "\<lfloor>1 / 2 - y\<rfloor> \<le> \<lfloor>1 / 2 - x\<rfloor>" .
  show ?thesis
  proof (cases "x < 0 \<and> 0 \<le> y")
    case True
    then have "0 \<le> \<lfloor>1 / 2 - x\<rfloor>" "0 \<le> \<lfloor>y + 1 / 2\<rfloor>" by (simp_all add: zero_le_floor)
    then have "- \<lfloor>1 / 2 - x\<rfloor> \<le> \<lfloor>y + 1 / 2\<rfloor>" by linarith
    with True show ?thesis by (simp add: round_away_def)
  next
    case False
    with m xy show ?thesis by (auto simp: round_away_def)
  qed
qed

lemma round_away_of_int [simp]: "round_away (of_int k) = k"
proof -
  have "\<lfloor>(of_int k :: rat) + 1 / 2\<rfloor> = k" "\<lfloor>1 / 2 - (of_int k :: rat)\<rfloor> = - k"
    by (simp_all add: floor_unique)
  then show ?thesis by (simp add: round_away_def)
qed

lemma round_away_near: "0 \<le> k \<Longrightarrow> \<bar>x - of_int k\<bar> < 1 / 2 \<Longrightarrow> round_away x = k"
proof -
  assume k: "0 \<le> k" "\<bar>x - of_int k\<bar> < 1 / 2"
  from k(2) have x: "x < of_int k + 1 / 2" "of_int k - 1 / 2 < x"
    unfolding abs_less_iff by linarith+
  show ?thesis
  proof (cases "x < 0")
    case True
    with x have "(of_int k :: rat) < 1 / 2" by linarith
    with k have "k = 0" by (simp add: order_less_le)
    with x True have "\<lfloor>1 / 2 - x\<rfloor> = 0" by (simp add: floor_eq_iff)
    with True \<open>k = 0\<close> show ?thesis by (simp add: round_away_def)
  next
    case False
    with x have "\<lfloor>x + 1 / 2\<rfloor> = k" by (simp add: floor_eq_iff)
    with False show ?thesis by (simp add: round_away_def)
  qed
qed

section \<open>Rounding to 24 bits\<close>

text \<open>The exponent of a positive number: \<open>2 powi e \<le> x < 2 powi (e + 1)\<close>.\<close>

definition exponent :: "rat \<Rightarrow> int" where
  "exponent x =
     (if 1 \<le> x then int (floorlog 2 (nat \<lfloor>x\<rfloor>)) - 1
      else - int (floorlog 2 (nat (\<lceil>1 / x\<rceil> - 1))))"

definition f32_round :: "rat \<Rightarrow> rat" where
  "f32_round x =
     (if x = 0 then 0
      else let s = 2 powi (exponent \<bar>x\<bar> - 23) in
        (if x < 0 then - (of_int (round_even (\<bar>x\<bar> / s)) * s)
         else of_int (round_even (\<bar>x\<bar> / s)) * s))"

lemma exponent_bounds:
  assumes "0 < x"
  shows "2 powi (exponent x) \<le> x" "x < 2 powi (exponent x + 1)"
proof -
  have "2 powi (exponent x) \<le> x \<and> x < 2 powi (exponent x + 1)"
  proof (cases "1 \<le> x")
    case True
    define n where "n = nat \<lfloor>x\<rfloor>"
    from True have n: "0 < n" "of_nat n \<le> x" "x < of_nat n + 1"
      by (simp_all add: n_def le_floor_iff) linarith+
    have fl: "2 ^ (floorlog 2 n - 1) \<le> n" "n < 2 ^ floorlog 2 n"
      using floorlog_bounds [of n 2] n(1) by auto
    have pos: "0 < floorlog 2 n" using n(1) by (simp add: floorlog_def)
    have "(2 :: rat) ^ (floorlog 2 n - 1) \<le> of_nat n" using fl(1) by (metis of_nat_le_iff of_nat_numeral of_nat_power)
    moreover have "of_nat n + 1 \<le> (2 :: rat) ^ floorlog 2 n"
      using fl(2) by (metis Suc_leI of_nat_Suc of_nat_le_iff of_nat_numeral of_nat_power add.commute)
    moreover have e: "exponent x = int (floorlog 2 n - 1)" "exponent x + 1 = int (floorlog 2 n)"
      using True pos by (simp_all add: exponent_def n_def)
    moreover from e have "2 powi (exponent x) = (2 :: rat) ^ (floorlog 2 n - 1)"
      "2 powi (exponent x + 1) = (2 :: rat) ^ floorlog 2 n"
      by (simp_all only: power_int_of_nat)
    ultimately show ?thesis using n by linarith
  next
    case False
    define m where "m = nat (\<lceil>1 / x\<rceil> - 1)"
    define k where "k = floorlog 2 m"
    from False assms have "1 < 1 / x" by simp
    then have m: "0 < m" "of_nat m < 1 / x" "1 / x \<le> of_nat m + 1"
      unfolding m_def by (simp_all add: less_ceiling_iff) linarith+
    have fl: "2 ^ (k - 1) \<le> m" "m < 2 ^ k"
      using floorlog_bounds [of m 2] m(1) by (auto simp: k_def)
    have pos: "0 < k" using m(1) by (simp add: floorlog_def k_def)
    have "(2 :: rat) ^ (k - 1) \<le> of_nat m" using fl(1) by (metis of_nat_le_iff of_nat_numeral of_nat_power)
    with m(2) have "(2 :: rat) ^ (k - 1) < 1 / x" by linarith
    then have hi: "x < 1 / 2 ^ (k - 1)" using assms by (simp add: field_simps)
    have "of_nat m + 1 \<le> (2 :: rat) ^ k"
      using fl(2) by (metis Suc_leI of_nat_Suc of_nat_le_iff of_nat_numeral of_nat_power add.commute)
    with m(3) have "1 / x \<le> (2 :: rat) ^ k" by linarith
    then have lo: "1 / 2 ^ k \<le> x" using assms by (simp add: field_simps)
    have e: "exponent x = - int k" "exponent x + 1 = - int (k - 1)"
      using False pos by (simp_all add: exponent_def m_def k_def)
    then have "2 powi (exponent x) = 1 / (2 :: rat) ^ k"
      "2 powi (exponent x + 1) = 1 / (2 :: rat) ^ (k - 1)"
      by (simp_all only: power_int_minus power_int_of_nat inverse_eq_divide)
    with lo hi show ?thesis by simp
  qed
  then show "2 powi (exponent x) \<le> x" "x < 2 powi (exponent x + 1)" by auto
qed

lemma exponent_mono: "0 < x \<Longrightarrow> x \<le> y \<Longrightarrow> exponent x \<le> exponent y"
proof (rule ccontr)
  assume *: "0 < x" "x \<le> y" "\<not> exponent x \<le> exponent y"
  then have "2 powi (exponent y + 1) \<le> (2 :: rat) powi (exponent x)"
    by (intro power_int_increasing) auto
  with exponent_bounds [of x] exponent_bounds [of y] * show False by linarith
qed

text \<open>On positive numbers: the rounded significand has 24 bits, or is the next power of two.\<close>

lemma f32_pos:
  assumes "0 < x"
  shows "f32_round x = of_int (round_even (x / 2 powi (exponent x - 23))) * 2 powi (exponent x - 23)"
  using assms by (simp add: f32_round_def Let_def)

lemma powi_split: "(2 :: rat) powi (e - 23) * 2 ^ n = 2 powi (e - 23 + int n)"
  by (simp add: power_int_add)

lemma f32_range:
  assumes "0 < x"
  shows "2 powi (exponent x) \<le> f32_round x" "f32_round x \<le> 2 powi (exponent x + 1)"
proof -
  define s :: rat where "s = 2 powi (exponent x - 23)"
  have s: "0 < s" by (simp add: s_def)
  have p: "s * 2 ^ 23 = 2 powi (exponent x)" "s * 2 ^ 24 = 2 powi (exponent x + 1)"
    unfolding s_def powi_split by (simp_all add: add.commute)
  from exponent_bounds [OF assms] p have "s * 2 ^ 23 \<le> x" "x \<le> s * 2 ^ 24" by simp_all
  with s have "of_int (2 ^ 23) \<le> x / s" "x / s \<le> of_int (2 ^ 24)" by (simp_all add: field_simps)
  from this [THEN round_even_mono] have "2 ^ 23 \<le> round_even (x / s)" "round_even (x / s) \<le> 2 ^ 24"
    by (simp_all only: round_even_of_int)
  then have "(2 :: rat) ^ 23 \<le> of_int (round_even (x / s))" "of_int (round_even (x / s)) \<le> (2 :: rat) ^ 24"
    by simp_all
  then have "2 ^ 23 * s \<le> of_int (round_even (x / s)) * s" "of_int (round_even (x / s)) * s \<le> 2 ^ 24 * s"
    using s by (auto intro: mult_right_mono)
  with p show "2 powi (exponent x) \<le> f32_round x" "f32_round x \<le> 2 powi (exponent x + 1)"
    by (simp_all add: f32_pos [OF assms] mult.commute flip: s_def)
qed

lemma f32_pos_pos: "0 < x \<Longrightarrow> 0 < f32_round x"
  using f32_range(1) [of x] by (meson less_le_trans zero_less_power_int zero_less_numeral)

lemma f32_minus [simp]: "f32_round (- x) = - f32_round x"
  by (simp add: f32_round_def Let_def)

lemma f32_zero [simp]: "f32_round 0 = 0"
  by (simp add: f32_round_def)

lemma f32_mono_pos:
  assumes "0 < x" "x \<le> y" shows "f32_round x \<le> f32_round y"
proof (cases "exponent x = exponent y")
  case True
  define s :: rat where "s = 2 powi (exponent y - 23)"
  have s: "0 < s" by (simp add: s_def)
  with assms(2) have "x / s \<le> y / s" by (simp add: divide_right_mono)
  then have "of_int (round_even (x / s)) \<le> (of_int (round_even (y / s)) :: rat)"
    by (simp add: round_even_mono)
  with s assms True show ?thesis by (simp add: f32_pos mult_right_mono flip: s_def)
next
  case False
  with exponent_mono [OF assms] have "exponent x + 1 \<le> exponent y" by simp
  then have "(2 :: rat) powi (exponent x + 1) \<le> 2 powi (exponent y)"
    by (intro power_int_increasing) auto
  with f32_range(2) [OF assms(1)] f32_range(1) [of y] assms show ?thesis by linarith
qed

lemma f32_mono: "x \<le> y \<Longrightarrow> f32_round x \<le> f32_round y"
proof -
  assume xy: "x \<le> y"
  consider "0 < x" | "x = 0" | "x < 0" "0 \<le> y" | "y < 0" using xy by linarith
  then show ?thesis
  proof cases
    case 1 then show ?thesis using xy by (rule f32_mono_pos)
  next
    case 2 then show ?thesis using xy f32_pos_pos [of y] by (cases "y = 0") auto
  next
    case 3
    then have "f32_round x < 0" using f32_pos_pos [of "- x"] by simp
    moreover have "0 \<le> f32_round y" using 3 f32_pos_pos [of y] by (cases "y = 0") auto
    ultimately show ?thesis by simp
  next
    case 4
    with xy f32_mono_pos [of "- y" "- x"] show ?thesis by simp
  qed
qed

lemma f32_error: "\<bar>f32_round x - x\<bar> \<le> \<bar>x\<bar> / 2 ^ 24"
proof -
  have pos: "\<bar>f32_round x - x\<bar> \<le> x / 2 ^ 24" if x: "0 < x" for x
  proof -
    define s :: rat where "s = 2 powi (exponent x - 23)"
    have s: "0 < s" by (simp add: s_def)
    have "s * 2 ^ 23 \<le> x" unfolding s_def powi_split using exponent_bounds(1) [OF x] by simp
    then have half: "s / 2 \<le> x / 2 ^ 24" by (simp add: field_simps)
    have "f32_round x - x = (of_int (round_even (x / s)) - x / s) * s"
      using s by (simp add: f32_pos [OF x] field_simps flip: s_def)
    then have "\<bar>f32_round x - x\<bar> = \<bar>of_int (round_even (x / s)) - x / s\<bar> * s"
      using s by (simp add: abs_mult)
    also have "\<dots> \<le> 1 / 2 * s" using round_even_error [of "x / s"] s by (intro mult_right_mono) auto
    finally show ?thesis using half by simp
  qed
  consider "x = 0" | "0 < x" | "x < 0" by linarith
  then show ?thesis
  proof cases
    case 3
    with pos [of "- x"] show ?thesis by (simp add: abs_minus_commute)
  qed (auto dest: pos)
qed

text \<open>Numbers of at most 24 bits are exact.\<close>

lemma f32_exact_nat: "n < 2 ^ 24 \<Longrightarrow> f32_round (of_nat n) = of_nat n"
proof (cases "n = 0")
  case False
  assume n: "n < 2 ^ 24"
  define e where "e = exponent (of_nat n :: rat)"
  have pos: "(0 :: rat) < of_nat n" using False by simp
  have "e \<le> 23"
  proof (rule ccontr)
    assume "\<not> e \<le> 23"
    then have "(2 :: rat) powi 24 \<le> 2 powi e" by (intro power_int_increasing) auto
    with exponent_bounds(1) [OF pos] have "(2 :: rat) ^ 24 \<le> of_nat n" by (simp add: e_def)
    with n show False by (metis not_less of_nat_le_iff of_nat_numeral of_nat_power)
  qed
  then obtain k where k: "e - 23 = - int k" by (metis diff_le_0_iff_le minus_minus nonneg_int_cases neg_0_le_iff_le)
  then have s: "(2 :: rat) powi (e - 23) = 1 / 2 ^ k"
    by (simp only: power_int_minus power_int_of_nat inverse_eq_divide)
  have "of_nat n / (1 / (2 :: rat) ^ k) = of_int (int n * 2 ^ k)" by simp
  then have "round_even (of_nat n / (1 / (2 :: rat) ^ k)) = int n * 2 ^ k"
    by (simp only: round_even_of_int)
  then show ?thesis by (simp add: f32_pos [OF pos] s flip: e_def)
qed simp

section \<open>What rounded arithmetic promises\<close>

text \<open>
  The interface the components use: rounding is monotone, exact on small integers and has a
  small relative error. It carries the one numeric fact of the fan curve: a proportion
  \<open>d * w / D\<close> with \<open>0 \<le> d \<le> D\<close>, computed with three roundings, exceeds \<open>w\<close> by less
  than a quarter.
\<close>

locale rounding =
  fixes fl :: "rat \<Rightarrow> rat"
  assumes fl_mono: "x \<le> y \<Longrightarrow> fl x \<le> fl y"
    and fl_small: "n < 2 ^ 24 \<Longrightarrow> fl (of_nat n) = of_nat n"
    and fl_error: "\<bar>fl x - x\<bar> \<le> \<bar>x\<bar> / 2 ^ 24"
begin

lemma fl_zero: "fl 0 = 0"
  using fl_small [of 0] by simp

lemma fl_nonneg: "0 \<le> x \<Longrightarrow> 0 \<le> fl x"
  using fl_mono [of 0 x] by (simp add: fl_zero)

lemma fl_upper: "0 \<le> x \<Longrightarrow> fl x \<le> x * (1 + 1 / 2 ^ 24)"
proof -
  assume "0 \<le> x"
  have "fl x - x \<le> \<bar>x\<bar> / 2 ^ 24" using fl_error [of x] by (rule order_trans [OF abs_ge_self])
  with \<open>0 \<le> x\<close> show ?thesis by (simp add: algebra_simps)
qed

definition ratio :: "rat \<Rightarrow> rat \<Rightarrow> rat \<Rightarrow> rat" where
  "ratio d w D = fl (fl (d * w) / D)"

lemma ratio_nonneg: "0 \<le> d \<Longrightarrow> 0 \<le> w \<Longrightarrow> 0 < D \<Longrightarrow> 0 \<le> ratio d w D"
  by (simp add: ratio_def fl_nonneg)

lemma ratio_mono: "d \<le> e \<Longrightarrow> 0 \<le> w \<Longrightarrow> 0 < D \<Longrightarrow> ratio d w D \<le> ratio e w D"
  by (simp add: ratio_def fl_mono mult_right_mono divide_right_mono)

lemma ratio_bound:
  assumes "0 \<le> d" "d \<le> D" "0 < D" "0 \<le> w" "w \<le> 255"
  shows "ratio d w D \<le> w + 1 / 4"
proof -
  let ?u = "1 + 1 / (2 :: rat) ^ 24"
  have "d * w \<le> D * w" using assms by (simp add: mult_right_mono)
  then have "fl (d * w) \<le> fl (D * w)" by (rule fl_mono)
  also have "\<dots> \<le> D * w * ?u" using assms by (intro fl_upper) simp
  finally have "fl (d * w) / D \<le> w * ?u" using assms by (simp add: field_simps)
  then have "ratio d w D \<le> fl (w * ?u)" unfolding ratio_def by (rule fl_mono)
  also have "\<dots> \<le> w * ?u * ?u" using assms by (intro fl_upper) simp
  also have "\<dots> \<le> w + 1 / 4"
  proof -
    have "w * ?u * ?u = w + w * (?u * ?u - 1)" by (simp add: algebra_simps)
    also have "\<dots> \<le> w + 255 * (?u * ?u - 1)" using assms by (intro add_left_mono mult_right_mono) simp_all
    also have "255 * (?u * ?u - 1) \<le> 1 / 4" by simp
    finally show ?thesis by simp
  qed
  finally show ?thesis .
qed

end

interpretation f32: rounding f32_round
  by unfold_locales (rule f32_mono f32_exact_nat f32_error; assumption?)+

section \<open>Formatting\<close>

text \<open>\<open>{:.d}\<close>: the exact value rounded to \<open>d\<close> places, ties to even; the sign is kept.\<close>

definition fmt_fixed :: "nat \<Rightarrow> rat \<Rightarrow> string" where
  "fmt_fixed d x =
     (let n = nat (round_even (\<bar>x\<bar> * 10 ^ d));
          digits = nat_str (n div 10 ^ d) @ (if d = 0 then [] else ''.'' @ pad0 d (n mod 10 ^ d))
      in if x < 0 then CHR ''-'' # digits else digits)"

end
