(* ===== verification/Settings.thy ===== *)
theory Settings
  imports Floats Led Schedule
begin

text \<open>
  The configuration of \<open>src/config.rs\<close> as the components see it: one record per section, their
  defaults, and the functions of the sections (\<open>effective_order\<close>, \<open>contains\<close>,
  \<open>resolve_temp_threshold\<close>, \<open>FanProfile::problems\<close>, \<open>CpuPowerConfig::problems\<close>).
  Temperatures are \<open>rat\<close>: \<open>validate\<close> has replaced what is not finite. Deserialisation is
  serde's and not modelled.
\<close>

section \<open>Sections of the configuration\<close>

datatype network_level = NetWarning | NetError

fun level_of_network :: "network_level \<Rightarrow> level" where
  "level_of_network NetWarning = Warn"
| "level_of_network NetError = Error"

record network_config =
  net_enabled :: bool
  net_monitored_nics :: "string list"
  net_some_down_level :: network_level
  net_all_down_level :: network_level

record display_config =
  dc_scroll_step_ms :: nat
  dc_scroll_max_chars :: nat
  dc_scroll_pause_ms :: nat
  dc_scroll_gap :: nat

record rotation_config =
  rot_dwell_secs :: nat
  rot_resume_after_secs :: nat

record sleep_config =
  slp_enabled :: bool
  slp_start :: string
  slp_end :: string
  slp_lcd_off :: bool

datatype bay_led_mode = BayReady | BayActivity

record led_config =
  led_nic_mode :: nic_led_mode
  led_brightness :: "nat option"
  led_night_brightness :: "nat option"
  led_bay_mode :: "bay_led_mode option"

datatype category = CatNetwork | CatPools | CatHdd | CatTemperature | CatDocker

definition category_all :: "category list" where
  "category_all = [CatNetwork, CatPools, CatHdd, CatTemperature, CatDocker]"

record screens_config =
  sc_network :: bool
  sc_pools :: bool
  sc_hdd :: bool
  sc_temperature :: bool
  sc_docker :: bool
  sc_order :: "category list"

definition effective_order :: "screens_config \<Rightarrow> category list" where
  "effective_order c =
     fold (\<lambda>x out. if x \<in> set out then out else out @ [x]) (sc_order c @ category_all) []"

record screen_template =
  tpl_line0 :: string
  tpl_line1 :: string

record templates_config =
  tpl_network :: screen_template
  tpl_pool :: screen_template
  tpl_hdd :: screen_template
  tpl_cpu :: screen_template
  tpl_fan :: screen_template
  tpl_docker :: screen_template

record refresh_config =
  ref_network_min_secs :: nat
  ref_pools_min_secs :: nat
  ref_hdd_min_secs :: nat
  ref_temperature_min_secs :: nat
  ref_docker_min_secs :: nat

datatype temp_units = UnitC | UnitF

record temp_threshold_override =
  tho_chip :: string
  tho_warn :: rat
  tho_critical :: rat

record temperature_config =
  tmp_units :: temp_units
  tmp_warn_threshold :: rat
  tmp_critical_threshold :: rat
  tmp_thresholds :: "temp_threshold_override list"

definition default_temp_thresholds :: "temp_threshold_override list" where
  "default_temp_thresholds =
     [\<lparr>tho_chip = ''coretemp'', tho_warn = 85, tho_critical = 100\<rparr>,
      \<lparr>tho_chip = ''drivetemp'', tho_warn = 50, tho_critical = 60\<rparr>,
      \<lparr>tho_chip = ''nvme'', tho_warn = 60, tho_critical = 70\<rparr>,
      \<lparr>tho_chip = ''enp9s0'', tho_warn = 80, tho_critical = 100\<rparr>]"

definition resolve_temp_threshold :: "temperature_config \<Rightarrow> string \<Rightarrow> rat \<times> rat" where
  "resolve_temp_threshold cfg chip =
     (case find (\<lambda>t. tho_chip t = chip) (tmp_thresholds cfg) of
        None \<Rightarrow> (tmp_warn_threshold cfg, tmp_critical_threshold cfg)
      | Some t \<Rightarrow> (tho_warn t, tho_critical t))"

section \<open>Defaults\<close>

definition network_default :: network_config where
  "network_default =
     \<lparr>net_enabled = True, net_monitored_nics = [], net_some_down_level = NetWarning,
      net_all_down_level = NetError\<rparr>"

definition display_default :: display_config where
  "display_default =
     \<lparr>dc_scroll_step_ms = 300, dc_scroll_max_chars = 64, dc_scroll_pause_ms = 800, dc_scroll_gap = 4\<rparr>"

definition rotation_default :: rotation_config where
  "rotation_default = \<lparr>rot_dwell_secs = 5, rot_resume_after_secs = 30\<rparr>"

definition confirm_timeout_default :: nat where
  "confirm_timeout_default = 10"

definition sleep_default :: sleep_config where
  "sleep_default =
     \<lparr>slp_enabled = False, slp_start = ''23:00'', slp_end = ''07:00'', slp_lcd_off = True\<rparr>"

definition led_default :: led_config where
  "led_default =
     \<lparr>led_nic_mode = NicLink, led_brightness = None, led_night_brightness = None, led_bay_mode = None\<rparr>"

definition screens_default :: screens_config where
  "screens_default =
     \<lparr>sc_network = True, sc_pools = True, sc_hdd = True, sc_temperature = True, sc_docker = True,
      sc_order = category_all\<rparr>"

definition templates_default :: templates_config where
  "templates_default =
     \<lparr>tpl_network = \<lparr>tpl_line0 = ''{iface}'', tpl_line1 = ''{ip_or_status}''\<rparr>,
      tpl_pool = \<lparr>tpl_line0 = ''{name}: {health}'', tpl_line1 = ''{alloc}/{size} {cap}''\<rparr>,
      tpl_hdd = \<lparr>tpl_line0 = ''{label}'', tpl_line1 = ''{status} {temp}''\<rparr>,
      tpl_cpu = \<lparr>tpl_line0 = ''CPU'', tpl_line1 = ''{temp}{unit}{warn}''\<rparr>,
      tpl_fan = \<lparr>tpl_line0 = ''FAN'', tpl_line1 = ''{rpm} RPM''\<rparr>,
      tpl_docker = \<lparr>tpl_line0 = ''DOCKER {name}'', tpl_line1 = ''{status}''\<rparr>\<rparr>"

definition refresh_default :: refresh_config where
  "refresh_default =
     \<lparr>ref_network_min_secs = 10, ref_pools_min_secs = 30, ref_hdd_min_secs = 300,
      ref_temperature_min_secs = 10, ref_docker_min_secs = 10\<rparr>"

definition temperature_default :: temperature_config where
  "temperature_default =
     \<lparr>tmp_units = UnitC, tmp_warn_threshold = 75, tmp_critical_threshold = 85,
      tmp_thresholds = default_temp_thresholds\<rparr>"

section \<open>Fan profiles\<close>

datatype fan_mode = FanCurve | FanFixed

record sensor_selector =
  sel_chip :: string
  sel_input :: "string option"
  sel_label :: "string option"
  sel_min_resample_secs :: "nat option"
  sel_min_temp_c :: "rat option"
  sel_max_temp_c :: "rat option"

record fan_profile =
  fp_name :: string
  fp_enabled :: bool
  fp_pwm_chip :: string
  fp_pwm_index :: nat
  fp_fan_index :: "nat option"
  fp_mode :: fan_mode
  fp_fixed_pwm :: "nat option"
  fp_update_secs :: nat
  fp_min_temp_c :: rat
  fp_max_temp_c :: rat
  fp_min_start_pwm :: nat
  fp_min_stop_pwm :: nat
  fp_min_pwm :: nat
  fp_max_pwm :: nat
  fp_sensors :: "sensor_selector list"
  fp_min_expected_rpm :: "nat option"
  fp_disabled_by_config :: bool

definition fan_profile_default :: fan_profile where
  "fan_profile_default =
     \<lparr>fp_name = ''fan'', fp_enabled = True, fp_pwm_chip = [], fp_pwm_index = 1, fp_fan_index = None,
      fp_mode = FanCurve, fp_fixed_pwm = None, fp_update_secs = 1, fp_min_temp_c = 45,
      fp_max_temp_c = 90, fp_min_start_pwm = 60, fp_min_stop_pwm = 55, fp_min_pwm = 50,
      fp_max_pwm = 255, fp_sensors = [], fp_min_expected_rpm = None, fp_disabled_by_config = False\<rparr>"

definition selector_default :: sensor_selector where
  "selector_default =
     \<lparr>sel_chip = [], sel_input = None, sel_label = None, sel_min_resample_secs = None,
      sel_min_temp_c = None, sel_max_temp_c = None\<rparr>"

definition default_fans :: "fan_profile list" where
  "default_fans =
     [fan_profile_default
        \<lparr>fp_name := ''chassis'', fp_pwm_chip := ''it8625'', fp_fan_index := Some 1,
         fp_sensors :=
           [selector_default\<lparr>sel_chip := ''coretemp'', sel_label := Some ''Package''\<rparr>,
            selector_default\<lparr>sel_chip := ''drivetemp'', sel_min_resample_secs := Some 30,
              sel_min_temp_c := Some 50, sel_max_temp_c := Some 60\<rparr>,
            selector_default\<lparr>sel_chip := ''nvme'', sel_min_resample_secs := Some 30,
              sel_min_temp_c := Some 60, sel_max_temp_c := Some 70\<rparr>,
            selector_default\<lparr>sel_chip := ''enp9s0'', sel_min_resample_secs := Some 10,
              sel_min_temp_c := Some 70, sel_max_temp_c := Some 100\<rparr>],
         fp_min_expected_rpm := Some 500\<rparr>]"

datatype fan_problem =
  NoPwmChip | TempOrder rat rat | PwmOrder nat nat nat | FixedMissing | FixedRange nat nat nat
| FixedNoSensors | SensorNoChip | SensorTempOrder string rat rat

definition min_temp_of :: "fan_profile \<Rightarrow> sensor_selector \<Rightarrow> rat" where
  "min_temp_of f sel = (case sel_min_temp_c sel of None \<Rightarrow> fp_min_temp_c f | Some t \<Rightarrow> t)"

definition max_temp_of :: "fan_profile \<Rightarrow> sensor_selector \<Rightarrow> rat" where
  "max_temp_of f sel = (case sel_max_temp_c sel of None \<Rightarrow> fp_max_temp_c f | Some t \<Rightarrow> t)"

definition fan_problems :: "fan_profile \<Rightarrow> fan_problem list" where
  "fan_problems f =
     (if fp_pwm_chip f = [] then [NoPwmChip] else []) @
     (if fp_max_temp_c f \<le> fp_min_temp_c f then [TempOrder (fp_min_temp_c f) (fp_max_temp_c f)]
      else []) @
     (if fp_max_pwm f < fp_min_pwm f \<or> fp_max_pwm f < fp_min_stop_pwm f
      then [PwmOrder (fp_min_pwm f) (fp_min_stop_pwm f) (fp_max_pwm f)] else []) @
     (if fp_mode f = FanFixed
      then (case fp_fixed_pwm f of
              None \<Rightarrow> [FixedMissing]
            | Some p \<Rightarrow> if p < fp_min_pwm f \<or> fp_max_pwm f < p
                       then [FixedRange p (fp_min_pwm f) (fp_max_pwm f)] else []) @
           (if fp_sensors f = [] then [FixedNoSensors] else [])
      else []) @
     concat (map (\<lambda>sel.
       (if sel_chip sel = [] then [SensorNoChip] else []) @
       (if max_temp_of f sel \<le> min_temp_of f sel
        then [SensorTempOrder (sel_chip sel) (min_temp_of f sel) (max_temp_of f sel)] else []))
       (fp_sensors f))"

section \<open>CPU power\<close>

record cpu_power_config =
  cp_enabled :: bool
  cp_pl1_w :: nat
  cp_pl2_w :: nat
  cp_tau_secs :: nat
  cp_stock_pl1_w :: nat
  cp_stock_pl2_w :: nat
  cp_stock_tau_secs :: nat
  cp_rearm_secs :: nat
  cp_check_secs :: nat

datatype cpu_problem =
  PowerRange bool nat nat | PowerOrder bool nat nat | TauRange bool nat | CheckRange nat | RearmLong nat

definition MAX_SECS :: nat where "MAX_SECS = 86400"
definition MAX_SCROLL_CHARS :: nat where "MAX_SCROLL_CHARS = 1024"
definition MAX_SCROLL_GAP :: nat where "MAX_SCROLL_GAP = 64"
definition MAX_CPU_POWER_W :: nat where "MAX_CPU_POWER_W = 100"
definition MAX_CPU_TAU_SECS :: nat where "MAX_CPU_TAU_SECS = 3600"

definition in_1_to :: "nat \<Rightarrow> nat \<Rightarrow> bool" where
  "in_1_to n x \<longleftrightarrow> 1 \<le> x \<and> x \<le> n"

definition cpu_pair_problems :: "bool \<Rightarrow> nat \<Rightarrow> nat \<Rightarrow> nat \<Rightarrow> cpu_problem list" where
  "cpu_pair_problems stock pl1 pl2 tau =
     (if \<not> in_1_to MAX_CPU_POWER_W pl1 \<or> \<not> in_1_to MAX_CPU_POWER_W pl2
      then [PowerRange stock pl1 pl2]
      else if pl2 < pl1 then [PowerOrder stock pl2 pl1] else []) @
     (if \<not> in_1_to MAX_CPU_TAU_SECS tau then [TauRange stock tau] else [])"

definition cpu_problems :: "cpu_power_config \<Rightarrow> cpu_problem list" where
  "cpu_problems c =
     cpu_pair_problems False (cp_pl1_w c) (cp_pl2_w c) (cp_tau_secs c) @
     cpu_pair_problems True (cp_stock_pl1_w c) (cp_stock_pl2_w c) (cp_stock_tau_secs c) @
     (if \<not> in_1_to 60 (cp_check_secs c) then [CheckRange (cp_check_secs c)] else []) @
     (if MAX_SECS < cp_rearm_secs c then [RearmLong (cp_rearm_secs c)] else [])"

section \<open>The sleep window\<close>

definition sleep_contains :: "sleep_config \<Rightarrow> nat \<times> nat \<Rightarrow> bool" where
  "sleep_contains c now =
     (case (parse_hhmm (slp_start c), parse_hhmm (slp_end c)) of
        (Some start, Some stop) \<Rightarrow>
          let now = fst now * 60 + snd now in
          if start \<le> stop then start \<le> now \<and> now < stop else start \<le> now \<or> now < stop
      | _ \<Rightarrow> False)"

section \<open>Facts\<close>

lemma effective_order_aux:
  fixes xs :: "category list"
  assumes "distinct out"
  shows "distinct (fold (\<lambda>x out. if x \<in> set out then out else out @ [x]) xs out)
    \<and> set (fold (\<lambda>x out. if x \<in> set out then out else out @ [x]) xs out) = set out \<union> set xs"
  using assms by (induction xs arbitrary: out) auto

lemma effective_order_perm:
  "distinct (effective_order c) \<and> set (effective_order c) = UNIV"
proof -
  have "set category_all = UNIV"
    using category.exhaust by (auto simp: category_all_def)
  then show ?thesis using effective_order_aux [of "[]" "sc_order c @ category_all"]
    by (auto simp: effective_order_def simp del: fold_append)
qed

lemma fan_problems_Nil:
  "fan_problems f = [] \<Longrightarrow> fp_min_temp_c f < fp_max_temp_c f \<and> fp_min_pwm f \<le> fp_max_pwm f
     \<and> fp_min_stop_pwm f \<le> fp_max_pwm f
     \<and> (\<forall>sel\<in>set (fp_sensors f). min_temp_of f sel < max_temp_of f sel)
     \<and> (fp_mode f = FanFixed \<longrightarrow> (\<exists>p. fp_fixed_pwm f = Some p \<and> fp_min_pwm f \<le> p \<and> p \<le> fp_max_pwm f))"
  by (auto simp: fan_problems_def split: if_splits option.splits)

end
