(* ===== verification/Hal.thy ===== *)
theory Hal
  imports Settings Template "HOL-Library.List_Lexorder"
begin

text \<open>
  The pure parts of \<open>src/hal.rs\<close>: parsing of command output, the disk and pool tables, the
  bay LED states and the screens built from them. Running commands and reading sysfs are I/O;
  their results are arguments.
\<close>

section \<open>Screens, pools and disks\<close>

record screen =
  scr_line0 :: string
  scr_line1 :: string

definition hal_render :: "screen_template \<Rightarrow> (string \<times> string) list \<Rightarrow> screen" where
  "hal_render tpl vars =
     \<lparr>scr_line0 = render (tpl_line0 tpl) vars, scr_line1 = render (tpl_line1 tpl) vars\<rparr>"

record pool =
  pool_name :: string
  pool_size :: string
  pool_alloc :: string
  pool_free :: string
  pool_cap :: string
  pool_health :: string

text \<open>\<open>str::lines\<close>: split at line feeds, a final empty line dropped, one CR before each removed.\<close>

fun split_lines_aux :: "string \<Rightarrow> string \<Rightarrow> string list" where
  "split_lines_aux acc [] = (if acc = [] then [] else [rev acc])"
| "split_lines_aux acc (c # cs) =
     (if c = CHR 0x0A
      then rev (if acc \<noteq> [] \<and> hd acc = CHR 0x0D then tl acc else acc) # split_lines_aux [] cs
      else split_lines_aux (c # acc) cs)"

definition str_lines :: "string \<Rightarrow> string list" where
  "str_lines s = split_lines_aux [] s"

definition field :: "string list \<Rightarrow> nat \<Rightarrow> string" where
  "field fs i = (if i < length fs then fs ! i else ''?'')"

definition parse_zpool_list :: "string \<Rightarrow> pool list" where
  "parse_zpool_list out =
     map (\<lambda>line. let f = split_whitespace line in
            \<lparr>pool_name = field f 0, pool_size = field f 1, pool_alloc = field f 2,
             pool_free = field f 3, pool_cap = field f 4, pool_health = field f 5\<rparr>)
       (filter (\<lambda>line. trim line \<noteq> []) (str_lines out))"

definition pool_screens :: "screen_template \<Rightarrow> pool list option \<Rightarrow> screen list" where
  "pool_screens tpl pools =
     (case pools of
        None \<Rightarrow> [\<lparr>scr_line0 = ''STORAGE'', scr_line1 = ''zpool unavailable''\<rparr>]
      | Some ps \<Rightarrow>
          map (\<lambda>p. hal_render tpl
                 [(''name'', pool_name p), (''size'', pool_size p), (''alloc'', pool_alloc p),
                  (''free'', pool_free p), (''cap'', pool_cap p), (''health'', pool_health p)]) ps)"

definition list_disks :: "string option \<Rightarrow> string list" where
  "list_disks lsblk =
     (case lsblk of
        None \<Rightarrow> []
      | Some out \<Rightarrow>
          List.map_filter (\<lambda>l. case split_whitespace l of [] \<Rightarrow> None | n # _ \<Rightarrow> Some n)
            (filter (\<lambda>l. let t = trim_end l in drop (length t - 4) t = ''disk'') (str_lines out)))"

datatype smart_status = SmartPassed | SmartFailed | SmartStandby | SmartUnknown | SmartUnavailable

definition contains :: "string \<Rightarrow> string \<Rightarrow> bool" where
  "contains s sub \<longleftrightarrow> list_ex (\<lambda>i. take (length sub) (drop i s) = sub) [0..<Suc (length s)]"

definition smart_parse :: "string \<Rightarrow> smart_status" where
  "smart_parse out =
     (if contains out ''in STANDBY'' then SmartStandby
      else if contains out ''PASSED'' then SmartPassed
      else if contains out ''FAILED'' then SmartFailed
      else SmartUnknown)"

fun smart_label :: "smart_status \<Rightarrow> string" where
  "smart_label SmartPassed = ''PASSED''"
| "smart_label SmartFailed = ''FAILED''"
| "smart_label SmartStandby = ''STANDBY''"
| "smart_label SmartUnknown = ''UNKNOWN''"
| "smart_label SmartUnavailable = ''N/A''"

record disk =
  disk_name :: string
  disk_bay :: "nat option"
  disk_smart :: smart_status

text \<open>\<open>smartctl\<close> and \<open>ata_port_for\<close> are commands; their results are the arguments.\<close>

definition disks :: "string option \<Rightarrow> (string \<Rightarrow> string option) \<Rightarrow> (string \<Rightarrow> nat option) \<Rightarrow> disk list" where
  "disks lsblk smartctl ata_port =
     map (\<lambda>n. \<lparr>disk_name = n, disk_bay = ata_port n,
               disk_smart = (case smartctl n of None \<Rightarrow> SmartUnavailable | Some out \<Rightarrow> smart_parse out)\<rparr>)
       (list_disks lsblk)"

definition bay_led_states :: "disk list \<Rightarrow> (nat \<times> bay_state) list" where
  "bay_led_states ds =
     List.map_filter (\<lambda>d. map_option (\<lambda>bay.
         (bay, (case disk_smart d of SmartStandby \<Rightarrow> BayStandby | SmartFailed \<Rightarrow> BayFailed
                | _ \<Rightarrow> BayNormal))) (disk_bay d)) ds"

definition display_temp :: "rat \<Rightarrow> temp_units \<Rightarrow> rat \<times> string" where
  "display_temp celsius units =
     (case units of
        UnitC \<Rightarrow> (celsius, ''C'')
      | UnitF \<Rightarrow> (f32_round (f32_round (f32_round (celsius * 9) / 5) + 32), ''F''))"

text \<open>\<open>bay_temps\<close> and \<open>nvme_temp\<close> are the sysfs readings of \<open>drivetemps_by_ata_port\<close> and
  \<open>nvme_temp_for\<close>.\<close>

definition hdd_screens ::
  "screen_template \<Rightarrow> temp_units \<Rightarrow> (nat \<Rightarrow> rat option) \<Rightarrow> (string \<Rightarrow> rat option) \<Rightarrow> disk list \<Rightarrow> screen list" where
  "hdd_screens tpl units bay_temps nvme_temp ds =
     (if ds = [] then [\<lparr>scr_line0 = ''HDD'', scr_line1 = ''no disks found''\<rparr>]
      else map (\<lambda>d.
        let (lbl, temp) = (case disk_bay d of
               Some bay \<Rightarrow> (''BAY'' @ nat_str bay @ '' '' @ disk_name d, bay_temps bay)
             | None \<Rightarrow> (disk_name d, nvme_temp (disk_name d)));
            bay = (case disk_bay d of None \<Rightarrow> [] | Some b \<Rightarrow> nat_str b);
            temp = (case temp of None \<Rightarrow> []
                    | Some t \<Rightarrow> let (val, unit) = display_temp t units in fmt_fixed 0 val @ unit)
        in hal_render tpl [(''label'', lbl), (''bay'', bay), (''dev'', disk_name d),
                           (''status'', smart_label (disk_smart d)), (''temp'', temp)]) ds)"

definition cpu_screen :: "screen_template \<Rightarrow> temperature_config \<Rightarrow> rat \<Rightarrow> screen" where
  "cpu_screen tpl cfg celsius =
     (let (val, unit) = display_temp celsius (tmp_units cfg);
          warn = (if tmp_warn_threshold cfg \<le> celsius then '' !'' else [])
      in hal_render tpl [(''temp'', fmt_fixed 0 val), (''unit'', unit), (''warn'', warn)])"

definition cpu_and_fan ::
  "templates_config \<Rightarrow> temperature_config \<Rightarrow> rat option \<Rightarrow> rat option \<Rightarrow> screen list" where
  "cpu_and_fan tpls cfg cpu rpm =
     (let screens =
        (case cpu of None \<Rightarrow> [] | Some c \<Rightarrow> [cpu_screen (tpl_cpu tpls) cfg c]) @
        (case rpm of None \<Rightarrow> [] | Some r \<Rightarrow> [hal_render (tpl_fan tpls) [(''rpm'', fmt_fixed 0 r)]])
      in if screens = [] then [\<lparr>scr_line0 = ''TEMPERATURE'', scr_line1 = ''no sensors found''\<rparr>]
         else screens)"

section \<open>Network\<close>

text \<open>\<open>ip_by_iface\<close> keeps the last address of an interface, as \<open>HashMap::insert\<close> does.\<close>

definition trim_end_colons :: "string \<Rightarrow> string" where
  "trim_end_colons s = rev (dropWhile (\<lambda>c. c = CHR '':'') (rev s))"

definition ip_token :: "string list \<Rightarrow> string option" where
  "ip_token toks =
     map_option (takeWhile (\<lambda>c. c \<noteq> CHR ''/''))
       (find (\<lambda>t. CHR ''/'' \<in> set t \<and> is_digit (if t = [] then CHR '' '' else hd t)) toks)"

definition ip_by_iface :: "string option \<Rightarrow> (string \<times> string) list" where
  "ip_by_iface out =
     (case out of
        None \<Rightarrow> []
      | Some txt \<Rightarrow>
          rev (List.map_filter (\<lambda>line.
            let f = split_whitespace line in
            if length f < 2 then None
            else map_option (\<lambda>ip. (trim_end_colons (f ! 1), ip)) (ip_token f)) (str_lines txt)))"

definition configured_nics :: "(string \<Rightarrow> bool) \<Rightarrow> string option \<Rightarrow> string list" where
  "configured_nics is_physical out =
     sort (filter is_physical (remdups (map fst (ip_by_iface out))))"

definition monitored_nics :: "network_config \<Rightarrow> string list \<Rightarrow> string list" where
  "monitored_nics net configured =
     (if net_monitored_nics net = [] then configured else net_monitored_nics net)"

text \<open>\<open>carrier\<close>: \<open>None\<close> for an unreadable attribute.\<close>

definition link_is_down :: "(string \<Rightarrow> bool option) \<Rightarrow> string \<Rightarrow> bool" where
  "link_is_down carrier iface \<longleftrightarrow> carrier iface = Some False"

definition nic_link_text :: "(string \<Rightarrow> bool option) \<Rightarrow> string \<Rightarrow> string" where
  "nic_link_text carrier iface =
     (if carrier iface = Some True then ''connected, no IP'' else ''disconnected'')"

definition network_screens ::
  "screen_template \<Rightarrow> string option \<Rightarrow> (string \<Rightarrow> bool option) \<Rightarrow> string list \<Rightarrow> screen list" where
  "network_screens tpl out carrier physical =
     (let screens = map (\<lambda>iface.
            let ip = (case map_of (ip_by_iface out) iface of None \<Rightarrow> [] | Some ip \<Rightarrow> ip) in
            hal_render tpl
              [(''iface'', iface), (''ip'', ip),
               (''link'', if carrier iface = Some True then ''up'' else ''down''),
               (''ip_or_status'', if ip = [] then nic_link_text carrier iface else ip)]) physical
      in if screens = [] then [\<lparr>scr_line0 = ''NETWORK'', scr_line1 = ''no interfaces''\<rparr>] else screens)"

definition docker_issues :: "string list \<Rightarrow> screen_template \<Rightarrow> string option \<Rightarrow> screen list" where
  "docker_issues ignore tpl out =
     (case out of
        None \<Rightarrow> []
      | Some txt \<Rightarrow>
          List.map_filter (\<lambda>line.
            case split_once CHR 0x09 line of
              None \<Rightarrow> None
            | Some (n, st) \<Rightarrow>
                let n = trim n; st = trim st in
                if n \<in> set ignore then None
                else if contains st ''(healthy)'' \<or> (take 2 st = ''Up'' \<and> CHR ''('' \<notin> set st) then None
                else Some (hal_render tpl [(''name'', n), (''status'', st)])) (str_lines txt))"

section \<open>Sensors\<close>

definition PLAUSIBLE_MIN_C :: rat where "PLAUSIBLE_MIN_C = -20"
definition PLAUSIBLE_MAX_C :: rat where "PLAUSIBLE_MAX_C = 125"

definition is_over_range :: "rat \<Rightarrow> bool" where
  "is_over_range celsius \<longleftrightarrow> PLAUSIBLE_MAX_C < celsius"

text \<open>The fault file's text and the finite reading of the input file, if any.\<close>

definition read_temp_input :: "string option \<Rightarrow> rat option \<Rightarrow> rat option" where
  "read_temp_input fault reading =
     (if (case fault of None \<Rightarrow> False | Some s \<Rightarrow> trim s = ''1'') then None
      else (case reading of
              None \<Rightarrow> None
            | Some t \<Rightarrow> if PLAUSIBLE_MIN_C \<le> t then Some t else None))"

end
