(* ===== verification/Monitor.thy ===== *)
theory Monitor
  imports Hal "HOL-Library.AList" "HOL-Library.Product_Lexorder"
begin

text \<open>
  \<open>src/monitor.rs\<close>: the health monitor and its transition-gated log. A \<open>HashMap\<close> is an
  association list with distinct keys, updated in place. Its iteration order is unspecified;
  the model's is insertion order, which only matters between sensors of equal level and
  temperature (\<open>worst_temp\<close>).
\<close>

section \<open>State and operations\<close>

record temp_state =
  ts_level :: level
  ts_chip :: string
  ts_temp_c :: rat

record monitor =
  mon_temps :: "(string \<times> temp_state) list"
  mon_pool_healths :: "(string \<times> string) list"
  mon_bay_states :: "(nat \<times> bay_state) list"
  mon_last_temp_check :: "instant option"

definition monitor_new :: monitor where
  "monitor_new =
     \<lparr>mon_temps = [], mon_pool_healths = [], mon_bay_states = [], mon_last_temp_check = None\<rparr>"

definition temp_level :: "rat \<Rightarrow> rat \<times> rat \<Rightarrow> level" where
  "temp_level temp_c thresholds =
     (let (warn, crit) = thresholds in
      if crit \<le> temp_c then Critical else if warn \<le> temp_c then Warn else Info)"

definition note_temp ::
  "string \<Rightarrow> string \<Rightarrow> rat \<Rightarrow> rat \<times> rat \<Rightarrow> monitor \<Rightarrow> monitor \<times> log_line list" where
  "note_temp lbl chip temp_c thresholds mon =
     (let level = temp_level temp_c thresholds;
          prev = map_option ts_level (map_of (mon_temps mon) lbl);
          mon = mon\<lparr>mon_temps := AList.update lbl
                   \<lparr>ts_level = level, ts_chip = chip, ts_temp_c = temp_c\<rparr> (mon_temps mon)\<rparr>
      in if prev = Some level then (mon, [])
         else (mon,
           (case level of
              Critical \<Rightarrow> [syslog PCritical ''temp_critical''
                             [lbl, fmt_fixed 1 temp_c, fmt_fixed 1 (snd thresholds)] []]
            | Warn \<Rightarrow> [syslog PWarning ''temp_warning''
                             [lbl, fmt_fixed 1 temp_c, fmt_fixed 1 (fst thresholds)] []]
            | _ \<Rightarrow> if prev \<noteq> None
                   then [syslog PNotice ''temp_back'' [lbl, fmt_fixed 1 temp_c] []] else [])))"

fun note_temps ::
  "temperature_config \<Rightarrow> (string \<times> string \<times> rat) list \<Rightarrow> monitor \<Rightarrow> monitor \<times> log_line list" where
  "note_temps cfg [] mon = (mon, [])"
| "note_temps cfg ((chip, lbl, temp_c) # rest) mon =
     (let (mon, l1) = note_temp lbl chip temp_c (resolve_temp_threshold cfg chip) mon;
          (mon, l2) = note_temps cfg rest mon
      in (mon, l1 @ l2))"

text \<open>\<open>temps\<close> is what \<open>all_connected_temps\<close> returned: chip, description, reading.\<close>

definition check_temps ::
  "temperature_config \<Rightarrow> (string \<times> string \<times> rat) list \<Rightarrow> monitor \<Rightarrow> monitor \<times> log_line list" where
  "check_temps cfg temps mon =
     note_temps cfg temps
       (mon\<lparr>mon_temps := filter (\<lambda>(lbl, _). list_ex (\<lambda>(_, l, _). l = lbl) temps) (mon_temps mon)\<rparr>)"

definition maybe_check_temps ::
  "instant \<Rightarrow> refresh_config \<Rightarrow> temperature_config \<Rightarrow> (string \<times> string \<times> rat) list \<Rightarrow> monitor
     \<Rightarrow> bool \<times> monitor \<times> log_line list" where
  "maybe_check_temps now refresh cfg temps mon =
     (let interval = secs (max (ref_temperature_min_secs refresh) 1);
          due = (case mon_last_temp_check mon of None \<Rightarrow> True | Some t \<Rightarrow> interval \<le> since now t)
      in if \<not> due then (False, mon, [])
         else (True, check_temps cfg temps (mon\<lparr>mon_last_temp_check := Some now\<rparr>)))"

definition worst_temp :: "monitor \<Rightarrow> (level \<times> string \<times> rat) option" where
  "worst_temp mon =
     map_option (\<lambda>t. (ts_level t, ts_chip t, ts_temp_c t))
       (max_by_key (\<lambda>t. (ts_level t, ts_temp_c t)) (map snd (mon_temps mon)))"

definition worst_temp_level :: "monitor \<Rightarrow> level" where
  "worst_temp_level mon = (case worst_temp mon of None \<Rightarrow> Info | Some (l, _, _) \<Rightarrow> l)"

definition any_bay_failed :: "monitor \<Rightarrow> bool" where
  "any_bay_failed mon \<longleftrightarrow> list_ex (\<lambda>(_, s). s = BayFailed) (mon_bay_states mon)"

fun check_pools :: "(string \<times> string) list \<Rightarrow> monitor \<Rightarrow> monitor \<times> log_line list" where
  "check_pools [] mon = (mon, [])"
| "check_pools ((name, health) # rest) mon =
     (let prev = map_of (mon_pool_healths mon) name;
          mon' = mon\<lparr>mon_pool_healths := AList.update name health (mon_pool_healths mon)\<rparr>;
          l1 = (if prev = Some health then []
                else if health = ''ONLINE''
                then (case prev of None \<Rightarrow> [] | Some p \<Rightarrow> [syslog PNotice ''pool_back'' [name, p] []])
                else if health = ''DEGRADED'' then [syslog PWarning ''pool_degraded'' [name] []]
                else [syslog PCritical ''pool_bad'' [name, health] []]);
          (mon'', l2) = check_pools rest mon'
      in (mon'', l1 @ l2))"

fun check_bays :: "(nat \<times> bay_state) list \<Rightarrow> monitor \<Rightarrow> monitor \<times> log_line list" where
  "check_bays [] mon = (mon, [])"
| "check_bays ((bay, state) # rest) mon =
     (let prev = map_of (mon_bay_states mon) bay;
          mon' = mon\<lparr>mon_bay_states := AList.update bay state (mon_bay_states mon)\<rparr>;
          l1 = (if prev = Some state then []
                else if state = BayFailed then [syslog PCritical ''smart_failed'' [] [bay]]
                else if prev = Some BayFailed then [syslog PNotice ''smart_ok'' [] [bay]] else []);
          (mon'', l2) = check_bays rest mon'
      in (mon'', l1 @ l2))"

section \<open>Temperatures\<close>

lemma note_temp_temps:
  "mon_temps (fst (note_temp lbl chip t th mon)) =
     AList.update lbl \<lparr>ts_level = temp_level t th, ts_chip = chip, ts_temp_c = t\<rparr> (mon_temps mon)"
  by (simp add: note_temp_def Let_def)

lemma temp_level_not_Error [simp]: "temp_level t th \<noteq> Error"
  by (simp add: temp_level_def split: prod.splits)

lemma note_temp_quiet:
  "snd (note_temp lbl chip t th mon) = [] \<longleftrightarrow>
     (let prev = map_option ts_level (map_of (mon_temps mon) lbl) in
      prev = Some (temp_level t th) \<or> prev = None \<and> temp_level t th = Info)"
  by (cases "temp_level t th") (auto simp: note_temp_def Let_def)

lemma map_of_filter_key: "Q k \<Longrightarrow> map_of (filter (\<lambda>(k, _). Q k) xs) k = map_of xs k"
  by (induction xs) auto

lemma note_temps_step:
  "fst (note_temps cfg ((chip, lbl, t) # rest) mon) =
     fst (note_temps cfg rest (fst (note_temp lbl chip t (resolve_temp_threshold cfg chip) mon)))"
  "snd (note_temps cfg ((chip, lbl, t) # rest) mon) =
     snd (note_temp lbl chip t (resolve_temp_threshold cfg chip) mon) @
     snd (note_temps cfg rest (fst (note_temp lbl chip t (resolve_temp_threshold cfg chip) mon)))"
  by (simp_all add: Let_def split: prod.splits)

abbreviation reading_label :: "string \<times> string \<times> rat \<Rightarrow> string" where
  "reading_label \<equiv> \<lambda>(_, l, _). l"

definition reading_level :: "temperature_config \<Rightarrow> string \<times> string \<times> rat \<Rightarrow> level" where
  "reading_level cfg r = (case r of (chip, _, t) \<Rightarrow> temp_level t (resolve_temp_threshold cfg chip))"

definition reading_state :: "temperature_config \<Rightarrow> string \<times> string \<times> rat \<Rightarrow> temp_state" where
  "reading_state cfg r = (case r of (chip, _, t) \<Rightarrow>
     \<lparr>ts_level = reading_level cfg r, ts_chip = chip, ts_temp_c = t\<rparr>)"

lemma note_temps_map:
  assumes "distinct (map reading_label temps)"
  shows "map_of (mon_temps (fst (note_temps cfg temps mon))) =
     map_of (mon_temps mon) ++ map_of (map (\<lambda>r. (reading_label r, reading_state cfg r)) temps)"
  using assms
proof (induction temps arbitrary: mon)
  case Nil
  then show ?case by simp
next
  case (Cons r temps)
  obtain chip lbl t where r: "r = (chip, lbl, t)" by (cases r)
  let ?m = "fst (note_temp lbl chip t (resolve_temp_threshold cfg chip) mon)"
  let ?ts = "map_of (map (\<lambda>r. (reading_label r, reading_state cfg r)) temps)"
  have "lbl \<notin> dom ?ts" using Cons.prems r by (auto simp: dom_map_of_conv_image_fst image_image)
  moreover have "map_of (mon_temps ?m) = (map_of (mon_temps mon))(lbl \<mapsto> reading_state cfg r)"
    by (simp add: note_temp_temps update_conv' reading_state_def reading_level_def r)
  ultimately show ?case
    using Cons unfolding r note_temps_step(1)
    by (auto simp: r fun_eq_iff map_add_def split: option.splits)
qed

lemma note_temps_keys:
  "fst ` set (mon_temps (fst (note_temps cfg temps mon))) =
     fst ` set (mon_temps mon) \<union> reading_label ` set temps"
proof (induction temps arbitrary: mon)
  case (Cons r temps)
  obtain chip lbl t where r: "r = (chip, lbl, t)" by (cases r)
  show ?case unfolding r note_temps_step(1) Cons.IH by (auto simp: note_temp_temps dom_update)
qed simp

lemma note_temps_distinct:
  "distinct (map fst (mon_temps mon)) \<Longrightarrow> distinct (map fst (mon_temps (fst (note_temps cfg temps mon))))"
proof (induction temps arbitrary: mon)
  case (Cons r temps)
  obtain chip lbl t where r: "r = (chip, lbl, t)" by (cases r)
  show ?case unfolding r note_temps_step(1)
    by (rule Cons.IH) (simp add: note_temp_temps distinct_update Cons.prems)
qed simp

lemma note_temps_quiet:
  assumes "distinct (map reading_label temps)"
  shows "snd (note_temps cfg temps mon) = [] \<longleftrightarrow>
    list_all (\<lambda>r. let prev = map_option ts_level (map_of (mon_temps mon) (reading_label r)) in
       prev = Some (reading_level cfg r) \<or> prev = None \<and> reading_level cfg r = Info) temps"
  using assms
proof (induction temps arbitrary: mon)
  case (Cons r temps)
  obtain chip lbl t where r: "r = (chip, lbl, t)" by (cases r)
  let ?m = "fst (note_temp lbl chip t (resolve_temp_threshold cfg chip) mon)"
  have "map_of (mon_temps ?m) (reading_label r') = map_of (mon_temps mon) (reading_label r')"
    if "r' \<in> set temps" for r'
    using Cons.prems r that by (force simp: note_temp_temps update_conv')
  then have "snd (note_temps cfg temps ?m) = [] \<longleftrightarrow>
      list_all (\<lambda>r. let prev = map_option ts_level (map_of (mon_temps mon) (reading_label r)) in
         prev = Some (reading_level cfg r) \<or> prev = None \<and> reading_level cfg r = Info) temps"
    using Cons by (auto simp: list_all_iff)
  then show ?case
    unfolding r note_temps_step(2) append_is_Nil_conv note_temp_quiet
    by (simp add: reading_level_def)
qed simp

lemma worst_temp_level_max:
  "worst_temp_level mon = Max (insert Info (ts_level ` snd ` set (mon_temps mon)))"
proof (cases "mon_temps mon = []")
  case True
  then show ?thesis by (simp add: worst_temp_level_def worst_temp_def max_by_key_def)
next
  case False
  then obtain r where r: "max_by_key (\<lambda>t. (ts_level t, ts_temp_c t)) (map snd (mon_temps mon)) = Some r"
    by (cases "max_by_key (\<lambda>t. (ts_level t, ts_temp_c t)) (map snd (mon_temps mon))") auto
  from max_by_key_max [OF r]
  have mem: "r \<in> snd ` set (mon_temps mon)" and le: "\<forall>x\<in>snd ` set (mon_temps mon). ts_level x \<le> ts_level r"
    by (auto simp: less_eq_prod_def)
  have "Max (insert Info (ts_level ` snd ` set (mon_temps mon))) = ts_level r"
    using mem le by (intro Max_eqI) auto
  with r show ?thesis by (simp add: worst_temp_level_def worst_temp_def)
qed

text \<open>A temperature sweep tracks exactly the connected sensors: afterwards each reading's
  sensor has the level its chip's thresholds give it, sensors that are gone are forgotten, the
  worst level is the maximum over the readings (info if there are none), and the sweep logs
  nothing exactly when no sensor changed its level (a new sensor counts as having been at info).\<close>

theorem check_temps_tracks:
  assumes "distinct (map reading_label temps)" "distinct (map fst (mon_temps mon))"
  shows "let (mon', logs) = check_temps cfg temps mon in
    fst ` set (mon_temps mon') = reading_label ` set temps
    \<and> distinct (map fst (mon_temps mon'))
    \<and> list_all (\<lambda>r. map_of (mon_temps mon') (reading_label r) = Some (reading_state cfg r)) temps
    \<and> worst_temp_level mon' = Max (insert Info (reading_level cfg ` set temps))
    \<and> (logs = [] \<longleftrightarrow> list_all (\<lambda>r.
         let prev = map_option ts_level (map_of (mon_temps mon) (reading_label r)) in
         prev = Some (reading_level cfg r) \<or> prev = None \<and> reading_level cfg r = Info) temps)"
proof -
  define mon0 where "mon0 = mon\<lparr>mon_temps := filter (\<lambda>(lbl, _). list_ex (\<lambda>(_, l, _). l = lbl) temps) (mon_temps mon)\<rparr>"
  define mon' where "mon' = fst (note_temps cfg temps mon0)"
  have c: "check_temps cfg temps mon = (mon', snd (note_temps cfg temps mon0))"
    by (simp add: check_temps_def mon0_def mon'_def)
  have sub: "fst ` set (mon_temps mon0) \<subseteq> reading_label ` set temps"
  proof
    fix l assume "l \<in> fst ` set (mon_temps mon0)"
    then obtain r where "r \<in> set temps" "reading_label r = l" by (auto simp: mon0_def list_ex_iff)
    then show "l \<in> reading_label ` set temps" by blast
  qed
  have keys: "fst ` set (mon_temps mon') = reading_label ` set temps"
    unfolding mon'_def note_temps_keys using sub by blast
  have d0: "distinct (map fst (mon_temps mon0))"
    using assms(2) by (simp add: mon0_def distinct_map_filter)
  then have d: "distinct (map fst (mon_temps mon'))" unfolding mon'_def by (rule note_temps_distinct)
  have get: "map_of (mon_temps mon') (reading_label r) = Some (reading_state cfg r)" if "r \<in> set temps" for r
  proof -
    have "map_of (map (\<lambda>r. (reading_label r, reading_state cfg r)) temps) (reading_label r)
        = Some (reading_state cfg r)"
      using that assms(1) by (intro map_of_is_SomeI) (simp_all add: comp_def)
    then show ?thesis unfolding mon'_def note_temps_map [OF assms(1)] by (simp add: map_add_def)
  qed
  have "snd ` set (mon_temps mon') = reading_state cfg ` set temps"
  proof (intro set_eqI iffI)
    fix x assume "x \<in> snd ` set (mon_temps mon')"
    then obtain l where lx: "(l, x) \<in> set (mon_temps mon')" by auto
    with keys obtain r where "r \<in> set temps" "l = reading_label r" by force
    with get map_of_is_SomeI [OF d lx] show "x \<in> reading_state cfg ` set temps" by auto
  next
    fix x assume "x \<in> reading_state cfg ` set temps"
    then obtain r where "r \<in> set temps" "x = reading_state cfg r" by auto
    with get [of r] show "x \<in> snd ` set (mon_temps mon')" by (force dest: map_of_SomeD)
  qed
  then have "ts_level ` snd ` set (mon_temps mon') = reading_level cfg ` set temps"
    by (simp add: image_image reading_state_def case_prod_beta)
  then have worst: "worst_temp_level mon' = Max (insert Info (reading_level cfg ` set temps))"
    by (simp only: worst_temp_level_max)
  have prev: "map_of (mon_temps mon0) (reading_label r) = map_of (mon_temps mon) (reading_label r)"
    if "r \<in> set temps" for r
  proof -
    have "list_ex (\<lambda>(_, l, _). l = reading_label r) temps" using that
      by (auto simp: list_ex_iff intro!: bexI [of _ r] split: prod.splits)
    from map_of_filter_key [of "\<lambda>lbl. list_ex (\<lambda>(_, l, _). l = lbl) temps", OF this]
    show ?thesis by (simp add: mon0_def)
  qed
  show ?thesis
    unfolding c using keys d get worst note_temps_quiet [OF assms(1), of cfg mon0] prev
    by (auto simp: list_all_iff)
qed

theorem check_temps_tracks_witness:
  "fst ` set (mon_temps (fst (check_temps
       \<lparr>tmp_units = UnitC, tmp_warn_threshold = 75, tmp_critical_threshold = 85,
        tmp_thresholds = default_temp_thresholds\<rparr>
       [(''coretemp'', ''coretemp temp1'', 101), (''acpitz'', ''acpitz temp1'', 40)] monitor_new)))
     = {''coretemp temp1'', ''acpitz temp1''}"
  using check_temps_tracks [of "[(''coretemp'', ''coretemp temp1'', 101), (''acpitz'', ''acpitz temp1'', 40)]"
      monitor_new "\<lparr>tmp_units = UnitC, tmp_warn_threshold = 75, tmp_critical_threshold = 85,
        tmp_thresholds = default_temp_thresholds\<rparr>"]
  by (simp add: monitor_new_def split: prod.splits)

section \<open>Bays\<close>

lemma check_bays_step:
  "fst (check_bays ((bay, st) # rest) mon) =
     fst (check_bays rest (mon\<lparr>mon_bay_states := AList.update bay st (mon_bay_states mon)\<rparr>))"
  unfolding check_bays.simps Let_def by (simp only: case_prod_beta fst_conv)

lemma check_bays_map:
  "map_of (mon_bay_states (fst (check_bays states mon))) =
     map_of (mon_bay_states mon) ++ map_of (rev states)"
proof (induction states arbitrary: mon)
  case (Cons s states)
  obtain bay st where s: "s = (bay, st)" by (cases s)
  show ?case unfolding s check_bays_step Cons.IH
    by (auto simp: update_conv' map_add_def fun_eq_iff split: option.splits)
qed simp

lemma check_bays_distinct:
  "distinct (map fst (mon_bay_states mon)) \<Longrightarrow>
     distinct (map fst (mon_bay_states (fst (check_bays states mon))))"
proof (induction states arbitrary: mon)
  case (Cons s states)
  obtain bay st where s: "s = (bay, st)" by (cases s)
  show ?case unfolding s check_bays_step by (rule Cons.IH) (simp add: distinct_update Cons.prems)
qed simp

lemma any_bay_failed_iff:
  "distinct (map fst (mon_bay_states mon)) \<Longrightarrow>
     any_bay_failed mon \<longleftrightarrow> (\<exists>bay. map_of (mon_bay_states mon) bay = Some BayFailed)"
  by (force simp: any_bay_failed_def list_ex_iff)

text \<open>After a scan with one state per bay, a drive counts as failed exactly if the scan says so
  or, for a bay the scan does not list, an earlier scan said so last: a bay is never forgotten
  when its drive is removed, and a failed drive that has spun down no longer counts.\<close>

theorem any_bay_failed_after_scan:
  assumes "distinct (map fst states)" "distinct (map fst (mon_bay_states mon))"
  shows "any_bay_failed (fst (check_bays states mon)) \<longleftrightarrow>
    list_ex (\<lambda>(_, s). s = BayFailed) states
    \<or> (\<exists>bay. bay \<notin> fst ` set states \<and> map_of (mon_bay_states mon) bay = Some BayFailed)"
proof -
  have "map_of (rev states) = map_of states"
    using assms(1) by (intro map_of_inject_set [THEN iffD2]) (simp_all add: rev_map [symmetric])
  moreover have "(\<exists>bay. map_of states bay = Some BayFailed) \<longleftrightarrow> list_ex (\<lambda>(_, s). s = BayFailed) states"
    using assms(1) by (force simp: list_ex_iff)
  moreover have "map_of states bay = None \<longleftrightarrow> bay \<notin> fst ` set states" for bay
    by (rule map_of_eq_None_iff)
  ultimately show ?thesis
    unfolding any_bay_failed_iff [OF check_bays_distinct [OF assms(2)]] check_bays_map map_add_Some_iff
    by auto
qed

text \<open>A failed drive that spins down is reported recovered: a scan that finds the bay of a SMART
  failure in standby clears the failure and logs that SMART no longer reports it.\<close>

theorem standby_clears_failure:
  "let m = fst (check_bays (bay_led_states [\<lparr>disk_name = ''sda'', disk_bay = Some 1,
                              disk_smart = smart_parse ''SMART overall-health: FAILED!''\<rparr>]) monitor_new);
       (m', logs) = check_bays (bay_led_states [\<lparr>disk_name = ''sda'', disk_bay = Some 1,
                              disk_smart = smart_parse ''Device is in STANDBY mode''\<rparr>]) m
   in any_bay_failed m \<and> \<not> any_bay_failed m' \<and> logs = [syslog PNotice ''smart_ok'' [] [1]]"
proof -
  have "smart_parse ''SMART overall-health: FAILED!'' = SmartFailed"
    "smart_parse ''Device is in STANDBY mode'' = SmartStandby"
    by code_simp+
  then show ?thesis
    by (simp add: bay_led_states_def List.map_filter_simps monitor_new_def any_bay_failed_def)
qed

theorem any_bay_failed_after_scan_witness:
  "any_bay_failed (fst (check_bays [(2, BayNormal)] (monitor_new\<lparr>mon_bay_states := [(1, BayFailed)]\<rparr>)))"
  using any_bay_failed_after_scan [of "[(2, BayNormal)]" "monitor_new\<lparr>mon_bay_states := [(1, BayFailed)]\<rparr>"]
  by auto

end
