(* ===== verification/Socket.thy ===== *)
theory Socket
  imports Hal
begin

text \<open>
  \<open>src/socket.rs\<close>: the requests of the control socket, their strict parser, the bytes of a
  request, the bounded command queue and the bounded number of connections. Error texts are
  constructors holding what the text quotes (at most 24 characters). Threads, the accept loop
  and the files are I/O.
\<close>

section \<open>Commands and errors\<close>

datatype socket_command =
  Show level nat look "nat option" string string
| Clear "nat option"
| Locate "nat option" nat
| LocateOff "nat option"
| StatusRequest

datatype request = ReqStatus | ReqCommand socket_command

datatype socket_error =
  StatusArgs | EmptyRequest | ShowUsage | UnknownLevel string | BadTtl string | BadBay string
| UnexpectedArg string | BayTwice | OptionTwice string | BadColor string | BadFlash string
| BadBeep string | TtlTwice | OffWithTtl | NotUtf8 | QueueFull | ShuttingDown | StatusTimeout

definition quote :: "string \<Rightarrow> string" where
  "quote s = take 24 s"

definition DEFAULT_LOCATE_TTL_SECS :: nat where "DEFAULT_LOCATE_TTL_SECS = 60"

section \<open>Options\<close>

definition bay_number :: "string \<Rightarrow> socket_error + nat" where
  "bay_number n =
     (case parse_uint (2 ^ 32) n of
        Some b \<Rightarrow> if 0 < b then Inr b else Inl (BadBay (quote n))
      | None \<Rightarrow> Inl (BadBay (quote n)))"

fun parse_bay_loop :: "nat option \<Rightarrow> string list \<Rightarrow> socket_error + nat option" where
  "parse_bay_loop bay [] = Inr bay"
| "parse_bay_loop bay (part # parts) =
     (case strip_prefix ''bay='' part of
        None \<Rightarrow> Inl (UnexpectedArg (quote part))
      | Some n \<Rightarrow>
          (case bay_number n of
             Inl e \<Rightarrow> Inl e
           | Inr b \<Rightarrow> if bay \<noteq> None then Inl BayTwice else parse_bay_loop (Some b) parts))"

definition parse_bay :: "string list \<Rightarrow> socket_error + nat option" where
  "parse_bay parts = parse_bay_loop None parts"

definition flash_parse :: "string \<Rightarrow> bool option" where
  "flash_parse value =
     (let v = to_ascii_lowercase value in
      if v \<in> {''flash'', ''flashing'', ''on'', ''yes'', ''true''} then Some True
      else if v \<in> {''solid'', ''steady'', ''off'', ''no'', ''false''} then Some False
      else None)"

definition show_option ::
  "nat option \<times> look \<Rightarrow> string \<Rightarrow> socket_error + nat option \<times> look" where
  "show_option st part =
     (let (bay, lk) = st;
          (key, value) = (case split_once CHR ''='' part of Some kv \<Rightarrow> kv | None \<Rightarrow> (part, []));
          k = to_ascii_lowercase key
      in if k = ''bay''
         then (case bay_number value of
                 Inl e \<Rightarrow> Inl e
               | Inr b \<Rightarrow> if bay \<noteq> None then Inl (OptionTwice key) else Inr (Some b, lk))
         else if k = ''color'' \<or> k = ''colour''
         then (case color_parse value of
                 None \<Rightarrow> Inl (BadColor (quote value))
               | Some c \<Rightarrow> if look_color lk \<noteq> None then Inl (OptionTwice key)
                          else Inr (bay, lk\<lparr>look_color := Some c\<rparr>))
         else if k = ''flash''
         then (case flash_parse value of
                 None \<Rightarrow> Inl (BadFlash (quote value))
               | Some f \<Rightarrow> if look_flash lk \<noteq> None then Inl (OptionTwice key)
                          else Inr (bay, lk\<lparr>look_flash := Some f\<rparr>))
         else if k = ''beep''
         then (case beep_parse value of
                 None \<Rightarrow> Inl (BadBeep (quote value))
               | Some b \<Rightarrow> if look_beep lk \<noteq> None then Inl (OptionTwice key)
                          else Inr (bay, lk\<lparr>look_beep := Some b\<rparr>))
         else Inl (UnexpectedArg (quote part)))"

fun show_options_loop ::
  "nat option \<times> look \<Rightarrow> string list \<Rightarrow> socket_error + nat option \<times> look" where
  "show_options_loop st [] = Inr st"
| "show_options_loop st (part # parts) =
     (case show_option st part of Inl e \<Rightarrow> Inl e | Inr st \<Rightarrow> show_options_loop st parts)"

definition parse_show_options :: "string list \<Rightarrow> socket_error + nat option \<times> look" where
  "parse_show_options parts = show_options_loop (None, look_default) parts"

fun parse_locate_loop ::
  "bool \<times> nat option \<times> nat option \<Rightarrow> string list \<Rightarrow> socket_error + bool \<times> nat option \<times> nat option"
where
  "parse_locate_loop st [] = Inr st"
| "parse_locate_loop (off, bay, ttl) (part # parts) =
     (if eq_ignore_ascii_case part ''off'' then parse_locate_loop (True, bay, ttl) parts
      else (case strip_prefix ''bay='' part of
              Some n \<Rightarrow>
                (case bay_number n of
                   Inl e \<Rightarrow> Inl e
                 | Inr b \<Rightarrow> if bay \<noteq> None then Inl BayTwice
                            else parse_locate_loop (off, Some b, ttl) parts)
            | None \<Rightarrow>
                (case parse_uint (2 ^ 64) part of
                   None \<Rightarrow> Inl (UnexpectedArg (quote part))
                 | Some s \<Rightarrow> if ttl \<noteq> None then Inl TtlTwice
                            else parse_locate_loop (off, bay, Some s) parts)))"

definition parse_locate :: "string list \<Rightarrow> socket_error + socket_command" where
  "parse_locate parts =
     (case parse_locate_loop (False, None, None) parts of
        Inl e \<Rightarrow> Inl e
      | Inr (off, bay, ttl) \<Rightarrow>
          if off then (if ttl \<noteq> None then Inl OffWithTtl else Inr (LocateOff bay))
          else Inr (Locate bay (case ttl of None \<Rightarrow> DEFAULT_LOCATE_TTL_SECS | Some t \<Rightarrow> t)))"

section \<open>Requests\<close>

definition line_or :: "string list \<Rightarrow> nat \<Rightarrow> string" where
  "line_or ls i = (if i < length ls then ls ! i else [])"

definition parse_show :: "string list \<Rightarrow> string list \<Rightarrow> socket_error + socket_command" where
  "parse_show ls parts =
     (case parts of
        [] \<Rightarrow> Inl ShowUsage
      | lv # parts \<Rightarrow>
          (case level_parse lv of
             None \<Rightarrow> Inl (UnknownLevel (quote lv))
           | Some level \<Rightarrow>
               (case parts of
                  [] \<Rightarrow> Inl ShowUsage
                | ttl # parts \<Rightarrow>
                    (case parse_uint (2 ^ 64) ttl of
                       None \<Rightarrow> Inl (BadTtl (quote ttl))
                     | Some ttl_secs \<Rightarrow>
                         (case parse_show_options parts of
                            Inl e \<Rightarrow> Inl e
                          | Inr (bay, lk) \<Rightarrow>
                              Inr (Show level ttl_secs lk bay (line_or ls 1) (line_or ls 2)))))))"

definition parse_message :: "string list \<Rightarrow> socket_error + socket_command" where
  "parse_message ls =
     (case split_whitespace (trim (line_or ls 0)) of
        [] \<Rightarrow> Inl EmptyRequest
      | verb # parts \<Rightarrow>
          (let v = to_ascii_uppercase verb in
           if v = ''CLEAR''
           then (case parse_bay parts of Inl e \<Rightarrow> Inl e | Inr bay \<Rightarrow> Inr (Clear bay))
           else if v = ''LOCATE'' then parse_locate parts
           else if v = ''SHOW'' then parse_show ls parts
           else Inr (Show Info 5 look_default None (line_or ls 0) (line_or ls 1))))"

definition parse_request :: "string list \<Rightarrow> socket_error + request" where
  "parse_request ls =
     (case split_whitespace (trim (line_or ls 0)) of
        w # ws \<Rightarrow>
          (if eq_ignore_ascii_case w ''STATUS''
           then (if ws = [] then Inr ReqStatus else Inl StatusArgs)
           else (case parse_message ls of Inl e \<Rightarrow> Inl e | Inr c \<Rightarrow> Inr (ReqCommand c)))
      | [] \<Rightarrow> (case parse_message ls of Inl e \<Rightarrow> Inl e | Inr c \<Rightarrow> Inr (ReqCommand c)))"

definition locate_request :: "nat option \<Rightarrow> nat option \<Rightarrow> bool \<Rightarrow> string" where
  "locate_request bay ttl off =
     intercalate '' ''
       ([''LOCATE''] @ (if off then [''off''] else [])
        @ (case bay of None \<Rightarrow> [] | Some b \<Rightarrow> [''bay='' @ nat_str b])
        @ (case ttl of None \<Rightarrow> [] | Some t \<Rightarrow> [nat_str t]))"

section \<open>The bytes of a request\<close>

definition MAX_REQUEST_BYTES :: nat where "MAX_REQUEST_BYTES = 4096"

text \<open>\<open>stream\<close> is what the client sends before the reader stops, \<open>clean\<close> whether it stopped at
  the end of the stream (or at the size cap) and not on a timeout or an error.\<close>

definition read_request :: "char list \<Rightarrow> bool \<Rightarrow> char list" where
  "read_request stream clean =
     (let buf = take MAX_REQUEST_BYTES stream;
          capped = (MAX_REQUEST_BYTES \<le> length buf)
      in if \<not> clean \<or> capped
         then (if CHR 0x0A \<in> set buf
               then rev (dropWhile (\<lambda>b. b \<noteq> CHR 0x0A) (rev buf))
               else if \<not> clean then [] else buf)
         else buf)"

section \<open>The command queue\<close>

definition COMMAND_QUEUE_DEPTH :: nat where "COMMAND_QUEUE_DEPTH = 64"
definition MAX_COMMANDS_PER_PASS :: nat where "MAX_COMMANDS_PER_PASS = 16"
definition MAX_CONNECTIONS :: nat where "MAX_CONNECTIONS = 16"

definition enqueue ::
  "bool \<Rightarrow> socket_command \<Rightarrow> socket_command list \<Rightarrow> socket_error option \<times> socket_command list" where
  "enqueue alive cmd q =
     (if \<not> alive then (Some ShuttingDown, q)
      else if COMMAND_QUEUE_DEPTH \<le> length q then (Some QueueFull, q)
      else (None, q @ [cmd]))"

definition drain :: "socket_command list \<Rightarrow> socket_command list \<times> socket_command list" where
  "drain q = (take MAX_COMMANDS_PER_PASS q, drop MAX_COMMANDS_PER_PASS q)"

text \<open>\<open>utf8\<close> decodes the bytes (\<open>std::str::from_utf8\<close>); a status request waits for the report,
  \<open>None\<close> when it times out.\<close>

definition process ::
  "(char list \<Rightarrow> string option) \<Rightarrow> bool \<Rightarrow> string option \<Rightarrow> char list \<Rightarrow> socket_command list
     \<Rightarrow> (socket_error + string option) \<times> socket_command list" where
  "process utf8 alive report raw q =
     (case utf8 raw of
        None \<Rightarrow> (Inl NotUtf8, q)
      | Some txt \<Rightarrow>
          (case parse_request (str_lines txt) of
             Inl e \<Rightarrow> (Inl e, q)
           | Inr ReqStatus \<Rightarrow>
               (case enqueue alive StatusRequest q of
                  (Some e, q) \<Rightarrow> (Inl e, q)
                | (None, q) \<Rightarrow>
                    (case report of None \<Rightarrow> (Inl StatusTimeout, q) | Some r \<Rightarrow> (Inr (Some r), q)))
           | Inr (ReqCommand c) \<Rightarrow>
               (case enqueue alive c q of
                  (Some e, q) \<Rightarrow> (Inl e, q)
                | (None, q) \<Rightarrow> (Inr None, q))))"

text \<open>\<open>Slot::acquire\<close>: its compare-exchange loop is one atomic step; \<open>drop\<close> gives the place back.\<close>

definition slot_acquire :: "nat \<Rightarrow> nat \<Rightarrow> nat option" where
  "slot_acquire limit active = (if limit \<le> active then None else Some (active + 1))"

section \<open>The socket's group\<close>

fun split_on :: "char \<Rightarrow> string \<Rightarrow> string list" where
  "split_on c [] = [[]]"
| "split_on c (x # xs) =
     (if x = c then [] # split_on c xs
      else (case split_on c xs of [] \<Rightarrow> [[x]] | f # fs \<Rightarrow> (x # f) # fs))"

definition parse_group_gid :: "string \<Rightarrow> string \<Rightarrow> nat option" where
  "parse_group_gid contents name =
     find_map (\<lambda>line.
       case split_on CHR '':'' line of
         g # p # gid # rest \<Rightarrow> (if g = name then parse_uint (2 ^ 32) gid else None)
       | _ \<Rightarrow> None) (str_lines contents)"

section \<open>Words and options\<close>

lemma split_ws_word:
  "\<lbrakk>w \<noteq> []; list_all (\<lambda>c. \<not> is_whitespace c) w\<rbrakk> \<Longrightarrow> split_ws_aux acc w = [rev acc @ w]"
  by (induction w arbitrary: acc) (case_tac w, auto)+

lemma split_ws_cons:
  assumes "list_all (\<lambda>c. \<not> is_whitespace c) w" "acc \<noteq> [] \<or> w \<noteq> []"
  shows "split_ws_aux acc (w @ CHR '' '' # rest) = (rev acc @ w) # split_ws_aux [] rest"
  using assms
proof (induction w arbitrary: acc)
  case Nil
  then show ?case by simp
next
  case (Cons c w)
  then show ?case by (simp add: Cons.IH [of "c # acc"])
qed

definition word_ok :: "string \<Rightarrow> bool" where
  "word_ok w \<longleftrightarrow> w \<noteq> [] \<and> list_all (\<lambda>c. \<not> is_whitespace c) w"

lemma split_whitespace_words:
  "list_all word_ok ws \<Longrightarrow> split_whitespace (intercalate '' '' ws) = ws"
proof (induction ws)
  case (Cons w ws)
  then show ?case
    by (cases ws) (auto simp: word_ok_def split_whitespace_def split_ws_word split_ws_cons)
qed (simp add: split_whitespace_def)

lemma split_ws_snoc: "is_whitespace c \<Longrightarrow> split_ws_aux acc (s @ [c]) = split_ws_aux acc s"
  by (induction s arbitrary: acc) auto

lemma split_whitespace_trim [simp]: "split_whitespace (trim s) = split_whitespace s"
proof -
  have "split_ws_aux [] (dropWhile is_whitespace t) = split_ws_aux [] t" for t
    by (induction t) auto
  moreover have "split_ws_aux acc (rev (dropWhile is_whitespace (rev t))) = split_ws_aux acc t" for acc t
    by (induction t rule: rev_induct) (auto simp: split_ws_snoc)
  ultimately show ?thesis by (simp add: split_whitespace_def trim_def trim_start_def trim_end_def)
qed

lemma bay_number_ok: "bay_number n = Inr b \<Longrightarrow> 0 < b \<and> b < 2 ^ 32"
  by (auto simp: bay_number_def parse_uint_bound split: option.splits if_splits)

definition bay_ok :: "nat option \<Rightarrow> bool" where
  "bay_ok bay \<longleftrightarrow> (case bay of None \<Rightarrow> True | Some b \<Rightarrow> 0 < b \<and> b < 2 ^ 32)"

lemma bay_ok_Some: "bay_number n = Inr b \<Longrightarrow> bay_ok (Some b)"
  by (auto simp: bay_ok_def dest: bay_number_ok)

lemma parse_bay_loop_ok:
  "parse_bay_loop bay parts = Inr r \<Longrightarrow> bay_ok bay \<Longrightarrow>
     bay_ok r \<and> (r = None \<longleftrightarrow> bay = None \<and> parts = [])"
proof (induction parts arbitrary: bay)
  case (Cons part parts)
  then obtain b where "bay_number (the (strip_prefix ''bay='' part)) = Inr b"
    "parse_bay_loop (Some b) parts = Inr r"
    by (auto split: option.splits sum.splits if_splits)
  with Cons.IH [of "Some b"] show ?case by (auto simp: bay_ok_Some)
qed simp

lemma show_option_ok:
  "show_option (bay, lk) part = Inr (bay', lk') \<Longrightarrow> bay_ok bay \<Longrightarrow> bay_ok bay'"
  by (auto simp: show_option_def Let_def bay_ok_def dest: bay_number_ok
      split: option.splits sum.splits if_splits prod.splits)

lemma show_options_ok:
  "show_options_loop st parts = Inr (bay, lk) \<Longrightarrow> bay_ok (fst st) \<Longrightarrow> bay_ok bay"
  by (induction st parts rule: show_options_loop.induct)
    (auto split: sum.splits dest: show_option_ok)

lemma parse_locate_loop_ok:
  "parse_locate_loop (off, bay, ttl) parts = Inr (off', bay', ttl') \<Longrightarrow> bay_ok bay \<Longrightarrow>
     (case ttl of None \<Rightarrow> True | Some t \<Rightarrow> t < 2 ^ 64) \<Longrightarrow>
     bay_ok bay' \<and> (case ttl' of None \<Rightarrow> True | Some t \<Rightarrow> t < 2 ^ 64)"
proof (induction parts arbitrary: off bay ttl)
  case (Cons part parts)
  show ?case
  proof (cases "eq_ignore_ascii_case part ''off''")
    case True
    with Cons show ?thesis by simp
  next
    case False
    show ?thesis
    proof (cases "strip_prefix ''bay='' part")
      case None
      with False Cons.prems obtain t where "parse_uint (2 ^ 64) part = Some t"
        "parse_locate_loop (off, bay, Some t) parts = Inr (off', bay', ttl')"
        by (auto split: option.splits if_splits)
      with Cons.IH [of off bay "Some t"] Cons.prems show ?thesis by (auto dest: parse_uint_bound)
    next
      case (Some n)
      with False Cons.prems obtain b where "bay_number n = Inr b"
        "parse_locate_loop (off, Some b, ttl) parts = Inr (off', bay', ttl')"
        by (auto split: sum.splits if_splits)
      with Cons.IH [of off "Some b" ttl] Cons.prems show ?thesis
        by (auto simp: bay_ok_def dest: bay_number_ok)
    qed
  qed
qed simp

definition command_ok :: "socket_command \<Rightarrow> bool" where
  "command_ok c \<longleftrightarrow> (case c of
      Show _ ttl _ bay _ _ \<Rightarrow> ttl < 2 ^ 64 \<and> bay_ok bay
    | Clear bay \<Rightarrow> bay_ok bay
    | Locate bay ttl \<Rightarrow> bay_ok bay \<and> ttl < 2 ^ 64
    | LocateOff bay \<Rightarrow> bay_ok bay
    | StatusRequest \<Rightarrow> True)"

lemma parse_locate_ok: "parse_locate parts = Inr c \<Longrightarrow> command_ok c \<and> c \<noteq> Clear None"
  using parse_locate_loop_ok [of False None None parts]
  by (auto simp: parse_locate_def command_ok_def bay_ok_def DEFAULT_LOCATE_TTL_SECS_def
      split: sum.splits prod.splits if_splits option.splits)

lemma parse_show_ok: "parse_show ls parts = Inr c \<Longrightarrow> command_ok c \<and> c \<noteq> Clear None"
  using show_options_ok [of "(None, look_default)"]
  by (fastforce simp: parse_show_def parse_show_options_def command_ok_def bay_ok_def
      dest: parse_uint_bound split: list.splits option.splits sum.splits prod.splits)

section \<open>Properties\<close>

text \<open>The parser is strict: every command it accepts has bays from 1 up within \<open>u32\<close> and times
  within \<open>u64\<close>, and only a bare \<open>CLEAR\<close> becomes the command that clears everything: no
  mistyped \<open>bay=\<close> can widen into it.\<close>

theorem parse_message_strict:
  "(case parse_message ls of Inl _ \<Rightarrow> True | Inr c \<Rightarrow> command_ok c)
   \<and> (parse_message ls = Inr (Clear None) \<longleftrightarrow>
        map to_ascii_uppercase (split_whitespace (line_or ls 0)) = [''CLEAR''])"
proof (cases "split_whitespace (line_or ls 0)")
  case Nil
  then show ?thesis by (simp add: parse_message_def)
next
  case (Cons verb parts)
  have b: "parse_bay parts = Inr r \<Longrightarrow> bay_ok r \<and> (r = None \<longleftrightarrow> parts = [])" for r
    using parse_bay_loop_ok [of None parts r] by (simp add: parse_bay_def bay_ok_def)
  have n: "parse_bay [] = Inr None" by (simp add: parse_bay_def)
  show ?thesis
    using Cons b n parse_locate_ok parse_show_ok [of ls parts]
    by (auto simp: parse_message_def Let_def command_ok_def bay_ok_def split: sum.splits)
qed

lemma nat_str_word: "word_ok (nat_str n)"
  using nat_str_digits [of n] by (auto simp: word_ok_def list_all_iff digit_not_whitespace)

lemma bay_word: "word_ok (''bay='' @ nat_str n)"
  using nat_str_word [of n] by (simp add: word_ok_def is_whitespace_def)

lemma bay_number_nat_str: "0 < b \<Longrightarrow> b < 2 ^ 32 \<Longrightarrow> bay_number (nat_str b) = Inr b"
  by (simp add: bay_number_def)

lemma nat_str_not_option:
  "\<not> eq_ignore_ascii_case (nat_str n) ''off''" "strip_prefix ''bay='' (nat_str n) = None"
proof -
  obtain c cs where n: "nat_str n = c # cs" and c: "is_digit c"
    using nat_str_digits [of n] nat_str_nonempty [of n] by (cases "nat_str n") auto
  have "to_ascii_lower_char c = c"
    using c by (simp add: to_ascii_lower_char_def is_digit_def Let_def)
  with c show "\<not> eq_ignore_ascii_case (nat_str n) ''off''"
    by (auto simp: n eq_ignore_ascii_case_def to_ascii_lowercase_def to_ascii_lower_char_def is_digit_def)
  from c show "strip_prefix ''bay='' (nat_str n) = None"
    by (auto simp: n strip_prefix_def is_digit_def)
qed

text \<open>\<open>locate_request\<close> and the parser agree: the header the client builds is parsed back to
  the command it stands for, with the default duration when none is given; the one combination
  that makes no sense, a duration on \<open>off\<close>, is refused.\<close>

theorem locate_request_roundtrip:
  assumes "bay_ok bay" "case ttl of None \<Rightarrow> True | Some t \<Rightarrow> t < 2 ^ 64"
  shows "parse_message [locate_request bay ttl off] =
    (if off then if ttl = None then Inr (LocateOff bay) else Inl OffWithTtl
     else Inr (Locate bay (case ttl of None \<Rightarrow> DEFAULT_LOCATE_TTL_SECS | Some t \<Rightarrow> t)))"
proof -
  define barg where "barg b = ''bay='' @ nat_str b" for b
  define ws where "ws = (if off then [''off''] else [])
      @ (case bay of None \<Rightarrow> [] | Some b \<Rightarrow> [barg b])
      @ (case ttl of None \<Rightarrow> [] | Some t \<Rightarrow> [nat_str t])"
  have barg: "word_ok (barg b)" "\<not> eq_ignore_ascii_case (barg b) ''off''"
    "strip_prefix ''bay='' (barg b) = Some (nat_str b)" for b
    using bay_word [of b] by (simp_all add: barg_def eq_ignore_ascii_case_def to_ascii_lowercase_def
        to_ascii_lower_char_def strip_prefix_def)
  have fixed: "word_ok ''LOCATE''" "word_ok ''off''" "to_ascii_uppercase ''LOCATE'' = ''LOCATE''"
    "eq_ignore_ascii_case ''off'' ''off''" by code_simp+
  have "list_all word_ok (''LOCATE'' # ws)"
    by (auto simp: ws_def barg fixed nat_str_word split: option.splits)
  have req: "locate_request bay ttl off = intercalate '' '' (''LOCATE'' # ws)"
    unfolding locate_request_def ws_def barg_def
    by (intro arg_cong [of _ _ "intercalate '' ''"]) (cases off; cases bay; cases ttl; simp)
  from split_whitespace_words [OF \<open>list_all word_ok (''LOCATE'' # ws)\<close>] have words: "split_whitespace (locate_request bay ttl off) = ''LOCATE'' # ws"
    unfolding req .
  have "parse_locate ws = (if off then if ttl = None then Inr (LocateOff bay) else Inl OffWithTtl
     else Inr (Locate bay (case ttl of None \<Rightarrow> DEFAULT_LOCATE_TTL_SECS | Some t \<Rightarrow> t)))"
    using assms by (cases off; cases bay; cases ttl)
      (simp_all add: parse_locate_def ws_def barg fixed nat_str_not_option bay_number_nat_str bay_ok_def)
  then show ?thesis by (simp add: parse_message_def line_or_def words fixed)
qed

theorem locate_request_roundtrip_witness:
  "parse_message [locate_request (Some 3) (Some 90) False] = Inr (Locate (Some 3) 90)"
  using locate_request_roundtrip [of "Some 3" "Some 90" False] by (simp add: bay_ok_def)

text \<open>A request is never acted on with a line cut short by a timeout or an error: what
  \<open>read_request\<close> returns is a prefix of what was sent, of at most \<open>MAX_REQUEST_BYTES\<close>; if
  the stream did not end cleanly it is empty or ends with a line feed, and if it did and the
  cap was not reached it is everything sent.\<close>

theorem read_request_whole_lines:
  "(\<exists>rest. stream = read_request stream clean @ rest)
   \<and> length (read_request stream clean) \<le> MAX_REQUEST_BYTES
   \<and> (read_request stream clean = [] \<or> clean \<or> last (read_request stream clean) = CHR 0x0A)
   \<and> (clean \<and> length stream < MAX_REQUEST_BYTES \<longrightarrow> read_request stream clean = stream)"
proof -
  define buf where "buf = take MAX_REQUEST_BYTES stream"
  define cut where "cut = rev (dropWhile (\<lambda>b. b \<noteq> CHR 0x0A) (rev buf))"
  have buf: "stream = buf @ drop MAX_REQUEST_BYTES stream" "length buf \<le> MAX_REQUEST_BYTES"
    by (simp_all add: buf_def)
  have cut: "buf = cut @ rev (takeWhile (\<lambda>b. b \<noteq> CHR 0x0A) (rev buf))"
    unfolding cut_def rev_append [symmetric] takeWhile_dropWhile_id by simp
  then have len: "length cut \<le> MAX_REQUEST_BYTES" using buf(2) by (metis length_append le_add1 le_trans)
  have last: "last cut = CHR 0x0A" if nl: "CHR 0x0A \<in> set buf"
  proof -
    have ne: "dropWhile (\<lambda>b. b \<noteq> CHR 0x0A) (rev buf) \<noteq> []"
      using nl by (auto simp: dropWhile_eq_Nil_conv)
    from hd_dropWhile [OF this] ne show ?thesis by (simp add: cut_def last_rev)
  qed
  have r: "read_request stream clean \<in> {buf, cut, []}"
    by (auto simp: read_request_def Let_def simp flip: buf_def cut_def)
  have "\<exists>rest. stream = read_request stream clean @ rest"
  proof -
    consider "read_request stream clean = buf" | "read_request stream clean = cut"
      | "read_request stream clean = []" using r by blast
    then show ?thesis
    proof cases
      case 1 then show ?thesis using buf(1) by auto
    next
      case 2 then show ?thesis using buf(1) cut by (metis append.assoc)
    qed simp
  qed
  moreover have "length (read_request stream clean) \<le> MAX_REQUEST_BYTES"
    using r buf(2) len by auto
  moreover have "read_request stream clean = [] \<or> clean \<or> last (read_request stream clean) = CHR 0x0A"
    using last by (auto simp: read_request_def Let_def simp flip: buf_def cut_def)
  moreover have "clean \<and> length stream < MAX_REQUEST_BYTES \<longrightarrow> read_request stream clean = stream"
    by (auto simp: read_request_def Let_def)
  ultimately show ?thesis by blast
qed

theorem read_request_whole_lines_witness:
  "read_request ''CLEAR'' True = ''CLEAR''"
  using read_request_whole_lines [of "''CLEAR''" True] by (simp add: MAX_REQUEST_BYTES_def)

text \<open>
  The queue over a run of operations: what connections put in and what passes of the main loop
  take out, with everything accepted and everything taken so far recorded.
\<close>

datatype queue_op = Put bool socket_command | Pass

record queue_run =
  q_queue :: "socket_command list"
  q_accepted :: "socket_command list"
  q_taken :: "socket_command list"

fun queue_step :: "queue_op \<Rightarrow> queue_run \<Rightarrow> queue_run" where
  "queue_step (Put alive cmd) s =
     (case enqueue alive cmd (q_queue s) of
        (None, q) \<Rightarrow> s\<lparr>q_queue := q, q_accepted := q_accepted s @ [cmd]\<rparr>
      | (Some e, q) \<Rightarrow> s\<lparr>q_queue := q\<rparr>)"
| "queue_step Pass s =
     (case drain (q_queue s) of
        (out, q) \<Rightarrow> s\<lparr>q_queue := q, q_taken := q_taken s @ out\<rparr>)"

definition queue_inv :: "queue_run \<Rightarrow> bool" where
  "queue_inv s \<longleftrightarrow> q_taken s @ q_queue s = q_accepted s \<and> length (q_queue s) \<le> COMMAND_QUEUE_DEPTH"

lemma queue_step_inv: "queue_inv s \<Longrightarrow> queue_inv (queue_step op s)"
proof (cases op)
  case (Put alive cmd)
  assume "queue_inv s"
  then have "q_taken s @ q_queue s @ [cmd] = q_accepted s @ [cmd]"
    by (simp add: queue_inv_def flip: append_assoc)
  with \<open>queue_inv s\<close> Put show ?thesis by (auto simp: queue_inv_def enqueue_def)
qed (auto simp: queue_inv_def drain_def)

interpretation queue_machine: step_machine queue_step queue_inv
  by unfold_locales (rule queue_step_inv)

text \<open>The command queue loses nothing and reorders nothing: over any run from an empty queue,
  the commands taken followed by those still queued are exactly the accepted ones in order,
  never more than \<open>COMMAND_QUEUE_DEPTH\<close> wait, a pass takes at most
  \<open>MAX_COMMANDS_PER_PASS\<close>, and a command is only refused when the queue is full or the
  daemon is going down.\<close>

theorem queue_fifo:
  "let s = fold queue_step ops \<lparr>q_queue = [], q_accepted = [], q_taken = []\<rparr> in
     q_taken s @ q_queue s = q_accepted s
     \<and> length (q_queue s) \<le> COMMAND_QUEUE_DEPTH
     \<and> length (fst (drain (q_queue s))) \<le> MAX_COMMANDS_PER_PASS
     \<and> (fst (enqueue True cmd (q_queue s)) \<noteq> None \<longleftrightarrow> length (q_queue s) = COMMAND_QUEUE_DEPTH)"
proof -
  have "queue_inv (fold queue_step ops \<lparr>q_queue = [], q_accepted = [], q_taken = []\<rparr>)"
    by (rule queue_machine.run_inv) (simp add: queue_inv_def)
  then show ?thesis by (auto simp: queue_inv_def Let_def drain_def enqueue_def)
qed

end
