(* ===== verification/DriverWatch.thy ===== *)
theory DriverWatch
  imports Levels
begin

text \<open>
  \<open>src/driver_watch.rs\<close>: when the platform driver appears, is reloaded or goes away. The
  inode numbers of a snapshot are the argument; a snapshot counts once it has been seen twice.
\<close>

definition CHECK_INTERVAL :: duration where "CHECK_INTERVAL = secs 2"

record snapshot =
  snap_core :: "nat option list"
  snap_brightness :: "nat option"

definition present :: "snapshot \<Rightarrow> bool" where
  "present s \<longleftrightarrow> list_all (\<lambda>i. i \<noteq> None) (snap_core s)"

datatype change = Appeared | Reloaded | BrightnessLed | Disappeared

fun reapply :: "change \<Rightarrow> bool" where
  "reapply Disappeared = False"
| "reapply _ = True"

fun platform_is_new :: "change \<Rightarrow> bool" where
  "platform_is_new Appeared = True"
| "platform_is_new Reloaded = True"
| "platform_is_new _ = False"

record driver_watch =
  dw_applied :: snapshot
  dw_seen :: "snapshot option"
  dw_next_check :: instant

definition driver_watch_new :: "snapshot \<Rightarrow> instant \<Rightarrow> driver_watch" where
  "driver_watch_new snap now =
     \<lparr>dw_applied = snap, dw_seen = Some snap, dw_next_check = now + CHECK_INTERVAL\<rparr>"

definition observe :: "snapshot \<Rightarrow> driver_watch \<Rightarrow> change option \<times> driver_watch" where
  "observe snap w =
     (if dw_seen w \<noteq> Some snap then (None, w\<lparr>dw_seen := Some snap\<rparr>)
      else if snap = dw_applied w then (None, w)
      else
        let before = dw_applied w; w = w\<lparr>dw_applied := snap\<rparr> in
        ((case (present before, present snap) of
            (False, True) \<Rightarrow> Some Appeared
          | (True, False) \<Rightarrow> Some Disappeared
          | (a, b) \<Rightarrow>
              if a \<and> b \<and> snap_core before \<noteq> snap_core snap then Some Reloaded
              else if snap_brightness snap \<noteq> None \<and> snap_brightness snap \<noteq> snap_brightness before
              then Some BrightnessLed else None), w))"

definition driver_poll :: "snapshot \<Rightarrow> instant \<Rightarrow> driver_watch \<Rightarrow> change option \<times> driver_watch" where
  "driver_poll snap now w =
     (if now < dw_next_check w then (None, w)
      else observe snap (w\<lparr>dw_next_check := now + CHECK_INTERVAL\<rparr>))"

section \<open>Facts\<close>

text \<open>A change of the driver is announced exactly once, after two checks in a row agree on it:
  a snapshot seen for the first time announces nothing, the second sight of one that differs
  from what was applied makes it the applied one, and seeing it again announces nothing. What is
  announced tells whether the driver came, went, or was replaced.\<close>

theorem observe_settles:
  "let (c1, w1) = observe snap w; (c2, w2) = observe snap w1; (c3, w3) = observe snap w2 in
     (dw_seen w = Some snap \<or> (c1 = None \<and> dw_applied w1 = dw_applied w))
     \<and> dw_applied w2 = snap \<and> c3 = None \<and> w3 = w2
     \<and> (case c2 of
          Some Appeared \<Rightarrow> \<not> present (dw_applied w) \<and> present snap
        | Some Disappeared \<Rightarrow> present (dw_applied w) \<and> \<not> present snap
        | Some Reloaded \<Rightarrow> present (dw_applied w) \<and> present snap
            \<and> snap_core (dw_applied w) \<noteq> snap_core snap
        | Some BrightnessLed \<Rightarrow> snap_brightness snap \<noteq> None
            \<and> snap_brightness snap \<noteq> snap_brightness (dw_applied w)
        | None \<Rightarrow> dw_seen w = Some snap \<or> present (dw_applied w) = present snap)"
  by (auto simp: observe_def Let_def split: bool.splits if_splits)

end
