(* ===== verification/Panel.thy ===== *)
theory Panel
  imports Monitor Alarm Socket DriverWatch Protocol
begin

text \<open>
  \<open>src/state.rs\<close>, the data and the LED half of \<open>AppState\<close>: what a health check, an alert, a
  locate and night mode write to the LEDs, and how the alarm that decides both the status LED and
  the LCD is chosen. \<open>Front\<close> holds the other half, keys, messages, ticks and the LCD.

  An operation takes the state and an environment \<open>env\<close> with what the hardware and the commands
  answer during it, one answer per question, and gives the state back. The LED writes and the
  syslog lines an operation makes are appended to two fields of the state, so that theorems
  can say what the LEDs show. \<open>Cell\<close> and \<open>RefCell\<close> fields are plain fields. Text for the log
  is structured (\<open>log_line\<close>).
\<close>

section \<open>The state\<close>

record override =
  ov_level :: level
  ov_look :: look
  ov_expires_at :: "instant option"
  ov_bay :: "nat option"
  ov_line0 :: string
  ov_line1 :: string

definition ov_beep :: "override \<Rightarrow> beep_mode" where
  "ov_beep ov = (case look_beep (ov_look ov) of Some b \<Rightarrow> b | None \<Rightarrow> default_for (ov_level ov))"

datatype alert_beep = Arrival | Repeating

record chassis_locate =
  cl_until :: "instant option"
  cl_hostname :: string

datatype mode =
  Status
| ActionMenu "action list" nat
| Confirm action instant
| Countdown action instant string

record scroll =
  scl_text :: string
  scl_offset :: nat
  scl_last_step :: "instant option"
  scl_started :: "instant option"
  scl_completed_a_pass :: bool

definition scroll_default :: scroll where
  "scroll_default =
     \<lparr>scl_text = [], scl_offset = 0, scl_last_step = None, scl_started = None,
      scl_completed_a_pass = False\<rparr>"

record category_cache =
  cc_screens :: "screen list"
  cc_last_refresh :: "instant option"

definition cache_default :: category_cache where
  "cache_default = \<lparr>cc_screens = [], cc_last_refresh = None\<rparr>"

definition stale :: "instant \<Rightarrow> category_cache \<Rightarrow> duration \<Rightarrow> bool" where
  "stale now c limit = (case cc_last_refresh c of None \<Rightarrow> True | Some t \<Rightarrow> limit \<le> since now t)"

text \<open>The sections of the configuration \<open>AppState\<close> reads.\<close>

record app_config =
  ac_display :: display_config
  ac_rotation :: rotation_config
  ac_confirm_timeout_secs :: nat
  ac_sleep_lcd_off :: bool
  ac_screens :: screens_config
  ac_refresh :: refresh_config
  ac_temperature :: temperature_config
  ac_led :: led_config
  ac_network :: network_config
  ac_templates :: templates_config

definition app_config_default :: app_config where
  "app_config_default =
     \<lparr>ac_display = display_default, ac_rotation = rotation_default,
      ac_confirm_timeout_secs = confirm_timeout_default,
      ac_sleep_lcd_off = slp_lcd_off sleep_default, ac_screens = screens_default,
      ac_refresh = refresh_default, ac_temperature = temperature_default, ac_led = led_default,
      ac_network = network_default, ac_templates = templates_default\<rparr>"

record app =
  a_cfg :: app_config
  a_network_cache :: category_cache
  a_pools_cache :: category_cache
  a_hdd_cache :: category_cache
  a_temperature_cache :: category_cache
  a_docker_cache :: category_cache
  a_screens :: "screen list"
  a_index :: nat
  a_auto_rotate :: bool
  a_resume_at :: "instant option"
  a_last_dwell :: instant
  a_mode :: mode
  a_over :: "override option"
  a_pending_over :: "override option"
  a_beep_pending :: "alert_beep option"
  a_next_repeat_beep :: "instant option"
  a_alert_bay :: "nat option"
  a_locate_bays :: "(nat \<times> instant option) list"
  a_locate_chassis :: "chassis_locate option"
  a_sleeping :: bool
  a_schedule_wants_sleep :: bool
  a_awake_override_until :: "instant option"
  a_scroll0 :: scroll
  a_scroll1 :: scroll
  a_monitor :: monitor
  a_fan_health :: level
  a_pools :: "pool list option"
  a_disks :: "disk list"
  a_nic_led_problem :: "string option"
  a_day_brightness :: "nat option"
  a_applied_brightness :: "nat option"
  a_brightness_problem :: "string option"
  a_bay_mode_problem :: "string option"
  a_driver :: "driver_watch option"
  a_status_shown :: "status_pattern option"
  a_led_inputs :: "(level \<times> level) option"
  a_alarm :: "alarm option"
  a_leds :: "led_op list"
  a_log :: "log_line list"

text \<open>
  What the outside answers during one operation: the clock, the host name, \<open>zpool list\<close>, the
  disks, the screens built from sysfs, the sensors, the interfaces, and the outcome of the LED
  operations that can fail (the problem, if any).
\<close>

record env =
  e_now :: instant
  e_hostname :: "string option"
  e_pools :: "pool list option"
  e_disks :: "disk list"
  e_network :: "screen list"
  e_hdd :: "disk list \<Rightarrow> screen list"
  e_temperature :: "screen list"
  e_docker :: "screen list"
  e_temps :: "(string \<times> string \<times> rat) list"
  e_configured_nics :: "string list"
  e_carrier :: "string \<Rightarrow> bool option"
  e_nic :: "front_lan_state \<Rightarrow> string option"
  e_bay_mode :: "bay_led_mode \<Rightarrow> string option"
  e_brightness :: "nat \<Rightarrow> string option"
  e_read_brightness :: "nat option"
  e_snapshot :: snapshot

definition app_new :: "app_config \<Rightarrow> instant \<Rightarrow> app" where
  "app_new cfg now =
     \<lparr>a_cfg = cfg, a_network_cache = cache_default, a_pools_cache = cache_default,
      a_hdd_cache = cache_default, a_temperature_cache = cache_default,
      a_docker_cache = cache_default, a_screens = [], a_index = 0, a_auto_rotate = True,
      a_resume_at = None, a_last_dwell = now, a_mode = Status, a_over = None,
      a_pending_over = None, a_beep_pending = None, a_next_repeat_beep = None,
      a_alert_bay = None, a_locate_bays = [], a_locate_chassis = None, a_sleeping = False,
      a_schedule_wants_sleep = False, a_awake_override_until = None,
      a_scroll0 = scroll_default, a_scroll1 = scroll_default, a_monitor = monitor_new,
      a_fan_health = Info, a_pools = None, a_disks = [], a_nic_led_problem = None,
      a_day_brightness = None, a_applied_brightness = None, a_brightness_problem = None,
      a_bay_mode_problem = None, a_driver = None, a_status_shown = None, a_led_inputs = None,
      a_alarm = None, a_leds = [], a_log = []\<rparr>"

section \<open>Time, text and outputs\<close>

definition FAR_FUTURE :: duration where "FAR_FUTURE = secs (10 * 365 * 24 * 3600)"

definition deadline_after :: "instant \<Rightarrow> nat \<Rightarrow> instant" where
  "deadline_after now n =
     (case checked_add now (secs n) of
        Some t \<Rightarrow> t
      | None \<Rightarrow> (case checked_add now FAR_FUTURE of Some t \<Rightarrow> t | None \<Rightarrow> now))"

definition secs_up :: "duration \<Rightarrow> nat" where
  "secs_up left = min (left div secs 1 + (if 0 < left mod secs 1 then 1 else 0)) (2 ^ 64 - 1)"

definition secs_left :: "instant \<Rightarrow> instant \<Rightarrow> nat" where
  "secs_left now t = secs_up (since t now)"

fun action_label :: "action \<Rightarrow> string" where
  "action_label Shutdown = ''SHUTDOWN''"
| "action_label Restart = ''RESTART''"

fun level_word :: "level \<Rightarrow> string" where
  "level_word Info = ''OK''"
| "level_word Warn = ''WARNING''"
| "level_word Error = ''ERROR''"
| "level_word Critical = ''CRITICAL''"

definition emit :: "led_op list \<Rightarrow> app \<Rightarrow> app" where
  "emit ops s = s\<lparr>a_leds := a_leds s @ ops\<rparr>"

definition logs :: "log_line list \<Rightarrow> app \<Rightarrow> app" where
  "logs ls s = s\<lparr>a_log := a_log s @ ls\<rparr>"

definition reset_scroll :: "app \<Rightarrow> app" where
  "reset_scroll s = s\<lparr>a_scroll0 := scroll_default, a_scroll1 := scroll_default\<rparr>"

section \<open>Health and the alarm\<close>

definition night_darkens_front :: "app \<Rightarrow> bool" where
  "night_darkens_front s \<longleftrightarrow> led_night_brightness (ac_led (a_cfg s)) = None"

definition pool_healths :: "app \<Rightarrow> (string \<times> string) list" where
  "pool_healths s =
     map (\<lambda>p. (pool_name p, pool_health p)) (case a_pools s of None \<Rightarrow> [] | Some ps \<Rightarrow> ps)"

text \<open>\<open>sort_by_key\<close> is stable.\<close>

definition bay_states :: "app \<Rightarrow> (nat \<times> bay_state) list" where
  "bay_states s = sort_key fst (bay_led_states (a_disks s))"

definition faulted :: "string \<Rightarrow> bool" where
  "faulted h \<longleftrightarrow> h = ''FAULTED'' \<or> h = ''UNAVAIL'' \<or> h = ''OFFLINE''"

definition pools_where :: "(string \<Rightarrow> bool) \<Rightarrow> app \<Rightarrow> string" where
  "pools_where wanted s =
     intercalate '','' (map fst (filter (\<lambda>(_, h). wanted h) (pool_healths s)))"

definition network_alarm :: "env \<Rightarrow> app \<Rightarrow> alarm option" where
  "network_alarm env s =
     (let net = ac_network (a_cfg s) in
      if \<not> net_enabled net then None
      else
        let monitored = monitored_nics net (e_configured_nics env);
            down = filter (link_is_down (e_carrier env)) monitored in
        if down = [] then None
        else if length down = length monitored
        then alarm_new (level_of_network (net_all_down_level net)) ''NETWORK DOWN'' (intercalate '','' down)
        else alarm_new (level_of_network (net_some_down_level net)) ''LINK DOWN'' (intercalate '','' down))"

definition opt_list :: "'a option \<Rightarrow> 'a list" where
  "opt_list x = (case x of None \<Rightarrow> [] | Some a \<Rightarrow> [a])"

definition failed_bays_text :: "app \<Rightarrow> string \<times> string" where
  "failed_bays_text s =
     (let bays = map (\<lambda>(bay, _). nat_str bay) (filter (\<lambda>(_, st). st = BayFailed) (bay_states s)) in
      case bays of
        [] \<Rightarrow> (''DRIVE FAILED'', ''SMART'')
      | [one] \<Rightarrow> (''DRIVE FAILED'', ''BAY '' @ one)
      | many \<Rightarrow> (''DRIVES FAILED'', ''BAYS '' @ intercalate '','' many))"

definition health_alarms :: "env \<Rightarrow> app \<Rightarrow> alarm list" where
  "health_alarms env s =
     (case worst_temp (a_monitor s) of
        None \<Rightarrow> []
      | Some (level, chip, temp_c) \<Rightarrow>
          let (val, unit) = display_temp temp_c (tmp_units (ac_temperature (a_cfg s)))
          in opt_list (alarm_new level (''TEMP '' @ level_word level)
               (short_chip_name chip @ '' '' @ fmt_fixed 0 val @ unit)))
     @ opt_list (alarm_new (a_fan_health s) (''FAN '' @ level_word (a_fan_health s)) ''check fan'')
     @ (if list_ex (\<lambda>(_, h). faulted h) (pool_healths s)
        then opt_list (alarm_new Error ''POOL FAULTED'' (pools_where faulted s)) else [])
     @ (if any_bay_failed (a_monitor s)
        then (let (what, which) = failed_bays_text s in opt_list (alarm_new Error what which)) else [])
     @ opt_list (network_alarm env s)
     @ (if list_ex (\<lambda>(_, h). h = ''DEGRADED'') (pool_healths s)
        then [with_pattern Warn StatusDegraded ''POOL DEGRADED'' (pools_where (\<lambda>h. h = ''DEGRADED'') s)]
        else [])"

record health_summary =
  hs_pool_healths :: "(string \<times> string) list"
  hs_pool_degraded :: bool
  hs_pool_faulted :: bool
  hs_bay_failed :: bool
  hs_temp_level :: level
  hs_network_level :: level
  hs_fan_health :: level
  hs_overall :: level
  hs_alarms :: "alarm list"
  hs_pattern :: status_pattern

definition health_summary :: "env \<Rightarrow> app \<Rightarrow> health_summary" where
  "health_summary env s =
     (let temp_level = worst_temp_level (a_monitor s);
          network_level = (case network_alarm env s of None \<Rightarrow> Info | Some a \<Rightarrow> al_level a);
          bay_failed = any_bay_failed (a_monitor s);
          alarms = health_alarms env s
      in \<lparr>hs_pool_healths = pool_healths s,
          hs_pool_degraded = list_ex (\<lambda>(_, h). h = ''DEGRADED'') (pool_healths s),
          hs_pool_faulted = list_ex (\<lambda>(_, h). faulted h) (pool_healths s),
          hs_bay_failed = bay_failed, hs_temp_level = temp_level,
          hs_network_level = network_level, hs_fan_health = a_fan_health s,
          hs_overall = fold max [temp_level, network_level, if bay_failed then Error else Info]
                         (a_fan_health s),
          hs_alarms = alarms,
          hs_pattern = (case most_critical alarms of None \<Rightarrow> StatusOk | Some a \<Rightarrow> al_pattern a)\<rparr>)"

section \<open>Writing the LEDs\<close>

text \<open>The alarm of the active message, which wins a tie.\<close>

definition pushed_alarm :: "app \<Rightarrow> alarm option" where
  "pushed_alarm s =
     (case a_over s of
        None \<Rightarrow> None
      | Some ov \<Rightarrow> map_option (\<lambda>p. with_pattern (ov_level ov) p (ov_line0 ov) (ov_line1 ov))
                    (pattern_for_show (ov_level ov) (ov_look ov)))"

definition status_pattern_for :: "app \<Rightarrow> status_pattern" where
  "status_pattern_for s =
     (if a_locate_chassis s \<noteq> None then StatusLocate
      else if a_sleeping s \<and> night_darkens_front s then StatusOff
      else (case a_alarm s of None \<Rightarrow> StatusOk | Some a \<Rightarrow> al_pattern a))"

definition recompute_status_led :: "env \<Rightarrow> app \<Rightarrow> app" where
  "recompute_status_led env s =
     (let s = s\<lparr>a_alarm := most_critical (opt_list (pushed_alarm s) @ health_alarms env s)\<rparr>;
          p = status_pattern_for s
      in if a_status_shown s \<noteq> Some p
         then (emit (set_status p) s)\<lparr>a_status_shown := Some p\<rparr> else s)"

definition bay_led_state :: "app \<Rightarrow> nat \<Rightarrow> bay_state" where
  "bay_led_state s bay =
     (if bay \<in> fst ` set (a_locate_bays s) then BayLocate
      else if a_alert_bay s = Some bay then BayAlert
      else (case find (\<lambda>(b, _). b = bay) (bay_states s) of None \<Rightarrow> BayNormal | Some (_, st) \<Rightarrow> st))"

definition apply_bay_led :: "nat \<Rightarrow> app \<Rightarrow> app" where
  "apply_bay_led bay s =
     emit (if a_sleeping s then set_bay_night bay (bay_led_state s bay)
           else set_bay bay (bay_led_state s bay)) s"

definition apply_power_led :: "app \<Rightarrow> app" where
  "apply_power_led s =
     emit (set_power (if a_locate_chassis s \<noteq> None then PowerLedLocate
                      else if a_sleeping s \<and> night_darkens_front s then PowerLedOff
                      else PowerLedOn)) s"

definition update_health_leds :: "env \<Rightarrow> app \<Rightarrow> app" where
  "update_health_leds env s =
     (let states = bay_states s;
          s = fold apply_bay_led (map fst states) s;
          (mon, ls) = check_bays states (a_monitor s)
      in recompute_status_led env (logs ls (s\<lparr>a_monitor := mon\<rparr>)))"

definition sync_leds_to_override :: "env \<Rightarrow> app \<Rightarrow> app" where
  "sync_leds_to_override env s =
     (let want = (case a_over s of
                    None \<Rightarrow> None
                  | Some ov \<Rightarrow> if always_visible (ov_level ov) then ov_bay ov else None);
          previous = a_alert_bay s;
          s = s\<lparr>a_alert_bay := want\<rparr>;
          s = (case previous of
                 None \<Rightarrow> s | Some old \<Rightarrow> if Some old \<noteq> want then apply_bay_led old s else s);
          s = (case want of None \<Rightarrow> s | Some bay \<Rightarrow> apply_bay_led bay s)
      in recompute_status_led env s)"

definition note_nic_leds :: "string option \<Rightarrow> app \<Rightarrow> app" where
  "note_nic_leds result s =
     (case result of
        Some problem \<Rightarrow>
          if a_nic_led_problem s \<noteq> Some problem
          then (logs [syslog PWarning ''nic_leds_not_applied'' [problem] []] s)
                 \<lparr>a_nic_led_problem := Some problem\<rparr>
          else s
      | None \<Rightarrow>
          if a_nic_led_problem s \<noteq> None
          then logs [syslog PNotice ''nic_leds_again'' [] []] (s\<lparr>a_nic_led_problem := None\<rparr>)
          else s)"

definition apply_front_brightness :: "env \<Rightarrow> app \<Rightarrow> app" where
  "apply_front_brightness env s =
     (let want = (case led_night_brightness (ac_led (a_cfg s)) of
                    Some n \<Rightarrow> if a_sleeping s \<and> a_locate_chassis s = None then Some (min n 100)
                              else a_day_brightness s
                  | None \<Rightarrow> a_day_brightness s)
      in case want of
           None \<Rightarrow> s
         | Some percent \<Rightarrow>
             if a_applied_brightness s = Some percent then s
             else (case e_brightness env percent of
                     None \<Rightarrow>
                       (let s' = s\<lparr>a_applied_brightness := Some percent, a_brightness_problem := None\<rparr>
                        in if a_brightness_problem s \<noteq> None
                           then logs [syslog PNotice ''brightness_again'' [] []] s' else s')
                   | Some e \<Rightarrow>
                       if a_brightness_problem s \<noteq> Some e
                       then (logs [syslog PWarning ''brightness_not_applied'' [e] []] s)
                              \<lparr>a_brightness_problem := Some e\<rparr>
                       else s))"

definition apply_bay_mode :: "env \<Rightarrow> app \<Rightarrow> app" where
  "apply_bay_mode env s =
     (case led_bay_mode (ac_led (a_cfg s)) of
        None \<Rightarrow> s
      | Some mode \<Rightarrow>
          (case e_bay_mode env mode of
             None \<Rightarrow>
               if a_bay_mode_problem s \<noteq> None
               then logs [syslog PNotice ''bay_mode_applied'' [] []] (s\<lparr>a_bay_mode_problem := None\<rparr>)
               else s
           | Some e \<Rightarrow>
               if a_bay_mode_problem s \<noteq> Some e
               then (logs [syslog PWarning ''bay_mode_not_applied'' [e] []] s)
                      \<lparr>a_bay_mode_problem := Some e\<rparr>
               else s))"

definition reassert_locate_leds :: "app \<Rightarrow> app" where
  "reassert_locate_leds s =
     (let s = fold (\<lambda>bay. emit (set_bay bay BayLocate)) (map fst (a_locate_bays s)) s
      in if a_locate_chassis s \<noteq> None
         then (emit (set_power PowerLedLocate @ set_status StatusLocate) s)
                \<lparr>a_status_shown := Some StatusLocate\<rparr>
         else s)"

text \<open>The three parts of \<open>apply_all_leds\<close>: the day or night look with the NIC result, the day
  brightness, and the health, alert and locate LEDs on top.\<close>

definition relight :: "env \<Rightarrow> app \<Rightarrow> string option \<times> app" where
  "relight env s =
     (if a_sleeping s \<and> night_darkens_front s
      then (snd (enter_night_mode True (e_nic env)),
            (emit (fst (enter_night_mode True (e_nic env))) s)\<lparr>a_status_shown := Some StatusOff\<rparr>)
      else
        let (ops, result) = exit_night_mode (led_nic_mode (ac_led (a_cfg s))) True (e_nic env);
            s = (emit ops s)\<lparr>a_status_shown := None\<rparr>
        in (result, if a_sleeping s then emit (fst (enter_night_mode False (e_nic env))) s else s))"

definition learn_brightness :: "env \<Rightarrow> app \<Rightarrow> app" where
  "learn_brightness env s =
     (if a_day_brightness s = None
      then s\<lparr>a_day_brightness :=
             (case (led_brightness (ac_led (a_cfg s)), led_night_brightness (ac_led (a_cfg s))) of
                (Some pct, _) \<Rightarrow> Some (min pct 100)
              | (None, Some _) \<Rightarrow> e_read_brightness env
              | (None, None) \<Rightarrow> None)\<rparr>
      else s)"

definition apply_alert_led :: "app \<Rightarrow> app" where
  "apply_alert_led s = (case a_alert_bay s of None \<Rightarrow> s | Some bay \<Rightarrow> apply_bay_led bay s)"

definition apply_all_leds :: "env \<Rightarrow> app \<Rightarrow> app" where
  "apply_all_leds env s =
     (let (result, s) = relight env s;
          s = learn_brightness env (apply_bay_mode env (note_nic_leds result s));
          s = apply_front_brightness env (s\<lparr>a_applied_brightness := None\<rparr>)
      in reassert_locate_leds (apply_alert_led (update_health_leds env s)))"

definition init_leds :: "env \<Rightarrow> app \<Rightarrow> app" where
  "init_leds env s =
     apply_all_leds env (s\<lparr>a_driver := Some (driver_watch_new (e_snapshot env) (e_now env))\<rparr>)"

definition check_driver :: "env \<Rightarrow> app \<Rightarrow> change option \<times> app" where
  "check_driver env s =
     (case a_driver s of
        None \<Rightarrow> (None, s)
      | Some w \<Rightarrow>
          (let (change, w) = driver_poll (e_snapshot env) (e_now env) w;
               s = s\<lparr>a_driver := Some w\<rparr>
           in case change of
                None \<Rightarrow> (None, s)
              | Some c \<Rightarrow>
                  let s = logs [syslog (case c of Appeared \<Rightarrow> PNotice | Disappeared \<Rightarrow> PWarning
                                        | _ \<Rightarrow> PInfo) ''driver_changed'' [] []] s
                  in (Some c, if reapply c then apply_all_leds env s else s)))"

section \<open>Locating\<close>

text \<open>A \<open>BTreeMap\<close> is an association list in key order.\<close>

definition bt_remove :: "nat \<Rightarrow> (nat \<times> 'v) list \<Rightarrow> (nat \<times> 'v) list" where
  "bt_remove k xs = filter (\<lambda>(k', _). k' \<noteq> k) xs"

definition bt_insert :: "nat \<Rightarrow> 'v \<Rightarrow> (nat \<times> 'v) list \<Rightarrow> (nat \<times> 'v) list" where
  "bt_insert k v xs = insort_key fst (k, v) (bt_remove k xs)"

definition start_locate :: "env \<Rightarrow> nat option \<Rightarrow> nat \<Rightarrow> app \<Rightarrow> app" where
  "start_locate env bay ttl_secs s =
     (let until = (if 0 < ttl_secs then checked_add (e_now env) (secs ttl_secs) else None)
      in case bay of
           Some bay \<Rightarrow>
             (let known = (bay \<in> fst ` set (a_locate_bays s));
                  s = s\<lparr>a_locate_bays := bt_insert bay until (a_locate_bays s)\<rparr>
              in apply_bay_led bay (if known then s else emit (prime_locate_bay bay) s))
         | None \<Rightarrow>
             (let s = (if a_locate_chassis s = None then emit prime_locate_status s else s);
                  s = s\<lparr>a_locate_chassis :=
                        Some \<lparr>cl_until = until,
                              cl_hostname = (case e_hostname env of None \<Rightarrow> [] | Some h \<Rightarrow> h)\<rparr>\<rparr>;
                  s = apply_power_led (reset_scroll s)
              in apply_front_brightness env (recompute_status_led env s)))"

definition end_bay_locate :: "nat \<Rightarrow> app \<Rightarrow> app" where
  "end_bay_locate bay s =
     (if bay \<in> fst ` set (a_locate_bays s)
      then apply_bay_led bay (s\<lparr>a_locate_bays := bt_remove bay (a_locate_bays s)\<rparr>) else s)"

definition end_chassis_locate :: "env \<Rightarrow> app \<Rightarrow> app" where
  "end_chassis_locate env s =
     (if a_locate_chassis s \<noteq> None
      then apply_front_brightness env (recompute_status_led env
             (apply_power_led (reset_scroll (s\<lparr>a_locate_chassis := None\<rparr>))))
      else s)"

definition stop_locate :: "env \<Rightarrow> nat option \<Rightarrow> app \<Rightarrow> app" where
  "stop_locate env bay s =
     (case bay of
        Some bay \<Rightarrow> end_bay_locate bay s
      | None \<Rightarrow> end_chassis_locate env (fold end_bay_locate (map fst (a_locate_bays s)) s))"

definition locate_due :: "instant \<Rightarrow> instant option \<Rightarrow> bool" where
  "locate_due now until = (case until of None \<Rightarrow> False | Some t \<Rightarrow> t \<le> now)"

definition expire_locates :: "env \<Rightarrow> app \<Rightarrow> app" where
  "expire_locates env s =
     (let expired = map fst (filter (\<lambda>(_, until). locate_due (e_now env) until) (a_locate_bays s));
          s = fold end_bay_locate expired s
      in case a_locate_chassis s of
           None \<Rightarrow> s
         | Some c \<Rightarrow> if locate_due (e_now env) (cl_until c) then end_chassis_locate env s else s)"

end
