(* ===== verification/Front.thy ===== *)
theory Front
  imports Panel
begin

text \<open>
  \<open>src/state.rs\<close>, the other half of \<open>AppState\<close>: refreshing the screens, sleeping and waking,
  messages, the action menu, the scheduled countdown, locates and what the LCD shows.
\<close>

section \<open>Refreshing\<close>

definition touch :: "env \<Rightarrow> category_cache \<Rightarrow> bool \<Rightarrow> screen list \<Rightarrow> category_cache" where
  "touch env c shown screens =
     (if shown then c\<lparr>cc_screens := screens, cc_last_refresh := Some (e_now env)\<rparr>
      else c\<lparr>cc_last_refresh := Some (e_now env)\<rparr>)"

definition refresh_network :: "env \<Rightarrow> app \<Rightarrow> app" where
  "refresh_network env s =
     s\<lparr>a_network_cache := touch env (a_network_cache s) (sc_network (ac_screens (a_cfg s))) (e_network env)\<rparr>"

definition refresh_pools :: "env \<Rightarrow> app \<Rightarrow> app" where
  "refresh_pools env s =
     (let s = s\<lparr>a_pools := e_pools env\<rparr>;
          (mon, ls) = check_pools (pool_healths s) (a_monitor s);
          s = logs ls (s\<lparr>a_monitor := mon\<rparr>)
      in s\<lparr>a_pools_cache := touch env (a_pools_cache s) (sc_pools (ac_screens (a_cfg s)))
             (pool_screens (tpl_pool (ac_templates (a_cfg s))) (a_pools s))\<rparr>)"

definition refresh_hdd :: "env \<Rightarrow> app \<Rightarrow> app" where
  "refresh_hdd env s =
     s\<lparr>a_hdd_cache := touch env (a_hdd_cache s) (sc_hdd (ac_screens (a_cfg s)))
         (e_hdd env (a_disks s))\<rparr>"

definition cache_of :: "app \<Rightarrow> category \<Rightarrow> category_cache" where
  "cache_of s c = (case c of
      CatNetwork \<Rightarrow> a_network_cache s | CatPools \<Rightarrow> a_pools_cache s | CatHdd \<Rightarrow> a_hdd_cache s
    | CatTemperature \<Rightarrow> a_temperature_cache s | CatDocker \<Rightarrow> a_docker_cache s)"

definition assemble_screens :: "app \<Rightarrow> app" where
  "assemble_screens s =
     (let screens = concat (map (\<lambda>c. cc_screens (cache_of s c)) (effective_order (ac_screens (a_cfg s))));
          screens = (if screens = []
                     then [\<lparr>scr_line0 = ''LCM-STATUS'', scr_line1 = ''no screens enabled''\<rparr>]
                     else screens)
      in s\<lparr>a_index := (if length screens \<le> a_index s then 0 else a_index s), a_screens := screens\<rparr>)"

definition refresh_temperature :: "env \<Rightarrow> app \<Rightarrow> app" where
  "refresh_temperature env s =
     (if sc_temperature (ac_screens (a_cfg s))
         \<and> stale (e_now env) (a_temperature_cache s)
             (secs (ref_temperature_min_secs (ac_refresh (a_cfg s))))
      then s\<lparr>a_temperature_cache := touch env (a_temperature_cache s) True (e_temperature env)\<rparr>
      else s)"

definition refresh_docker :: "env \<Rightarrow> app \<Rightarrow> app" where
  "refresh_docker env s =
     (if sc_docker (ac_screens (a_cfg s))
         \<and> stale (e_now env) (a_docker_cache s) (secs (ref_docker_min_secs (ac_refresh (a_cfg s))))
      then s\<lparr>a_docker_cache := touch env (a_docker_cache s) True (e_docker env)\<rparr>
      else s)"

definition pools_due :: "env \<Rightarrow> app \<Rightarrow> bool" where
  "pools_due env s =
     stale (e_now env) (a_pools_cache s) (secs (ref_pools_min_secs (ac_refresh (a_cfg s))))"

definition hdd_due :: "env \<Rightarrow> app \<Rightarrow> bool" where
  "hdd_due env s =
     stale (e_now env) (a_hdd_cache s) (secs (ref_hdd_min_secs (ac_refresh (a_cfg s))))"

definition network_due :: "env \<Rightarrow> app \<Rightarrow> bool" where
  "network_due env s =
     stale (e_now env) (a_network_cache s) (secs (ref_network_min_secs (ac_refresh (a_cfg s))))"

text \<open>The data half of \<open>refresh_stale\<close>, with whether the temperatures were checked; the LED half
  follows it.\<close>

definition refresh_data :: "env \<Rightarrow> app \<Rightarrow> bool \<times> app" where
  "refresh_data env s =
     (let network = network_due env s; pools = pools_due env s; hdd = hdd_due env s;
          s = (if network then refresh_network env s else s);
          s = (if pools then refresh_pools env s else s);
          s = (if pools \<or> hdd then s\<lparr>a_disks := e_disks env\<rparr> else s);
          s = (if hdd then refresh_hdd env s else s);
          s = refresh_temperature env s;
          (checked, mon, ls) = maybe_check_temps (e_now env) (ac_refresh (a_cfg s))
                                 (ac_temperature (a_cfg s)) (e_temps env) (a_monitor s);
          s = logs ls (s\<lparr>a_monitor := mon\<rparr>);
          s = refresh_docker env s
      in (checked, assemble_screens s))"

definition refresh_leds :: "env \<Rightarrow> bool \<Rightarrow> bool \<Rightarrow> app \<Rightarrow> app" where
  "refresh_leds env disks_read may_differ s =
     (let led_inputs = (a_fan_health s, worst_temp_level (a_monitor s));
          s = (if disks_read then update_health_leds env s
               else if may_differ \<or> a_led_inputs s \<noteq> Some led_inputs
               then recompute_status_led env s else s)
      in s\<lparr>a_led_inputs := Some led_inputs\<rparr>)"

definition refresh_stale :: "env \<Rightarrow> app \<Rightarrow> app" where
  "refresh_stale env s =
     (let (checked, s') = refresh_data env s
      in refresh_leds env (pools_due env s \<or> hdd_due env s) (network_due env s \<or> checked) s')"

definition refresh_all :: "env \<Rightarrow> app \<Rightarrow> app" where
  "refresh_all env s =
     refresh_stale env
       (s\<lparr>a_network_cache := (a_network_cache s)\<lparr>cc_last_refresh := None\<rparr>,
          a_pools_cache := (a_pools_cache s)\<lparr>cc_last_refresh := None\<rparr>,
          a_hdd_cache := (a_hdd_cache s)\<lparr>cc_last_refresh := None\<rparr>,
          a_temperature_cache := (a_temperature_cache s)\<lparr>cc_last_refresh := None\<rparr>,
          a_docker_cache := (a_docker_cache s)\<lparr>cc_last_refresh := None\<rparr>\<rparr>)"

definition wake :: "env \<Rightarrow> app \<Rightarrow> app" where
  "wake env s =
     (let s = s\<lparr>a_sleeping := False\<rparr>;
          front = night_darkens_front s;
          (ops, result) = exit_night_mode (led_nic_mode (ac_led (a_cfg s))) front (e_nic env);
          s = emit ops s;
          s = (if front then s\<lparr>a_status_shown := None\<rparr> else s);
          s = apply_front_brightness env (note_nic_leds result s)
      in reassert_locate_leds (refresh_all env s))"

section \<open>Messages\<close>

definition show_override :: "env \<Rightarrow> override \<Rightarrow> app \<Rightarrow> app" where
  "show_override env ov s =
     (if (case a_over s of None \<Rightarrow> False | Some cur \<Rightarrow> ov_level ov < ov_level cur) then s
      else
        let may_beep = (\<not> a_sleeping s \<or> ov_level ov = Critical) in
        if a_sleeping s \<and> \<not> always_visible (ov_level ov) then s
        else
          let s = (if a_sleeping s then wake env s else s);
              beep = ov_beep ov;
              s = (if beep \<noteq> BeepNone \<and> may_beep then s\<lparr>a_beep_pending := Some Arrival\<rparr> else s);
              s = s\<lparr>a_next_repeat_beep :=
                     (if beep = BeepRepeat then Some (deadline_after (e_now env) REPEAT_BEEP_SECS)
                      else None),
                    a_over := Some ov\<rparr>
          in sync_leds_to_override env (reset_scroll s))"

definition apply_pending_override :: "env \<Rightarrow> app \<Rightarrow> app" where
  "apply_pending_override env s =
     (case a_pending_over s of
        None \<Rightarrow> s
      | Some ov \<Rightarrow> show_override env ov (s\<lparr>a_pending_over := None\<rparr>))"

definition apply_socket_command :: "env \<Rightarrow> socket_command \<Rightarrow> app \<Rightarrow> app" where
  "apply_socket_command env cmd s =
     (case cmd of
        Clear bay \<Rightarrow>
          if bay = None \<or> bay = (case a_over s of None \<Rightarrow> None | Some ov \<Rightarrow> ov_bay ov)
          then sync_leds_to_override env (s\<lparr>a_over := None\<rparr>) else s
      | Show level ttl_secs lk bay line0 line1 \<Rightarrow>
          (let expires = (if always_visible level \<or> ttl_secs = 0 then None
                          else checked_add (e_now env) (secs ttl_secs));
               ov = \<lparr>ov_level = level, ov_look = lk, ov_expires_at = expires, ov_bay = bay,
                     ov_line0 = line0, ov_line1 = line1\<rparr>
           in if a_mode s = Status then show_override env ov s
              else if (case a_pending_over s of None \<Rightarrow> True | Some p \<Rightarrow> ov_level p \<le> ov_level ov)
              then s\<lparr>a_pending_over := Some ov\<rparr> else s)
      | Locate bay ttl_secs \<Rightarrow> start_locate env bay ttl_secs s
      | LocateOff bay \<Rightarrow> stop_locate env bay s
      | StatusRequest \<Rightarrow> s)"

definition take_beep :: "app \<Rightarrow> alert_beep option \<times> app" where
  "take_beep s = (a_beep_pending s, s\<lparr>a_beep_pending := None\<rparr>)"

definition set_fan_health :: "level \<Rightarrow> app \<Rightarrow> app" where
  "set_fan_health l s = s\<lparr>a_fan_health := l\<rparr>"

definition set_schedule_sleep_wanted :: "bool \<Rightarrow> app \<Rightarrow> app" where
  "set_schedule_sleep_wanted w s = s\<lparr>a_schedule_wants_sleep := w\<rparr>"

definition display_wanted :: "app \<Rightarrow> bool" where
  "display_wanted s \<longleftrightarrow> \<not> (a_sleeping s \<and> ac_sleep_lcd_off (a_cfg s) \<and> a_locate_chassis s = None)"

section \<open>The LCD\<close>

datatype effect = Render string string | RunAction action | NoEffect

definition locate_screen :: "instant \<Rightarrow> chassis_locate \<Rightarrow> string \<times> string" where
  "locate_screen now c =
     ((if cl_hostname c = [] then ''LOCATE'' else cl_hostname c),
      (case cl_until c of
         Some t \<Rightarrow> ''LOCATE '' @ nat_str (secs_left now t) @ ''s''
       | None \<Rightarrow> ''LOCATE''))"

definition lcd_alarm :: "app \<Rightarrow> alarm option" where
  "lcd_alarm s =
     (case a_alarm s of
        None \<Rightarrow> None
      | Some a \<Rightarrow> if a_auto_rotate s \<or> al_level a = Critical then Some a else None)"

definition countdown_text :: "duration \<Rightarrow> string" where
  "countdown_text left =
     (let n = secs_up left in
      if 600 \<le> n then nat_str (div_ceil n 60) @ ''m''
      else nat_str (n div 60) @ '':'' @ pad0 2 (n mod 60))"

definition raw_lines :: "instant \<Rightarrow> app \<Rightarrow> string \<times> string" where
  "raw_lines now s =
     (case a_mode s of
        Status \<Rightarrow>
          (case a_locate_chassis s of
             Some c \<Rightarrow> locate_screen now c
           | None \<Rightarrow>
               (case lcd_alarm s of
                  Some a \<Rightarrow> (al_line0 a, al_line1 a)
                | None \<Rightarrow>
                    (case (a_alarm s, a_over s) of
                       (None, Some ov) \<Rightarrow> (ov_line0 ov, ov_line1 ov)
                     | _ \<Rightarrow>
                         if a_index s < length (a_screens s)
                         then (scr_line0 (a_screens s ! a_index s), scr_line1 (a_screens s ! a_index s))
                         else ([], []))))
      | ActionMenu options selection \<Rightarrow>
          (''>'' @ (if selection < length options then action_label (options ! selection) else []),
           ''UP/DN ENTER BACK'')
      | Confirm action _ \<Rightarrow> (''CONFIRM '' @ action_label action @ ''?'', ''ENTER=yes BACK=no'')
      | Countdown action deadline _ \<Rightarrow>
          (action_label action @ '' IN '' @ countdown_text (since deadline now), ''ANY KEY: CANCEL''))"

text \<open>\<open>scroll_step\<close> on one scroll cursor: the window and the cursor after it.\<close>

definition scroll_start :: "instant \<Rightarrow> string \<Rightarrow> scroll \<Rightarrow> scroll" where
  "scroll_start now txt sc =
     (if scl_text sc \<noteq> txt
      then \<lparr>scl_text = txt, scl_offset = 0, scl_last_step = Some now, scl_started = Some now,
            scl_completed_a_pass = False\<rparr>
      else sc)"

definition scroll_advance :: "display_config \<Rightarrow> instant \<Rightarrow> scroll \<Rightarrow> scroll" where
  "scroll_advance cfg now sc =
     (let pause = (case scl_started sc of None \<Rightarrow> False
                   | Some t \<Rightarrow> since now t < millis (dc_scroll_pause_ms cfg))
      in if \<not> pause \<and> (case scl_last_step sc of None \<Rightarrow> False
                       | Some t \<Rightarrow> millis (dc_scroll_step_ms cfg) \<le> since now t)
         then (let sc = sc\<lparr>scl_offset := scl_offset sc + 1, scl_last_step := Some now\<rparr>
               in if length (scl_text sc) + dc_scroll_gap cfg < scl_offset sc
                  then sc\<lparr>scl_offset := 0, scl_started := Some now, scl_completed_a_pass := True\<rparr>
                  else sc)
         else sc)"

definition scroll_window :: "display_config \<Rightarrow> scroll \<Rightarrow> string" where
  "scroll_window cfg sc =
     (let n = length (scl_text sc); padded = n + dc_scroll_gap cfg in
      map (\<lambda>i. let pos = (scl_offset sc + i) mod padded in
             if pos < n then scl_text sc ! pos else CHR '' '') [0..<16])"

definition scroll_step :: "display_config \<Rightarrow> instant \<Rightarrow> string \<Rightarrow> scroll \<Rightarrow> string \<times> scroll" where
  "scroll_step cfg now txt sc =
     (let sc = scroll_start now txt sc in
      if length (scl_text sc) \<le> 16 then (scl_text sc, sc)
      else let sc = scroll_advance cfg now sc in (scroll_window cfg sc, sc))"

definition is_scrolling :: "app \<Rightarrow> bool" where
  "is_scrolling s \<longleftrightarrow>
     (let pending = (\<lambda>sc. 16 < length (scl_text sc) \<and> \<not> scl_completed_a_pass sc)
      in pending (a_scroll0 s) \<or> pending (a_scroll1 s))"

definition panel_render :: "env \<Rightarrow> app \<Rightarrow> effect \<times> app" where
  "panel_render env s =
     (if a_sleeping s \<and> a_locate_chassis s = None then (NoEffect, s)
      else
        let (raw0, raw1) = raw_lines (e_now env) s;
            cfg = ac_display (a_cfg s);
            cap = dc_scroll_max_chars cfg;
            (line0, sc0) = scroll_step cfg (e_now env) (take cap raw0) (a_scroll0 s);
            (line1, sc1) = scroll_step cfg (e_now env) (take cap raw1) (a_scroll1 s)
        in (Render line0 line1, s\<lparr>a_scroll0 := sc0, a_scroll1 := sc1\<rparr>))"

section \<open>Keys, the countdown and the tick\<close>

definition page :: "env \<Rightarrow> bool \<Rightarrow> app \<Rightarrow> app" where
  "page env forward s =
     (let len = length (a_screens s) in
      if len = 0 then s
      else reset_scroll
        (s\<lparr>a_index := (if forward then (a_index s + 1) mod len else (a_index s + len - 1) mod len),
           a_auto_rotate := False,
           a_resume_at := Some (deadline_after (e_now env) (rot_resume_after_secs (ac_rotation (a_cfg s)))),
           a_last_dwell := e_now env\<rparr>))"

definition to_status :: "env \<Rightarrow> app \<Rightarrow> app" where
  "to_status env s = apply_pending_override env (s\<lparr>a_mode := Status\<rparr>)"

definition cancel_countdown :: "env \<Rightarrow> action \<Rightarrow> string \<Rightarrow> app \<Rightarrow> effect \<times> app" where
  "cancel_countdown env action lbl s =
     (let s = logs [syslog PNotice ''countdown_cancelled'' [lbl] []] s;
          s = to_status env s;
          s = show_override env
                \<lparr>ov_level = Info, ov_look = look_default,
                 ov_expires_at = Some (deadline_after (e_now env) 5), ov_bay = None,
                 ov_line0 = action_label action, ov_line1 = ''CANCELLED''\<rparr> s
      in panel_render env s)"

definition handle_key :: "env \<Rightarrow> key \<Rightarrow> app \<Rightarrow> effect \<times> app" where
  "handle_key env key s =
     (if a_sleeping s
      then panel_render env (wake env
             (s\<lparr>a_awake_override_until :=
                  Some (deadline_after (e_now env) (rot_resume_after_secs (ac_rotation (a_cfg s))))\<rparr>))
      else
        (case a_mode s of
           Status \<Rightarrow>
             (case key of
                Up \<Rightarrow> (NoEffect, page env False s)
              | Down \<Rightarrow> (NoEffect, page env True s)
              | Enter \<Rightarrow> (NoEffect, s\<lparr>a_mode := ActionMenu [Shutdown, Restart] 0\<rparr>)
              | _ \<Rightarrow> (NoEffect, s))
         | ActionMenu options selection \<Rightarrow>
             (case key of
                Up \<Rightarrow> (NoEffect, s\<lparr>a_mode := ActionMenu options
                         (if 0 < selection then selection - 1 else length options - 1)\<rparr>)
              | Down \<Rightarrow> (NoEffect, s\<lparr>a_mode := ActionMenu options ((selection + 1) mod length options)\<rparr>)
              | Enter \<Rightarrow> (NoEffect, s\<lparr>a_mode := Confirm (options ! selection)
                            (deadline_after (e_now env) (ac_confirm_timeout_secs (a_cfg s)))\<rparr>)
              | Back \<Rightarrow> (NoEffect, to_status env s)
              | _ \<Rightarrow> (NoEffect, s))
         | Confirm action _ \<Rightarrow>
             (case key of
                Enter \<Rightarrow> (RunAction action, to_status env s)
              | Back \<Rightarrow> (NoEffect, to_status env s)
              | _ \<Rightarrow> (NoEffect, s))
         | Countdown action _ lbl \<Rightarrow> cancel_countdown env action lbl s))"

definition start_countdown :: "env \<Rightarrow> action \<Rightarrow> nat \<Rightarrow> string \<Rightarrow> app \<Rightarrow> app" where
  "start_countdown env action n lbl s =
     (case a_mode s of
        Countdown running deadline l \<Rightarrow>
          if action = Shutdown \<and> running = Restart then s\<lparr>a_mode := Countdown Shutdown deadline l\<rparr> else s
      | _ \<Rightarrow>
          (let s = (if a_sleeping s then wake env s else s)
           in reset_scroll (s\<lparr>a_mode := Countdown action (deadline_after (e_now env) n) lbl\<rparr>)))"

definition fall_asleep :: "env \<Rightarrow> app \<Rightarrow> app" where
  "fall_asleep env s =
     (let s = s\<lparr>a_sleeping := True\<rparr>;
          (ops, result) = enter_night_mode (night_darkens_front s) (e_nic env);
          s = emit ops s;
          s = (if night_darkens_front s then s\<lparr>a_status_shown := Some StatusOff\<rparr> else s)
      in reassert_locate_leds (apply_front_brightness env (note_nic_leds result s)))"

definition expire_override :: "env \<Rightarrow> app \<Rightarrow> app" where
  "expire_override env s =
     (case a_over s of
        Some ov \<Rightarrow>
          (case ov_expires_at ov of
             Some t \<Rightarrow> if t \<le> e_now env
                      then sync_leds_to_override env (reset_scroll (s\<lparr>a_over := None\<rparr>)) else s
           | None \<Rightarrow> s)
      | None \<Rightarrow> s)"

definition repeat_beep :: "env \<Rightarrow> app \<Rightarrow> app" where
  "repeat_beep env s =
     (case (a_next_repeat_beep s, a_over s) of
        (Some due, Some ov) \<Rightarrow>
          if ov_beep ov = BeepRepeat \<and> due \<le> e_now env
          then s\<lparr>a_beep_pending := Some (case a_beep_pending s of None \<Rightarrow> Repeating | Some b \<Rightarrow> b),
                 a_next_repeat_beep := Some (deadline_after (e_now env) REPEAT_BEEP_SECS)\<rparr>
          else s
      | _ \<Rightarrow> s)"

definition resume_rotation :: "env \<Rightarrow> app \<Rightarrow> app" where
  "resume_rotation env s =
     (case a_resume_at s of
        Some t \<Rightarrow> if \<not> a_auto_rotate s \<and> t \<le> e_now env
                 then s\<lparr>a_auto_rotate := True, a_resume_at := None\<rparr> else s
      | None \<Rightarrow> s)"

definition expire_confirm :: "env \<Rightarrow> app \<Rightarrow> app" where
  "expire_confirm env s =
     (case a_mode s of
        Confirm _ deadline \<Rightarrow> if deadline \<le> e_now env then to_status env s else s
      | _ \<Rightarrow> s)"

definition rotate_screens :: "env \<Rightarrow> app \<Rightarrow> app" where
  "rotate_screens env s =
     (if a_mode s = Status \<and> a_over s = None \<and> a_alarm s = None \<and> a_locate_chassis s = None
         \<and> a_auto_rotate s \<and> a_screens s \<noteq> [] \<and> \<not> is_scrolling s
         \<and> secs (rot_dwell_secs (ac_rotation (a_cfg s))) \<le> since (e_now env) (a_last_dwell s)
      then reset_scroll (s\<lparr>a_index := (a_index s + 1) mod length (a_screens s),
                           a_last_dwell := e_now env\<rparr>)
      else s)"

definition tick_awake :: "env \<Rightarrow> app \<Rightarrow> effect \<times> app" where
  "tick_awake env s =
     panel_render env (rotate_screens env (expire_confirm env (resume_rotation env (repeat_beep env
       (expire_override env (refresh_stale env s))))))"

text \<open>\<open>tick\<close> up to the point where the daemon is asleep or awake for the rest of it.\<close>

definition settle_sleep :: "env \<Rightarrow> app \<Rightarrow> app" where
  "settle_sleep env s =
     (let s = expire_locates env s;
          grace = (case a_awake_override_until s of None \<Rightarrow> False | Some t \<Rightarrow> e_now env < t);
          s = (if grace then s else s\<lparr>a_awake_override_until := None\<rparr>)
      in if a_schedule_wants_sleep s \<and> \<not> a_sleeping s \<and> \<not> grace \<and> a_over s = None
            \<and> a_mode s = Status
         then fall_asleep env s else s)"

definition tick :: "env \<Rightarrow> app \<Rightarrow> effect \<times> app" where
  "tick env s =
     (let s = settle_sleep env s
      in if \<not> a_schedule_wants_sleep s \<and> a_sleeping s then panel_render env (wake env s)
         else if a_sleeping s
         then (let s = refresh_stale env s
               in if a_locate_chassis s \<noteq> None then panel_render env s else (Render [] [], s))
         else
           (case a_mode s of
              Countdown action deadline lbl \<Rightarrow>
                if deadline \<le> e_now env
                then (RunAction action,
                      to_status env (logs [syslog PWarning ''countdown_over'' [lbl, action_label action] []] s))
                else tick_awake env s
            | _ \<Rightarrow> tick_awake env s))"

section \<open>Summaries for the status report\<close>

definition alarm_summary :: "app \<Rightarrow> string option" where
  "alarm_summary s = map_option (\<lambda>a. level_debug (al_level a) @ '': '' @ al_line0 a @ '' / '' @ al_line1 a) (a_alarm s)"

definition override_summary :: "app \<Rightarrow> string option" where
  "override_summary s = map_option (\<lambda>ov. level_debug (ov_level ov)
     @ (case ov_bay ov of None \<Rightarrow> [] | Some b \<Rightarrow> '' bay='' @ nat_str b)
     @ '': '' @ ov_line0 ov @ '' / '' @ ov_line1 ov) (a_over s)"

definition time_left :: "instant \<Rightarrow> instant option \<Rightarrow> string" where
  "time_left now until = (case until of None \<Rightarrow> ''until LOCATE off''
                          | Some t \<Rightarrow> nat_str (secs_left now t) @ ''s left'')"

definition locate_summary :: "instant \<Rightarrow> app \<Rightarrow> string option" where
  "locate_summary now s =
     (let all = map (\<lambda>c. ''chassis ('' @ time_left now (cl_until c) @ '')'') (opt_list (a_locate_chassis s))
              @ map (\<lambda>(bay, until). ''bay '' @ nat_str bay @ '' ('' @ time_left now until @ '')'') (a_locate_bays s)
      in if all = [] then None else Some (intercalate '', '' all))"

definition countdown_summary :: "instant \<Rightarrow> app \<Rightarrow> string option" where
  "countdown_summary now s =
     (case a_mode s of
        Countdown action deadline lbl \<Rightarrow>
          Some (action_label action @ '' in '' @ nat_str (since deadline now div secs 1) @ ''s ('' @ lbl
                @ ''; any front-panel button cancels)'')
      | _ \<Rightarrow> None)"

end
