(* ===== verification/FrontFrame.thy ===== *)
theory FrontFrame
  imports Front
begin

text \<open>
  What each operation of \<open>AppState\<close> leaves alone, and what it does to the LEDs. \<open>core\<close> collects the
  fields the LED and refresh operations never change; every such operation has one \<open>core\<close>
  lemma, and the field equations follow from \<open>core_fields\<close>.
\<close>

section \<open>Frames\<close>

definition core :: "app \<Rightarrow> app_config \<times> mode \<times> override option \<times> override option \<times> bool
    \<times> (nat \<times> instant option) list \<times> chassis_locate option \<times> bool \<times> instant option" where
  "core s = (a_cfg s, a_mode s, a_over s, a_pending_over s, a_sleeping s, a_locate_bays s,
             a_locate_chassis s, a_schedule_wants_sleep s, a_awake_override_until s)"

lemma core_fields:
  assumes "core t = core s"
  shows "a_cfg t = a_cfg s" "a_mode t = a_mode s" "a_over t = a_over s"
    "a_pending_over t = a_pending_over s" "a_sleeping t = a_sleeping s"
    "a_locate_bays t = a_locate_bays s" "a_locate_chassis t = a_locate_chassis s"
    "a_schedule_wants_sleep t = a_schedule_wants_sleep s"
    "a_awake_override_until t = a_awake_override_until s"
  using assms by (simp_all add: core_def)

lemma core_emit [simp]: "core (emit ops s) = core s"
  by (simp add: core_def emit_def)

lemma core_logs [simp]: "core (logs ls s) = core s"
  by (simp add: core_def logs_def)

lemma core_reset_scroll [simp]: "core (reset_scroll s) = core s"
  by (simp add: core_def reset_scroll_def)

lemma core_updates [simp]:
  "core (s\<lparr>a_alarm := x1\<rparr>) = core s" "core (s\<lparr>a_status_shown := x2\<rparr>) = core s"
  "core (s\<lparr>a_monitor := x3\<rparr>) = core s" "core (s\<lparr>a_nic_led_problem := x4\<rparr>) = core s"
  "core (s\<lparr>a_applied_brightness := x5\<rparr>) = core s" "core (s\<lparr>a_brightness_problem := x6\<rparr>) = core s"
  "core (s\<lparr>a_bay_mode_problem := x7\<rparr>) = core s" "core (s\<lparr>a_day_brightness := x8\<rparr>) = core s"
  "core (s\<lparr>a_driver := x9\<rparr>) = core s" "core (s\<lparr>a_led_inputs := x10\<rparr>) = core s"
  "core (s\<lparr>a_alert_bay := x11\<rparr>) = core s" "core (s\<lparr>a_pools := x12\<rparr>) = core s"
  "core (s\<lparr>a_disks := x13\<rparr>) = core s" "core (s\<lparr>a_screens := x14\<rparr>) = core s"
  "core (s\<lparr>a_index := x15\<rparr>) = core s" "core (s\<lparr>a_network_cache := x16\<rparr>) = core s"
  "core (s\<lparr>a_pools_cache := x17\<rparr>) = core s" "core (s\<lparr>a_hdd_cache := x18\<rparr>) = core s"
  "core (s\<lparr>a_temperature_cache := x19\<rparr>) = core s" "core (s\<lparr>a_docker_cache := x20\<rparr>) = core s"
  "core (s\<lparr>a_beep_pending := x21\<rparr>) = core s" "core (s\<lparr>a_next_repeat_beep := x22\<rparr>) = core s"
  "core (s\<lparr>a_fan_health := x23\<rparr>) = core s" "core (s\<lparr>a_scroll0 := x24\<rparr>) = core s"
  "core (s\<lparr>a_scroll1 := x25\<rparr>) = core s" "core (s\<lparr>a_auto_rotate := x26\<rparr>) = core s"
  "core (s\<lparr>a_resume_at := x27\<rparr>) = core s" "core (s\<lparr>a_last_dwell := x28\<rparr>) = core s"
  by (simp_all add: core_def)

lemma core_recompute [simp]: "core (recompute_status_led env s) = core s"
  by (simp add: recompute_status_led_def Let_def)

lemma core_apply_bay [simp]: "core (apply_bay_led bay s) = core s"
  by (simp add: apply_bay_led_def)

lemma core_fold_bays [simp]: "core (fold apply_bay_led bays s) = core s"
  by (induction bays arbitrary: s) simp_all

lemma core_power [simp]: "core (apply_power_led s) = core s"
  by (simp add: apply_power_led_def)

lemma core_update_health [simp]: "core (update_health_leds env s) = core s"
  by (simp add: update_health_leds_def Let_def split: prod.splits)

lemma core_sync [simp]: "core (sync_leds_to_override env s) = core s"
  by (simp add: sync_leds_to_override_def Let_def split: option.splits)

lemma core_note_nic [simp]: "core (note_nic_leds r s) = core s"
  by (simp add: note_nic_leds_def split: option.splits)

lemma core_brightness [simp]: "core (apply_front_brightness env s) = core s"
  by (simp add: apply_front_brightness_def Let_def split: option.splits)

lemma core_bay_mode [simp]: "core (apply_bay_mode env s) = core s"
  by (simp add: apply_bay_mode_def split: option.splits)

lemma core_fold_emit: "core (fold (\<lambda>bay. emit (g bay)) bays s) = core s"
  by (induction bays arbitrary: s) simp_all

lemma core_reassert [simp]: "core (reassert_locate_leds s) = core s"
  by (simp add: reassert_locate_leds_def Let_def core_fold_emit)

lemma core_relight [simp]: "core (snd (relight env s)) = core s"
  by (simp add: relight_def Let_def split: prod.splits)

lemma core_learn [simp]: "core (learn_brightness env s) = core s"
  by (simp add: learn_brightness_def)

lemma core_alert_led [simp]: "core (apply_alert_led s) = core s"
  by (simp add: apply_alert_led_def split: option.splits)

lemma core_apply_all [simp]: "core (apply_all_leds env s) = core s"
  by (simp add: apply_all_leds_def Let_def case_prod_beta)

lemma core_refresh [simp]:
  "core (refresh_network env s) = core s" "core (refresh_hdd env s) = core s"
  "core (refresh_temperature env s) = core s" "core (refresh_docker env s) = core s"
  "core (assemble_screens s) = core s" "core (refresh_pools env s) = core s"
  by (simp_all add: refresh_network_def refresh_hdd_def refresh_temperature_def refresh_docker_def
      assemble_screens_def refresh_pools_def Let_def split: prod.splits)

lemma core_refresh_data: "refresh_data env s = (c, t) \<Longrightarrow> core t = core s"
  by (auto simp: refresh_data_def Let_def split: prod.splits)

lemma core_refresh_leds [simp]: "core (refresh_leds env x y s) = core s"
  by (simp add: refresh_leds_def Let_def)

lemma core_refresh_stale [simp]: "core (refresh_stale env s) = core s"
  by (auto simp: refresh_stale_def split: prod.splits dest: core_refresh_data)

lemma core_refresh_all [simp]: "core (refresh_all env s) = core s"
  by (simp add: refresh_all_def)

lemmas frame_simps [simp] =
  core_fields [OF core_emit] core_fields [OF core_logs] core_fields [OF core_reset_scroll]
  core_fields [OF core_recompute] core_fields [OF core_apply_bay] core_fields [OF core_fold_bays]
  core_fields [OF core_power] core_fields [OF core_update_health] core_fields [OF core_sync]
  core_fields [OF core_note_nic] core_fields [OF core_brightness] core_fields [OF core_bay_mode]
  core_fields [OF core_fold_emit] core_fields [OF core_reassert] core_fields [OF core_apply_all]
  core_fields [OF core_refresh(1)] core_fields [OF core_refresh(2)] core_fields [OF core_refresh(3)]
  core_fields [OF core_refresh(4)] core_fields [OF core_refresh(5)] core_fields [OF core_refresh(6)]
  core_fields [OF core_refresh_stale] core_fields [OF core_refresh_all]

end
