(* ===== verification/FrontLeds.thy ===== *)
theory FrontLeds
  imports FrontFrame
begin

text \<open>
  What the LEDs show after any run of operations. \<open>files f s\<close> are the LED attribute files after
  every write made so far, from arbitrary initial contents \<open>f\<close>. Each part of the claim is a
  predicate: the cached status pattern is what the status LEDs show (\<open>coherent\<close>), it is the pattern
  the state asks for (\<open>agrees\<close>), every bay being located blinks (\<open>bays_blink\<close>), and so does the
  power LED during a chassis locate (\<open>power_blinks\<close>).
\<close>

section \<open>The predicates\<close>

definition files :: "led_files \<Rightarrow> app \<Rightarrow> led_files" where
  "files f s = apply_ops (a_leds s) f"

definition coherent :: "led_files \<Rightarrow> app \<Rightarrow> bool" where
  "coherent f s \<longleftrightarrow>
     (case a_status_shown s of None \<Rightarrow> True | Some p \<Rightarrow> status_shown (files f s) = status_table p)"

definition agrees :: "app \<Rightarrow> bool" where
  "agrees s \<longleftrightarrow> a_status_shown s = Some (status_pattern_for s)"

definition located :: "app \<Rightarrow> nat set" where
  "located s = fst ` set (a_locate_bays s)"

definition bays_blink :: "led_files \<Rightarrow> app \<Rightarrow> bool" where
  "bays_blink f s \<longleftrightarrow> (\<forall>bay\<in>located s. bay_shown (files f s) bay = bay_table bay BayLocate)"

definition power_blinks :: "led_files \<Rightarrow> app \<Rightarrow> bool" where
  "power_blinks f s \<longleftrightarrow>
     (a_locate_chassis s \<noteq> None \<longrightarrow> shows_light (files f s) ''blue:power'' = blinking 250 250)"

definition alarm_plain :: "app \<Rightarrow> bool" where
  "alarm_plain s \<longleftrightarrow> (case a_alarm s of None \<Rightarrow> True | Some a \<Rightarrow> al_pattern a \<noteq> StatusLocate)"

definition lit :: "led_files \<Rightarrow> app \<Rightarrow> bool" where
  "lit f s \<longleftrightarrow> coherent f s \<and> agrees s \<and> bays_blink f s \<and> power_blinks f s \<and> alarm_plain s"

section \<open>Which LEDs an operation writes\<close>

definition leds_of :: "led_op list \<Rightarrow> string option set" where
  "leds_of ops = op_led ` set ops"

lemma leds_of_simps [simp]:
  "leds_of [] = {}" "leds_of (op # ops) = insert (op_led op) (leds_of ops)"
  "leds_of (ops @ ops') = leds_of ops \<union> leds_of ops'"
  by (auto simp: leds_of_def)

lemma leds_of_basic [simp]:
  "leds_of (set_solid led v) = {Some led}" "leds_of (set_blink led x y) = {Some led}"
  by (auto simp: leds_of_def set_solid_def set_blink_def)

lemma leds_of_status: "leds_of (set_status p) \<subseteq> {Some ''green:status'', Some ''red:status''}"
  by (cases p) auto

declare set_status.simps [simp del]

lemma leds_of_power: "leds_of (set_power p) \<subseteq> {Some ''blue:power'', Some ''red:power''}"
  by (cases p) (auto simp: set_power_def)

lemma leds_of_bay:
  "leds_of (set_bay bay st) \<subseteq> {Some (bay_green bay), Some (bay_red bay)}"
  "leds_of (set_bay_night bay st) \<subseteq> {Some (bay_green bay), Some (bay_red bay)}"
  by (cases st; auto simp: set_bay_def set_bay_night_def)+

lemma led_not_in: "leds_of ops \<subseteq> {Some a, Some b} \<Longrightarrow> x \<noteq> a \<Longrightarrow> x \<noteq> b \<Longrightarrow> Some x \<notin> leds_of ops"
  by blast

lemma bay_not_front [simp]:
  "bay_green b \<noteq> ''green:status''" "bay_green b \<noteq> ''red:status''" "bay_green b \<noteq> ''blue:power''"
  "bay_red b \<noteq> ''green:status''" "bay_red b \<noteq> ''red:status''" "bay_red b \<noteq> ''blue:power''"
  "bay_green b \<noteq> ''red:power''" "bay_red b \<noteq> ''red:power''"
  by (simp_all add: bay_green_def bay_red_def)

lemma bay_not_front' [simp]:
  "''green:status'' \<noteq> bay_green b" "''red:status'' \<noteq> bay_green b" "''blue:power'' \<noteq> bay_green b"
  "''green:status'' \<noteq> bay_red b" "''red:status'' \<noteq> bay_red b" "''blue:power'' \<noteq> bay_red b"
  by (simp_all add: bay_green_def bay_red_def)

lemma status_other:
  "Some ''green:status'' \<notin> leds_of ops \<Longrightarrow> Some ''red:status'' \<notin> leds_of ops \<Longrightarrow>
     status_shown (apply_ops ops g) = status_shown g"
  by (simp add: status_shown_def leds_of_def shows_light_other)

lemma bay_other:
  "Some (bay_green bay) \<notin> leds_of ops \<Longrightarrow> Some (bay_red bay) \<notin> leds_of ops \<Longrightarrow>
     bay_shown (apply_ops ops g) bay = bay_shown g bay"
  by (simp add: bay_shown_def leds_of_def shows_light_other)

lemma power_other:
  "Some ''blue:power'' \<notin> leds_of ops \<Longrightarrow>
     shows_light (apply_ops ops g) ''blue:power'' = shows_light g ''blue:power''"
  by (simp add: leds_of_def shows_light_other)

lemma set_power_view:
  "shows_light (apply_ops (set_power PowerLedLocate) g) ''blue:power'' = blinking 250 250"
  by (simp add: set_power_def shows_light_def write_defs blinking_def LOCATE_BLINK_MS_def)

lemma night_status: "status_shown (apply_ops (fst (enter_night_mode True nic)) g) = status_table StatusOff"
proof -
  define pre where "pre = concat (map (\<lambda>bay. LedWrite (bay_green bay) ''trigger'' ''none'' #
      set_solid (bay_green bay) False) night_bays)"
  define post where "post = set_power PowerLedOff @ set_solid ''green:usb'' False @
      [LedWrite ''green:usb'' ''trigger'' ''none''] @ set_solid ''blue:lan'' False @ [NicApply LanOff]"
  have e: "fst (enter_night_mode True nic) = pre @ set_status StatusOff @ post"
    by (simp add: enter_night_mode_def Let_def pre_def post_def)
  have "Some ''green:status'' \<notin> leds_of post" "Some ''red:status'' \<notin> leds_of post"
    using leds_of_power [of PowerLedOff] by (auto simp: post_def)
  then have "status_shown (apply_ops post g') = status_shown g'" for g'
    by (rule status_other)
  then show ?thesis unfolding e by (simp only: apply_ops_simps set_status_view)
qed

lemma night_quiet:
  "leds_of (fst (enter_night_mode False nic)) \<subseteq> (\<lambda>b. Some (bay_green b)) ` UNIV"
  "leds_of (fst (exit_night_mode mode False nic)) \<subseteq> (\<lambda>b. Some (bay_green b)) ` UNIV"
  by (auto simp: enter_night_mode_def exit_night_mode_def night_bays_def)

section \<open>Emitting writes\<close>

lemma files_emit [simp]: "files f (emit ops s) = apply_ops ops (files f s)"
  by (simp add: files_def emit_def)

text \<open>The fields the LED predicates read besides \<open>core\<close>.\<close>

lemma led_fields [simp]:
  "a_status_shown (emit ops s) = a_status_shown s" "a_alarm (emit ops s) = a_alarm s"
  "a_leds (logs ls s) = a_leds s" "a_status_shown (logs ls s) = a_status_shown s"
  "a_alarm (logs ls s) = a_alarm s" "a_leds (reset_scroll s) = a_leds s"
  "a_status_shown (reset_scroll s) = a_status_shown s" "a_alarm (reset_scroll s) = a_alarm s"
  by (simp_all add: emit_def logs_def reset_scroll_def)

text \<open>Same writes, same cache, same alarm and same core: nothing the predicates say changes.\<close>

definition panel :: "app \<Rightarrow> led_op list \<times> status_pattern option \<times> alarm option" where
  "panel s = (a_leds s, a_status_shown s, a_alarm s)"

lemma panel_eq: "panel t = panel s \<Longrightarrow>
    a_leds t = a_leds s \<and> a_status_shown t = a_status_shown s \<and> a_alarm t = a_alarm s"
  by (simp add: panel_def)

lemma lit_cong:
  assumes "panel t = panel s" "core t = core s"
  shows "coherent f t = coherent f s" "agrees t = agrees s" "bays_blink f t = bays_blink f s"
    "power_blinks f t = power_blinks f s" "alarm_plain t = alarm_plain s" "lit f t = lit f s"
proof -
  note eqs = panel_eq [OF assms(1)] core_fields [OF assms(2)]
  have files: "files f t = files f s" using eqs by (simp add: files_def)
  show *: "coherent f t = coherent f s" using eqs by (cases "a_status_shown s") (simp_all add: coherent_def files)
  show **: "agrees t = agrees s" "bays_blink f t = bays_blink f s"
    "power_blinks f t = power_blinks f s" "alarm_plain t = alarm_plain s"
    using eqs by (simp_all add: agrees_def bays_blink_def power_blinks_def alarm_plain_def files
        located_def status_pattern_for_def night_darkens_front_def)
  show "lit f t = lit f s" by (simp only: lit_def * **)
qed

lemma coherent_emit:
  "coherent f s \<Longrightarrow> Some ''green:status'' \<notin> leds_of ops \<Longrightarrow> Some ''red:status'' \<notin> leds_of ops \<Longrightarrow>
     coherent f (emit ops s)"
  by (simp add: coherent_def status_other split: option.splits)

lemma located_emit [simp]: "located (emit ops s) = located s"
  by (simp add: located_def)

lemma bays_blink_emit:
  "bays_blink f s \<Longrightarrow> leds_of ops \<inter> (\<lambda>b. Some (bay_green b)) ` located s = {} \<Longrightarrow>
     leds_of ops \<inter> (\<lambda>b. Some (bay_red b)) ` located s = {} \<Longrightarrow> bays_blink f (emit ops s)"
  by (auto simp: bays_blink_def intro!: bay_other [THEN trans])

lemma power_blinks_emit:
  "power_blinks f s \<Longrightarrow> Some ''blue:power'' \<notin> leds_of ops \<Longrightarrow> power_blinks f (emit ops s)"
  by (simp add: power_blinks_def power_other)

lemma agrees_emit [simp]: "agrees (emit ops s) = agrees s"
  by (simp add: agrees_def status_pattern_for_def night_darkens_front_def)

lemma alarm_plain_emit [simp]: "alarm_plain (emit ops s) = alarm_plain s"
  by (simp add: alarm_plain_def)

section \<open>The status LED\<close>

lemma alarm_new_plain: "alarm_new l x y = Some a \<Longrightarrow> al_pattern a \<noteq> StatusLocate"
  by (cases l) (auto simp: alarm_new_def)

lemma network_alarm_plain: "network_alarm env s = Some a \<Longrightarrow> al_pattern a \<noteq> StatusLocate"
  by (auto simp: network_alarm_def Let_def split: if_splits dest: alarm_new_plain)

lemma health_alarms_plain: "a \<in> set (health_alarms env s) \<Longrightarrow> al_pattern a \<noteq> StatusLocate"
  by (auto simp: health_alarms_def with_pattern_def opt_list_def
      split: option.splits prod.splits if_splits
      dest: alarm_new_plain [OF sym] network_alarm_plain [OF sym])

lemma pushed_alarm_plain: "pushed_alarm s = Some a \<Longrightarrow> al_pattern a \<noteq> StatusLocate"
  by (auto simp: pushed_alarm_def pattern_for_show_def with_pattern_def Let_def
      split: option.splits if_splits color.splits level.splits prod.splits
      bool.splits)

lemma recompute_alarm:
  "a_alarm (recompute_status_led env s) = most_critical (opt_list (pushed_alarm s) @ health_alarms env s)"
  by (simp add: recompute_status_led_def Let_def)

lemma recompute_plain: "alarm_plain (recompute_status_led env s)"
proof (cases "most_critical (opt_list (pushed_alarm s) @ health_alarms env s)")
  case None
  then show ?thesis by (simp add: alarm_plain_def recompute_alarm del: most_critical_None)
next
  case (Some a)
  then have "a \<in> set (opt_list (pushed_alarm s) @ health_alarms env s)"
    using most_critical_max by blast
  then have "al_pattern a \<noteq> StatusLocate"
    by (auto simp: opt_list_def split: option.splits 
      dest: pushed_alarm_plain pushed_alarm_plain [OF sym] health_alarms_plain)
  with Some show ?thesis by (simp add: alarm_plain_def recompute_alarm)
qed

lemma pattern_for_cong:
  "core t = core s \<Longrightarrow> a_alarm t = a_alarm s \<Longrightarrow> status_pattern_for t = status_pattern_for s"
  using core_fields [of t s] by (simp add: status_pattern_for_def night_darkens_front_def)

lemma recompute_pattern:
  "status_pattern_for (recompute_status_led env s) =
     status_pattern_for (s\<lparr>a_alarm := most_critical (opt_list (pushed_alarm s) @ health_alarms env s)\<rparr>)"
  by (rule pattern_for_cong) (simp_all add: recompute_alarm)

lemma recompute_files:
  "files f (recompute_status_led env s) =
     (if a_status_shown s \<noteq> Some (status_pattern_for (recompute_status_led env s))
      then apply_ops (set_status (status_pattern_for (recompute_status_led env s))) (files f s)
      else files f s)"
  unfolding recompute_pattern by (simp add: recompute_status_led_def Let_def files_def emit_def)

lemma recompute_shown:
  "a_status_shown (recompute_status_led env s) = Some (status_pattern_for (recompute_status_led env s))"
  unfolding recompute_pattern by (simp add: recompute_status_led_def Let_def)

lemma recompute_agrees: "agrees (recompute_status_led env s)"
  by (simp add: agrees_def recompute_shown)

text \<open>A recomputation repairs the cache, unless the cache is wrong and says what is wanted.\<close>

lemma recompute_coherent:
  assumes "coherent f s \<or> a_status_shown s \<noteq> Some (status_pattern_for (recompute_status_led env s))"
  shows "coherent f (recompute_status_led env s)"
  using assms by (auto simp: coherent_def recompute_shown recompute_files set_status_view)

lemma located_core: "core t = core s \<Longrightarrow> located t = located s"
  using core_fields [of t s] by (simp add: located_def)

lemma recompute_blinks:
  assumes "bays_blink f s" "power_blinks f s"
  shows "bays_blink f (recompute_status_led env s)" "power_blinks f (recompute_status_led env s)"
proof -
  let ?p = "status_pattern_for (recompute_status_led env s)"
  note led = led_not_in [OF leds_of_status [of ?p]]
  have "bay_shown (files f (recompute_status_led env s)) bay = bay_shown (files f s) bay" for bay
    by (simp add: recompute_files bay_other led)
  then show "bays_blink f (recompute_status_led env s)"
    using assms(1) by (simp add: bays_blink_def located_core [OF core_recompute])
  have "shows_light (files f (recompute_status_led env s)) ''blue:power'' =
      shows_light (files f s) ''blue:power''"
    by (simp add: recompute_files power_other led)
  then show "power_blinks f (recompute_status_led env s)"
    using assms(2) by (simp add: power_blinks_def)
qed

lemma recompute_lit:
  assumes "bays_blink f s" "power_blinks f s"
    and "coherent f s \<or> a_status_shown s \<noteq> Some (status_pattern_for (recompute_status_led env s))"
  shows "lit f (recompute_status_led env s)"
  using recompute_coherent [OF assms(3)] recompute_blinks [OF assms(1,2)]
  by (simp add: lit_def recompute_plain recompute_agrees)

section \<open>The bay LEDs\<close>

lemma bay_led_located [simp]: "bay \<in> located s \<Longrightarrow> bay_led_state s bay = BayLocate"
  by (simp add: bay_led_state_def located_def)

lemma apply_bay_panel [simp]:
  "a_status_shown (apply_bay_led bay s) = a_status_shown s" "a_alarm (apply_bay_led bay s) = a_alarm s"
  by (simp_all add: apply_bay_led_def)

lemma apply_bay_ops:
  "\<exists>ops. apply_bay_led bay s = emit ops s \<and> leds_of ops \<subseteq> {Some (bay_green bay), Some (bay_red bay)} \<and>
     (bay \<in> located s \<longrightarrow> (\<forall>g. bay_shown (apply_ops ops g) bay = bay_table bay BayLocate))"
proof -
  let ?ops = "if a_sleeping s then set_bay_night bay (bay_led_state s bay)
              else set_bay bay (bay_led_state s bay)"
  have "leds_of ?ops \<subseteq> {Some (bay_green bay), Some (bay_red bay)}"
    by (simp add: leds_of_bay)
  moreover have "bay \<in> located s \<longrightarrow> (\<forall>g. bay_shown (apply_ops ?ops g) bay = bay_table bay BayLocate)"
    by (simp add: set_bay_view set_bay_night_view)
  ultimately show ?thesis by (auto simp: apply_bay_led_def)
qed

lemma apply_bay_coherent:
  assumes "coherent f s"
  shows "coherent f (apply_bay_led bay s)"
proof -
  obtain ops where ops: "apply_bay_led bay s = emit ops s"
    "leds_of ops \<subseteq> {Some (bay_green bay), Some (bay_red bay)}"
    using apply_bay_ops [of bay s] by blast
  then show ?thesis
    using assms led_not_in [OF ops(2)] by (auto intro!: coherent_emit)
qed

lemma apply_bay_power:
  assumes "power_blinks f s"
  shows "power_blinks f (apply_bay_led bay s)"
proof -
  obtain ops where ops: "apply_bay_led bay s = emit ops s"
    "leds_of ops \<subseteq> {Some (bay_green bay), Some (bay_red bay)}"
    using apply_bay_ops [of bay s] by blast
  then show ?thesis
    using assms led_not_in [OF ops(2)] by (auto intro!: power_blinks_emit)
qed

text \<open>The other located bays keep blinking, and the written one starts to.\<close>

lemma apply_bay_blinks:
  assumes "\<forall>b\<in>located s - {bay}. bay_shown (files f s) b = bay_table b BayLocate"
  shows "bays_blink f (apply_bay_led bay s)"
proof -
  obtain ops where ops: "apply_bay_led bay s = emit ops s"
    "leds_of ops \<subseteq> {Some (bay_green bay), Some (bay_red bay)}"
    "bay \<in> located s \<Longrightarrow> bay_shown (apply_ops ops (files f s)) bay = bay_table bay BayLocate"
    using apply_bay_ops [of bay s] by blast
  have "bay_shown (apply_ops ops (files f s)) b = bay_table b BayLocate" if "b \<in> located s" for b
  proof (cases "b = bay")
    case True
    with ops(3) that show ?thesis by simp
  next
    case False
    then have "bay_shown (apply_ops ops (files f s)) b = bay_shown (files f s) b"
      by (intro bay_other) (use ops(2) in auto)
    with assms that False show ?thesis by simp
  qed
  then show ?thesis by (simp add: bays_blink_def ops(1))
qed

lemma apply_bay_keeps:
  assumes "bays_blink f s"
  shows "bays_blink f (apply_bay_led bay s)"
  by (rule apply_bay_blinks) (use assms in \<open>simp add: bays_blink_def\<close>)

lemma apply_bay_agrees [simp]: "agrees (apply_bay_led bay s) = agrees s"
  "alarm_plain (apply_bay_led bay s) = alarm_plain s"
  by (simp_all add: apply_bay_led_def)

lemma apply_bay_lit: "lit f s \<Longrightarrow> lit f (apply_bay_led bay s)"
  by (simp add: lit_def apply_bay_coherent apply_bay_power apply_bay_keeps)

lemma fold_bays:
  "coherent f s \<Longrightarrow> coherent f (fold apply_bay_led bays s)"
  "bays_blink f s \<Longrightarrow> bays_blink f (fold apply_bay_led bays s)"
  "power_blinks f s \<Longrightarrow> power_blinks f (fold apply_bay_led bays s)"
  by (induction bays arbitrary: s)
    (simp_all add: apply_bay_coherent apply_bay_keeps apply_bay_power)

section \<open>Operations that leave the LED fields alone\<close>

lemma panel_same [simp]:
  "panel (logs ls s) = panel s" "panel (reset_scroll s) = panel s"
  "panel (s\<lparr>a_monitor := x1\<rparr>) = panel s" "panel (s\<lparr>a_alert_bay := x2\<rparr>) = panel s"
  "panel (s\<lparr>a_applied_brightness := x3\<rparr>) = panel s" "panel (s\<lparr>a_led_inputs := x4\<rparr>) = panel s"
  "panel (s\<lparr>a_disks := x5\<rparr>) = panel s" "panel (s\<lparr>a_driver := x6\<rparr>) = panel s"
  "panel (s\<lparr>a_network_cache := x7\<rparr>) = panel s" "panel (s\<lparr>a_pools_cache := x8\<rparr>) = panel s"
  "panel (s\<lparr>a_hdd_cache := x9\<rparr>) = panel s" "panel (s\<lparr>a_temperature_cache := x10\<rparr>) = panel s"
  "panel (s\<lparr>a_docker_cache := x11\<rparr>) = panel s" "panel (s\<lparr>a_pools := x12\<rparr>) = panel s"
  "panel (s\<lparr>a_screens := x13\<rparr>) = panel s" "panel (s\<lparr>a_index := x14\<rparr>) = panel s"
  "panel (s\<lparr>a_mode := x15\<rparr>) = panel s" "panel (s\<lparr>a_over := x16\<rparr>) = panel s"
  "panel (s\<lparr>a_pending_over := x17\<rparr>) = panel s" "panel (s\<lparr>a_beep_pending := x18\<rparr>) = panel s"
  "panel (s\<lparr>a_next_repeat_beep := x19\<rparr>) = panel s" "panel (s\<lparr>a_sleeping := x20\<rparr>) = panel s"
  "panel (s\<lparr>a_auto_rotate := x21\<rparr>) = panel s" "panel (s\<lparr>a_resume_at := x22\<rparr>) = panel s"
  "panel (s\<lparr>a_last_dwell := x23\<rparr>) = panel s" "panel (s\<lparr>a_scroll0 := x24\<rparr>) = panel s"
  "panel (s\<lparr>a_scroll1 := x25\<rparr>) = panel s" "panel (s\<lparr>a_fan_health := x26\<rparr>) = panel s"
  "panel (s\<lparr>a_awake_override_until := x27\<rparr>) = panel s"
  "panel (s\<lparr>a_schedule_wants_sleep := x28\<rparr>) = panel s"
  "panel (s\<lparr>a_locate_bays := x29\<rparr>) = panel s" "panel (s\<lparr>a_locate_chassis := x30\<rparr>) = panel s"
  "panel (s\<lparr>a_nic_led_problem := x31\<rparr>) = panel s" "panel (s\<lparr>a_brightness_problem := x32\<rparr>) = panel s"
  "panel (s\<lparr>a_bay_mode_problem := x33\<rparr>) = panel s" "panel (s\<lparr>a_day_brightness := x34\<rparr>) = panel s"
  by (simp_all add: panel_def)

lemma panel_brightness [simp]: "panel (apply_front_brightness env s) = panel s"
  by (simp add: apply_front_brightness_def Let_def split: option.splits)

lemma panel_note_nic [simp]: "panel (note_nic_leds r s) = panel s"
  by (simp add: note_nic_leds_def split: option.splits)

lemma panel_bay_mode [simp]: "panel (apply_bay_mode env s) = panel s"
  by (simp add: apply_bay_mode_def split: option.splits)

lemma panel_learn [simp]: "panel (learn_brightness env s) = panel s"
  by (simp add: learn_brightness_def)

lemma panel_refresh [simp]:
  "panel (refresh_network env s) = panel s" "panel (refresh_hdd env s) = panel s"
  "panel (refresh_temperature env s) = panel s" "panel (refresh_docker env s) = panel s"
  "panel (assemble_screens s) = panel s" "panel (refresh_pools env s) = panel s"
  by (simp_all add: refresh_network_def refresh_hdd_def refresh_temperature_def refresh_docker_def
      assemble_screens_def refresh_pools_def Let_def split: prod.splits)

text \<open>The predicates do not read these fields either, so an update of them is invisible.\<close>

lemmas lit_same = lit_cong [of "apply_front_brightness env s" s for env s, simplified]
  lit_cong [of "note_nic_leds r s" s for r s, simplified]
  lit_cong [of "apply_bay_mode env s" s for env s, simplified]
  lit_cong [of "learn_brightness env s" s for env s, simplified]
  lit_cong [of "logs ls s" s for ls s, simplified] lit_cong [of "reset_scroll s" s for s, simplified]

declare lit_same [simp]

section \<open>Composite LED operations\<close>

lemma update_health_led:
  assumes "coherent f s"
  shows "coherent f (update_health_leds env s)" "agrees (update_health_leds env s)"
    "alarm_plain (update_health_leds env s)"
    "bays_blink f s \<Longrightarrow> power_blinks f s \<Longrightarrow> lit f (update_health_leds env s)"
proof -
  obtain mon ls where mon: "check_bays (bay_states s) (a_monitor (fold apply_bay_led (map fst (bay_states s)) s)) = (mon, ls)"
    by fastforce
  define t where "t = logs ls (fold apply_bay_led (map fst (bay_states s)) s\<lparr>a_monitor := mon\<rparr>)"
  have u: "update_health_leds env s = recompute_status_led env t"
    by (simp add: update_health_leds_def Let_def mon t_def)
  have same: "panel t = panel (fold apply_bay_led (map fst (bay_states s)) s)"
    "core t = core (fold apply_bay_led (map fst (bay_states s)) s)"
    by (simp_all add: t_def)
  have t: "coherent f t" "bays_blink f s \<Longrightarrow> bays_blink f t" "power_blinks f s \<Longrightarrow> power_blinks f t"
    using fold_bays [of f s] assms by (simp_all add: lit_cong [OF same])
  show "coherent f (update_health_leds env s)" "agrees (update_health_leds env s)"
    "alarm_plain (update_health_leds env s)"
    using t(1) by (simp_all add: u recompute_coherent recompute_agrees recompute_plain)
  show "bays_blink f s \<Longrightarrow> power_blinks f s \<Longrightarrow> lit f (update_health_leds env s)"
    using t by (simp add: u recompute_lit)
qed

text \<open>The part of \<open>lit\<close> that a later recomputation does not establish by itself.\<close>

definition shines :: "led_files \<Rightarrow> app \<Rightarrow> bool" where
  "shines f s \<longleftrightarrow> coherent f s \<and> bays_blink f s \<and> power_blinks f s"

lemma lit_shines: "lit f s \<Longrightarrow> shines f s"
  by (simp add: lit_def shines_def)

lemma shines_bay: "shines f s \<Longrightarrow> shines f (apply_bay_led bay s)"
  by (simp add: shines_def apply_bay_coherent apply_bay_keeps apply_bay_power)

lemma shines_cong: "panel t = panel s \<Longrightarrow> core t = core s \<Longrightarrow> shines f s \<Longrightarrow> shines f t"
  by (simp add: shines_def lit_cong [of t s])

lemma shines_recompute: "shines f s \<Longrightarrow> lit f (recompute_status_led env s)"
  by (simp add: shines_def recompute_lit)

lemma sync_lit:
  assumes "shines f s"
  shows "lit f (sync_leds_to_override env s)"
proof -
  have alert: "shines f (s\<lparr>a_alert_bay := x\<rparr>)" for x
    using assms by (rule shines_cong [rotated 2]) simp_all
  have old: "shines f (case x of None \<Rightarrow> t | Some b \<Rightarrow> if c b then apply_bay_led b t else t)"
    if "shines f t" for x c t
    using that by (cases x) (simp_all add: shines_bay)
  have new: "shines f (case x of None \<Rightarrow> t | Some b \<Rightarrow> apply_bay_led b t)" if "shines f t" for x t
    using that by (cases x) (simp_all add: shines_bay)
  show ?thesis
    unfolding sync_leds_to_override_def Let_def by (intro shines_recompute new old alert)
qed

lemma reassert_bays:
  "coherent f s \<Longrightarrow> coherent f (fold (\<lambda>bay. emit (set_bay bay BayLocate)) bays s)"
  "agrees (fold (\<lambda>bay. emit (set_bay bay BayLocate)) bays s) = agrees s"
  "alarm_plain (fold (\<lambda>bay. emit (set_bay bay BayLocate)) bays s) = alarm_plain s"
  "a_status_shown (fold (\<lambda>bay. emit (set_bay bay BayLocate)) bays s) = a_status_shown s"
  "a_alarm (fold (\<lambda>bay. emit (set_bay bay BayLocate)) bays s) = a_alarm s"
  by (induction bays arbitrary: s) (simp_all add: coherent_emit led_not_in [OF leds_of_bay(1)])

lemma reassert_bays_shown:
  assumes "b \<in> set bays \<or> bay_shown (files f s) b = bay_table b BayLocate"
  shows "bay_shown (files f (fold (\<lambda>bay. emit (set_bay bay BayLocate)) bays s)) b = bay_table b BayLocate"
  using assms
proof (induction bays arbitrary: s)
  case Nil
  then show ?case by simp
next
  case (Cons c bays)
  have "bay_shown (files f (emit (set_bay c BayLocate) s)) b =
      (if b = c then bay_table b BayLocate else bay_shown (files f s) b)"
    using led_not_in [OF leds_of_bay(1) [of c BayLocate]] by (simp add: set_bay_view bay_other)
  with Cons.prems Cons.IH [of "emit (set_bay c BayLocate) s"] show ?case by auto
qed

lemma reassert_bays_power:
  "shows_light (files f (fold (\<lambda>bay. emit (set_bay bay BayLocate)) bays s)) ''blue:power'' =
     shows_light (files f s) ''blue:power''"
  by (induction bays arbitrary: s)
    (simp_all add: power_other led_not_in [OF leds_of_bay(1)])

text \<open>Reasserting the locates repairs their LEDs; only the cached pattern has to be right before.\<close>

lemma reassert_lit:
  assumes "coherent f s" "alarm_plain s" "a_locate_chassis s = None \<Longrightarrow> agrees s"
  shows "lit f (reassert_locate_leds s)"
proof -
  let ?t = "fold (\<lambda>bay. emit (set_bay bay BayLocate)) (map fst (a_locate_bays s)) s"
  have core: "core ?t = core s" by (rule core_fold_emit)
  have bays: "bays_blink f ?t"
    using reassert_bays_shown [of _ "map fst (a_locate_bays s)" f s] located_core [OF core]
    by (simp add: bays_blink_def located_def)
  have t: "coherent f ?t" "alarm_plain ?t"
    using assms(1,2) by (simp_all only: reassert_bays)
  show ?thesis
  proof (cases "a_locate_chassis s = None")
    case True
    then have "reassert_locate_leds s = ?t" "power_blinks f ?t"
      using core_fields(7) [OF core] by (simp_all add: reassert_locate_leds_def power_blinks_def)
    with True t bays assms(3) show ?thesis by (simp add: lit_def reassert_bays(2))
  next
    case False
    let ?ops = "set_power PowerLedLocate @ set_status StatusLocate"
    let ?u = "emit ?ops ?t\<lparr>a_status_shown := Some StatusLocate\<rparr>"
    have u: "reassert_locate_leds s = ?u" using False by (simp add: reassert_locate_leds_def)
    have files: "files f ?u = apply_ops ?ops (files f ?t)" by (simp add: files_def emit_def)
    have cu: "core ?u = core s" by (simp add: core del: frame_simps)
    note power = led_not_in [OF leds_of_power [of PowerLedLocate]]
      and status = led_not_in [OF leds_of_status [of StatusLocate]]
    have "bay_shown (files f ?u) b = bay_shown (files f ?t) b" for b
      by (simp add: files bay_other power status)
    then have "bays_blink f ?u"
      using bays located_core [OF cu] located_core [OF core] by (simp add: bays_blink_def)
    moreover have "coherent f ?u"
      by (simp add: coherent_def files set_status_view)
    moreover have "power_blinks f ?u"
      by (simp add: power_blinks_def files power_other status set_power_view)
    moreover have "agrees ?u"
      using False core_fields(7) [OF cu] by (simp add: agrees_def status_pattern_for_def)
    moreover have "alarm_plain ?u"
      using t(2) by (simp add: alarm_plain_def emit_def)
    ultimately show ?thesis by (simp add: u lit_def)
  qed
qed

end
