(* ===== verification/FrontLit.thy ===== *)
theory FrontLit
  imports FrontLeds
begin

text \<open>
  Every operation of \<open>AppState\<close> keeps \<open>lit\<close>: the status LED shows the pattern the state asks for
  and everything being located blinks. \<open>init_leds\<close> establishes it from any state.
\<close>

section \<open>Relighting the panel\<close>

lemma coherent_None: "a_status_shown s = None \<Longrightarrow> coherent f s"
  by (simp add: coherent_def)

lemma relight_coherent: "coherent f (snd (relight env s))"
proof (cases "a_sleeping s \<and> night_darkens_front s")
  case True
  then show ?thesis by (simp add: relight_def coherent_def files_def emit_def night_status)
next
  case False
  obtain ops r where "exit_night_mode (led_nic_mode (ac_led (a_cfg s))) True (e_nic env) = (ops, r)"
    by fastforce
  with False show ?thesis
    by (auto simp: relight_def Let_def emit_def intro!: coherent_None)
qed

lemma alert_led_keeps:
  "coherent f s \<Longrightarrow> coherent f (apply_alert_led s)" "agrees (apply_alert_led s) = agrees s"
  "alarm_plain (apply_alert_led s) = alarm_plain s"
  by (simp_all add: apply_alert_led_def apply_bay_coherent split: option.split)

lemma apply_all_lit: "lit f (apply_all_leds env s)"
proof -
  obtain r t where t: "relight env s = (r, t)" by fastforce
  define u where "u = apply_front_brightness env
    (learn_brightness env (apply_bay_mode env (note_nic_leds r t))\<lparr>a_applied_brightness := None\<rparr>)"
  have same: "panel u = panel t" "core u = core t" by (simp_all add: u_def)
  have "coherent f u"
    using relight_coherent [of f env s] lit_cong(1) [OF same, of f] by (simp add: t)
  from update_health_led(1-3) [OF this, of env] show ?thesis
    unfolding apply_all_leds_def t Let_def prod.case u_def [symmetric]
    by (intro reassert_lit) (simp_all add: alert_led_keeps)
qed

lemma init_lit: "lit f (init_leds env s)"
  by (simp add: init_leds_def apply_all_lit)

lemma check_driver_lit: "lit f s \<Longrightarrow> lit f (snd (check_driver env s))"
proof -
  assume s: "lit f s"
  have "lit f (s\<lparr>a_driver := d\<rparr>)" for d
    using s lit_cong(6) [of "s\<lparr>a_driver := d\<rparr>" s f] by simp
  then show ?thesis
    using s by (auto simp: check_driver_def Let_def apply_all_lit split: option.splits prod.splits)
qed

section \<open>Refreshing\<close>

lemma panel_refresh_data: "refresh_data env s = (c, t) \<Longrightarrow> panel t = panel s"
  by (auto simp: refresh_data_def Let_def split: prod.splits)

lemma led_inputs_same:
  "coherent f (s\<lparr>a_led_inputs := x\<rparr>) = coherent f s" "agrees (s\<lparr>a_led_inputs := x\<rparr>) = agrees s"
  "alarm_plain (s\<lparr>a_led_inputs := x\<rparr>) = alarm_plain s" "lit f (s\<lparr>a_led_inputs := x\<rparr>) = lit f s"
  by (simp_all add: lit_cong [of "s\<lparr>a_led_inputs := x\<rparr>" s])

lemma refresh_leds_lit: "lit f s \<Longrightarrow> lit f (refresh_leds env x y s)"
  using lit_shines [of f s]
  by (auto simp: refresh_leds_def Let_def led_inputs_same shines_recompute
      intro!: update_health_led(4)) (simp_all add: shines_def)

lemma refresh_leds_agrees:
  "coherent f s \<Longrightarrow> coherent f (refresh_leds env True y s)"
  "coherent f s \<Longrightarrow> agrees (refresh_leds env True y s)"
  "coherent f s \<Longrightarrow> alarm_plain (refresh_leds env True y s)"
  by (simp_all add: refresh_leds_def Let_def led_inputs_same update_health_led(1-3))

lemma refresh_stale_lit: "lit f s \<Longrightarrow> lit f (refresh_stale env s)"
proof -
  obtain c t where t: "refresh_data env s = (c, t)" by fastforce
  assume "lit f s"
  then have "lit f t"
    using lit_cong(6) [OF panel_refresh_data [OF t] core_refresh_data [OF t]] by simp
  then show ?thesis by (simp add: refresh_stale_def t refresh_leds_lit)
qed

text \<open>\<open>refresh_all\<close> always reads the pools, so it recomputes the status LED whatever it showed.\<close>

lemma refresh_all_agrees:
  assumes "coherent f s"
  shows "coherent f (refresh_all env s)" "agrees (refresh_all env s)" "alarm_plain (refresh_all env s)"
proof -
  define u where "u = s\<lparr>a_network_cache := (a_network_cache s)\<lparr>cc_last_refresh := None\<rparr>,
    a_pools_cache := (a_pools_cache s)\<lparr>cc_last_refresh := None\<rparr>,
    a_hdd_cache := (a_hdd_cache s)\<lparr>cc_last_refresh := None\<rparr>,
    a_temperature_cache := (a_temperature_cache s)\<lparr>cc_last_refresh := None\<rparr>,
    a_docker_cache := (a_docker_cache s)\<lparr>cc_last_refresh := None\<rparr>\<rparr>"
  obtain c t where t: "refresh_data env u = (c, t)" by fastforce
  have "panel u = panel s" "core u = core s" by (simp_all add: u_def)
  with panel_refresh_data [OF t] core_refresh_data [OF t]
  have "panel t = panel s" "core t = core s" by simp_all
  then have "coherent f t" using assms by (simp add: lit_cong(1) [of t s])
  moreover have "refresh_all env s = refresh_leds env True (network_due env u \<or> c) t"
    by (simp add: refresh_all_def refresh_stale_def t pools_due_def stale_def u_def [symmetric])
      (simp add: u_def)
  ultimately show "coherent f (refresh_all env s)" "agrees (refresh_all env s)"
    "alarm_plain (refresh_all env s)"
    by (simp_all add: refresh_leds_agrees)
qed

section \<open>Sleeping and waking\<close>

lemma coherent_panel: "panel t = panel s \<Longrightarrow> coherent f t = coherent f s"
  using panel_eq [of t s] by (cases "a_status_shown s") (simp_all add: coherent_def files_def)

lemma alarm_plain_panel: "panel t = panel s \<Longrightarrow> alarm_plain t = alarm_plain s"
  using panel_eq [of t s] by (simp add: alarm_plain_def)

lemma shown_panel: "panel t = panel s \<Longrightarrow> a_status_shown t = a_status_shown s"
  by (simp add: panel_def)

lemma night_front_asleep [simp]: "night_darkens_front (s\<lparr>a_sleeping := b\<rparr>) = night_darkens_front s"
  by (simp add: night_darkens_front_def)

lemma night_front_core: "core t = core s \<Longrightarrow> night_darkens_front t = night_darkens_front s"
  using core_fields(1) [of t s] by (simp add: night_darkens_front_def)

lemma quiet_coherent:
  assumes "coherent f s" "leds_of ops \<subseteq> (\<lambda>b. Some (bay_green b)) ` UNIV"
  shows "coherent f (emit ops s)"
  by (rule coherent_emit [OF assms(1)]) (use assms(2) in auto)

lemma wake_lit:
  assumes "coherent f s"
  shows "lit f (wake env s)"
proof -
  let ?front = "night_darkens_front s"
  obtain ops r where n: "exit_night_mode (led_nic_mode (ac_led (a_cfg s))) ?front (e_nic env) = (ops, r)"
    by fastforce
  define t where "t = emit ops (s\<lparr>a_sleeping := False\<rparr>)"
  define u where "u = (if ?front then t\<lparr>a_status_shown := None\<rparr> else t)"
  define v where "v = apply_front_brightness env (note_nic_leds r u)"
  have "coherent f u"
  proof (cases ?front)
    case False
    have "leds_of ops \<subseteq> (\<lambda>b. Some (bay_green b)) ` UNIV"
      using night_quiet(2) n False by (metis fst_conv)
    moreover have "coherent f (s\<lparr>a_sleeping := False\<rparr>)"
      using assms by (simp add: coherent_panel [of "s\<lparr>a_sleeping := False\<rparr>" s])
    ultimately have "coherent f t" by (simp add: t_def quiet_coherent)
    with False show ?thesis by (simp add: u_def)
  qed (simp add: u_def coherent_None)
  then have "coherent f v" using coherent_panel [of v u f] by (simp add: v_def)
  from refresh_all_agrees [OF this, of env]
  have "lit f (reassert_locate_leds (refresh_all env v))"
    by (intro reassert_lit)
  moreover have "wake env s = reassert_locate_leds (refresh_all env v)"
    using n by (simp add: wake_def Let_def v_def u_def t_def night_front_core [OF core_emit])
  ultimately show ?thesis by simp
qed

lemma fall_asleep_lit:
  assumes "lit f s"
  shows "lit f (fall_asleep env s)"
proof -
  let ?front = "night_darkens_front s"
  obtain ops r where n: "enter_night_mode ?front (e_nic env) = (ops, r)" by fastforce
  define t where "t = emit ops (s\<lparr>a_sleeping := True\<rparr>)"
  define u where "u = (if ?front then t\<lparr>a_status_shown := Some StatusOff\<rparr> else t)"
  define v where "v = apply_front_brightness env (note_nic_leds r u)"
  have asleep: "coherent f (s\<lparr>a_sleeping := True\<rparr>)"
    using assms by (simp add: coherent_panel [of "s\<lparr>a_sleeping := True\<rparr>" s] lit_def)
  have "coherent f u"
  proof (cases ?front)
    case True
    with n have "ops = fst (enter_night_mode True (e_nic env))" by simp
    with True show ?thesis
      by (simp add: u_def t_def coherent_def files_def emit_def night_status)
  next
    case False
    have "leds_of ops \<subseteq> (\<lambda>b. Some (bay_green b)) ` UNIV"
      using night_quiet(1) n False by (metis fst_conv)
    with asleep False show ?thesis by (simp add: u_def t_def quiet_coherent)
  qed
  moreover have pv: "panel v = panel u" and cv: "core v = core u" by (simp_all add: v_def)
  ultimately have "coherent f v" using coherent_panel [OF pv] by simp
  moreover have "a_alarm v = a_alarm s" using panel_eq [OF pv] by (simp add: u_def t_def emit_def)
  then have "alarm_plain v" using assms by (simp add: alarm_plain_def lit_def)
  moreover have "agrees v" if "a_locate_chassis v = None"
  proof -
    have "a_locate_chassis s = None"
      using that core_fields(7) [OF cv] by (simp add: u_def t_def emit_def split: if_splits)
    then show ?thesis
      using assms shown_panel [OF pv] core_fields [OF cv] panel_eq [OF pv]
      by (auto simp: lit_def agrees_def status_pattern_for_def u_def t_def emit_def
          night_darkens_front_def split: if_splits)
  qed
  ultimately have "lit f (reassert_locate_leds v)" by (rule reassert_lit)
  moreover have "fall_asleep env s = reassert_locate_leds v"
    using n by (simp add: fall_asleep_def Let_def v_def u_def t_def night_front_core [OF core_emit])
  ultimately show ?thesis by simp
qed

section \<open>Locating\<close>

lemma located_insert:
  "located (s\<lparr>a_locate_bays := bt_insert bay u (a_locate_bays s)\<rparr>) = insert bay (located s)"
  by (auto simp: located_def bt_insert_def bt_remove_def set_insort_key image_iff)

lemma located_remove:
  "located (s\<lparr>a_locate_bays := bt_remove bay (a_locate_bays s)\<rparr>) = located s - {bay}"
  by (force simp: located_def bt_remove_def)

lemma locate_bays_same:
  "files f (s\<lparr>a_locate_bays := x\<rparr>) = files f s" "coherent f (s\<lparr>a_locate_bays := x\<rparr>) = coherent f s"
  "agrees (s\<lparr>a_locate_bays := x\<rparr>) = agrees s" "power_blinks f (s\<lparr>a_locate_bays := x\<rparr>) = power_blinks f s"
  "alarm_plain (s\<lparr>a_locate_bays := x\<rparr>) = alarm_plain s"
proof -
  show files: "files f (s\<lparr>a_locate_bays := x\<rparr>) = files f s" by (simp add: files_def)
  show "coherent f (s\<lparr>a_locate_bays := x\<rparr>) = coherent f s"
    by (rule coherent_panel) simp
  show "agrees (s\<lparr>a_locate_bays := x\<rparr>) = agrees s"
    by (simp add: agrees_def status_pattern_for_def night_darkens_front_def)
  show "power_blinks f (s\<lparr>a_locate_bays := x\<rparr>) = power_blinks f s"
    by (simp add: power_blinks_def files)
  show "alarm_plain (s\<lparr>a_locate_bays := x\<rparr>) = alarm_plain s"
    by (simp add: alarm_plain_def)
qed

lemma prime_bay_leds: "leds_of (prime_locate_bay bay) \<subseteq> {Some (bay_green bay), Some (bay_red bay)}"
  by (simp add: prime_locate_bay_def)

lemma start_locate_bay_lit:
  assumes "lit f s"
  shows "lit f (start_locate env (Some bay) ttl s)"
proof -
  define u where "u = (if 0 < ttl then checked_add (e_now env) (secs ttl) else None)"
  define t where "t = s\<lparr>a_locate_bays := bt_insert bay u (a_locate_bays s)\<rparr>"
  define v where "v = (if bay \<in> fst ` set (a_locate_bays s) then t else emit (prime_locate_bay bay) t)"
  note other = led_not_in [OF prime_bay_leds [of bay]]
  have t: "coherent f t" "agrees t" "power_blinks f t" "alarm_plain t"
    "\<forall>b\<in>located t - {bay}. bay_shown (files f t) b = bay_table b BayLocate"
    using assms by (simp_all add: t_def locate_bays_same located_insert lit_def bays_blink_def)
  then have "coherent f v" "agrees v" "power_blinks f v" "alarm_plain v"
    by (simp_all add: v_def coherent_emit power_blinks_emit other)
  moreover have "\<forall>b\<in>located v - {bay}. bay_shown (files f v) b = bay_table b BayLocate"
    using t(5) by (simp add: v_def bay_other other)
  ultimately have "lit f (apply_bay_led bay v)"
    by (simp add: lit_def apply_bay_coherent apply_bay_power apply_bay_blinks)
  moreover have "start_locate env (Some bay) ttl s = apply_bay_led bay v"
    by (simp only: start_locate_def Let_def option.case u_def t_def v_def)
  ultimately show ?thesis by simp
qed

lemma power_led_keeps:
  "coherent f s \<Longrightarrow> coherent f (apply_power_led s)" "bays_blink f s \<Longrightarrow> bays_blink f (apply_power_led s)"
  "power_blinks f (apply_power_led s)" "a_status_shown (apply_power_led s) = a_status_shown s"
proof -
  define p where "p = (if a_locate_chassis s \<noteq> None then PowerLedLocate
    else if a_sleeping s \<and> night_darkens_front s then PowerLedOff else PowerLedOn)"
  have p: "apply_power_led s = emit (set_power p) s" by (simp add: apply_power_led_def p_def)
  note other = led_not_in [OF leds_of_power [of p]]
  show "coherent f s \<Longrightarrow> coherent f (apply_power_led s)" by (simp add: p coherent_emit other)
  show "bays_blink f s \<Longrightarrow> bays_blink f (apply_power_led s)"
    by (simp add: p bays_blink_def bay_other other)
  show "power_blinks f (apply_power_led s)"
    by (simp add: p power_blinks_def) (simp add: p_def set_power_view)
  show "a_status_shown (apply_power_led s) = a_status_shown s" by (simp add: p)
qed

lemma chassis_same:
  "files f (s\<lparr>a_locate_chassis := x\<rparr>) = files f s" "coherent f (s\<lparr>a_locate_chassis := x\<rparr>) = coherent f s"
  "bays_blink f (s\<lparr>a_locate_chassis := x\<rparr>) = bays_blink f s"
proof -
  show files: "files f (s\<lparr>a_locate_chassis := x\<rparr>) = files f s" by (simp add: files_def)
  show "coherent f (s\<lparr>a_locate_chassis := x\<rparr>) = coherent f s" by (rule coherent_panel) simp
  show "bays_blink f (s\<lparr>a_locate_chassis := x\<rparr>) = bays_blink f s"
    by (simp add: bays_blink_def files located_def)
qed

lemma prime_status_bays: "bays_blink f (emit prime_locate_status s) = bays_blink f s"
proof -
  have "leds_of prime_locate_status \<subseteq> {Some ''green:status'', Some ''red:status''}"
    by (simp add: prime_locate_status_def)
  note led_not_in [OF this]
  then show ?thesis by (simp add: bays_blink_def bay_other)
qed

lemma start_locate_chassis_lit:
  assumes "lit f s"
  shows "lit f (start_locate env None ttl s)"
proof -
  define c where "c = Some \<lparr>cl_until = if 0 < ttl then checked_add (e_now env) (secs ttl) else None,
    cl_hostname = (case e_hostname env of None \<Rightarrow> [] | Some h \<Rightarrow> h)\<rparr>"
  define t where "t = (if a_locate_chassis s = None then emit prime_locate_status s else s)"
  define v where "v = apply_power_led (reset_scroll (t\<lparr>a_locate_chassis := c\<rparr>))"
  have chassis: "a_locate_chassis v \<noteq> None" by (simp add: v_def c_def)
  have pat: "status_pattern_for (recompute_status_led env v) = StatusLocate"
    using chassis by (simp add: status_pattern_for_def)
  have "bays_blink f t" using assms by (simp add: t_def prime_status_bays lit_def)
  then have "bays_blink f v" "power_blinks f v"
    by (simp_all add: v_def power_led_keeps chassis_same)
  moreover have "coherent f v \<or> a_status_shown v \<noteq> Some (status_pattern_for (recompute_status_led env v))"
  proof (cases "a_locate_chassis s = None")
    case True
    then have "status_pattern_for s \<noteq> StatusLocate"
      using assms by (auto simp: lit_def alarm_plain_def status_pattern_for_def split: option.splits)
    moreover have "a_status_shown v = Some (status_pattern_for s)"
      using assms by (simp add: v_def t_def power_led_keeps lit_def agrees_def)
    ultimately show ?thesis by (simp add: pat)
  next
    case False
    then have "t = s" unfolding t_def by (rule if_not_P)
    then have "coherent f v"
      using assms by (simp add: v_def power_led_keeps chassis_same lit_def)
    then show ?thesis by simp
  qed
  ultimately have "lit f (recompute_status_led env v)" by (rule recompute_lit)
  moreover have "start_locate env None ttl s = apply_front_brightness env (recompute_status_led env v)"
    by (simp only: start_locate_def Let_def option.case c_def t_def v_def)
  ultimately show ?thesis by simp
qed

lemma start_locate_lit: "lit f s \<Longrightarrow> lit f (start_locate env bay ttl s)"
  using start_locate_bay_lit start_locate_chassis_lit by (cases bay) auto

lemma end_bay_lit:
  assumes "lit f s"
  shows "lit f (end_bay_locate bay s)"
proof -
  define t where "t = s\<lparr>a_locate_bays := bt_remove bay (a_locate_bays s)\<rparr>"
  have "lit f (apply_bay_led bay t)"
    using assms by (simp add: t_def lit_def locate_bays_same apply_bay_coherent apply_bay_power
        apply_bay_blinks located_remove bays_blink_def [of f s])
  then show ?thesis using assms by (simp add: end_bay_locate_def t_def)
qed

lemma end_chassis_lit:
  assumes "lit f s"
  shows "lit f (end_chassis_locate env s)"
proof -
  define t where "t = apply_power_led (reset_scroll (s\<lparr>a_locate_chassis := None\<rparr>))"
  have "shines f t"
    using assms by (simp add: t_def shines_def power_led_keeps chassis_same lit_def)
  then have "lit f (recompute_status_led env t)" by (rule shines_recompute)
  then show ?thesis using assms by (simp add: end_chassis_locate_def t_def)
qed

lemma fold_end_bay_lit: "lit f s \<Longrightarrow> lit f (fold end_bay_locate bays s)"
  by (induction bays arbitrary: s) (simp_all add: end_bay_lit)

lemma stop_locate_lit: "lit f s \<Longrightarrow> lit f (stop_locate env bay s)"
  by (cases bay) (simp_all add: stop_locate_def end_bay_lit fold_end_bay_lit end_chassis_lit)

lemma expire_locates_lit: "lit f s \<Longrightarrow> lit f (expire_locates env s)"
  by (simp add: expire_locates_def Let_def fold_end_bay_lit end_chassis_lit split: option.split)

section \<open>Messages, keys and ticks\<close>

text \<open>What \<open>lit\<close> reads; every other field may change freely.\<close>

definition lit_view :: "app \<Rightarrow> (led_op list \<times> status_pattern option \<times> alarm option) \<times> app_config
    \<times> bool \<times> (nat \<times> instant option) list \<times> chassis_locate option" where
  "lit_view s = (panel s, a_cfg s, a_sleeping s, a_locate_bays s, a_locate_chassis s)"

lemma lit_view_cong: "lit_view t = lit_view s \<Longrightarrow> lit f t = lit f s"
proof -
  assume v: "lit_view t = lit_view s"
  then have p: "panel t = panel s" by (simp add: lit_view_def)
  note eqs = panel_eq [OF p]
  have "files f t = files f s" using eqs by (simp add: files_def)
  moreover have "located t = located s" using v by (simp add: lit_view_def located_def)
  ultimately show ?thesis
    using v eqs coherent_panel [OF p, of f] alarm_plain_panel [OF p]
    by (simp add: lit_def agrees_def bays_blink_def power_blinks_def lit_view_def
        status_pattern_for_def night_darkens_front_def)
qed

lemma lit_view_updates:
  "lit_view (s\<lparr>a_mode := x1\<rparr>) = lit_view s" "lit_view (s\<lparr>a_over := x2\<rparr>) = lit_view s"
  "lit_view (s\<lparr>a_pending_over := x3\<rparr>) = lit_view s" "lit_view (s\<lparr>a_beep_pending := x4\<rparr>) = lit_view s"
  "lit_view (s\<lparr>a_next_repeat_beep := x5\<rparr>) = lit_view s"
  "lit_view (s\<lparr>a_awake_override_until := x6\<rparr>) = lit_view s"
  "lit_view (s\<lparr>a_schedule_wants_sleep := x7\<rparr>) = lit_view s"
  "lit_view (s\<lparr>a_auto_rotate := x8\<rparr>) = lit_view s" "lit_view (s\<lparr>a_resume_at := x9\<rparr>) = lit_view s"
  "lit_view (s\<lparr>a_last_dwell := x10\<rparr>) = lit_view s" "lit_view (s\<lparr>a_index := x11\<rparr>) = lit_view s"
  "lit_view (s\<lparr>a_scroll0 := x12\<rparr>) = lit_view s" "lit_view (s\<lparr>a_scroll1 := x13\<rparr>) = lit_view s"
  "lit_view (s\<lparr>a_fan_health := x14\<rparr>) = lit_view s"
  by (simp_all add: lit_view_def)

lemmas lit_updates [simp] = lit_view_updates [THEN lit_view_cong]

lemma refresh_all_lit: "lit f s \<Longrightarrow> lit f (refresh_all env s)"
  unfolding refresh_all_def
  by (rule refresh_stale_lit) (erule lit_view_cong [THEN iffD2, rotated], simp add: lit_view_def)

lemma sync_keeps_lit: "lit f s \<Longrightarrow> lit f (sync_leds_to_override env s)"
  by (simp add: sync_lit lit_shines)

lemma wake_keeps_lit: "lit f s \<Longrightarrow> lit f (wake env s)"
  by (rule wake_lit) (simp add: lit_def)

lemma show_override_lit: "lit f s \<Longrightarrow> lit f (show_override env ov s)"
  by (simp add: show_override_def Let_def sync_keeps_lit wake_keeps_lit)

lemma apply_pending_lit: "lit f s \<Longrightarrow> lit f (apply_pending_override env s)"
  by (simp add: apply_pending_override_def show_override_lit split: option.split)

lemma to_status_lit: "lit f s \<Longrightarrow> lit f (to_status env s)"
  by (simp add: to_status_def apply_pending_lit)

lemma socket_command_lit: "lit f s \<Longrightarrow> lit f (apply_socket_command env cmd s)"
  by (cases cmd)
    (simp_all add: apply_socket_command_def Let_def sync_keeps_lit show_override_lit
      start_locate_lit stop_locate_lit)

lemma panel_render_lit: "lit f (snd (panel_render env s)) = lit f s"
  by (simp add: panel_render_def Let_def case_prod_beta)

lemma page_lit: "lit f (page env forward s) = lit f s"
  by (simp add: page_def Let_def)

lemma cancel_countdown_lit: "lit f s \<Longrightarrow> lit f (snd (cancel_countdown env a l s))"
  by (simp add: cancel_countdown_def Let_def panel_render_lit show_override_lit to_status_lit)

lemma handle_key_lit: "lit f s \<Longrightarrow> lit f (snd (handle_key env key s))"
  by (cases "a_mode s"; cases key)
    (simp_all add: handle_key_def panel_render_lit wake_keeps_lit page_lit to_status_lit
      cancel_countdown_lit)

lemma start_countdown_lit: "lit f s \<Longrightarrow> lit f (start_countdown env a n l s)"
  by (cases "a_mode s") (simp_all add: start_countdown_def Let_def wake_keeps_lit)

lemma tick_part_lit:
  "lit f s \<Longrightarrow> lit f (expire_override env s)" "lit f (repeat_beep env s) = lit f s"
  "lit f (resume_rotation env s) = lit f s" "lit f s \<Longrightarrow> lit f (expire_confirm env s)"
  "lit f (rotate_screens env s) = lit f s"
  by (simp_all add: expire_override_def repeat_beep_def resume_rotation_def expire_confirm_def
      rotate_screens_def sync_keeps_lit to_status_lit split: option.split mode.split)

lemma tick_awake_lit: "lit f s \<Longrightarrow> lit f (snd (tick_awake env s))"
  by (simp add: tick_awake_def panel_render_lit tick_part_lit refresh_stale_lit)

lemma settle_sleep_lit: "lit f s \<Longrightarrow> lit f (settle_sleep env s)"
  by (simp add: settle_sleep_def Let_def expire_locates_lit fall_asleep_lit)

lemma tick_lit: "lit f s \<Longrightarrow> lit f (snd (tick env s))"
  using settle_sleep_lit [of f s env]
  by (simp add: tick_def Let_def panel_render_lit wake_keeps_lit refresh_stale_lit to_status_lit
      tick_awake_lit split: mode.split)

end
