(* ===== verification/FrontSpec.thy ===== *)
theory FrontSpec
  imports FrontLit
begin

text \<open>
  What the front panel promises, as a small machine of its own: the mode, the active and the held
  message, and whether the panel sleeps. \<open>spec_step\<close> says what every event does to them and
  \<open>spec_action\<close> which action it runs; \<open>app_refines\<close> is the step of the refinement, that \<open>AppState\<close>
  with its LEDs, caches, scrolling and monitoring does exactly that.
\<close>

section \<open>Events\<close>

datatype app_op =
  OpKey env key
| OpSocket env socket_command
| OpTick env
| OpFan level
| OpSleepWanted bool
| OpCountdown env action nat string
| OpTakeBeep
| OpDriver env
| OpRefresh env

fun app_step :: "app_op \<Rightarrow> app \<Rightarrow> app" where
  "app_step (OpKey env key) s = snd (handle_key env key s)"
| "app_step (OpSocket env cmd) s = apply_socket_command env cmd s"
| "app_step (OpTick env) s = snd (tick env s)"
| "app_step (OpFan l) s = set_fan_health l s"
| "app_step (OpSleepWanted w) s = set_schedule_sleep_wanted w s"
| "app_step (OpCountdown env a n lbl) s = start_countdown env a n lbl s"
| "app_step OpTakeBeep s = snd (take_beep s)"
| "app_step (OpDriver env) s = snd (check_driver env s)"
| "app_step (OpRefresh env) s = refresh_all env s"

fun app_effect :: "app_op \<Rightarrow> app \<Rightarrow> effect" where
  "app_effect (OpKey env key) s = fst (handle_key env key s)"
| "app_effect (OpTick env) s = fst (tick env s)"
| "app_effect _ s = NoEffect"

fun effect_action :: "effect \<Rightarrow> action option" where
  "effect_action (RunAction a) = Some a"
| "effect_action _ = None"

section \<open>The specification\<close>

record ctl =
  c_cfg :: app_config
  c_mode :: mode
  c_over :: "override option"
  c_held :: "override option"
  c_asleep :: bool
  c_wants_sleep :: bool
  c_grace_until :: "instant option"

definition ctl_of :: "app \<Rightarrow> ctl" where
  "ctl_of s = \<lparr>c_cfg = a_cfg s, c_mode = a_mode s, c_over = a_over s, c_held = a_pending_over s,
     c_asleep = a_sleeping s, c_wants_sleep = a_schedule_wants_sleep s,
     c_grace_until = a_awake_override_until s\<rparr>"

definition outranks :: "override option \<Rightarrow> override \<Rightarrow> bool" where
  "outranks cur ov = (case cur of None \<Rightarrow> False | Some c \<Rightarrow> ov_level ov < ov_level c)"

text \<open>A message is dropped when a more severe one is up, or when the panel sleeps and the message
  is not one to wake for.\<close>

definition spec_show :: "override \<Rightarrow> ctl \<Rightarrow> ctl" where
  "spec_show ov c =
     (if outranks (c_over c) ov \<or> c_asleep c \<and> \<not> always_visible (ov_level ov) then c
      else c\<lparr>c_asleep := False, c_over := Some ov\<rparr>)"

text \<open>Back to the status screens: what was held is shown now.\<close>

definition spec_home :: "ctl \<Rightarrow> ctl" where
  "spec_home c =
     (let c = c\<lparr>c_mode := Status\<rparr>
      in case c_held c of None \<Rightarrow> c | Some ov \<Rightarrow> spec_show ov (c\<lparr>c_held := None\<rparr>))"

definition spec_message :: "instant \<Rightarrow> level \<Rightarrow> nat \<Rightarrow> look \<Rightarrow> nat option \<Rightarrow> string \<Rightarrow> string \<Rightarrow> override" where
  "spec_message now l ttl lk bay l0 l1 =
     \<lparr>ov_level = l, ov_look = lk,
      ov_expires_at = (if always_visible l \<or> ttl = 0 then None else checked_add now (secs ttl)),
      ov_bay = bay, ov_line0 = l0, ov_line1 = l1\<rparr>"

fun spec_socket :: "instant \<Rightarrow> socket_command \<Rightarrow> ctl \<Rightarrow> ctl" where
  "spec_socket now (Show l ttl lk bay l0 l1) c =
     (let ov = spec_message now l ttl lk bay l0 l1
      in if c_mode c = Status then spec_show ov c
         else if outranks (c_held c) ov then c else c\<lparr>c_held := Some ov\<rparr>)"
| "spec_socket now (Clear None) c = c\<lparr>c_over := None\<rparr>"
| "spec_socket now (Clear (Some bay)) c =
     (if \<exists>ov. c_over c = Some ov \<and> ov_bay ov = Some bay then c\<lparr>c_over := None\<rparr> else c)"
| "spec_socket now cmd c = c"

fun spec_menu :: "instant \<Rightarrow> key \<Rightarrow> ctl \<Rightarrow> ctl" where
  "spec_menu now key c =
     (case (c_mode c, key) of
        (Status, Enter) \<Rightarrow> c\<lparr>c_mode := ActionMenu [Shutdown, Restart] 0\<rparr>
      | (ActionMenu opts sel, Up) \<Rightarrow>
          c\<lparr>c_mode := ActionMenu opts (if 0 < sel then sel - 1 else length opts - 1)\<rparr>
      | (ActionMenu opts sel, Down) \<Rightarrow> c\<lparr>c_mode := ActionMenu opts ((sel + 1) mod length opts)\<rparr>
      | (ActionMenu opts sel, Enter) \<Rightarrow>
          c\<lparr>c_mode := Confirm (opts ! sel) (deadline_after now (ac_confirm_timeout_secs (c_cfg c)))\<rparr>
      | (ActionMenu opts sel, Back) \<Rightarrow> spec_home c
      | (Confirm a d, Enter) \<Rightarrow> spec_home c
      | (Confirm a d, Back) \<Rightarrow> spec_home c
      | (Countdown a d l, _) \<Rightarrow>
          spec_show \<lparr>ov_level = Info, ov_look = look_default,
            ov_expires_at = Some (deadline_after now 5), ov_bay = None,
            ov_line0 = action_label a, ov_line1 = ''CANCELLED''\<rparr> (spec_home c)
      | _ \<Rightarrow> c)"

definition spec_key :: "instant \<Rightarrow> key \<Rightarrow> ctl \<Rightarrow> ctl" where
  "spec_key now key c =
     (if c_asleep c
      then c\<lparr>c_asleep := False,
             c_grace_until := Some (deadline_after now (rot_resume_after_secs (ac_rotation (c_cfg c))))\<rparr>
      else spec_menu now key c)"

definition spec_sleep :: "instant \<Rightarrow> ctl \<Rightarrow> ctl" where
  "spec_sleep now c =
     (let grace = (case c_grace_until c of None \<Rightarrow> False | Some t \<Rightarrow> now < t);
          c = (if grace then c else c\<lparr>c_grace_until := None\<rparr>)
      in if c_wants_sleep c \<and> \<not> grace \<and> c_over c = None \<and> c_mode c = Status
         then c\<lparr>c_asleep := True\<rparr> else if c_wants_sleep c then c else c\<lparr>c_asleep := False\<rparr>)"

definition spec_drop :: "instant \<Rightarrow> ctl \<Rightarrow> ctl" where
  "spec_drop now c =
     (if \<exists>ov t. c_over c = Some ov \<and> ov_expires_at ov = Some t \<and> t \<le> now
      then c\<lparr>c_over := None\<rparr> else c)"

definition spec_unconfirm :: "instant \<Rightarrow> ctl \<Rightarrow> ctl" where
  "spec_unconfirm now c =
     (case c_mode c of Confirm a d \<Rightarrow> if d \<le> now then spec_home c else c | _ \<Rightarrow> c)"

definition spec_expire :: "instant \<Rightarrow> ctl \<Rightarrow> ctl" where
  "spec_expire now c = spec_unconfirm now (spec_drop now c)"

text \<open>A tick that wakes the panel because the schedule no longer wants sleep does only that.\<close>

definition spec_tick :: "instant \<Rightarrow> ctl \<Rightarrow> ctl" where
  "spec_tick now c =
     (let c' = spec_sleep now c
      in if c_asleep c' \<or> c_asleep c then c'
         else (case c_mode c' of
                 Countdown a d l \<Rightarrow> if d \<le> now then spec_home c' else spec_expire now c'
               | _ \<Rightarrow> spec_expire now c'))"

definition spec_countdown :: "instant \<Rightarrow> action \<Rightarrow> nat \<Rightarrow> string \<Rightarrow> ctl \<Rightarrow> ctl" where
  "spec_countdown now a n lbl c =
     (case c_mode c of
        Countdown b d l \<Rightarrow> c\<lparr>c_mode := Countdown (if a = Shutdown then a else b) d l\<rparr>
      | _ \<Rightarrow> c\<lparr>c_asleep := False, c_mode := Countdown a (deadline_after now n) lbl\<rparr>)"

fun spec_step :: "app_op \<Rightarrow> ctl \<Rightarrow> ctl" where
  "spec_step (OpKey env key) c = spec_key (e_now env) key c"
| "spec_step (OpSocket env cmd) c = spec_socket (e_now env) cmd c"
| "spec_step (OpTick env) c = spec_tick (e_now env) c"
| "spec_step (OpSleepWanted w) c = c\<lparr>c_wants_sleep := w\<rparr>"
| "spec_step (OpCountdown env a n lbl) c = spec_countdown (e_now env) a n lbl c"
| "spec_step op c = c"

text \<open>An action runs in two cases only.\<close>

fun spec_action :: "app_op \<Rightarrow> ctl \<Rightarrow> action option" where
  "spec_action (OpKey env key) c =
     (case c_mode c of Confirm a d \<Rightarrow> if key = Enter \<and> \<not> c_asleep c then Some a else None | _ \<Rightarrow> None)"
| "spec_action (OpTick env) c =
     (case c_mode c of Countdown a d l \<Rightarrow> if d \<le> e_now env \<and> \<not> c_asleep c then Some a else None
      | _ \<Rightarrow> None)"
| "spec_action op c = None"

section \<open>The refinement\<close>

lemma ctl_core: "core t = core s \<Longrightarrow> ctl_of t = ctl_of s"
  using core_fields [of t s] by (simp add: ctl_of_def)

lemmas ctl_ops [simp] =
  core_emit [THEN ctl_core] core_logs [THEN ctl_core] core_reset_scroll [THEN ctl_core]
  core_sync [THEN ctl_core] core_refresh_stale [THEN ctl_core] core_refresh_all [THEN ctl_core]
  core_apply_all [THEN ctl_core] core_reassert [THEN ctl_core]
  core_brightness [THEN ctl_core] core_note_nic [THEN ctl_core]
  core_recompute [THEN ctl_core] core_apply_bay [THEN ctl_core] core_power [THEN ctl_core]

lemma ctl_updates [simp]:
  "ctl_of (s\<lparr>a_mode := m\<rparr>) = (ctl_of s)\<lparr>c_mode := m\<rparr>" "ctl_of (s\<lparr>a_over := x1\<rparr>) = (ctl_of s)\<lparr>c_over := x1\<rparr>"
  "ctl_of (s\<lparr>a_pending_over := x2\<rparr>) = (ctl_of s)\<lparr>c_held := x2\<rparr>"
  "ctl_of (s\<lparr>a_sleeping := x3\<rparr>) = (ctl_of s)\<lparr>c_asleep := x3\<rparr>"
  "ctl_of (s\<lparr>a_schedule_wants_sleep := x4\<rparr>) = (ctl_of s)\<lparr>c_wants_sleep := x4\<rparr>"
  "ctl_of (s\<lparr>a_awake_override_until := x5\<rparr>) = (ctl_of s)\<lparr>c_grace_until := x5\<rparr>"
  by (simp_all add: ctl_of_def)

lemma ctl_other [simp]:
  "ctl_of (s\<lparr>a_locate_bays := x1\<rparr>) = ctl_of s" "ctl_of (s\<lparr>a_locate_chassis := x2\<rparr>) = ctl_of s"
  "ctl_of (s\<lparr>a_status_shown := x3\<rparr>) = ctl_of s" "ctl_of (s\<lparr>a_beep_pending := x4\<rparr>) = ctl_of s"
  "ctl_of (s\<lparr>a_next_repeat_beep := x5\<rparr>) = ctl_of s" "ctl_of (s\<lparr>a_auto_rotate := x6\<rparr>) = ctl_of s"
  "ctl_of (s\<lparr>a_resume_at := x7\<rparr>) = ctl_of s" "ctl_of (s\<lparr>a_last_dwell := x8\<rparr>) = ctl_of s"
  "ctl_of (s\<lparr>a_index := x9\<rparr>) = ctl_of s" "ctl_of (s\<lparr>a_scroll0 := x10\<rparr>) = ctl_of s"
  "ctl_of (s\<lparr>a_scroll1 := x11\<rparr>) = ctl_of s" "ctl_of (s\<lparr>a_fan_health := x12\<rparr>) = ctl_of s"
  "ctl_of (s\<lparr>a_driver := x13\<rparr>) = ctl_of s"
  by (simp_all add: ctl_of_def)

lemma ctl_sel [simp]:
  "c_cfg (ctl_of s) = a_cfg s" "c_mode (ctl_of s) = a_mode s" "c_over (ctl_of s) = a_over s" "c_held (ctl_of s) = a_pending_over s"
  "c_asleep (ctl_of s) = a_sleeping s" "c_wants_sleep (ctl_of s) = a_schedule_wants_sleep s"
  "c_grace_until (ctl_of s) = a_awake_override_until s"
  by (simp_all add: ctl_of_def)

lemma wake_ctl [simp]: "ctl_of (wake env s) = (ctl_of s)\<lparr>c_asleep := False\<rparr>"
  by (simp add: wake_def Let_def split: prod.split)

lemma fall_asleep_ctl [simp]: "ctl_of (fall_asleep env s) = (ctl_of s)\<lparr>c_asleep := True\<rparr>"
  by (simp add: fall_asleep_def Let_def split: prod.split)

lemma show_override_ctl [simp]: "ctl_of (show_override env ov s) = spec_show ov (ctl_of s)"
  by (simp add: show_override_def spec_show_def outranks_def Let_def split: option.split)

lemma apply_pending_ctl:
  "ctl_of (apply_pending_override env s) =
     (case a_pending_over s of None \<Rightarrow> ctl_of s | Some ov \<Rightarrow> spec_show ov ((ctl_of s)\<lparr>c_held := None\<rparr>))"
  by (simp add: apply_pending_override_def split: option.split)

lemma to_status_ctl [simp]: "ctl_of (to_status env s) = spec_home (ctl_of s)"
  by (simp add: to_status_def apply_pending_ctl spec_home_def Let_def split: option.split)

lemma start_locate_ctl [simp]: "ctl_of (start_locate env bay ttl s) = ctl_of s"
  by (simp add: start_locate_def Let_def split: option.split)

lemma end_bay_ctl [simp]: "ctl_of (end_bay_locate bay s) = ctl_of s"
  by (simp add: end_bay_locate_def)

lemma fold_end_bay_ctl [simp]: "ctl_of (fold end_bay_locate bays s) = ctl_of s"
  by (induction bays arbitrary: s) simp_all

lemma end_chassis_ctl [simp]: "ctl_of (end_chassis_locate env s) = ctl_of s"
  by (simp add: end_chassis_locate_def)

lemma stop_locate_ctl [simp]: "ctl_of (stop_locate env bay s) = ctl_of s"
  by (simp add: stop_locate_def split: option.split)

lemma expire_locates_ctl [simp]: "ctl_of (expire_locates env s) = ctl_of s"
  by (simp add: expire_locates_def Let_def split: option.split)

lemma driver_ctl [simp]: "ctl_of (snd (check_driver env s)) = ctl_of s"
  by (simp add: check_driver_def Let_def split: option.split prod.split)

lemma socket_ctl: "ctl_of (apply_socket_command env cmd s) = spec_socket (e_now env) cmd (ctl_of s)"
proof (cases cmd)
  case (Clear bay)
  then show ?thesis
    by (cases bay) (auto simp: apply_socket_command_def split: option.split)
qed (auto simp: apply_socket_command_def spec_message_def outranks_def Let_def not_less
    split: option.split)

lemma render_ctl [simp]: "ctl_of (snd (panel_render env s)) = ctl_of s"
  by (simp add: panel_render_def Let_def split: prod.split)

lemma render_action [simp]: "effect_action (fst (panel_render env s)) = None"
  by (simp add: panel_render_def Let_def split: prod.split)

lemma page_ctl [simp]: "ctl_of (page env forward s) = ctl_of s"
  by (simp add: page_def Let_def)

lemma key_ctl:
  "ctl_of (snd (handle_key env key s)) = spec_key (e_now env) key (ctl_of s)"
  "effect_action (fst (handle_key env key s)) = spec_action (OpKey env key) (ctl_of s)"
  by (cases "a_mode s"; cases key; simp add: handle_key_def spec_key_def cancel_countdown_def Let_def)+

lemma tick_part_ctl [simp]:
  "ctl_of (repeat_beep env s) = ctl_of s" "ctl_of (resume_rotation env s) = ctl_of s"
  "ctl_of (rotate_screens env s) = ctl_of s"
  by (simp_all add: repeat_beep_def resume_rotation_def rotate_screens_def split: option.split)

lemma expire_override_ctl: "ctl_of (expire_override env s) = spec_drop (e_now env) (ctl_of s)"
  by (auto simp: expire_override_def spec_drop_def split: option.split)

lemma expire_confirm_ctl: "ctl_of (expire_confirm env s) = spec_unconfirm (e_now env) (ctl_of s)"
  by (simp add: expire_confirm_def spec_unconfirm_def split: mode.split)

lemma tick_awake_ctl: "ctl_of (snd (tick_awake env s)) = spec_expire (e_now env) (ctl_of s)"
  by (simp add: tick_awake_def spec_expire_def expire_override_ctl expire_confirm_ctl)

lemma tick_awake_action: "effect_action (fst (tick_awake env s)) = None"
  by (simp add: tick_awake_def)

lemma settle_sleep_ctl:
  "ctl_of (settle_sleep env s) =
     (let grace = (case a_awake_override_until s of None \<Rightarrow> False | Some t \<Rightarrow> e_now env < t);
          c = (if grace then ctl_of s else (ctl_of s)\<lparr>c_grace_until := None\<rparr>)
      in if a_schedule_wants_sleep s \<and> \<not> a_sleeping s \<and> \<not> grace \<and> a_over s = None \<and> a_mode s = Status
         then c\<lparr>c_asleep := True\<rparr> else c)"
proof -
  define t where "t = expire_locates env s"
  have t: "ctl_of t = ctl_of s" by (simp add: t_def)
  then have "a_awake_override_until t = a_awake_override_until s"
    "a_schedule_wants_sleep t = a_schedule_wants_sleep s" "a_sleeping t = a_sleeping s"
    "a_over t = a_over s" "a_mode t = a_mode s"
    by (simp_all add: ctl_of_def)
  with t show ?thesis by (simp add: settle_sleep_def t_def [symmetric] Let_def)
qed

lemma tick_ctl:
  "ctl_of (snd (tick env s)) = spec_tick (e_now env) (ctl_of s)"
  "effect_action (fst (tick env s)) = spec_action (OpTick env) (ctl_of s)"
proof -
  define t where "t = settle_sleep env s"
  define grace where "grace = (case a_awake_override_until s of None \<Rightarrow> False | Some i \<Rightarrow> e_now env < i)"
  define c where "c = (if grace then ctl_of s else (ctl_of s)\<lparr>c_grace_until := None\<rparr>)"
  have c: "c_mode c = a_mode s" "c_over c = a_over s" "c_asleep c = a_sleeping s"
    "c_wants_sleep c = a_schedule_wants_sleep s" "c_held c = a_pending_over s"
    by (simp_all add: c_def)
  have t: "ctl_of t = (if a_schedule_wants_sleep s \<and> \<not> a_sleeping s \<and> \<not> grace \<and> a_over s = None
      \<and> a_mode s = Status then c\<lparr>c_asleep := True\<rparr> else c)"
    by (simp add: t_def settle_sleep_ctl Let_def grace_def c_def)
  have sleep: "spec_sleep (e_now env) (ctl_of s) =
      (if a_schedule_wants_sleep s then ctl_of t else (ctl_of t)\<lparr>c_asleep := False\<rparr>)"
    by (cases "a_sleeping s") (simp_all add: spec_sleep_def t Let_def c_def grace_def)
  have eqs: "a_mode t = a_mode s" "a_schedule_wants_sleep t = a_schedule_wants_sleep s"
    "a_sleeping t = (a_sleeping s \<or> a_schedule_wants_sleep s \<and> \<not> grace \<and> a_over s = None \<and> a_mode s = Status)"
    using arg_cong [OF t, of c_mode] arg_cong [OF t, of c_wants_sleep] arg_cong [OF t, of c_asleep] c
    by (auto split: if_splits)
  have awake: "(ctl_of t)\<lparr>c_asleep := False\<rparr> = ctl_of t" if "\<not> a_sleeping t"
    using that by (simp add: ctl_of_def)
  show "ctl_of (snd (tick env s)) = spec_tick (e_now env) (ctl_of s)"
    using eqs
    by (cases "a_sleeping t"; cases "a_schedule_wants_sleep s"; cases "a_mode s")
      (auto simp: tick_def spec_tick_def t_def [symmetric] Let_def tick_awake_ctl sleep awake)
  show "effect_action (fst (tick env s)) = spec_action (OpTick env) (ctl_of s)"
    using eqs
    by (cases "a_sleeping t"; cases "a_mode s"; cases "a_sleeping s")
      (auto simp: tick_def t_def [symmetric] Let_def tick_awake_action)
qed

lemma countdown_ctl: "ctl_of (start_countdown env a n l s) = spec_countdown (e_now env) a n l (ctl_of s)"
proof (cases "a_mode s")
  case (Countdown b d k)
  then have "(ctl_of s)\<lparr>c_mode := Countdown b d k\<rparr> = ctl_of s" by (simp add: ctl_of_def)
  with Countdown show ?thesis
    by (cases a; cases b) (simp_all add: start_countdown_def spec_countdown_def)
qed (simp_all add: start_countdown_def spec_countdown_def Let_def)

lemma take_beep_ctl: "ctl_of (snd (take_beep s)) = ctl_of s"
  by (simp add: take_beep_def)

text \<open>Every event refines the specification, with the action it runs.\<close>

lemma step_refines:
  "ctl_of (app_step op s) = spec_step op (ctl_of s)"
  "effect_action (app_effect op s) = spec_action op (ctl_of s)"
  by (cases op; simp add: key_ctl socket_ctl tick_ctl countdown_ctl take_beep_ctl
      set_fan_health_def set_schedule_sleep_wanted_def)+

lemma run_refines: "ctl_of (fold app_step ops s) = fold spec_step ops (ctl_of s)"
  by (induction ops arbitrary: s) (simp_all add: step_refines)

lemma init_ctl: "ctl_of (init_leds env s) = ctl_of s"
  by (simp add: init_leds_def)

end
