(* ===== verification/FrontProps.thy ===== *)
theory FrontProps
  imports FrontSpec
begin

text \<open>
  What holds of the front panel over every run of events: the LEDs, the modes, the messages, the
  actions and the width of what is shown.
\<close>

section \<open>The LEDs over a run\<close>

lemma app_step_lit: "lit f s \<Longrightarrow> lit f (app_step op s)"
  by (cases op)
    (simp_all add: handle_key_lit socket_command_lit tick_lit start_countdown_lit check_driver_lit
      set_fan_health_def set_schedule_sleep_wanted_def take_beep_def refresh_all_lit)

interpretation front_lit: step_machine app_step "lit f" for f
  by unfold_locales (rule app_step_lit)

text \<open>C8. The LEDs always tell the state. From whatever the LED files held and whatever state
  \<open>init_leds\<close> started from, after any run of events: the status LEDs show the pattern the state asks
  for, every bay being located blinks on both LEDs, and the power LED blinks during a chassis
  locate. The LCD and the LED are decided by the same alarm: on the status screens, awake and
  without a chassis locate, an alarm the LCD shows is the one the status LED shows.\<close>

theorem leds_follow_state:
  "let s = fold app_step ops (init_leds env s0) in
     status_shown (files f s) = status_table (status_pattern_for s)
     \<and> list_all (\<lambda>(bay, _). bay_shown (files f s) bay = bay_table bay BayLocate) (a_locate_bays s)
     \<and> (a_locate_chassis s = None
         \<or> shows_light (files f s) ''blue:power'' = blinking LOCATE_BLINK_MS LOCATE_BLINK_MS)
     \<and> (case (a_mode s, a_locate_chassis s, lcd_alarm s) of
          (Status, None, Some a) \<Rightarrow>
            raw_lines now s = (al_line0 a, al_line1 a)
            \<and> (a_sleeping s \<or> status_shown (files f s) = status_table (al_pattern a))
        | _ \<Rightarrow> True)"
proof -
  define s where "s = fold app_step ops (init_leds env s0)"
  have "lit f s" unfolding s_def by (rule front_lit.run_inv) (rule init_lit)
  then have lit: "coherent f s" "a_status_shown s = Some (status_pattern_for s)" "bays_blink f s"
    "power_blinks f s"
    by (simp_all add: lit_def agrees_def)
  then have st: "status_shown (files f s) = status_table (status_pattern_for s)"
    by (simp add: coherent_def)
  have bays: "list_all (\<lambda>(bay, _). bay_shown (files f s) bay = bay_table bay BayLocate) (a_locate_bays s)"
    using lit(3) by (auto simp: list_all_iff bays_blink_def located_def)
  have power: "a_locate_chassis s = None
      \<or> shows_light (files f s) ''blue:power'' = blinking LOCATE_BLINK_MS LOCATE_BLINK_MS"
    using lit(4) by (auto simp: power_blinks_def LOCATE_BLINK_MS_def)
  have lcd: "raw_lines now s = (al_line0 a, al_line1 a)
      \<and> (a_sleeping s \<or> status_shown (files f s) = status_table (al_pattern a))"
    if "a_mode s = Status" "a_locate_chassis s = None" "lcd_alarm s = Some a" for a
    using that st by (auto simp: raw_lines_def status_pattern_for_def lcd_alarm_def
        split: option.splits if_splits)
  show ?thesis
    using st bays power lcd unfolding s_def [symmetric] Let_def
    by (auto split: mode.split option.split)
qed

section \<open>Modes and messages over a run\<close>

definition fresh_message :: "override option \<Rightarrow> bool" where
  "fresh_message m = (case m of None \<Rightarrow> True
     | Some ov \<Rightarrow> always_visible (ov_level ov) \<longrightarrow> ov_expires_at ov = None)"

definition ctl_ok :: "ctl \<Rightarrow> bool" where
  "ctl_ok c \<longleftrightarrow>
     (c_asleep c \<longrightarrow> c_mode c = Status \<and> c_over c = None)
     \<and> (c_mode c = Status \<longrightarrow> c_held c = None)
     \<and> (case c_mode c of ActionMenu opts sel \<Rightarrow> opts = [Shutdown, Restart] \<and> sel < 2 | _ \<Rightarrow> True)
     \<and> fresh_message (c_over c) \<and> fresh_message (c_held c)"

lemma ctl_ok_show: "ctl_ok c \<Longrightarrow> fresh_message (Some ov) \<Longrightarrow> ctl_ok (spec_show ov c)"
  by (auto simp: ctl_ok_def spec_show_def split: mode.splits)

lemma ctl_ok_home: "ctl_ok c \<Longrightarrow> ctl_ok (spec_home c)"
  by (auto simp: spec_home_def Let_def ctl_ok_def fresh_message_def spec_show_def
      split: option.splits mode.splits)

lemma fresh_spec_message: "fresh_message (Some (spec_message now l ttl lk bay l0 l1))"
  by (simp add: fresh_message_def spec_message_def)

lemma ctl_ok_socket: "ctl_ok c \<Longrightarrow> ctl_ok (spec_socket now cmd c)"
proof (induction now cmd c rule: spec_socket.induct)
  case (1 now l ttl lk bay l0 l1 c)
  let ?ov = "spec_message now l ttl lk bay l0 l1"
  show ?case
  proof (cases "c_mode c = Status")
    case True
    with 1 show ?thesis by (simp add: Let_def ctl_ok_show fresh_spec_message)
  next
    case False
    with 1 show ?thesis by (simp add: Let_def ctl_ok_def fresh_spec_message)
  qed
qed (auto simp: ctl_ok_def fresh_message_def)

lemma mod_two_less: "n mod Suc (Suc 0) < 2"
  by (simp add: numeral_2_eq_2)

lemma ctl_ok_key: "ctl_ok c \<Longrightarrow> ctl_ok (spec_key now key c)"
proof (cases "c_asleep c")
  case True
  assume "ctl_ok c"
  with True show ?thesis by (auto simp: spec_key_def ctl_ok_def)
next
  case False
  assume c: "ctl_ok c"
  with False show ?thesis
    by (cases "c_mode c"; cases key)
      (auto simp: spec_key_def ctl_ok_home intro!: ctl_ok_show,
       auto simp: ctl_ok_def fresh_message_def mod_two_less)
qed

lemma ctl_ok_sleep: "ctl_ok c \<Longrightarrow> ctl_ok (spec_sleep now c)"
  by (auto simp: spec_sleep_def Let_def ctl_ok_def)

lemma ctl_ok_expire: "ctl_ok c \<Longrightarrow> ctl_ok (spec_expire now c)"
proof -
  assume "ctl_ok c"
  then have "ctl_ok (spec_drop now c)" by (auto simp: spec_drop_def ctl_ok_def fresh_message_def)
  then show ?thesis by (simp add: spec_expire_def spec_unconfirm_def ctl_ok_home split: mode.split)
qed

lemma ctl_ok_tick: "ctl_ok c \<Longrightarrow> ctl_ok (spec_tick now c)"
  by (simp add: spec_tick_def Let_def ctl_ok_sleep ctl_ok_home ctl_ok_expire split: mode.split)

lemma ctl_ok_countdown: "ctl_ok c \<Longrightarrow> ctl_ok (spec_countdown now a n l c)"
  by (auto simp: spec_countdown_def ctl_ok_def split: mode.splits)

lemma ctl_ok_step: "ctl_ok c \<Longrightarrow> ctl_ok (spec_step op c)"
  by (cases op) (simp_all add: ctl_ok_key ctl_ok_socket ctl_ok_tick ctl_ok_countdown,
    auto simp: ctl_ok_def)

interpretation ctl_machine: step_machine spec_step ctl_ok
  by unfold_locales (rule ctl_ok_step)

lemma ctl_ok_new: "ctl_ok (ctl_of (app_new cfg now))"
  by (simp add: ctl_ok_def ctl_of_def app_new_def fresh_message_def)

text \<open>C9. \<open>AppState\<close> refines the small machine of \<open>FrontSpec\<close>: over every run its mode, messages and
  sleep are exactly what that machine computes, and an event runs an action exactly when the
  machine says so.\<close>

theorem app_refines:
  "ctl_of (fold app_step ops s) = fold spec_step ops (ctl_of s)
   \<and> (app_effect op (fold app_step ops s) = RunAction a
        \<longleftrightarrow> spec_action op (fold spec_step ops (ctl_of s)) = Some a)"
proof -
  let ?s = "fold app_step ops s"
  have "app_effect op ?s = RunAction a \<longleftrightarrow> effect_action (app_effect op ?s) = Some a"
    by (cases "app_effect op ?s") simp_all
  then show ?thesis by (simp only: step_refines(2) run_refines simp_thms)
qed

text \<open>C19. In every reachable state of the front panel: it sleeps only on the status screens and under no
  message; no message is held back on the status screens; the menu is the two actions with one
  of them selected (so indexing it and wrapping around cannot panic); and a message that is shown
  even at night never expires by itself.\<close>

theorem front_invariant:
  "let s = fold app_step ops (init_leds env (app_new cfg now)) in
     (if a_sleeping s then a_mode s = Status \<and> a_over s = None else True)
     \<and> (if a_mode s = Status then a_pending_over s = None else True)
     \<and> (case a_mode s of ActionMenu opts sel \<Rightarrow> opts = [Shutdown, Restart] \<and> sel < length opts | _ \<Rightarrow> True)
     \<and> (case a_over s of Some ov \<Rightarrow> if always_visible (ov_level ov) then ov_expires_at ov = None else True
        | None \<Rightarrow> True)"
proof -
  define s where "s = fold app_step ops (init_leds env (app_new cfg now))"
  have "ctl_ok (ctl_of s)"
    unfolding s_def run_refines init_ctl by (rule ctl_machine.run_inv) (rule ctl_ok_new)
  then have "(if a_sleeping s then a_mode s = Status \<and> a_over s = None else True)
     \<and> (if a_mode s = Status then a_pending_over s = None else True)
     \<and> (case a_mode s of ActionMenu opts sel \<Rightarrow> opts = [Shutdown, Restart] \<and> sel < length opts | _ \<Rightarrow> True)
     \<and> (case a_over s of Some ov \<Rightarrow> if always_visible (ov_level ov) then ov_expires_at ov = None else True
        | None \<Rightarrow> True)"
    by (auto simp: ctl_ok_def fresh_message_def split: mode.splits option.splits)
  then show ?thesis unfolding s_def [symmetric] Let_def .
qed

section \<open>Actions\<close>

fun enter_press :: "app_op \<Rightarrow> bool" where
  "enter_press (OpKey env Enter) = True"
| "enter_press _ = False"

fun countdown_start :: "app_op \<Rightarrow> bool" where
  "countdown_start (OpCountdown env a n l) = True"
| "countdown_start _ = False"

text \<open>How many presses of Enter a mode took at least; a countdown is out of reach.\<close>

fun presses :: "mode \<Rightarrow> nat option" where
  "presses Status = Some 0"
| "presses (ActionMenu opts sel) = Some 1"
| "presses (Confirm a d) = Some 2"
| "presses (Countdown a d l) = None"

definition pressed :: "nat \<Rightarrow> mode \<Rightarrow> bool" where
  "pressed n m \<longleftrightarrow> (case presses m of None \<Rightarrow> False | Some k \<Rightarrow> k \<le> n)"

lemma pressed_Status [simp]: "pressed n Status"
  by (simp add: pressed_def)

lemma pressed_mono: "pressed n m \<Longrightarrow> pressed (Suc n) m"
  by (auto simp: pressed_def split: option.splits)

lemma show_mode [simp]: "c_mode (spec_show ov c) = c_mode c"
  by (simp add: spec_show_def)

lemma home_mode [simp]: "c_mode (spec_home c) = Status"
  by (simp add: spec_home_def Let_def split: option.split)

lemma socket_mode [simp]: "c_mode (spec_socket now cmd c) = c_mode c"
  by (induction now cmd c rule: spec_socket.induct) (simp_all add: Let_def)

lemma sleep_mode [simp]: "c_mode (spec_sleep now c) = c_mode c"
  by (simp add: spec_sleep_def Let_def)

lemma drop_mode [simp]: "c_mode (spec_drop now c) = c_mode c"
  by (simp add: spec_drop_def)

lemma expire_mode: "c_mode (spec_expire now c) = c_mode c \<or> c_mode (spec_expire now c) = Status"
  by (simp add: spec_expire_def spec_unconfirm_def split: mode.split)

lemma tick_pressed: "pressed n (c_mode c) \<Longrightarrow> pressed n (c_mode (spec_tick now c))"
  using expire_mode [of now "spec_sleep now c"]
  by (auto simp: spec_tick_def Let_def split: mode.split)

lemma key_pressed:
  "pressed n (c_mode c) \<Longrightarrow> pressed (if key = Enter then Suc n else n) (c_mode (spec_key now key c))"
  by (cases "c_mode c"; cases key) (simp_all add: spec_key_def pressed_def)

lemma step_pressed:
  assumes "pressed n (c_mode c)" "\<not> countdown_start op"
  shows "pressed (if enter_press op then Suc n else n) (c_mode (spec_step op c))"
proof (cases op)
  case (OpKey env key)
  with assms(1) key_pressed [of n c key "e_now env"] show ?thesis by (cases key) simp_all
qed (use assms in \<open>simp_all add: tick_pressed\<close>)

lemma run_pressed:
  "pressed n (c_mode c) \<Longrightarrow> \<not> list_ex countdown_start ops \<Longrightarrow>
     pressed (n + length (filter enter_press ops)) (c_mode (fold spec_step ops c))"
proof (induction ops arbitrary: n c)
  case (Cons op ops)
  then have "pressed (if enter_press op then Suc n else n) (c_mode (spec_step op c))"
    by (simp add: step_pressed)
  from Cons.IH [OF this] Cons.prems(2) show ?case by (cases "enter_press op") simp_all
qed simp

lemma confirmed_action:
  assumes "a_mode s = Status" "app_effect op (fold app_step ops s) = RunAction a"
    and "\<not> list_ex countdown_start ops"
  shows "enter_press op \<and> 3 \<le> length (filter enter_press (ops @ [op]))
    \<and> (\<exists>deadline. a_mode (fold app_step ops s) = Confirm a deadline)"
proof -
  let ?s = "fold app_step ops s"
  have act: "spec_action op (ctl_of ?s) = Some a"
    using assms(2) step_refines(2) [of op ?s] by simp
  have "pressed (0 + length (filter enter_press ops)) (c_mode (ctl_of ?s))"
    unfolding run_refines by (rule run_pressed) (simp_all add: assms)
  with act show ?thesis
    by (cases op) (auto simp: pressed_def split: mode.splits if_splits)
qed

lemma init_mode: "a_mode (init_leds env s) = a_mode s"
  using arg_cong [OF init_ctl [of env s], of c_mode] by simp

text \<open>The NAS is never shut down by accident from the front panel: unless a power schedule started
  a countdown, an event that runs an action is a press of Enter in the confirmation of that
  action, and at least three presses of Enter were needed.\<close>

theorem action_needs_confirmation:
  assumes "app_effect op (fold app_step ops (init_leds env (app_new cfg now))) = RunAction a"
    and "\<not> list_ex countdown_start ops"
  shows "enter_press op \<and> 3 \<le> length (filter enter_press (ops @ [op]))
    \<and> (\<exists>deadline. a_mode (fold app_step ops (init_leds env (app_new cfg now))) = Confirm a deadline)"
  by (rule confirmed_action [OF _ assms]) (simp add: init_mode, simp add: app_new_def)

text \<open>An environment in which nothing answers, for concrete runs.\<close>

definition quiet_env :: "instant \<Rightarrow> env" where
  "quiet_env now =
     \<lparr>e_now = now, e_hostname = None, e_pools = None, e_disks = [], e_network = [],
      e_hdd = (\<lambda>_. []), e_temperature = [], e_docker = [], e_temps = [], e_configured_nics = [],
      e_carrier = (\<lambda>_. None), e_nic = (\<lambda>_. None), e_bay_mode = (\<lambda>_. None),
      e_brightness = (\<lambda>_. None), e_read_brightness = None,
      e_snapshot = \<lparr>snap_core = [None, None], snap_brightness = None\<rparr>\<rparr>"

definition fresh_app :: app where
  "fresh_app = init_leds (quiet_env 0) (app_new app_config_default 0)"

lemma fresh_ctl:
  "ctl_of fresh_app = \<lparr>c_cfg = app_config_default, c_mode = Status, c_over = None, c_held = None,
     c_asleep = False, c_wants_sleep = False, c_grace_until = None\<rparr>"
  by (simp add: fresh_app_def init_ctl) (simp add: ctl_of_def app_new_def)

lemma action_by_spec: "spec_action op (fold spec_step ops (ctl_of s)) = Some a \<Longrightarrow>
    app_effect op (fold app_step ops s) = RunAction a"
  using step_refines(2) [of op "fold app_step ops s"]
  by (cases "app_effect op (fold app_step ops s)") (simp_all add: run_refines)

theorem action_needs_confirmation_witness:
  "\<exists>deadline. a_mode (fold app_step [OpKey (quiet_env 0) Enter, OpKey (quiet_env 0) Enter]
     (init_leds (quiet_env 0) (app_new app_config_default 0))) = Confirm Shutdown deadline"
proof -
  let ?ops = "[OpKey (quiet_env 0) Enter, OpKey (quiet_env 0) Enter]"
  have "app_effect (OpKey (quiet_env 0) Enter) (fold app_step ?ops fresh_app) = RunAction Shutdown"
    by (rule action_by_spec) (simp add: fresh_ctl spec_key_def)
  from action_needs_confirmation [OF this [unfolded fresh_app_def]] show ?thesis by simp
qed

section \<open>Countdowns\<close>

text \<open>An event during which a countdown to \<open>d\<close> keeps running.\<close>

fun leaves_countdown :: "instant \<Rightarrow> app_op \<Rightarrow> bool" where
  "leaves_countdown d (OpKey env key) = False"
| "leaves_countdown d (OpTick env) = (e_now env < d)"
| "leaves_countdown d (OpCountdown env a n l) = False"
| "leaves_countdown d _ = True"

lemma expire_countdown: "c_mode c = Countdown a d l \<Longrightarrow> spec_expire now c = spec_drop now c"
  by (simp add: spec_expire_def spec_unconfirm_def)

lemma socket_awake: "\<not> c_asleep c \<Longrightarrow> \<not> c_asleep (spec_socket now cmd c)"
  by (induction now cmd c rule: spec_socket.induct) (simp_all add: Let_def spec_show_def)

lemma step_counting:
  assumes "c_mode c = Countdown a d l" "\<not> c_asleep c" "leaves_countdown d op"
  shows "c_mode (spec_step op c) = Countdown a d l \<and> \<not> c_asleep (spec_step op c)"
proof (cases op)
  case (OpTick env)
  let ?c = "spec_sleep (e_now env) c"
  have "c_mode ?c = Countdown a d l" "\<not> c_asleep ?c"
    using assms by (simp_all add: spec_sleep_def Let_def)
  moreover have "\<not> c_asleep (spec_drop (e_now env) ?c)"
    using \<open>\<not> c_asleep ?c\<close> by (simp add: spec_drop_def)
  ultimately show ?thesis
    using assms OpTick by (simp add: spec_tick_def Let_def expire_countdown)
qed (use assms in \<open>simp_all add: socket_awake\<close>)

lemma run_counting:
  "c_mode c = Countdown a d l \<Longrightarrow> \<not> c_asleep c \<Longrightarrow> list_all (leaves_countdown d) ops \<Longrightarrow>
     c_mode (fold spec_step ops c) = Countdown a d l \<and> \<not> c_asleep (fold spec_step ops c)"
proof (induction ops arbitrary: c)
  case (Cons op ops)
  then have "c_mode (spec_step op c) = Countdown a d l" "\<not> c_asleep (spec_step op c)"
    by (simp_all add: step_counting)
  with Cons show ?case by simp
qed simp



section \<open>Severe messages\<close>

text \<open>A message that has to stay visible is only ever replaced by one at least as severe.\<close>

definition keeps_message :: "ctl \<Rightarrow> ctl \<Rightarrow> bool" where
  "keeps_message c c' \<longleftrightarrow>
     (case c_over c of None \<Rightarrow> True
      | Some ov \<Rightarrow> always_visible (ov_level ov) \<longrightarrow>
          (\<exists>ov'. c_over c' = Some ov' \<and> ov_level ov \<le> ov_level ov'))"

lemma visible_mono: "always_visible l \<Longrightarrow> l \<le> l' \<Longrightarrow> always_visible l'"
  by (cases l; cases l') (auto simp: less_eq_level_def always_visible_def)

lemma keeps_same: "c_over c' = c_over c \<Longrightarrow> keeps_message c c'"
  by (auto simp: keeps_message_def split: option.split)

lemma keeps_trans: "keeps_message a b \<Longrightarrow> keeps_message b c \<Longrightarrow> keeps_message a c"
  by (fastforce simp: keeps_message_def dest: visible_mono intro: order_trans split: option.splits)

lemma keeps_show: "keeps_message c (spec_show ov c)"
  by (auto simp: keeps_message_def spec_show_def outranks_def split: option.splits)

lemma keeps_home: "keeps_message c (spec_home c)"
proof (cases "c_held c")
  case None
  then show ?thesis by (simp add: spec_home_def keeps_same)
next
  case (Some ov)
  let ?c = "c\<lparr>c_mode := Status, c_held := None\<rparr>"
  have "keeps_message c ?c" by (simp add: keeps_same)
  then show ?thesis using keeps_show [of ?c ov] Some
    by (auto simp: spec_home_def Let_def intro: keeps_trans)
qed

text \<open>Events without \<open>Clear\<close>: such a run is a run of this machine.\<close>

fun clears :: "app_op \<Rightarrow> bool" where
  "clears (OpSocket env (Clear bay)) = True"
| "clears _ = False"

definition step_unless_clear :: "app_op \<Rightarrow> ctl \<Rightarrow> ctl" where
  "step_unless_clear op c = (if clears op then c else spec_step op c)"

lemma keeps_drop: "ctl_ok c \<Longrightarrow> keeps_message c (spec_drop now c)"
  by (auto simp: ctl_ok_def fresh_message_def spec_drop_def keeps_message_def split: option.splits)

lemma keeps_unconfirm: "keeps_message c (spec_unconfirm now c)"
  by (simp add: spec_unconfirm_def keeps_home keeps_same split: mode.split)

lemma keeps_expire: "ctl_ok c \<Longrightarrow> keeps_message c (spec_expire now c)"
  unfolding spec_expire_def by (rule keeps_trans [OF keeps_drop keeps_unconfirm])

lemma keeps_sleep: "keeps_message c (spec_sleep now c)"
  by (simp add: spec_sleep_def Let_def keeps_same)

lemma keeps_tick:
  assumes "ctl_ok c"
  shows "keeps_message c (spec_tick now c)"
proof -
  have "keeps_message c (spec_home (spec_sleep now c))"
    by (rule keeps_trans [OF keeps_sleep keeps_home])
  moreover have "keeps_message c (spec_expire now (spec_sleep now c))"
    by (rule keeps_trans [OF keeps_sleep keeps_expire]) (simp add: assms ctl_ok_sleep)
  ultimately show ?thesis
    by (simp add: spec_tick_def Let_def keeps_sleep split: mode.split)
qed

lemma keeps_key: "keeps_message c (spec_key now key c)"
proof (cases "c_asleep c")
  case True
  then show ?thesis by (simp add: spec_key_def keeps_same)
next
  case False
  then show ?thesis
    by (cases "c_mode c"; cases key)
      (simp_all add: spec_key_def keeps_home keeps_same keeps_trans [OF keeps_home keeps_show])
qed

lemma keeps_socket: "\<not> clears (OpSocket env cmd) \<Longrightarrow> keeps_message c (spec_socket now cmd c)"
  by (induction now cmd c rule: spec_socket.induct) (simp_all add: Let_def keeps_show keeps_same)

lemma keeps_step: "ctl_ok c \<Longrightarrow> keeps_message c (step_unless_clear op c)"
  by (cases op) (auto simp: step_unless_clear_def keeps_key keeps_tick spec_countdown_def
      intro!: keeps_socket intro: keeps_same split: mode.split)

lemma ctl_ok_unless_clear: "ctl_ok c \<Longrightarrow> ctl_ok (step_unless_clear op c)"
  by (simp add: step_unless_clear_def ctl_ok_step)

interpretation unless_clear: related_machine step_unless_clear ctl_ok keeps_message
  by unfold_locales (auto intro: ctl_ok_unless_clear keeps_same keeps_trans keeps_step)

lemma run_unless_clear:
  "list_all (\<lambda>op. \<not> clears op) ops \<Longrightarrow> fold step_unless_clear ops c = fold spec_step ops c"
  by (induction ops arbitrary: c) (simp_all add: step_unless_clear_def)

text \<open>C17. An error or critical message stays until it is cleared: over any events but a \<open>Clear\<close>, keys,
  sleep, expiry, menus and other messages included, what is shown is at least as severe as what
  was, and the panel is not asleep.\<close>

theorem severe_message_stays:
  assumes "a_over (fold app_step before (init_leds env (app_new cfg now))) = Some ov"
    and "always_visible (ov_level ov)" and "list_all (\<lambda>op. \<not> clears op) ops"
  shows "let s = fold app_step (before @ ops) (init_leds env (app_new cfg now)) in
    \<not> a_sleeping s \<and> (\<exists>ov'. a_over s = Some ov' \<and> ov_level ov \<le> ov_level ov')"
proof -
  define b where "b = fold app_step before (init_leds env (app_new cfg now))"
  define s where "s = fold app_step ops b"
  have b: "ctl_ok (ctl_of b)"
    unfolding b_def run_refines init_ctl by (rule ctl_machine.run_inv) (rule ctl_ok_new)
  have "keeps_message (ctl_of b) (ctl_of s)"
    unfolding s_def run_refines run_unless_clear [OF assms(3), symmetric]
    by (rule unless_clear.run_rel) (rule b)
  with assms have "\<exists>ov'. a_over s = Some ov' \<and> ov_level ov \<le> ov_level ov'"
    by (simp add: keeps_message_def b_def)
  moreover have "ctl_ok (ctl_of s)"
    unfolding s_def run_refines by (rule ctl_machine.run_inv) (rule b)
  ultimately show ?thesis by (auto simp: b_def s_def ctl_ok_def Let_def)
qed

theorem severe_message_stays_witness:
  "\<exists>ov'. a_over (fold app_step
      ([OpSocket (quiet_env 0) (Show Error 0 look_default (Some 2) ''BACKUP'' ''FAILED'')] @
       [OpSleepWanted True, OpTick (quiet_env 60), OpSocket (quiet_env 70) (Show Info 5 look_default None ''HI'' [])])
      (init_leds (quiet_env 0) (app_new app_config_default 0))) = Some ov' \<and> Error \<le> ov_level ov'"
proof -
  let ?show = "[OpSocket (quiet_env 0) (Show Error 0 look_default (Some 2) ''BACKUP'' ''FAILED'')]"
  let ?ov = "spec_message 0 Error 0 look_default (Some 2) ''BACKUP'' ''FAILED''"
  have "c_over (ctl_of (fold app_step ?show fresh_app)) = Some ?ov"
    by (simp only: run_refines fresh_ctl)
      (simp add: spec_show_def outranks_def spec_message_def always_visible_def quiet_env_def)
  then have "a_over (fold app_step ?show (init_leds (quiet_env 0) (app_new app_config_default 0))) = Some ?ov"
    by (simp add: fresh_app_def)
  from severe_message_stays [OF this, of "[OpSleepWanted True, OpTick (quiet_env 60),
      OpSocket (quiet_env 70) (Show Info 5 look_default None ''HI'' [])]"]
  show ?thesis by (simp add: Let_def spec_message_def always_visible_def del: app_step.simps)
qed

section \<open>The width of the LCD\<close>

lemma scroll_step_fits: "length (fst (scroll_step cfg now txt sc)) \<le> 16"
  by (simp add: scroll_step_def scroll_window_def Let_def)

definition effect_fits :: "effect \<Rightarrow> bool" where
  "effect_fits e = (case e of Render l0 l1 \<Rightarrow> length l0 \<le> 16 \<and> length l1 \<le> 16 | _ \<Rightarrow> True)"

lemma panel_render_fits: "effect_fits (fst (panel_render env s))"
proof -
  let ?cfg = "ac_display (a_cfg s)"
  obtain raw0 raw1 where "raw_lines (e_now env) s = (raw0, raw1)" by fastforce
  then show ?thesis
    using scroll_step_fits [of ?cfg "e_now env" "take (dc_scroll_max_chars ?cfg) raw0" "a_scroll0 s"]
      scroll_step_fits [of ?cfg "e_now env" "take (dc_scroll_max_chars ?cfg) raw1" "a_scroll1 s"]
    by (simp add: panel_render_def Let_def effect_fits_def case_prod_beta)
qed

lemma effect_fits_simps [simp]: "effect_fits NoEffect" "effect_fits (RunAction a)" "effect_fits (Render [] [])"
  by (simp_all add: effect_fits_def)

lemma app_effect_fits: "effect_fits (app_effect op s)"
proof (cases op)
  case (OpKey env key)
  then show ?thesis
    by (cases "a_mode s"; cases key)
      (simp_all add: handle_key_def cancel_countdown_def Let_def panel_render_fits)
next
  case (OpTick env)
  then show ?thesis
    by (simp add: tick_def tick_awake_def Let_def panel_render_fits split: mode.split)
qed simp_all

lemma scroll_window_rotate:
  assumes "16 < length (scl_text sc)"
  shows "scroll_window cfg sc =
    take 16 (rotate (scl_offset sc) (scl_text sc @ replicate (dc_scroll_gap cfg) CHR '' ''))"
proof (rule nth_equalityI)
  show "length (scroll_window cfg sc) =
      length (take 16 (rotate (scl_offset sc) (scl_text sc @ replicate (dc_scroll_gap cfg) CHR '' '')))"
    using assms by (simp add: scroll_window_def Let_def)
next
  fix i
  assume "i < length (scroll_window cfg sc)"
  then have "i < 16" by (simp add: scroll_window_def Let_def)
  let ?n = "length (scl_text sc)" and ?pos = "(scl_offset sc + i) mod (length (scl_text sc) + dc_scroll_gap cfg)"
  have "?pos < ?n + dc_scroll_gap cfg" using assms by (intro mod_less_divisor) linarith
  then have "?pos - ?n < dc_scroll_gap cfg" if "\<not> ?pos < ?n" using that by linarith
  with assms \<open>i < 16\<close> show "scroll_window cfg sc ! i =
      take 16 (rotate (scl_offset sc) (scl_text sc @ replicate (dc_scroll_gap cfg) CHR '' '')) ! i"
    by (auto simp: scroll_window_def Let_def nth_rotate nth_append)
qed

lemma scroll_advance_text [simp]: "scl_text (scroll_advance cfg now sc) = scl_text sc"
  by (simp add: scroll_advance_def Let_def)

lemma scroll_start_text [simp]: "scl_text (scroll_start now txt sc) = txt"
  by (simp add: scroll_start_def)

text \<open>Nothing wider than the LCD is ever sent to it: both lines of every effect of every event have
  at most 16 characters. A text that fits is shown as it is; a longer one goes round, as the 16
  characters of the text and its gap that start at the scroll offset.\<close>

theorem lines_fit:
  "(case app_effect op s of Render l0 l1 \<Rightarrow> length l0 \<le> 16 \<and> length l1 \<le> 16 | _ \<Rightarrow> True)
   \<and> (let (shown, sc') = scroll_step cfg now txt sc in
        scl_text sc' = txt
        \<and> shown = (if length txt \<le> 16 then txt
             else take 16 (rotate (scl_offset sc') (txt @ replicate (dc_scroll_gap cfg) CHR '' ''))))"
proof -
  have "effect_fits (app_effect op s)" by (rule app_effect_fits)
  moreover have "let (shown, sc') = scroll_step cfg now txt sc in
        scl_text sc' = txt
        \<and> shown = (if length txt \<le> 16 then txt
             else take 16 (rotate (scl_offset sc') (txt @ replicate (dc_scroll_gap cfg) CHR '' '')))"
    by (simp add: scroll_step_def Let_def scroll_window_rotate)
  ultimately show ?thesis by (simp add: effect_fits_def)
qed

text \<open>A message held back while the menu is open survives a \<open>CLEAR\<close> sent after it, and is shown
  when the menu closes.\<close>

lemma clear_keeps_held:
  "c_held (spec_socket now (Clear None) c) = c_held c"
  "c_held c = Some ov \<Longrightarrow> \<not> c_asleep c \<Longrightarrow>
     c_over (spec_home (spec_socket now (Clear None) c)) = Some ov"
  by (simp_all add: spec_home_def spec_show_def outranks_def Let_def)

end
