(* ===== verification/Fan.thy ===== *)
theory Fan
  imports Settings Hal
begin

text \<open>
  \<open>src/fan.rs\<close>: one controller per fan. A sensor's reader thread publishes samples; a tick of the
  controller sees the samples of that moment (\<open>fe_samples\<close>), whether the pwm chip resolves
  (\<open>fe_resolved\<close>), whether its two writes work (\<open>fe_manual_ok\<close>, \<open>fe_write_ok\<close>) and the tachometer
  (\<open>fe_rpm\<close>). The pwm values written and the log lines are appended to two fields of the controller,
  as in \<open>Panel\<close>. A \<open>u8\<close> pwm is a \<open>nat\<close>; temperatures are finite \<open>f32\<close> values, held as \<open>rat\<close> and
  rounded by \<open>f32_round\<close> after every operation (no overflow to infinity).
\<close>

section \<open>Sensors\<close>

definition MIN_SENSOR_INTERVAL_SECS :: nat where "MIN_SENSOR_INTERVAL_SECS = 1"
definition MAX_SENSOR_INTERVAL_SECS :: nat where "MAX_SENSOR_INTERVAL_SECS = 300"
definition MIN_SENSOR_MAX_AGE :: duration where "MIN_SENSOR_MAX_AGE = secs 10"
definition UNRESPONSIVE_AFTER_STALLS :: nat where "UNRESPONSIVE_AFTER_STALLS = 3"

record timing =
  tm_sensor_loss_grace :: duration
  tm_sensor_recovery_hold :: duration
  tm_control_warn_after :: duration
  tm_control_critical_after :: duration
  tm_sensor_takeover_after :: duration

definition timing_default :: timing where
  "timing_default =
     \<lparr>tm_sensor_loss_grace = secs 10, tm_sensor_recovery_hold = secs 30,
      tm_control_warn_after = secs 30, tm_control_critical_after = secs 180,
      tm_sensor_takeover_after = secs 30\<rparr>"

record control_loss =
  cl_since :: instant
  cl_why :: string
  cl_warned :: bool
  cl_critical :: bool

record sample =
  sm_at :: "instant option"
  sm_value :: "rat option"

record sensor_feed =
  fd_max_age :: duration
  fd_ever_read :: bool
  fd_lost_since :: "instant option"
  fd_held :: bool
  fd_back_since :: "instant option"

definition sampling_secs :: "sensor_selector \<Rightarrow> nat \<Rightarrow> nat" where
  "sampling_secs sel update_secs =
     max MIN_SENSOR_INTERVAL_SECS
       (min MAX_SENSOR_INTERVAL_SECS
         (case sel_min_resample_secs sel of None \<Rightarrow> update_secs | Some n \<Rightarrow> n))"

definition feed_new :: "sensor_selector \<Rightarrow> nat \<Rightarrow> sensor_feed" where
  "feed_new sel update_secs =
     \<lparr>fd_max_age = max (secs (sampling_secs sel update_secs * 3)) MIN_SENSOR_MAX_AGE,
      fd_ever_read = False, fd_lost_since = None, fd_held = False, fd_back_since = None\<rparr>"

definition feed_current :: "instant \<Rightarrow> sample \<Rightarrow> sensor_feed \<Rightarrow> rat option" where
  "feed_current now sm fd =
     (case sm_at sm of
        None \<Rightarrow> None
      | Some t \<Rightarrow> if since now t \<le> fd_max_age fd then sm_value sm else None)"

text \<open>What a reader publishes: the hottest of the readings its selector resolves to.\<close>

definition reader_value :: "rat list \<Rightarrow> rat option" where
  "reader_value ts = (case ts of [] \<Rightarrow> None | t # ts \<Rightarrow> Some (fold max ts t))"

text \<open>One selector in \<open>track_sensors\<close>: the feed afterwards and what is logged about it.\<close>

definition track_feed ::
  "timing \<Rightarrow> instant \<Rightarrow> string \<Rightarrow> rat option \<Rightarrow> sensor_feed \<Rightarrow> sensor_feed \<times> log_line list" where
  "track_feed tm now chip current fd =
     (if current \<noteq> None
      then
        let fd = fd\<lparr>fd_ever_read := True, fd_lost_since := None\<rparr> in
        if fd_held fd
        then
          let back = (case fd_back_since fd of None \<Rightarrow> now | Some t \<Rightarrow> t);
              fd = fd\<lparr>fd_back_since := Some back\<rparr>
          in if tm_sensor_recovery_hold tm \<le> since now back
             then (fd\<lparr>fd_held := False, fd_back_since := None\<rparr>,
                   [syslog PNotice ''sensor_steady'' [chip] []])
             else (fd, [])
        else (fd, [])
      else if fd_ever_read fd
      then
        let lost = (case fd_lost_since fd of None \<Rightarrow> now | Some t \<Rightarrow> t);
            fd = fd\<lparr>fd_back_since := None, fd_lost_since := Some lost\<rparr>
        in if \<not> fd_held fd \<and> tm_sensor_loss_grace tm \<le> since now lost
           then (fd\<lparr>fd_held := True\<rparr>, [syslog PWarning ''sensor_lost'' [chip] []])
           else (fd, [])
      else (fd, []))"

section \<open>The curve\<close>

definition compute_pwm :: "rat \<Rightarrow> rat \<Rightarrow> rat \<Rightarrow> fan_profile \<Rightarrow> nat" where
  "compute_pwm temp_c min_temp_c max_temp_c cfg =
     (let raw =
        (if temp_c \<le> min_temp_c then of_nat (fp_min_pwm cfg)
         else if max_temp_c \<le> temp_c then of_nat (fp_max_pwm cfg)
         else
           let min_stop = of_nat (fp_min_stop_pwm cfg); max_pwm = of_nat (fp_max_pwm cfg) in
           f32_round
             (f32_round
               (f32_round (f32_round (temp_c - min_temp_c) * f32_round (max_pwm - min_stop))
                / f32_round (max_temp_c - min_temp_c))
              + min_stop))
      in nat (min 255 (max 0 (round_away raw))))"

section \<open>The controller\<close>

datatype pwm_command = SetPwm nat | Kick nat

record fan =
  fc_profile :: fan_profile
  fc_hwmon :: "string option"
  fc_last_pwm :: "nat option"
  fc_kick_until :: "instant option"
  fc_feeds :: "sensor_feed list"
  fc_timing :: timing
  fc_thresholds :: "(rat \<times> rat) list"
  fc_critical_override :: bool
  fc_last_tick :: "instant option"
  fc_ever_ran_normally :: bool
  fc_consecutive_stalls :: nat
  fc_low_rpm_warned :: bool
  fc_sensors_lost :: bool
  fc_any_sensor_read :: bool
  fc_started :: instant
  fc_control_loss :: "control_loss option"
  fc_no_sensor_critical_logged :: bool
  fc_written :: "nat list"
  fc_log :: "log_line list"

record fan_env =
  fe_now :: instant
  fe_samples :: "sample list"
  fe_resolved :: "string option"
  fe_manual_ok :: bool
  fe_write_ok :: bool
  fe_rpm :: "rat option"

definition fan_logs :: "log_line list \<Rightarrow> fan \<Rightarrow> fan" where
  "fan_logs ls f = f\<lparr>fc_log := fc_log f @ ls\<rparr>"

definition starting_unmanaged :: "fan \<Rightarrow> fan" where
  "starting_unmanaged f =
     (if fp_enabled (fc_profile f)
      then f\<lparr>fc_control_loss := Some \<lparr>cl_since = fc_started f, cl_why = ''not taken over yet'',
                                    cl_warned = False, cl_critical = False\<rparr>\<rparr>
      else f)"

definition fan_new :: "instant \<Rightarrow> temperature_config \<Rightarrow> fan_profile \<Rightarrow> fan" where
  "fan_new now temperature profile =
     starting_unmanaged
       \<lparr>fc_profile = profile, fc_hwmon = None, fc_last_pwm = None, fc_kick_until = None,
        fc_feeds = map (\<lambda>sel. feed_new sel (fp_update_secs profile)) (fp_sensors profile),
        fc_timing = timing_default,
        fc_thresholds = map (\<lambda>sel. resolve_temp_threshold temperature (sel_chip sel)) (fp_sensors profile),
        fc_critical_override = False, fc_last_tick = None, fc_ever_ran_normally = False,
        fc_consecutive_stalls = 0, fc_low_rpm_warned = False, fc_sensors_lost = False,
        fc_any_sensor_read = False, fc_started = now, fc_control_loss = None,
        fc_no_sensor_critical_logged = False, fc_written = [], fc_log = []\<rparr>"

definition floor_active :: "fan \<Rightarrow> bool" where
  "floor_active f = list_ex fd_held (fc_feeds f)"

definition health_level :: "instant \<Rightarrow> fan \<Rightarrow> level" where
  "health_level now f =
     (if fp_disabled_by_config (fc_profile f) then Warn
      else
        let uncontrolled_for = map_option (\<lambda>l. since now (cl_since l)) (fc_control_loss f);
            at_least = (\<lambda>limit. case uncontrolled_for of None \<Rightarrow> False | Some t \<Rightarrow> limit \<le> t);
            never_had_a_sensor = (fc_sensors_lost f \<and> \<not> fc_any_sensor_read f)
        in if UNRESPONSIVE_AFTER_STALLS \<le> fc_consecutive_stalls f
              \<or> at_least (tm_control_critical_after (fc_timing f))
              \<or> never_had_a_sensor
                \<and> tm_control_critical_after (fc_timing f) \<le> since now (fc_started f)
           then Critical
           else if at_least (tm_control_warn_after (fc_timing f)) \<or> 0 < fc_consecutive_stalls f
              \<or> fc_low_rpm_warned f \<or> fc_sensors_lost f \<or> floor_active f
           then Warn else Info)"

text \<open>\<open>status_line\<close>; \<open>rpm\<close> is what reading the tachometer returns now.\<close>

definition status_line :: "instant \<Rightarrow> rat option \<Rightarrow> fan \<Rightarrow> string" where
  "status_line now rpm f =
     (let p = fc_profile f;
          head = fp_name p @ '' (pwm'' @ nat_str (fp_pwm_index p) @ ''): '';
          health = '' ['' @ level_debug (health_level now f) @ '']''
      in if \<not> fp_enabled p
         then head @ (if fp_disabled_by_config p
                      then ''disabled by config (left in BIOS/driver mode, which may stop the fan)''
                      else ''disabled'') @ health
         else
           let pwm = (case fc_last_pwm f of None \<Rightarrow> 0 | Some v \<Rightarrow> v);
               speed = (case (fc_hwmon f, fp_fan_index p) of
                          (Some _, Some _) \<Rightarrow>
                            (case rpm of None \<Rightarrow> ''--'' | Some r \<Rightarrow> fmt_fixed 0 r @ ''rpm'')
                        | _ \<Rightarrow> ''--'');
               mode = (case (fp_mode p, fc_critical_override f) of
                         (FanCurve, False) \<Rightarrow> []
                       | (FanCurve, True) \<Rightarrow> '' critical-temp override''
                       | (FanFixed, False) \<Rightarrow> '' fixed''
                       | (FanFixed, True) \<Rightarrow> '' fixed, critical-temp override'')
           in head @ ''pwm='' @ nat_str pwm @ '' ('' @ nat_str (pwm * 100 div 255) @ ''%) '' @ speed @ health @ mode)"

definition worst_health :: "instant \<Rightarrow> fan list \<Rightarrow> level" where
  "worst_health now fans = fold max (map (health_level now) fans) Info"

subsection \<open>Losing and keeping control\<close>

definition note_control_lost :: "instant \<Rightarrow> string \<Rightarrow> fan \<Rightarrow> fan" where
  "note_control_lost now why f =
     (let loss = (case fc_control_loss f of
                    None \<Rightarrow> \<lparr>cl_since = now, cl_why = [], cl_warned = False, cl_critical = False\<rparr>
                  | Some l \<Rightarrow> l);
          loss = loss\<lparr>cl_why := why\<rparr>;
          age = since now (cl_since loss);
          tm = fc_timing f
      in if tm_control_critical_after tm \<le> age \<and> \<not> cl_critical loss
         then fan_logs [syslog PCritical ''fan_not_controlled'' [why] [age div secs 1]]
                (f\<lparr>fc_control_loss := Some (loss\<lparr>cl_critical := True, cl_warned := True\<rparr>)\<rparr>)
         else if tm_control_warn_after tm \<le> age \<and> \<not> cl_warned loss
         then fan_logs [syslog PWarning ''fan_not_controlled'' [why] [age div secs 1]]
                (f\<lparr>fc_control_loss := Some (loss\<lparr>cl_warned := True\<rparr>)\<rparr>)
         else f\<lparr>fc_control_loss := Some loss\<rparr>)"

definition mark_control_ok :: "instant \<Rightarrow> fan \<Rightarrow> fan" where
  "mark_control_ok now f =
     (case fc_control_loss f of
        None \<Rightarrow> f
      | Some l \<Rightarrow>
          (let f = f\<lparr>fc_control_loss := None\<rparr>
           in if cl_warned l
              then fan_logs [syslog PNotice ''fan_controlled_again'' [cl_why l]
                               [since now (cl_since l) div secs 1]] f
              else f))"

text \<open>\<open>ensure_manual_mode\<close> and then \<open>write_pwm\<close>, as every caller does.\<close>

definition write_fan :: "fan_env \<Rightarrow> nat \<Rightarrow> fan \<Rightarrow> bool \<times> fan" where
  "write_fan env pwm f =
     (if fe_manual_ok env \<and> fe_write_ok env then (True, f\<lparr>fc_written := fc_written f @ [pwm]\<rparr>)
      else (False, f))"

subsection \<open>Targets\<close>

definition track_sensors :: "fan_env \<Rightarrow> fan \<Rightarrow> fan" where
  "track_sensors env f =
     (let currents = map2 (feed_current (fe_now env)) (fe_samples env) (fc_feeds f);
          tracked = map2 (\<lambda>sel (current, fd). track_feed (fc_timing f) (fe_now env) (sel_chip sel) current fd)
                      (fp_sensors (fc_profile f)) (zip currents (fc_feeds f))
      in fan_logs (concat (map snd tracked))
           (f\<lparr>fc_feeds := map fst tracked,
              fc_any_sensor_read := (fc_any_sensor_read f \<or> list_ex (\<lambda>c. c \<noteq> None) currents)\<rparr>))"

definition readings :: "fan_env \<Rightarrow> fan \<Rightarrow> (nat \<times> rat) list" where
  "readings env f =
     List.map_filter (\<lambda>(i, current). map_option (Pair i) current)
       (enumerate 0 (map2 (feed_current (fe_now env)) (fe_samples env) (fc_feeds f)))"

definition reading_hot :: "fan \<Rightarrow> nat \<times> rat \<Rightarrow> bool" where
  "reading_hot f r \<longleftrightarrow> snd (fc_thresholds f ! fst r) \<le> snd r \<or> is_over_range (snd r)"

definition reading_cool :: "fan \<Rightarrow> nat \<times> rat \<Rightarrow> bool" where
  "reading_cool f r \<longleftrightarrow> snd r < fst (fc_thresholds f ! fst r) \<and> \<not> is_over_range (snd r)"

definition update_critical_override :: "(nat \<times> rat) list \<Rightarrow> fan \<Rightarrow> bool \<times> fan" where
  "update_critical_override rs f =
     (let f = (case find (reading_hot f) rs of
                 Some (i, t) \<Rightarrow>
                   if \<not> fc_critical_override f
                   then fan_logs [syslog PWarning ''critical_override''
                          [sel_chip (fp_sensors (fc_profile f) ! i)] []] (f\<lparr>fc_critical_override := True\<rparr>)
                   else f
               | None \<Rightarrow>
                   if fc_critical_override f \<and> list_all (reading_cool f) rs
                   then fan_logs [syslog PNotice ''override_over'' [] []] (f\<lparr>fc_critical_override := False\<rparr>)
                   else f)
      in (fc_critical_override f, f))"

definition curve_target :: "fan_env \<Rightarrow> fan \<Rightarrow> nat option \<times> fan" where
  "curve_target env f =
     (let rs = readings env f in
      if rs = [] then (None, f)
      else
        let (override, f) = update_critical_override rs f; p = fc_profile f in
        if override then (Some (fp_max_pwm p), f)
        else (Some (Max (set (map (\<lambda>(i, t).
                let sel = fp_sensors p ! i in compute_pwm t (min_temp_of p sel) (max_temp_of p sel) p) rs))), f))"

definition fixed_target :: "fan_env \<Rightarrow> fan \<Rightarrow> nat option \<times> fan" where
  "fixed_target env f =
     (let rs = readings env f in
      if rs = [] then (None, f)
      else
        let (override, f) = update_critical_override rs f; p = fc_profile f in
        (Some (if override then fp_max_pwm p
               else (case fp_fixed_pwm p of None \<Rightarrow> fp_max_pwm p | Some v \<Rightarrow> v)), f))"

definition target_pwm_from_sensors :: "fan_env \<Rightarrow> fan \<Rightarrow> nat option \<times> fan" where
  "target_pwm_from_sensors env f =
     (let f = track_sensors env f;
          (target, f) = (case fp_mode (fc_profile f) of
                           FanCurve \<Rightarrow> curve_target env f | FanFixed \<Rightarrow> fixed_target env f)
      in (if floor_active f then map_option (\<lambda>_. fp_max_pwm (fc_profile f)) target else target, f))"

subsection \<open>What to write\<close>

text \<open>The low-speed check of \<open>plan\<close>.\<close>

definition check_low_rpm :: "rat option \<Rightarrow> fan \<Rightarrow> fan" where
  "check_low_rpm rpm f =
     (case (fp_min_expected_rpm (fc_profile f), rpm) of
        (Some min_rpm, Some r) \<Rightarrow>
          let low = (r < of_nat min_rpm) in
          if low \<and> \<not> fc_low_rpm_warned f
          then fan_logs [syslog PWarning ''fan_slow'' [] [min_rpm]] (f\<lparr>fc_low_rpm_warned := True\<rparr>)
          else if \<not> low \<and> fc_low_rpm_warned f
          then fan_logs [syslog PNotice ''fan_speed_back'' [] [min_rpm]] (f\<lparr>fc_low_rpm_warned := False\<rparr>)
          else f
      | _ \<Rightarrow> f)"

definition plan :: "nat \<Rightarrow> rat option \<Rightarrow> fan \<Rightarrow> pwm_command \<times> fan" where
  "plan target rpm f =
     (if target = 0 then (SetPwm 0, f\<lparr>fc_consecutive_stalls := 0, fc_low_rpm_warned := False\<rparr>)
      else
        let commanded = (case fc_last_pwm f of None \<Rightarrow> 0 | Some p \<Rightarrow> p);
            stalled = (0 < commanded \<and> (case rpm of None \<Rightarrow> False | Some r \<Rightarrow> r \<le> 0));
            kick = Kick (fp_min_start_pwm (fc_profile f))
        in if stalled
           then
             let n = fc_consecutive_stalls f + 1; f = f\<lparr>fc_consecutive_stalls := n\<rparr> in
             (kick,
              (if \<not> fc_ever_ran_normally f then f
               else if n = 1 then fan_logs [syslog PWarning ''fan_not_spinning'' [] []] f
               else if n = UNRESPONSIVE_AFTER_STALLS
               then fan_logs [syslog PCritical ''fan_unresponsive'' [] [n]] f
               else f))
           else if commanded = 0 then (kick, f)
           else
             let f = (if 0 < fc_consecutive_stalls f
                      then (let n = fc_consecutive_stalls f in
                            (if fc_ever_ran_normally f
                             then fan_logs [syslog PNotice ''fan_spinning_again'' [] [n]] f else f)
                              \<lparr>fc_consecutive_stalls := 0\<rparr>)
                      else f)
             in (SetPwm target, check_low_rpm rpm (f\<lparr>fc_ever_ran_normally := True\<rparr>)))"

definition apply_pwm :: "fan_env \<Rightarrow> pwm_command \<Rightarrow> fan \<Rightarrow> fan" where
  "apply_pwm env cmd f =
     (let pwm = (case cmd of SetPwm p \<Rightarrow> p | Kick p \<Rightarrow> p);
          (ok, f) = write_fan env pwm f
      in if \<not> ok then note_control_lost (fe_now env) ''writing pwm failed'' (f\<lparr>fc_hwmon := None\<rparr>)
         else
           let f = (mark_control_ok (fe_now env) f)\<lparr>fc_last_pwm := Some pwm\<rparr> in
           (case cmd of Kick _ \<Rightarrow> f\<lparr>fc_kick_until := Some (fe_now env + secs 1)\<rparr> | SetPwm _ \<Rightarrow> f))"

definition hold_full_speed_without_sensors :: "fan_env \<Rightarrow> fan \<Rightarrow> fan" where
  "hold_full_speed_without_sensors env f =
     (let now = fe_now env; first_takeover = (fc_last_pwm f = None);
          running = since now (fc_started f); tm = fc_timing f
      in if first_takeover \<and> running < tm_sensor_takeover_after tm then f
         else
           let f = (if fc_sensors_lost f then f
                    else fan_logs [syslog PWarning
                           (if first_takeover then ''no_sensor_yet'' else ''no_sensor_readings'') []
                           [running div secs 1]] (f\<lparr>fc_sensors_lost := True\<rparr>));
               f = (if \<not> fc_any_sensor_read f \<and> \<not> fc_no_sensor_critical_logged f
                       \<and> tm_control_critical_after tm \<le> running
                    then fan_logs [syslog PCritical ''never_a_sensor'' [] [running div secs 1]]
                           (f\<lparr>fc_no_sensor_critical_logged := True\<rparr>)
                    else f);
               f = f\<lparr>fc_kick_until := None\<rparr>;
               (ok, f) = write_fan env (fp_max_pwm (fc_profile f)) f
           in if \<not> ok then note_control_lost now ''writing pwm failed'' (f\<lparr>fc_hwmon := None\<rparr>)
              else (mark_control_ok now f)\<lparr>fc_last_pwm := Some (fp_max_pwm (fc_profile f))\<rparr>)"

text \<open>\<open>update\<close> once the chip is found: the second half of the code's \<open>update\<close>.\<close>

definition update_resolved :: "fan_env \<Rightarrow> fan \<Rightarrow> fan" where
  "update_resolved env f =
     (let (target, f) = target_pwm_from_sensors env f in
      case target of
        None \<Rightarrow> hold_full_speed_without_sensors env f
      | Some t \<Rightarrow>
          (let f = (if fc_sensors_lost f
                    then fan_logs [syslog PNotice ''sensors_back'' [] []] (f\<lparr>fc_sensors_lost := False\<rparr>)
                    else f)
           in if (case fc_kick_until f of None \<Rightarrow> False | Some u \<Rightarrow> fe_now env < u) then f
              else
                let f = f\<lparr>fc_kick_until := None\<rparr>;
                    rpm = (case fp_fan_index (fc_profile f) of None \<Rightarrow> None | Some _ \<Rightarrow> fe_rpm env);
                    (cmd, f) = plan t rpm f
                in apply_pwm env cmd f))"

definition fan_update :: "fan_env \<Rightarrow> fan \<Rightarrow> fan" where
  "fan_update env f =
     (if \<not> fp_enabled (fc_profile f) then f
      else
        let f = (if fc_hwmon f = None then f\<lparr>fc_hwmon := fe_resolved env\<rparr> else f) in
        if fc_hwmon f = None
        then note_control_lost (fe_now env) (''pwm chip '' @ fp_pwm_chip (fc_profile f) @ '' not found'') f
        else update_resolved env f)"

definition fan_tick :: "fan_env \<Rightarrow> fan \<Rightarrow> fan" where
  "fan_tick env f =
     (if (case fc_last_tick f of None \<Rightarrow> True
          | Some t \<Rightarrow> secs (max (fp_update_secs (fc_profile f)) 1) \<le> since (fe_now env) t)
      then fan_update env (f\<lparr>fc_last_tick := Some (fe_now env)\<rparr>) else f)"

definition restore :: "fan_env \<Rightarrow> fan \<Rightarrow> fan" where
  "restore env f =
     (if fc_last_pwm f = None then f
      else if fc_hwmon f = None \<and> fe_resolved env = None then f
      else
        let (ok, f) = write_fan env 255 f
        in if ok then fan_logs [syslog PInfo ''left_at_full_speed'' [] []] f else f)"

section \<open>The fan thread and the fail-safe\<close>

definition FAN_HEARTBEAT_TIMEOUT :: duration where "FAN_HEARTBEAT_TIMEOUT = secs 15"

text \<open>\<open>FanLiveness\<close>: the epoch and the heartbeat in whole milliseconds since it.\<close>

record fan_liveness =
  lv_heartbeat_ms :: nat
  lv_epoch :: instant

definition millis_since :: "instant \<Rightarrow> instant \<Rightarrow> nat" where
  "millis_since now epoch = min (since now epoch div millis 1) (2 ^ 64 - 1)"

definition beat :: "instant \<Rightarrow> fan_liveness \<Rightarrow> fan_liveness" where
  "beat now l = l\<lparr>lv_heartbeat_ms := millis_since now (lv_epoch l)\<rparr>"

definition liveness_age :: "instant \<Rightarrow> fan_liveness \<Rightarrow> duration" where
  "liveness_age now l = since now (lv_epoch l) - millis (lv_heartbeat_ms l)"

definition is_stalled :: "instant \<Rightarrow> fan_liveness \<Rightarrow> bool" where
  "is_stalled now l \<longleftrightarrow> FAN_HEARTBEAT_TIMEOUT < liveness_age now l"

text \<open>What the main loop sees of the fan thread, and one pass of that thread over its fans, each with
  its own view of the hardware; the status lines read the tachometers once more (\<open>rpms\<close>).\<close>

record fan_status =
  fs_health :: level
  fs_lines :: "string list"

definition fan_pass ::
  "instant \<Rightarrow> fan_env list \<Rightarrow> rat option list \<Rightarrow> fan list \<Rightarrow> fan_liveness
     \<Rightarrow> fan list \<times> fan_status \<times> fan_liveness" where
  "fan_pass now envs rpms fans live =
     (let fans = map2 fan_tick envs fans
      in (fans, \<lparr>fs_health = worst_health now fans, fs_lines = map2 (status_line now) rpms fans\<rparr>, beat now live))"

datatype full_speed_outcome = Forced | ChipAbsent | FailedWrite string | TimedOut

text \<open>\<open>force_full_speed_bounded\<close>: \<open>reports\<close> are the messages of the helper thread that arrive before
  the deadline, in order, or the error that kept it from starting.\<close>

definition force_full_speed_bounded ::
  "fan_profile list \<Rightarrow> string + (nat \<times> full_speed_outcome) list
     \<Rightarrow> (string \<times> nat \<times> full_speed_outcome) list" where
  "force_full_speed_bounded profiles reports =
     (let enabled = filter fp_enabled profiles;
          outcomes = (case reports of
             Inl e \<Rightarrow> replicate (length enabled) (FailedWrite (''could not start helper thread: '' @ e))
           | Inr rs \<Rightarrow> fold (\<lambda>(i, outcome) os. os[i := outcome]) (take (length enabled) rs)
                        (replicate (length enabled) TimedOut))
      in map2 (\<lambda>p outcome. (fp_name p, fp_pwm_index p, outcome)) enabled outcomes)"

text \<open>The helper thread writes the fans in order and reports each; \<open>k\<close> of its messages arrive in time.\<close>

definition helper_reports ::
  "(fan_profile \<Rightarrow> full_speed_outcome) \<Rightarrow> fan_profile list \<Rightarrow> nat \<Rightarrow> (nat \<times> full_speed_outcome) list" where
  "helper_reports wr enabled k = take k (map (\<lambda>(i, p). (i, wr p)) (enumerate 0 enabled))"

text \<open>\<open>FullSpeedReport::log_one\<close>.\<close>

definition log_one :: "string \<times> nat \<times> full_speed_outcome \<Rightarrow> log_line" where
  "log_one r =
     (case r of (name, n, outcome) \<Rightarrow>
        (case outcome of
           Forced \<Rightarrow> syslog PInfo ''forced_full_speed'' [name] [n]
         | ChipAbsent \<Rightarrow> syslog PWarning ''pwm_chip_not_found'' [name] [n]
         | FailedWrite e \<Rightarrow> syslog PCritical ''could_not_force'' [name, e] [n]
         | TimedOut \<Rightarrow> syslog PCritical ''forcing_timed_out'' [name] [n]))"

definition all_present_fans_set :: "(string \<times> nat \<times> full_speed_outcome) list \<Rightarrow> bool" where
  "all_present_fans_set report = list_all (\<lambda>(_, _, outcome). outcome = Forced \<or> outcome = ChipAbsent) report"

end
