(* ===== verification/Steady.thy ===== *)
theory Steady
  imports Prelude
begin

text \<open>
  Two components hold something until a condition has been good without a break for a given time: a
  fan's full-speed floor after a lost sensor (\<open>Fan\<close>) and the CPU's stock power limits after a
  critical temperature (\<open>CpuPower\<close>). Both mark since when it has been good. The locale says
  what one observation does while holding and proves what both promise over any run of them.
\<close>

text \<open>An unbroken stretch of good observations in a run, spanning at least \<open>hold\<close>.\<close>

definition steady_stretch :: "('i \<Rightarrow> instant) \<Rightarrow> ('i \<Rightarrow> bool) \<Rightarrow> duration \<Rightarrow> 'i list \<Rightarrow> bool" where
  "steady_stretch now good hold obs \<longleftrightarrow>
     (\<exists>before first mid after. obs = before @ first # mid @ after \<and> list_all good (first # mid)
        \<and> hold \<le> since (now (last (first # mid))) (now first))"

lemma steady_stretch_snoc: "steady_stretch now good hold obs \<Longrightarrow> steady_stretch now good hold (obs @ [i])"
  unfolding steady_stretch_def by (metis append.assoc append_Cons)

lemma steady_stretch_map:
  "steady_stretch now good hold (map f obs) \<Longrightarrow> steady_stretch (now \<circ> f) (good \<circ> f) hold obs"
proof -
  assume "steady_stretch now good hold (map f obs)"
  then obtain before first mid after where "map f obs = before @ first # mid @ after"
    "list_all good (first # mid)" "hold \<le> since (now (last (first # mid))) (now first)"
    unfolding steady_stretch_def by blast
  moreover from this(1) obtain b x m a where "obs = b @ x # m @ a" "f x = first" "map f m = mid"
    by (auto simp: map_eq_append_conv map_eq_Cons_conv append_eq_map_conv)
  ultimately show ?thesis
    unfolding steady_stretch_def
    by (intro exI [of _ b] exI [of _ x] exI [of _ m] exI [of _ a])
      (auto simp: last_map list.pred_map split: if_splits)
qed

locale steady_release =
  fixes step :: "'i \<Rightarrow> 's \<Rightarrow> 's"
    and now :: "'i \<Rightarrow> instant"
    and good :: "'i \<Rightarrow> bool"
    and held :: "'s \<Rightarrow> bool"
    and mark :: "'s \<Rightarrow> instant option"
    and inv :: "'s \<Rightarrow> bool"
    and hold :: duration
  assumes bad_step: "inv s \<Longrightarrow> held s \<Longrightarrow> \<not> good i \<Longrightarrow>
      inv (step i s) \<and> held (step i s) \<and> mark (step i s) = None"
    and early_step: "inv s \<Longrightarrow> held s \<Longrightarrow> good i \<Longrightarrow>
      since (now i) (case mark s of None \<Rightarrow> now i | Some b \<Rightarrow> b) < hold \<Longrightarrow>
      inv (step i s) \<and> held (step i s)
      \<and> mark (step i s) = Some (case mark s of None \<Rightarrow> now i | Some b \<Rightarrow> b)"
begin

text \<open>While held, \<open>mark\<close> is the time of the first of the good observations the run ends with.\<close>

lemma held_or_released:
  assumes "inv s" "held s" "mark s = None"
  shows "inv (fold step obs s) \<and> held (fold step obs s)
      \<and> (case mark (fold step obs s) of
           None \<Rightarrow> True
         | Some b \<Rightarrow> \<exists>before first mid. obs = before @ first # mid \<and> now first = b \<and> list_all good (first # mid))
    \<or> steady_stretch now good hold obs"
proof (induction obs rule: rev_induct)
  case Nil
  show ?case using assms by simp
next
  case (snoc i obs)
  let ?s = "fold step obs s"
  show ?case
  proof (cases "steady_stretch now good hold obs")
    case True
    then show ?thesis by (simp add: steady_stretch_snoc)
  next
    case False
    with snoc have h: "inv ?s" "held ?s" and
      run: "case mark ?s of None \<Rightarrow> True
        | Some b \<Rightarrow> \<exists>before first mid. obs = before @ first # mid \<and> now first = b \<and> list_all good (first # mid)"
      by blast+
    show ?thesis
    proof (cases "good i")
      case False
      with bad_step [OF h] show ?thesis by simp
    next
      case True
      define b where "b = (case mark ?s of None \<Rightarrow> now i | Some b \<Rightarrow> b)"
      have st: "\<exists>before first mid. obs @ [i] = before @ first # mid \<and> now first = b
          \<and> list_all good (first # mid) \<and> last (first # mid) = i"
      proof (cases "mark ?s")
        case None
        then show ?thesis using \<open>good i\<close>
          by (intro exI [of _ obs] exI [of _ i] exI [of _ "[]"]) (simp add: b_def)
      next
        case (Some b')
        with run obtain before first mid where "obs = before @ first # mid" "now first = b'"
          "list_all good (first # mid)" by auto
        with Some \<open>good i\<close> show ?thesis
          by (intro exI [of _ before] exI [of _ first] exI [of _ "mid @ [i]"]) (simp add: b_def)
      qed
      show ?thesis
      proof (cases "since (now i) b < hold")
        case True
        with early_step [OF h \<open>good i\<close>] st show ?thesis by (auto simp: b_def)
      next
        case False
        with st have "steady_stretch now good hold (obs @ [i])"
          unfolding steady_stretch_def by (metis append_Nil2 not_less)
        then show ?thesis by simp
      qed
    qed
  qed
qed

lemma held_until_steady:
  "inv s \<Longrightarrow> held s \<Longrightarrow> mark s = None \<Longrightarrow> held (fold step obs s) \<or> steady_stretch now good hold obs"
  using held_or_released by blast

end

end
