(* ===== verification/FanProps.thy ===== *)
theory FanProps
  imports Fan Steady
begin

text \<open>
  What fan control guarantees: the shape of the curve under \<open>f32\<close> rounding, the critical
  override over any history of readings, the full-speed floor of a lost sensor, what is written
  when a temperature is not safe, and that a fan nobody drives is reported.
\<close>

section \<open>The curve\<close>

lemma pwm_of_nat: "n \<le> 255 \<Longrightarrow> nat (min 255 (max 0 (round_away (of_nat n)))) = n"
  using round_away_of_int [of "int n"] by simp

definition ramp :: "rat \<Rightarrow> rat \<Rightarrow> rat \<Rightarrow> fan_profile \<Rightarrow> rat" where
  "ramp t lo hi p = f32.ratio (f32_round (t - lo)) (of_nat (fp_max_pwm p - fp_min_stop_pwm p))
     (f32_round (hi - lo)) + of_nat (fp_min_stop_pwm p)"

lemma compute_pwm_cases:
  assumes "fp_max_pwm p \<le> 255" "fp_min_stop_pwm p \<le> fp_max_pwm p" "fp_min_pwm p \<le> fp_max_pwm p"
  shows "compute_pwm t lo hi p =
    (if t \<le> lo then fp_min_pwm p else if hi \<le> t then fp_max_pwm p
     else nat (min 255 (max 0 (round_away (f32_round (ramp t lo hi p))))))"
proof -
  have "f32_round (of_nat (fp_max_pwm p) - of_nat (fp_min_stop_pwm p)) =
      of_nat (fp_max_pwm p - fp_min_stop_pwm p)"
    using f32_exact_nat [of "fp_max_pwm p - fp_min_stop_pwm p"] assms by (simp add: of_nat_diff)
  then show ?thesis
    using assms by (simp add: compute_pwm_def ramp_def f32.ratio_def Let_def pwm_of_nat)
qed

lemma ramp_bounds:
  assumes "lo < t" "t < hi" "fp_max_pwm p \<le> 255" "fp_min_stop_pwm p \<le> fp_max_pwm p"
  shows "of_nat (fp_min_stop_pwm p) \<le> ramp t lo hi p" "ramp t lo hi p \<le> of_nat (fp_max_pwm p) + 1 / 4"
proof -
  let ?w = "of_nat (fp_max_pwm p - fp_min_stop_pwm p) :: rat"
  have d: "0 \<le> f32_round (t - lo)" "f32_round (t - lo) \<le> f32_round (hi - lo)" "0 < f32_round (hi - lo)"
    using assms f32_pos_pos [of "t - lo"] f32_pos_pos [of "hi - lo"] f32_mono [of "t - lo" "hi - lo"]
    by simp_all
  have w: "0 \<le> ?w" "?w \<le> 255" "?w = of_nat (fp_max_pwm p) - of_nat (fp_min_stop_pwm p)"
    using assms by (simp_all add: of_nat_diff)
  from f32.ratio_nonneg [OF d(1) w(1) d(3)] f32.ratio_bound [OF d w(1,2)] w(3)
  show "of_nat (fp_min_stop_pwm p) \<le> ramp t lo hi p" "ramp t lo hi p \<le> of_nat (fp_max_pwm p) + 1 / 4"
    by (simp_all add: ramp_def)
qed

lemma ramp_mono:
  assumes "lo < hi" "t \<le> u"
  shows "ramp t lo hi p \<le> ramp u lo hi p"
  using assms f32.ratio_mono [OF f32_mono [of "t - lo" "u - lo"]] f32_pos_pos [of "hi - lo"]
  by (simp add: ramp_def)

text \<open>The pwm of the ramp: from \<open>min_stop_pwm\<close> to \<open>max_pwm\<close>.\<close>

lemma ramp_pwm_bounds:
  assumes "lo < t" "t < hi" "fp_max_pwm p \<le> 255" "fp_min_stop_pwm p \<le> fp_max_pwm p"
  shows "int (fp_min_stop_pwm p) \<le> round_away (f32_round (ramp t lo hi p))"
    "round_away (f32_round (ramp t lo hi p)) \<le> int (fp_max_pwm p)"
proof -
  let ?x = "ramp t lo hi p" and ?m = "of_nat (fp_max_pwm p) :: rat"
  note b = ramp_bounds [OF assms]
  have "of_nat (fp_min_stop_pwm p) \<le> f32_round ?x"
    using f32_mono [OF b(1)] f32_exact_nat [of "fp_min_stop_pwm p"] assms by simp
  from round_away_mono [OF this] show "int (fp_min_stop_pwm p) \<le> round_away (f32_round ?x)"
    using round_away_of_int [of "int (fp_min_stop_pwm p)"] by simp
  have "f32_round ?x \<le> f32_round (?m + 1 / 4)" by (rule f32_mono [OF b(2)])
  also have "\<bar>f32_round (?m + 1 / 4) - (?m + 1 / 4)\<bar> \<le> (?m + 1 / 4) / 2 ^ 24"
    using f32_error [of "?m + 1 / 4"] by simp
  then have "f32_round (?m + 1 / 4) \<le> ?m + 1 / 4 + (?m + 1 / 4) / 2 ^ 24" by linarith
  also have "(?m + 1 / 4) / 2 ^ 24 \<le> 1 / 8" using assms(3) by simp
  finally have "f32_round ?x \<le> ?m + 3 / 8" by simp
  then have "round_away (f32_round ?x) \<le> round_away (?m + 3 / 8)" by (rule round_away_mono)
  also have "round_away (?m + 3 / 8) = int (fp_max_pwm p)" by (rule round_away_near) simp_all
  finally show "round_away (f32_round ?x) \<le> int (fp_max_pwm p)" .
qed

text \<open>C22. The curve of a profile \<open>FanProfile::problems\<close> has nothing against, computed in \<open>f32\<close>: at or below
  the lower temperature it is exactly \<open>min_pwm\<close>, at or above the upper one exactly \<open>max_pwm\<close>, in
  between it lies between \<open>min_stop_pwm\<close> and \<open>max_pwm\<close>, and it never falls as the temperature
  rises, provided \<open>min_pwm\<close> is not above \<open>min_stop_pwm\<close> (which \<open>problems\<close> does not check).\<close>

theorem pwm_curve:
  assumes "fan_problems p = []" "fp_max_pwm p \<le> 255" "lo < hi" "t \<le> u"
  shows "(if t \<le> lo then compute_pwm t lo hi p = fp_min_pwm p
     else if hi \<le> t then compute_pwm t lo hi p = fp_max_pwm p
     else fp_min_stop_pwm p \<le> compute_pwm t lo hi p \<and> compute_pwm t lo hi p \<le> fp_max_pwm p)
   \<and> (if fp_min_pwm p \<le> fp_min_stop_pwm p then compute_pwm t lo hi p \<le> compute_pwm u lo hi p
      else compute_pwm lo lo hi p = fp_min_pwm p)"
proof -
  have p: "fp_min_pwm p \<le> fp_max_pwm p" "fp_min_stop_pwm p \<le> fp_max_pwm p"
    using fan_problems_Nil [OF assms(1)] by simp_all
  note c = compute_pwm_cases [OF assms(2) p(2) p(1)]
  have between: "fp_min_stop_pwm p \<le> compute_pwm x lo hi p \<and> compute_pwm x lo hi p \<le> fp_max_pwm p"
    if "lo < x" "x < hi" for x
    using ramp_pwm_bounds [OF that assms(2) p(2)] that assms(2) by (simp add: c) linarith
  have mono: "compute_pwm t lo hi p \<le> compute_pwm u lo hi p" if "fp_min_pwm p \<le> fp_min_stop_pwm p"
  proof (cases "lo < t \<and> u < hi")
    case True
    have "round_away (f32_round (ramp t lo hi p)) \<le> round_away (f32_round (ramp u lo hi p))"
      by (intro round_away_mono f32_mono ramp_mono assms)
    with True assms(4) show ?thesis by (simp add: c)
  next
    case False
    with assms that p between [of t] between [of u] show ?thesis by (auto simp: c split: if_splits)
  qed
  show ?thesis using between [of t] mono assms(3) by (simp add: c)
qed

lemma default_fan_ok: "fan_problems (hd default_fans) = []" "fp_max_pwm (hd default_fans) = 255"
  "fp_min_pwm (hd default_fans) = 50" "fp_min_stop_pwm (hd default_fans) = 55"
  by (simp_all add: default_fans_def fan_profile_default_def selector_default_def fan_problems_def
      min_temp_of_def max_temp_of_def)

theorem pwm_curve_witness:
  "55 \<le> compute_pwm 50 45 90 (hd default_fans) \<and> compute_pwm 50 45 90 (hd default_fans) \<le> 255
   \<and> compute_pwm 50 45 90 (hd default_fans) \<le> compute_pwm 60 45 90 (hd default_fans)"
  using pwm_curve [of "hd default_fans" 45 90 50 60] by (simp add: default_fan_ok)

section \<open>The critical override\<close>

lemma fan_logs_same [simp]:
  "fc_profile (fan_logs ls f) = fc_profile f" "fc_critical_override (fan_logs ls f) = fc_critical_override f"
  "fc_thresholds (fan_logs ls f) = fc_thresholds f" "fc_written (fan_logs ls f) = fc_written f"
  "fc_control_loss (fan_logs ls f) = fc_control_loss f" "fc_feeds (fan_logs ls f) = fc_feeds f"
  "fc_kick_until (fan_logs ls f) = fc_kick_until f" "fc_last_pwm (fan_logs ls f) = fc_last_pwm f"
  "fc_started (fan_logs ls f) = fc_started f" "fc_timing (fan_logs ls f) = fc_timing f"
  "fc_sensors_lost (fan_logs ls f) = fc_sensors_lost f" "fc_hwmon (fan_logs ls f) = fc_hwmon f"
  "fc_any_sensor_read (fan_logs ls f) = fc_any_sensor_read f"
  "fc_last_tick (fan_logs ls f) = fc_last_tick f"
  by (simp_all add: fan_logs_def)

lemma find_iff: "(find P xs = None) = (\<not> list_ex P xs)"
  by (induction xs) auto

text \<open>One step of the override, without the log.\<close>

lemma override_step:
  "fc_critical_override (snd (update_critical_override rs f)) =
     (list_ex (reading_hot f) rs \<or> fc_critical_override f \<and> \<not> list_all (reading_cool f) rs)"
  "fst (update_critical_override rs f) = fc_critical_override (snd (update_critical_override rs f))"
proof -
  show "fc_critical_override (snd (update_critical_override rs f)) =
     (list_ex (reading_hot f) rs \<or> fc_critical_override f \<and> \<not> list_all (reading_cool f) rs)"
  proof (cases "find (reading_hot f) rs")
    case None
    then have "\<not> list_ex (reading_hot f) rs" by (simp add: find_iff)
    with None show ?thesis
      by (cases "fc_critical_override f"; cases "list_all (reading_cool f) rs")
        (simp_all add: update_critical_override_def Let_def)
  next
    case (Some r)
    then have "list_ex (reading_hot f) rs" using find_iff [of "reading_hot f" rs] by simp
    with Some show ?thesis by (cases r) (simp add: update_critical_override_def Let_def)
  qed
  show "fst (update_critical_override rs f) = fc_critical_override (snd (update_critical_override rs f))"
    by (simp add: update_critical_override_def Let_def)
qed

lemma override_frame [simp]:
  "fc_thresholds (snd (update_critical_override rs f)) = fc_thresholds f"
  "fc_profile (snd (update_critical_override rs f)) = fc_profile f"
  "fc_written (snd (update_critical_override rs f)) = fc_written f"
  "fc_feeds (snd (update_critical_override rs f)) = fc_feeds f"
  "fc_kick_until (snd (update_critical_override rs f)) = fc_kick_until f"
  "fc_last_pwm (snd (update_critical_override rs f)) = fc_last_pwm f"
  "fc_started (snd (update_critical_override rs f)) = fc_started f"
  "fc_control_loss (snd (update_critical_override rs f)) = fc_control_loss f"
  "fc_timing (snd (update_critical_override rs f)) = fc_timing f"
  "fc_sensors_lost (snd (update_critical_override rs f)) = fc_sensors_lost f"
  "fc_hwmon (snd (update_critical_override rs f)) = fc_hwmon f"
  by (simp_all add: update_critical_override_def Let_def split: option.split prod.split)

lemma hot_cong: "fc_thresholds g = fc_thresholds f \<Longrightarrow> reading_hot g = reading_hot f"
  "fc_thresholds g = fc_thresholds f \<Longrightarrow> reading_cool g = reading_cool f"
  by (simp_all add: reading_hot_def reading_cool_def fun_eq_iff)

definition override_run :: "(nat \<times> rat) list list \<Rightarrow> fan \<Rightarrow> fan" where
  "override_run history f = fold (\<lambda>rs f. snd (update_critical_override rs f)) history f"

text \<open>The override as a function of the whole history: some sweep had a sensor at or above its
  critical threshold (or out of range), and no later sweep had every sensor below its warning
  threshold without another critical one.\<close>

definition override_due :: "fan \<Rightarrow> (nat \<times> rat) list list \<Rightarrow> bool" where
  "override_due f history \<longleftrightarrow>
     (\<exists>before sweep after. history = before @ sweep # after \<and> list_ex (reading_hot f) sweep
        \<and> list_all (\<lambda>rs. list_ex (reading_hot f) rs \<or> \<not> list_all (reading_cool f) rs) after)"

lemma override_due_snoc:
  "override_due f (history @ [rs]) \<longleftrightarrow>
     list_ex (reading_hot f) rs \<or> override_due f history \<and> \<not> list_all (reading_cool f) rs"
proof
  assume "override_due f (history @ [rs])"
  then obtain before sweep after where d: "history @ [rs] = before @ sweep # after"
    "list_ex (reading_hot f) sweep"
    "list_all (\<lambda>rs. list_ex (reading_hot f) rs \<or> \<not> list_all (reading_cool f) rs) after"
    unfolding override_due_def by blast
  show "list_ex (reading_hot f) rs \<or> override_due f history \<and> \<not> list_all (reading_cool f) rs"
  proof (cases after rule: rev_cases)
    case Nil
    with d show ?thesis by simp
  next
    case (snoc ys y)
    with d have "history = before @ sweep # ys" "y = rs" by simp_all
    with snoc d show ?thesis unfolding override_due_def by auto
  qed
next
  assume r: "list_ex (reading_hot f) rs \<or> override_due f history \<and> \<not> list_all (reading_cool f) rs"
  show "override_due f (history @ [rs])"
  proof (cases "list_ex (reading_hot f) rs")
    case True
    then show ?thesis unfolding override_due_def by (intro exI [of _ history] exI [of _ rs] exI [of _ "[]"]) simp
  next
    case False
    with r obtain before sweep after where "history = before @ sweep # after"
      "list_ex (reading_hot f) sweep"
      "list_all (\<lambda>rs. list_ex (reading_hot f) rs \<or> \<not> list_all (reading_cool f) rs) after"
      unfolding override_due_def by blast
    with r False show ?thesis unfolding override_due_def
      by (intro exI [of _ before] exI [of _ sweep] exI [of _ "after @ [rs]"]) simp
  qed
qed

lemma override_run_frame: "fc_thresholds (override_run history f) = fc_thresholds f"
  unfolding override_run_def by (induction history arbitrary: f) simp_all

text \<open>C20. The critical override follows the history of the readings exactly: starting from off it is
  on after any sequence of sweeps if and only if some sweep had a sensor at its critical threshold
  or out of range, and since then no sweep brought every sensor below its warning threshold. In
  particular it never flickers between the two thresholds.\<close>

theorem critical_override_history:
  "fc_critical_override (override_run history (f\<lparr>fc_critical_override := False\<rparr>)) = override_due f history"
proof (induction history rule: rev_induct)
  case Nil
  show ?case by (simp add: override_run_def override_due_def)
next
  case (snoc rs history)
  let ?f = "f\<lparr>fc_critical_override := False\<rparr>"
  have "fc_thresholds (override_run history ?f) = fc_thresholds f"
    by (simp add: override_run_frame)
  note hc = hot_cong [OF this]
  have "override_run (history @ [rs]) ?f = snd (update_critical_override rs (override_run history ?f))"
    by (simp add: override_run_def)
  then show ?case by (simp add: override_step(1) hc snoc override_due_snoc)
qed

section \<open>A lost sensor\<close>

text \<open>One selector's feed over a run of sweeps, each a time and a reading.\<close>

definition feed_run :: "timing \<Rightarrow> string \<Rightarrow> (instant \<times> rat option) list \<Rightarrow> sensor_feed \<Rightarrow> sensor_feed" where
  "feed_run tm chip sweeps fd = fold (\<lambda>(now, c) fd. fst (track_feed tm now chip c fd)) sweeps fd"

lemma feed_run_simps [simp]:
  "feed_run tm chip [] fd = fd"
  "feed_run tm chip ((now, c) # sweeps) fd = feed_run tm chip sweeps (fst (track_feed tm now chip c fd))"
  "feed_run tm chip (xs @ ys) fd = feed_run tm chip ys (feed_run tm chip xs fd)"
  by (simp_all add: feed_run_def)

lemma track_read:
  "fst (track_feed tm now chip (Some t) fd) =
     (if fd_held fd
      then let back = (case fd_back_since fd of None \<Rightarrow> now | Some b \<Rightarrow> b) in
        if tm_sensor_recovery_hold tm \<le> since now back
        then fd\<lparr>fd_ever_read := True, fd_lost_since := None, fd_held := False, fd_back_since := None\<rparr>
        else fd\<lparr>fd_ever_read := True, fd_lost_since := None, fd_back_since := Some back\<rparr>
      else fd\<lparr>fd_ever_read := True, fd_lost_since := None\<rparr>)"
  by (simp add: track_feed_def Let_def)

lemma track_lost:
  "fd_ever_read fd \<Longrightarrow> fst (track_feed tm now chip None fd) =
     (let lost = (case fd_lost_since fd of None \<Rightarrow> now | Some l \<Rightarrow> l) in
      fd\<lparr>fd_back_since := None, fd_lost_since := Some lost,
         fd_held := (fd_held fd \<or> tm_sensor_loss_grace tm \<le> since now lost)\<rparr>)"
  by (simp add: track_feed_def Let_def)

lemma lost_run:
  "fd_ever_read fd \<Longrightarrow> fd_lost_since fd = Some l \<Longrightarrow> list_all (\<lambda>(now, c). c = None) sweeps \<Longrightarrow>
     fd_ever_read (feed_run tm chip sweeps fd) \<and> fd_lost_since (feed_run tm chip sweeps fd) = Some l
     \<and> (fd_held fd \<longrightarrow> fd_held (feed_run tm chip sweeps fd))"
proof (induction sweeps arbitrary: fd)
  case (Cons sweep sweeps)
  then obtain now where "sweep = (now, None)" by (cases sweep) simp
  with Cons show ?case by (simp add: track_lost Let_def)
qed simp

text \<open>A held feed is released as \<open>Steady\<close> says: its good observations are the sweeps that read.\<close>

interpretation feed_floor: steady_release
  "\<lambda>(now, c) fd. fst (track_feed tm now chip c fd)" fst "\<lambda>(now, c). c \<noteq> None" fd_held fd_back_since
  fd_ever_read "tm_sensor_recovery_hold tm"
  by unfold_locales (auto simp: track_read track_lost Let_def split: option.splits)

text \<open>A feed that fails over the loss grace is held, and whatever the sweeps that follow it is not released
  before an unbroken stretch of readings spanning the recovery time.\<close>

lemma feed_held:
  assumes "fd_ever_read fd" "fd_lost_since fd = None"
    "outage = (t0, None) # mid @ [(t1, None)]" "list_all (\<lambda>(now, c). c = None) mid"
    "tm_sensor_loss_grace tm \<le> since t1 t0"
  shows "fd_held (feed_run tm chip outage fd)" "fd_ever_read (feed_run tm chip outage fd)"
    "fd_back_since (feed_run tm chip outage fd) = None"
    "fd_held (feed_run tm chip (outage @ sweeps) fd)
       \<or> steady_stretch fst (\<lambda>(now, c). c \<noteq> None) (tm_sensor_recovery_hold tm) sweeps"
proof -
  let ?g = "feed_run tm chip ((t0, None) # mid) fd"
  have g: "fd_ever_read ?g \<and> fd_lost_since ?g = Some t0"
    using lost_run [of "fst (track_feed tm t0 chip None fd)" t0 mid tm chip] assms
    by (simp add: track_lost Let_def)
  have "feed_run tm chip outage fd = fst (track_feed tm t1 chip None ?g)"
    by (simp add: assms(3))
  with g assms(5) have h: "fd_ever_read (feed_run tm chip outage fd)" "fd_held (feed_run tm chip outage fd)"
    "fd_back_since (feed_run tm chip outage fd) = None"
    by (simp_all add: track_lost Let_def)
  then show "fd_held (feed_run tm chip outage fd)" "fd_ever_read (feed_run tm chip outage fd)"
    "fd_back_since (feed_run tm chip outage fd) = None" by blast+
  show "fd_held (feed_run tm chip (outage @ sweeps) fd)
       \<or> steady_stretch fst (\<lambda>(now, c). c \<noteq> None) (tm_sensor_recovery_hold tm) sweeps"
    using feed_floor.held_until_steady [OF h, where tm = tm and chip = chip and obs = sweeps]
    by (simp only: feed_run_simps) (simp add: feed_run_def)
qed

text \<open>It is released by such a stretch.\<close>

lemma ever_read_run: "fd_ever_read fd \<Longrightarrow> fd_ever_read (feed_run tm chip sweeps fd)"
proof (induction sweeps arbitrary: fd)
  case (Cons sweep sweeps)
  obtain now c where "sweep = (now, c)" by fastforce
  with Cons show ?case by (cases c) (simp_all add: track_lost track_read Let_def)
qed simp

lemma good_run:
  assumes "fd_back_since fd = None" "list_all (\<lambda>(now, c). c \<noteq> None) (first # rest)"
  shows "\<not> fd_held (feed_run tm chip (first # rest) fd)
    \<or> fd_back_since (feed_run tm chip (first # rest) fd) = Some (fst first)
      \<and> since (fst (List.last (first # rest))) (fst first) < tm_sensor_recovery_hold tm"
  using assms(2)
proof (induction rest rule: rev_induct)
  case Nil
  with assms(1) show ?case
    by (cases first; cases "fd_held fd") (auto simp: track_read Let_def since_def split: if_splits)
next
  case (snoc sweep rest)
  let ?g = "feed_run tm chip (first # rest) fd"
  obtain now c where sweep: "sweep = (now, Some c)" using snoc.prems by (cases sweep) auto
  have "feed_run tm chip (first # rest @ [sweep]) fd = fst (track_feed tm now chip (Some c) ?g)"
    by (cases first) (simp add: sweep)
  with snoc sweep show ?case by (auto simp: track_read Let_def)
qed

lemma feed_released:
  assumes "fd_ever_read fd" "fd_back_since fd = None" "sweeps = before @ first # rest"
    "before = [] \<or> snd (List.last before) = None" "list_all (\<lambda>(now, c). c \<noteq> None) (first # rest)"
    "tm_sensor_recovery_hold tm \<le> since (fst (List.last (first # rest))) (fst first)"
  shows "\<not> fd_held (feed_run tm chip sweeps fd)"
proof -
  let ?g = "feed_run tm chip before fd"
  have "fd_back_since ?g = None"
  proof (cases before rule: rev_cases)
    case (snoc xs sweep)
    with assms(4) have "sweep = (fst sweep, None)" by (cases sweep) simp
    then show ?thesis using ever_read_run [OF assms(1), of tm chip xs]
      by (cases sweep) (simp add: snoc track_lost Let_def)
  qed (use assms(2) in simp)
  from good_run [OF this assms(5), of tm chip] assms(6) show ?thesis by (simp add: assms(3) not_less)
qed

section \<open>What is written when a temperature is not safe\<close>

lemma note_control_lost_frame [simp]:
  "fc_written (note_control_lost now why f) = fc_written f"
  "fc_profile (note_control_lost now why f) = fc_profile f"
  "fc_started (note_control_lost now why f) = fc_started f"
  "fc_timing (note_control_lost now why f) = fc_timing f"
  "fc_last_pwm (note_control_lost now why f) = fc_last_pwm f"
  by (simp_all add: note_control_lost_def Let_def split: option.split)

lemma mark_control_ok_frame [simp]:
  "fc_written (mark_control_ok now f) = fc_written f"
  "fc_profile (mark_control_ok now f) = fc_profile f"
  "fc_started (mark_control_ok now f) = fc_started f"
  "fc_timing (mark_control_ok now f) = fc_timing f"
  by (simp_all add: mark_control_ok_def Let_def split: option.split)

lemma track_feed_age: "fd_max_age (fst (track_feed tm now chip c fd)) = fd_max_age fd"
  by (simp add: track_feed_def Let_def)

text \<open>Tracking the sensors changes no reading.\<close>

lemma tracked_currents:
  assumes "length sms = length fds" "length sels = length fds"
  shows "map2 (feed_current now) sms
      (map fst (map2 (\<lambda>sel (c, fd). track_feed tm now' (sel_chip sel) c fd) sels (zip cs fds))) =
    map2 (feed_current now) (take (length cs) sms) (take (length cs) fds)"
  using assms
  by (auto intro!: nth_equalityI
      simp: feed_current_def track_feed_age split: prod.split option.split)

lemma readings_tracked:
  assumes "length (fe_samples env) = length (fc_feeds f)"
    "length (fp_sensors (fc_profile f)) = length (fc_feeds f)"
  shows "readings env (track_sensors env f) = readings env f"
proof -
  let ?cs = "map2 (feed_current (fe_now env)) (fe_samples env) (fc_feeds f)"
  have "length ?cs = length (fc_feeds f)" using assms by simp
  then show ?thesis
    using tracked_currents [OF assms, of "fe_now env" "fc_timing f" "fe_now env" ?cs] assms
    by (simp add: readings_def track_sensors_def Let_def fan_logs_def)
qed

lemma track_frame [simp]:
  "fc_thresholds (track_sensors env f) = fc_thresholds f" "fc_profile (track_sensors env f) = fc_profile f"
  "fc_written (track_sensors env f) = fc_written f" "fc_kick_until (track_sensors env f) = fc_kick_until f"
  "fc_last_pwm (track_sensors env f) = fc_last_pwm f" "fc_started (track_sensors env f) = fc_started f"
  "fc_timing (track_sensors env f) = fc_timing f" "fc_control_loss (track_sensors env f) = fc_control_loss f"
  "fc_hwmon (track_sensors env f) = fc_hwmon f"
  "fc_sensors_lost (track_sensors env f) = fc_sensors_lost f"
  by (simp_all add: track_sensors_def Let_def)

text \<open>The target in terms of the override step.\<close>

lemma target_snd:
  "snd (target_pwm_from_sensors env f) =
     (if readings env (track_sensors env f) = [] then track_sensors env f
      else snd (update_critical_override (readings env (track_sensors env f)) (track_sensors env f)))"
  by (simp add: target_pwm_from_sensors_def curve_target_def fixed_target_def Let_def
      split: fan_mode.split prod.split)

lemma target_fst:
  "(fst (target_pwm_from_sensors env f) = None) = (readings env (track_sensors env f) = [])"
  by (simp add: target_pwm_from_sensors_def curve_target_def fixed_target_def Let_def
      split: fan_mode.split prod.split)

lemma target_unsafe:
  assumes "readings env (track_sensors env f) \<noteq> []"
    "list_ex (reading_hot f) (readings env (track_sensors env f)) \<or> floor_active (track_sensors env f)"
  shows "fst (target_pwm_from_sensors env f) = Some (fp_max_pwm (fc_profile f))"
proof -
  let ?g = "track_sensors env f"
  let ?u = "update_critical_override (readings env ?g) ?g"
  have floor: "floor_active (snd ?u) = floor_active ?g" by (simp add: floor_active_def)
  have prof: "fc_profile (snd ?u) = fc_profile f" by simp
  have "list_ex (reading_hot f) (readings env ?g) \<Longrightarrow> fst ?u"
    using override_step [of "readings env ?g" ?g] hot_cong(1) [of ?g f] by simp
  with assms floor prof show ?thesis
    by (cases ?u) (auto simp: target_pwm_from_sensors_def curve_target_def fixed_target_def Let_def
        split: fan_mode.split)
qed

lemma target_frame [simp]:
  "fc_profile (snd (target_pwm_from_sensors env f)) = fc_profile f"
  "fc_written (snd (target_pwm_from_sensors env f)) = fc_written f"
  "fc_kick_until (snd (target_pwm_from_sensors env f)) = fc_kick_until f"
  "fc_last_pwm (snd (target_pwm_from_sensors env f)) = fc_last_pwm f"
  "fc_started (snd (target_pwm_from_sensors env f)) = fc_started f"
  "fc_timing (snd (target_pwm_from_sensors env f)) = fc_timing f"
  "fc_control_loss (snd (target_pwm_from_sensors env f)) = fc_control_loss f"
  "fc_hwmon (snd (target_pwm_from_sensors env f)) = fc_hwmon f"
  by (simp_all add: target_snd)

lemma plan_frame [simp]:
  "fc_profile (snd (plan t rpm f)) = fc_profile f" "fc_written (snd (plan t rpm f)) = fc_written f"
  "fc_started (snd (plan t rpm f)) = fc_started f" "fc_timing (snd (plan t rpm f)) = fc_timing f"
  "fc_last_pwm (snd (plan t rpm f)) = fc_last_pwm f"
  "fc_control_loss (snd (plan t rpm f)) = fc_control_loss f"
  by (simp_all add: plan_def check_low_rpm_def Let_def split: option.split)

text \<open>What the tachometer says of a fan that has been told to spin.\<close>

definition turning :: "fan_env \<Rightarrow> fan \<Rightarrow> bool" where
  "turning env f \<longleftrightarrow>
     (case fc_last_pwm f of None \<Rightarrow> False | Some p \<Rightarrow> 0 < p)
     \<and> (fp_fan_index (fc_profile f) = None \<or> (case fe_rpm env of None \<Rightarrow> True | Some r \<Rightarrow> 0 < r))"

definition tach :: "fan_env \<Rightarrow> fan \<Rightarrow> rat option" where
  "tach env f = (case fp_fan_index (fc_profile f) of None \<Rightarrow> None | Some _ \<Rightarrow> fe_rpm env)"

lemma plan_fst:
  "t \<noteq> 0 \<Longrightarrow> fc_last_pwm g = fc_last_pwm f \<Longrightarrow> fc_profile g = fc_profile f \<Longrightarrow>
     fst (plan t (tach env f) g) =
     (if turning env f then SetPwm t else Kick (fp_min_start_pwm (fc_profile f)))"
  by (auto simp: plan_def turning_def tach_def Let_def not_le split: option.split)

lemma apply_written:
  "fe_manual_ok env \<and> fe_write_ok env \<Longrightarrow>
     fc_written (apply_pwm env cmd f) = fc_written f @ [case cmd of SetPwm p \<Rightarrow> p | Kick p \<Rightarrow> p]"
  by (simp add: apply_pwm_def write_fan_def Let_def split: pwm_command.split)

text \<open>The temperatures are not known to be safe: no sensor reads though the fan has been taken over
  or the takeover time is past, some reading is critical, or a sensor that used to read is lost.\<close>

definition unsafe :: "fan_env \<Rightarrow> fan \<Rightarrow> bool" where
  "unsafe env f \<longleftrightarrow>
     (if readings env f = []
      then fc_last_pwm f \<noteq> None \<or> tm_sensor_takeover_after (fc_timing f) \<le> since (fe_now env) (fc_started f)
      else list_ex (reading_hot f) (readings env f) \<or> floor_active (track_sensors env f))"

text \<open>The state \<open>update\<close> goes on from once some sensor reads.\<close>

definition recovered :: "fan \<Rightarrow> fan" where
  "recovered f =
     (if fc_sensors_lost f then fan_logs [syslog PNotice ''sensors_back'' [] []] (f\<lparr>fc_sensors_lost := False\<rparr>)
      else f)"

lemma recovered_frame [simp]:
  "fc_profile (recovered f) = fc_profile f" "fc_written (recovered f) = fc_written f"
  "fc_last_pwm (recovered f) = fc_last_pwm f" "fc_started (recovered f) = fc_started f"
  "fc_timing (recovered f) = fc_timing f" "fc_control_loss (recovered f) = fc_control_loss f"
  "fc_kick_until (recovered f) = fc_kick_until f"
  by (simp_all add: recovered_def)

definition kicking :: "fan_env \<Rightarrow> fan \<Rightarrow> bool" where
  "kicking env f \<longleftrightarrow> (case fc_kick_until f of None \<Rightarrow> False | Some u \<Rightarrow> fe_now env < u)"

lemma update_resolved_eq:
  "update_resolved env f =
     (case fst (target_pwm_from_sensors env f) of
        None \<Rightarrow> hold_full_speed_without_sensors env (snd (target_pwm_from_sensors env f))
      | Some t \<Rightarrow>
          let g = recovered (snd (target_pwm_from_sensors env f)); h = g\<lparr>fc_kick_until := None\<rparr> in
          if kicking env f then g
          else apply_pwm env (fst (plan t (tach env f) h)) (snd (plan t (tach env f) h)))"
proof -
  obtain target g where t: "target_pwm_from_sensors env f = (target, g)" by fastforce
  note fr = target_frame [of env f, unfolded t snd_conv]
  show ?thesis
  proof (cases target)
    case None
    then show ?thesis by (simp add: update_resolved_def t)
  next
    case (Some u)
    then show ?thesis
      by (simp add: update_resolved_def t recovered_def [symmetric] Let_def case_prod_beta kicking_def
          tach_def fr)
  qed
qed

text \<open>The chip is looked up again while it is not known.\<close>

definition with_chip :: "fan_env \<Rightarrow> fan \<Rightarrow> fan" where
  "with_chip env f = (if fc_hwmon f = None then f\<lparr>fc_hwmon := fe_resolved env\<rparr> else f)"

lemma with_chip_frame [simp]:
  "fc_profile (with_chip env f) = fc_profile f" "fc_written (with_chip env f) = fc_written f"
  "fc_feeds (with_chip env f) = fc_feeds f" "fc_last_pwm (with_chip env f) = fc_last_pwm f"
  "fc_kick_until (with_chip env f) = fc_kick_until f" "fc_started (with_chip env f) = fc_started f"
  "fc_timing (with_chip env f) = fc_timing f" "fc_thresholds (with_chip env f) = fc_thresholds f"
  "fc_control_loss (with_chip env f) = fc_control_loss f"
  "(fc_hwmon (with_chip env f) = None) = (fc_hwmon f = None \<and> fe_resolved env = None)"
  by (auto simp: with_chip_def)

lemma fan_update_eq:
  "fp_enabled (fc_profile f) \<Longrightarrow> fan_update env f =
     (let g = with_chip env f in
      if fc_hwmon g = None
      then note_control_lost (fe_now env) (''pwm chip '' @ fp_pwm_chip (fc_profile g) @ '' not found'') g
      else update_resolved env g)"
  by (simp add: fan_update_def with_chip_def)

lemma hold_written:
  assumes "fe_manual_ok env \<and> fe_write_ok env"
  shows "fc_written (hold_full_speed_without_sensors env f) =
    (if fc_last_pwm f = None \<and> since (fe_now env) (fc_started f) < tm_sensor_takeover_after (fc_timing f)
     then fc_written f else fc_written f @ [fp_max_pwm (fc_profile f)])"
  using assms by (simp add: hold_full_speed_without_sensors_def write_fan_def Let_def)

lemma unsafe_written:
  assumes "fp_enabled (fc_profile f)" "fc_hwmon f \<noteq> None \<or> fe_resolved env \<noteq> None"
    "fe_manual_ok env \<and> fe_write_ok env" "0 < fp_max_pwm (fc_profile f)"
    "length (fe_samples env) = length (fc_feeds f)"
    "length (fp_sensors (fc_profile f)) = length (fc_feeds f)" "unsafe env f"
  shows "fc_written (fan_update env f) = fc_written f @
    (if readings env f = [] then [fp_max_pwm (fc_profile f)]
     else if kicking env f then []
     else if turning env f then [fp_max_pwm (fc_profile f)] else [fp_min_start_pwm (fc_profile f)])"
proof -
  define g where "g = with_chip env f"
  have g: "fc_profile g = fc_profile f" "fc_written g = fc_written f" "fc_feeds g = fc_feeds f"
    "fc_last_pwm g = fc_last_pwm f" "fc_kick_until g = fc_kick_until f" "fc_started g = fc_started f"
    "fc_timing g = fc_timing f" "fc_thresholds g = fc_thresholds f"
    by (simp_all add: g_def)
  have w: "fc_written (fan_update env f) = fc_written (update_resolved env g)"
    using assms(1,2) by (auto simp: fan_update_eq g_def Let_def)
  have r: "readings env (track_sensors env g) = readings env f"
    using readings_tracked [of env g] assms g by (simp add: readings_def)
  have fl: "floor_active (track_sensors env g) = floor_active (track_sensors env f)"
    using g by (simp add: floor_active_def track_sensors_def Let_def)
  have tk: "turning env g = turning env f" "kicking env g = kicking env f" "tach env g = tach env f"
    using g by (simp_all add: turning_def kicking_def tach_def)
  show ?thesis
  proof (cases "readings env f = []")
    case True
    then have "fst (target_pwm_from_sensors env g) = None" by (simp add: target_fst r)
    with True assms(3,7) show ?thesis
      by (auto simp: w update_resolved_eq hold_written g unsafe_def)
  next
    case False
    then have "fst (target_pwm_from_sensors env g) = Some (fp_max_pwm (fc_profile f))"
      using target_unsafe [of env g] assms(7) hot_cong(1) [of g f] g
      by (simp add: unsafe_def r fl)
    moreover have "fst (plan (fp_max_pwm (fc_profile f)) (tach env f)
        (recovered (snd (target_pwm_from_sensors env g))\<lparr>fc_kick_until := None\<rparr>)) =
        (if turning env f then SetPwm (fp_max_pwm (fc_profile f)) else Kick (fp_min_start_pwm (fc_profile f)))"
      by (rule plan_fst) (use assms(4) g in simp_all)
    ultimately show ?thesis using False
      by (simp add: w update_resolved_eq apply_written [OF assms(3)] g tk Let_def)
  qed
qed


text \<open>A running fan with one drive sensor.\<close>

definition drive_fan :: fan where
  "drive_fan = (fan_new 0 temperature_default
     (fan_profile_default\<lparr>fp_pwm_chip := ''it8625'', fp_fan_index := Some 1,
        fp_sensors := [selector_default\<lparr>sel_chip := ''drivetemp''\<rparr>]\<rparr>))
     \<lparr>fc_hwmon := Some ''hwmon3'', fc_last_pwm := Some 90, fc_thresholds := [(55, 60)]\<rparr>"

definition drive_env :: "rat \<Rightarrow> rat \<Rightarrow> fan_env" where
  "drive_env t rpm = \<lparr>fe_now = secs 100, fe_samples = [\<lparr>sm_at = Some (secs 98), sm_value = Some t\<rparr>],
     fe_resolved = Some ''hwmon3'', fe_manual_ok = True, fe_write_ok = True, fe_rpm = Some rpm\<rparr>"

lemmas drive_defs = drive_fan_def drive_env_def fan_new_def starting_unmanaged_def
  fan_profile_default_def selector_default_def timing_default_def

lemma drive_readings: "readings (drive_env t rpm) drive_fan = [(0, t)]"
  by (simp add: readings_def drive_defs feed_current_def feed_new_def sampling_secs_def
      MIN_SENSOR_MAX_AGE_def secs_def since_def List.map_filter_def enumerate_eq_zip)


section \<open>A fan nobody drives\<close>

text \<open>As long as nothing has been written, the loss of control counts from the start.\<close>

definition undriven :: "fan \<Rightarrow> bool" where
  "undriven f \<longleftrightarrow> (case fc_control_loss f of None \<Rightarrow> False | Some l \<Rightarrow> cl_since l = fc_started f)"

lemma undriven_cong:
  "fc_control_loss g = fc_control_loss f \<Longrightarrow> fc_started g = fc_started f \<Longrightarrow> undriven g = undriven f"
  by (auto simp: undriven_def split: option.split)

lemma undriven_lost: "undriven f \<Longrightarrow> undriven (note_control_lost now why f)"
  by (auto simp: undriven_def note_control_lost_def Let_def split: option.splits)

definition same_setup :: "fan \<Rightarrow> fan \<Rightarrow> bool" where
  "same_setup g f \<longleftrightarrow> fc_started g = fc_started f \<and> fc_profile g = fc_profile f \<and> fc_timing g = fc_timing f
     \<and> (fc_written g = fc_written f \<and> (undriven f \<longrightarrow> undriven g) \<or> fc_written g \<noteq> [])"

lemma apply_setup: "same_setup (apply_pwm env cmd f) f"
  using undriven_lost [of "f\<lparr>fc_hwmon := None\<rparr>"] undriven_cong [of "f\<lparr>fc_hwmon := None\<rparr>" f]
  by (simp add: apply_pwm_def write_fan_def same_setup_def Let_def split: pwm_command.split)

lemma hold_setup: "same_setup (hold_full_speed_without_sensors env f) f"
proof -
  have "undriven (note_control_lost (fe_now env) why g)"
    if "undriven f" "fc_control_loss g = fc_control_loss f" "fc_started g = fc_started f" for why g
    using undriven_lost [of g] undriven_cong [of g f] that by simp
  then show ?thesis
    by (simp add: hold_full_speed_without_sensors_def write_fan_def same_setup_def Let_def)
qed

lemma resolved_setup: "same_setup (update_resolved env f) f"
proof -
  obtain target g where t: "target_pwm_from_sensors env f = (target, g)" by fastforce
  note fr = target_frame [of env f, unfolded t snd_conv]
  have g: "same_setup x f" if "same_setup x y" "fc_started y = fc_started f" "fc_profile y = fc_profile f"
    "fc_timing y = fc_timing f" "fc_written y = fc_written f" "fc_control_loss y = fc_control_loss f" for x y
    using that undriven_cong [of y f] by (simp add: same_setup_def)
  show ?thesis
  proof (cases target)
    case None
    then show ?thesis using g [OF hold_setup] fr by (simp add: update_resolved_def t)
  next
    case (Some u)
    let ?r = "recovered g"
    have "same_setup ?r f" using fr undriven_cong [of ?r f] by (simp add: same_setup_def)
    moreover have "same_setup (apply_pwm env cmd (snd (plan u rpm (?r\<lparr>fc_kick_until := None\<rparr>)))) f" for cmd rpm
      by (rule g [OF apply_setup]) (simp_all add: fr)
    ultimately show ?thesis using Some by (simp add: update_resolved_eq t Let_def)
  qed
qed

lemma update_setup:
  assumes "fp_enabled (fc_profile f)"
  shows "same_setup (fan_update env f) f"
proof -
  let ?g = "with_chip env f"
  show ?thesis
    using assms resolved_setup [of env ?g] undriven_lost [of ?g] undriven_cong [of ?g f]
    by (auto simp: same_setup_def fan_update_eq Let_def)
qed

lemma tick_setup: "fp_enabled (fc_profile f) \<Longrightarrow> same_setup (fan_tick env f) f"
  using update_setup [of "f\<lparr>fc_last_tick := Some (fe_now env)\<rparr>" env]
    undriven_cong [of "f\<lparr>fc_last_tick := Some (fe_now env)\<rparr>" f]
  by (auto simp: fan_tick_def same_setup_def)

lemma same_setup_trans: "same_setup h g \<Longrightarrow> same_setup g f \<Longrightarrow> same_setup h f"
  by (auto simp: same_setup_def)

lemma run_setup: "fp_enabled (fc_profile f) \<Longrightarrow> same_setup (fold fan_tick envs f) f"
proof (induction envs rule: rev_induct)
  case Nil
  show ?case by (simp add: same_setup_def)
next
  case (snoc env envs)
  then have "fp_enabled (fc_profile (fold fan_tick envs f))" by (simp add: same_setup_def)
  with snoc same_setup_trans [OF tick_setup [of "fold fan_tick envs f" env]] show ?case by simp
qed

lemma health_undriven:
  "undriven f \<Longrightarrow> \<not> fp_disabled_by_config (fc_profile f) \<Longrightarrow>
     tm_control_critical_after (fc_timing f) \<le> since now (fc_started f) \<Longrightarrow> health_level now f = Critical"
  "undriven f \<Longrightarrow> \<not> fp_disabled_by_config (fc_profile f) \<Longrightarrow>
     tm_control_warn_after (fc_timing f) \<le> since now (fc_started f) \<Longrightarrow> Warn \<le> health_level now f"
  by (auto simp: health_level_def undriven_def Let_def less_eq_level_def split: option.splits)

text \<open>A fan nobody drives is reported: for an enabled profile, whatever the controller meets after it
  starts (a chip that never appears, writes that keep failing, sensors that never read), as long as
  no pwm value has been written its health is at least a warning from 30 s after the start on and
  critical from 180 s on.\<close>

theorem uncontrolled_reported:
  assumes "fp_enabled profile" "\<not> fp_disabled_by_config profile"
    "f = fold fan_tick envs (fan_new start temperature profile)" "fc_written f = []"
  shows "(secs 30 \<le> since now start \<longrightarrow> Warn \<le> health_level now f)
    \<and> (secs 180 \<le> since now start \<longrightarrow> health_level now f = Critical)"
proof -
  let ?f = "fan_new start temperature profile"
  have "fc_profile ?f = profile" "fc_started ?f = start" "fc_timing ?f = timing_default" "undriven ?f"
    using assms(1) by (simp_all add: fan_new_def starting_unmanaged_def undriven_def)
  with run_setup [of ?f envs] assms health_undriven [of f now] show ?thesis
    by (auto simp: same_setup_def timing_default_def)
qed

theorem uncontrolled_reported_witness:
  "health_level (secs 200) (fan_tick \<lparr>fe_now = secs 190, fe_samples = [], fe_resolved = None,
     fe_manual_ok = True, fe_write_ok = True, fe_rpm = None\<rparr> (fan_new 0 temperature_default (hd default_fans)))
   = Critical"
proof -
  let ?e = "\<lparr>fe_now = secs 190, fe_samples = [], fe_resolved = None,
     fe_manual_ok = True, fe_write_ok = True, fe_rpm = None\<rparr>"
  have p: "fp_enabled (hd default_fans)" "\<not> fp_disabled_by_config (hd default_fans)"
    by (simp_all add: default_fans_def fan_profile_default_def)
  have "fc_written (fan_tick ?e (fan_new 0 temperature_default (hd default_fans))) = []"
    using p by (simp add: fan_tick_def fan_update_def fan_new_def starting_unmanaged_def)
  with p show ?thesis
    using uncontrolled_reported [of "hd default_fans" _ "[?e]" 0 temperature_default "secs 200"]
    by (simp add: since_def secs_def)
qed

section \<open>A lost sensor and the speed of its fan\<close>

text \<open>What a pass of a fan whose chip is there leaves of its feeds.\<close>

lemma note_lost_feeds [simp]: "fc_feeds (note_control_lost now why f) = fc_feeds f"
  by (simp add: note_control_lost_def Let_def)

lemma mark_ok_feeds [simp]: "fc_feeds (mark_control_ok now f) = fc_feeds f"
  by (simp add: mark_control_ok_def Let_def split: option.split)

lemma apply_feeds [simp]: "fc_feeds (apply_pwm env cmd f) = fc_feeds f"
  by (simp add: apply_pwm_def write_fan_def Let_def split: pwm_command.split)

lemma plan_feeds [simp]: "fc_feeds (snd (plan t rpm f)) = fc_feeds f"
  by (simp add: plan_def check_low_rpm_def Let_def split: option.split)

lemma hold_feeds [simp]: "fc_feeds (hold_full_speed_without_sensors env f) = fc_feeds f"
  by (simp add: hold_full_speed_without_sensors_def write_fan_def Let_def)

lemma update_feeds:
  assumes "fp_enabled (fc_profile f)" "fe_resolved env \<noteq> None"
  shows "fc_feeds (fan_update env f) = fc_feeds (track_sensors env f)"
proof -
  let ?g = "with_chip env f"
  have "fc_feeds (track_sensors env ?g) = fc_feeds (track_sensors env f)"
    by (simp add: track_sensors_def Let_def)
  moreover have "fc_feeds (update_resolved env ?g) = fc_feeds (track_sensors env ?g)"
    by (simp add: update_resolved_eq target_snd recovered_def Let_def split: option.split)
  ultimately show ?thesis using assms by (simp add: fan_update_eq Let_def del: not_None_eq)
qed

text \<open>The reading of one sensor in a pass, and its feed over a run of passes.\<close>

definition sensor_reading_in :: "nat \<Rightarrow> fan \<Rightarrow> fan_env \<Rightarrow> rat option" where
  "sensor_reading_in j f env = feed_current (fe_now env) (fe_samples env ! j) (fc_feeds f ! j)"

definition fan_due :: "fan \<Rightarrow> fan_env \<Rightarrow> bool" where
  "fan_due f env \<longleftrightarrow> fe_resolved env \<noteq> None \<and> length (fe_samples env) = length (fc_feeds f)"

lemma update_feed:
  assumes "fp_enabled (fc_profile f)" "length (fp_sensors (fc_profile f)) = length (fc_feeds f)"
    "fan_due f env" "j < length (fc_feeds f)"
  shows "length (fc_feeds (fan_update env f)) = length (fc_feeds f)"
    "fc_feeds (fan_update env f) ! j = fst (track_feed (fc_timing f) (fe_now env)
       (sel_chip (fp_sensors (fc_profile f) ! j)) (sensor_reading_in j f env) (fc_feeds f ! j))"
  using assms update_feeds [of f env]
  by (simp_all add: fan_due_def track_sensors_def Let_def sensor_reading_in_def)

lemma run_feed:
  assumes "fp_enabled (fc_profile f)" "length (fp_sensors (fc_profile f)) = length (fc_feeds f)"
    "list_all (fan_due f) envs" "j < length (fc_feeds f)"
  shows "same_setup (fold fan_update envs f) f \<and> length (fc_feeds (fold fan_update envs f)) = length (fc_feeds f)
    \<and> fc_feeds (fold fan_update envs f) ! j = feed_run (fc_timing f) (sel_chip (fp_sensors (fc_profile f) ! j))
        (map (\<lambda>env. (fe_now env, sensor_reading_in j f env)) envs) (fc_feeds f ! j)
    \<and> fd_max_age (fc_feeds (fold fan_update envs f) ! j) = fd_max_age (fc_feeds f ! j)"
  using assms(3)
proof (induction envs rule: rev_induct)
  case Nil
  show ?case by (simp add: same_setup_def)
next
  case (snoc env envs)
  let ?g = "fold fan_update envs f"
  have "list_all (fan_due f) envs" using snoc.prems by simp
  from snoc.IH [OF this] have IH: "same_setup ?g f" "length (fc_feeds ?g) = length (fc_feeds f)"
    "fc_feeds ?g ! j = feed_run (fc_timing f) (sel_chip (fp_sensors (fc_profile f) ! j))
        (map (\<lambda>env. (fe_now env, sensor_reading_in j f env)) envs) (fc_feeds f ! j)"
    "fd_max_age (fc_feeds ?g ! j) = fd_max_age (fc_feeds f ! j)" by blast+
  have g: "fc_profile ?g = fc_profile f" "fc_timing ?g = fc_timing f" using IH(1) by (simp_all add: same_setup_def)
  have due: "fan_due ?g env" using snoc.prems IH(2) by (simp add: fan_due_def)
  have "fp_enabled (fc_profile ?g)" "length (fp_sensors (fc_profile ?g)) = length (fc_feeds ?g)" "j < length (fc_feeds ?g)"
    using assms g IH(2) by simp_all
  note u = update_feed [OF this(1,2) due this(3)] same_setup_trans [OF update_setup [OF this(1)] IH(1)]
  have "sensor_reading_in j ?g env = sensor_reading_in j f env"
    unfolding sensor_reading_in_def feed_current_def IH(4) by (rule refl)
  with u IH g show ?case by (simp add: track_feed_age feed_run_def)
qed

lemma held_floor: "j < length (fc_feeds f) \<Longrightarrow> fd_held (fc_feeds f ! j) \<Longrightarrow> floor_active f"
  by (auto simp: floor_active_def list_ex_iff)

lemma floor_written:
  assumes "fp_enabled (fc_profile f)" "fe_resolved env \<noteq> None" "fe_manual_ok env \<and> fe_write_ok env"
    "0 < fp_max_pwm (fc_profile f)" "length (fe_samples env) = length (fc_feeds f)"
    "length (fp_sensors (fc_profile f)) = length (fc_feeds f)" "floor_active (fan_update env f)"
  shows "fc_written (fan_update env f) = fc_written f @
    (if readings env f = []
     then (if fc_last_pwm f = None \<and> since (fe_now env) (fc_started f) < tm_sensor_takeover_after (fc_timing f)
           then [] else [fp_max_pwm (fc_profile f)])
     else if kicking env f then []
     else if turning env f then [fp_max_pwm (fc_profile f)] else [fp_min_start_pwm (fc_profile f)])"
proof (cases "unsafe env f")
  case True
  then show ?thesis using unsafe_written [of f env] assms by (auto simp: unsafe_def split: if_splits)
next
  case False
  have "floor_active (track_sensors env f)"
    using assms(1,2,7) by (simp add: floor_active_def update_feeds)
  with False have empty: "readings env f = []"
    "fc_last_pwm f = None \<and> since (fe_now env) (fc_started f) < tm_sensor_takeover_after (fc_timing f)"
    by (auto simp: unsafe_def split: if_splits)
  let ?g = "with_chip env f"
  have "readings env (track_sensors env ?g) = []"
    using readings_tracked [of env ?g] assms empty(1) by (simp add: readings_def)
  then have "fst (target_pwm_from_sensors env ?g) = None" by (simp add: target_fst)
  with assms(1,2,3) empty show ?thesis
    by (simp add: fan_update_eq Let_def update_resolved_eq hold_written)
qed


text \<open>Two drives, one of which stops reading while the other stays at 30 degrees: from the third pass on the
  fan is at full speed.\<close>

definition floor_fan :: fan where
  "floor_fan = (fan_new 0 temperature_default
     (fan_profile_default\<lparr>fp_pwm_chip := ''it8625'', fp_sensors := [selector_default, selector_default],
        fp_mode := FanFixed, fp_fixed_pwm := Some 90\<rparr>))
     \<lparr>fc_hwmon := Some ''hwmon3'', fc_last_pwm := Some 90, fc_thresholds := [(55, 60), (55, 60)],
      fc_feeds := [feed_new selector_default 2\<lparr>fd_ever_read := True\<rparr>, feed_new selector_default 2\<lparr>fd_ever_read := True\<rparr>]\<rparr>"

definition floor_env :: "nat \<Rightarrow> fan_env" where
  "floor_env t = \<lparr>fe_now = secs t,
     fe_samples = [\<lparr>sm_at = None, sm_value = None\<rparr>, \<lparr>sm_at = Some (secs t), sm_value = Some 30\<rparr>],
     fe_resolved = Some ''hwmon3'', fe_manual_ok = True, fe_write_ok = True, fe_rpm = None\<rparr>"

lemmas floor_defs = floor_fan_def floor_env_def fan_new_def starting_unmanaged_def fan_profile_default_def
  selector_default_def timing_default_def feed_new_def

lemma floor_setup:
  "fp_enabled (fc_profile floor_fan)" "length (fp_sensors (fc_profile floor_fan)) = length (fc_feeds floor_fan)"
  "fp_max_pwm (fc_profile floor_fan) = 255" "length (fc_feeds floor_fan) = 2" "fp_fan_index (fc_profile floor_fan) = None"
  "fd_ever_read (fc_feeds floor_fan ! 0)" "fd_lost_since (fc_feeds floor_fan ! 0) = None"
  "tm_sensor_loss_grace (fc_timing floor_fan) = secs 10" "fan_due floor_fan (floor_env t)"
  "sensor_reading_in 0 floor_fan (floor_env t) = None" "fe_manual_ok (floor_env t) \<and> fe_write_ok (floor_env t)"
  "fe_now (floor_env t) = secs t"
  by (simp_all add: floor_defs fan_due_def sensor_reading_in_def feed_current_def)

lemma floor_readings: "fc_feeds f = [a, b] \<Longrightarrow> readings (floor_env t) f = [(1, 30)]"
  by (simp add: readings_def floor_env_def feed_current_def since_def List.map_filter_simps)

lemma floor_before:
  "fc_last_pwm (fan_update (floor_env 5) floor_fan) = Some 90"
  "fc_kick_until (fan_update (floor_env 5) floor_fan) = None"
  "\<exists>a b. fc_feeds (fan_update (floor_env 5) floor_fan) = [a, b]"
proof -
  let ?f = floor_fan and ?e = "floor_env 5"
  let ?t = "track_sensors ?e ?f"
  have feeds: "\<exists>a b. fc_feeds ?t = [a, b] \<and> \<not> fd_held a \<and> \<not> fd_held b"
    by (simp add: track_sensors_def Let_def floor_defs track_feed_def since_def feed_current_def secs_def)
  then have rs: "readings ?e ?t = [(1, 30)]" using floor_readings by blast
  have cool: "\<not> list_ex (reading_hot ?t) [(1, 30)]" "\<not> fc_critical_override ?t"
    by (simp_all add: reading_hot_def is_over_range_def PLAUSIBLE_MAX_C_def) (simp_all add: track_sensors_def Let_def floor_defs)
  then have up: "update_critical_override [(1, 30)] ?t = (False, ?t)"
    by (simp add: update_critical_override_def)
  have "fp_mode (fc_profile ?f) = FanFixed" "fp_fixed_pwm (fc_profile ?f) = Some 90" by (simp_all add: floor_defs)
  then have target: "target_pwm_from_sensors ?e ?f = (Some 90, ?t)"
    using feeds by (auto simp: target_pwm_from_sensors_def fixed_target_def rs up [simplified] Let_def floor_active_def)
  have f: "fc_hwmon ?f = Some ''hwmon3''" "fc_kick_until ?f = None" "fc_last_pwm ?f = Some 90" by (simp_all add: floor_defs)
  have "fan_update ?e ?f = apply_pwm ?e (fst (plan 90 None (recovered ?t\<lparr>fc_kick_until := None\<rparr>)))
      (snd (plan 90 None (recovered ?t\<lparr>fc_kick_until := None\<rparr>)))"
    using f by (simp add: fan_update_eq floor_setup with_chip_def update_resolved_eq target kicking_def tach_def Let_def)
  moreover have "fst (plan 90 None (recovered ?t\<lparr>fc_kick_until := None\<rparr>)) = SetPwm 90"
    using f by (simp add: plan_def Let_def)
  ultimately have up: "fan_update ?e ?f = apply_pwm ?e (SetPwm 90) (snd (plan 90 None (recovered ?t\<lparr>fc_kick_until := None\<rparr>)))"
    by simp
  show "fc_last_pwm (fan_update ?e ?f) = Some 90"
    by (simp add: up apply_pwm_def write_fan_def floor_setup Let_def)
  show "fc_kick_until (fan_update ?e ?f) = None"
    by (simp add: up apply_pwm_def write_fan_def floor_setup Let_def plan_def check_low_rpm_def mark_control_ok_def
        split: option.split)
  show "\<exists>a b. fc_feeds (fan_update ?e ?f) = [a, b]"
    using feeds update_feeds [of ?f ?e] floor_setup(1,9) by (auto simp: fan_due_def)
qed


section \<open>The fail-safe\<close>

lemma enumerate_updates:
  "n + length xs \<le> length os \<Longrightarrow>
     fold (\<lambda>(i, x) os. os[i := x]) (enumerate n xs) os = take n os @ xs @ drop (n + length xs) os"
proof (induction xs arbitrary: n os)
  case (Cons x xs)
  from Cons.prems have "n < length os" by simp
  then have "take (Suc n) (os[n := x]) = take n os @ [x]" by (simp add: take_Suc_conv_app_nth)
  moreover have "drop (Suc n + length xs) (os[n := x]) = drop (n + length (x # xs)) os" by simp
  ultimately show ?case using Cons.IH [of "Suc n" "os[n := x]"] Cons.prems by simp
qed simp

lemma helper_updates:
  "helper_reports wr ps k = enumerate 0 (take k (map wr ps))"
proof -
  have "map (\<lambda>(i, p). (i, wr p)) (enumerate n ps) = enumerate n (map wr ps)" for n
    by (induction ps arbitrary: n) simp_all
  moreover have "take k (enumerate n xs) = enumerate n (take k xs)" for n and xs :: "full_speed_outcome list"
    by (induction xs arbitrary: n k) (simp_all add: take_Cons split: nat.split)
  ultimately show ?thesis by (simp only: helper_reports_def)
qed

lemma failsafe_outcomes:
  fixes wr :: "fan_profile \<Rightarrow> full_speed_outcome" and k :: nat and profiles :: "fan_profile list"
  defines "enabled \<equiv> filter fp_enabled profiles"
  defines "report \<equiv> force_full_speed_bounded profiles (Inr (helper_reports wr enabled k))"
  shows "report = map2 (\<lambda>p outcome. (fp_name p, fp_pwm_index p, outcome)) enabled
      (map wr (take k enabled) @ replicate (length enabled - k) TimedOut)
    \<and> all_present_fans_set report = (length enabled \<le> k \<and> list_all (\<lambda>p. wr p \<in> {Forced, ChipAbsent}) enabled)"
proof -
  let ?os = "map wr (take k enabled) @ replicate (length enabled - k) TimedOut"
  have "fold (\<lambda>(i, x) os. os[i := x]) (take (length enabled) (helper_reports wr enabled k))
      (replicate (length enabled) TimedOut) = ?os"
    using enumerate_updates [of 0 "take k (map wr enabled)" "replicate (length enabled) TimedOut"]
    by (simp add: helper_updates take_map min_def)
  then have r: "report = map2 (\<lambda>p outcome. (fp_name p, fp_pwm_index p, outcome)) enabled ?os"
    unfolding report_def force_full_speed_bounded_def by (fold enabled_def) (simp add: Let_def)
  have z: "list_all (\<lambda>(_, _, outcome). P outcome) (map2 (\<lambda>p outcome. (f p, g p, outcome)) ps os) = list_all P os"
    if "length ps = length os" for P ps os and f :: "fan_profile \<Rightarrow> string" and g :: "fan_profile \<Rightarrow> nat"
    using that by (induction ps os rule: list_induct2) simp_all
  have "all_present_fans_set report = list_all (\<lambda>outcome. outcome = Forced \<or> outcome = ChipAbsent) ?os"
    unfolding r all_present_fans_set_def by (rule z) simp
  also have "\<dots> = (length enabled \<le> k \<and> list_all (\<lambda>p. wr p \<in> {Forced, ChipAbsent}) enabled)"
    by (cases "length enabled \<le> k") (auto simp: list_all_iff)
  finally show ?thesis using r by simp
qed

text \<open>The fail-safe's report names exactly the enabled fans in the configuration's order: those whose
  write ended before the deadline with its outcome, the rest as timed out. The unit's stop hook
  succeeds exactly when every enabled fan whose chip exists was set in time.\<close>

theorem failsafe_report:
  "let enabled = filter fp_enabled profiles;
       report = force_full_speed_bounded profiles (Inr (helper_reports wr enabled k))
   in report = map2 (\<lambda>p outcome. (fp_name p, fp_pwm_index p, outcome)) enabled
        (map wr (take k enabled) @ replicate (length enabled - k) TimedOut)
      \<and> all_present_fans_set report
        = (length enabled \<le> k \<and> list_all (\<lambda>p. wr p \<in> {Forced, ChipAbsent}) enabled)"
  unfolding Let_def by (rule failsafe_outcomes)

end
