(* ===== verification/CpuPower.thy ===== *)
theory CpuPower
  imports Settings Steady Levels Floats
begin

text \<open>
  \<open>src/cpu_power.rs\<close>: the RAPL zone's files, the order of the writes, the guard that decides between
  the configured and the stock limits, and the controller that keeps the zone at what the guard
  wants. The zone is a map from file names to what reading them gives (\<open>Inl\<close> the error text,
  \<open>Inr\<close> the content); what a write does to it is the parameter \<open>wr\<close>, the kernel's. A \<open>u64\<close> is
  a \<open>nat\<close>: the limits stay below \<open>2 ^ 64\<close>, and the one product that could leave it (a time window
  above \<open>2 ^ 62\<close> microseconds read from the zone) panics in the program.
\<close>

section \<open>Limits and the zone\<close>

definition PL1_FILE :: string where "PL1_FILE = ''constraint_0_power_limit_uw''"
definition PL2_FILE :: string where "PL2_FILE = ''constraint_1_power_limit_uw''"
definition TAU_FILE :: string where "TAU_FILE = ''constraint_0_time_window_us''"
definition ZONE_DIR :: string where "ZONE_DIR = ''/sys/class/powercap/intel-rapl:0''"
definition UW_PER_W :: nat where "UW_PER_W = 1000000"
definition US_PER_S :: nat where "US_PER_S = 1000000"
definition VERIFY_INTERVAL :: duration where "VERIFY_INTERVAL = secs 60"
definition MIN_STALE_AFTER :: duration where "MIN_STALE_AFTER = secs 30"

definition cpu_power_default :: cpu_power_config where
  "cpu_power_default =
     \<lparr>cp_enabled = False, cp_pl1_w = 12, cp_pl2_w = 14, cp_tau_secs = 120, cp_stock_pl1_w = 10,
      cp_stock_pl2_w = 25, cp_stock_tau_secs = 28, cp_rearm_secs = 60, cp_check_secs = 5\<rparr>"

type_synonym reading = "string \<times> string \<times> rat"
type_synonym zone = "string \<Rightarrow> string + string"

record limits =
  lim_pl1_uw :: nat
  lim_pl2_uw :: nat
  lim_tau_us :: nat

definition limits_configured :: "cpu_power_config \<Rightarrow> limits" where
  "limits_configured cfg =
     \<lparr>lim_pl1_uw = cp_pl1_w cfg * UW_PER_W, lim_pl2_uw = cp_pl2_w cfg * UW_PER_W,
      lim_tau_us = cp_tau_secs cfg * US_PER_S\<rparr>"

definition limits_stock :: "cpu_power_config \<Rightarrow> limits" where
  "limits_stock cfg =
     \<lparr>lim_pl1_uw = cp_stock_pl1_w cfg * UW_PER_W, lim_pl2_uw = cp_stock_pl2_w cfg * UW_PER_W,
      lim_tau_us = cp_stock_tau_secs cfg * US_PER_S\<rparr>"

definition abs_diff :: "nat \<Rightarrow> nat \<Rightarrow> nat" where
  "abs_diff a b = (if a < b then b - a else a - b)"

definition limits_match :: "limits \<Rightarrow> limits \<Rightarrow> bool" where
  "limits_match l r \<longleftrightarrow> lim_pl1_uw l = lim_pl1_uw r \<and> lim_pl2_uw l = lim_pl2_uw r
     \<and> abs_diff (lim_tau_us l) (lim_tau_us r) * 4 \<le> lim_tau_us l"

definition describe :: "limits \<Rightarrow> string" where
  "describe l = ''PL1 '' @ nat_str (lim_pl1_uw l div UW_PER_W) @ ''W, PL2 ''
     @ nat_str (lim_pl2_uw l div UW_PER_W) @ ''W, tau '' @ nat_str (lim_tau_us l div US_PER_S) @ ''s''"

definition write_plan :: "nat \<Rightarrow> limits \<Rightarrow> (string \<times> nat) list" where
  "write_plan cur_pl2_uw new =
     (let pl1 = (PL1_FILE, lim_pl1_uw new); pl2 = (PL2_FILE, lim_pl2_uw new); tau = (TAU_FILE, lim_tau_us new)
      in if cur_pl2_uw \<le> lim_pl2_uw new then [pl2, pl1, tau] else [pl1, pl2, tau])"

definition read_raw :: "zone \<Rightarrow> string \<Rightarrow> string + string" where
  "read_raw z f = (case z f of Inl e \<Rightarrow> Inl (f @ '': '' @ e) | Inr s \<Rightarrow> Inr (trim s))"

text \<open>The text of \<open>ParseIntError\<close> for a \<open>u64\<close>, by the first character that stops the parse.\<close>

fun u64_digits_error :: "nat \<Rightarrow> string \<Rightarrow> string" where
  "u64_digits_error n [] = []"
| "u64_digits_error n (c # cs) =
     (if \<not> is_digit c then ''invalid digit found in string''
      else if 2 ^ 64 \<le> 10 * n + digit_val c then ''number too large to fit in target type''
      else u64_digits_error (10 * n + digit_val c) cs)"

definition u64_error :: "string \<Rightarrow> string" where
  "u64_error s =
     (if s = [] then ''cannot parse integer from empty string''
      else if s = ''+'' \<or> s = ''-'' then ''invalid digit found in string''
      else u64_digits_error 0 (if hd s = CHR ''+'' then tl s else s))"

definition read_u64 :: "zone \<Rightarrow> string \<Rightarrow> string + nat" where
  "read_u64 z f =
     (case read_raw z f of
        Inl e \<Rightarrow> Inl e
      | Inr s \<Rightarrow> (case parse_uint (2 ^ 64) s of Some n \<Rightarrow> Inr n | None \<Rightarrow> Inl (f @ '': '' @ u64_error s)))"

definition check_name :: "zone \<Rightarrow> string \<Rightarrow> string \<Rightarrow> string option" where
  "check_name z f want =
     (case read_raw z f of
        Inl e \<Rightarrow> Some (ZONE_DIR @ '': '' @ e)
      | Inr nm \<Rightarrow>
          if nm = want then None
          else Some (ZONE_DIR @ ''/'' @ f @ '' is '' @ [CHR 0x22] @ nm @ [CHR 0x22] @ '', expected ''
                     @ [CHR 0x22] @ want @ [CHR 0x22]))"

definition zone_check :: "zone \<Rightarrow> string option" where
  "zone_check z =
     (case check_name z ''constraint_0_name'' ''long_term'' of
        Some e \<Rightarrow> Some e
      | None \<Rightarrow> check_name z ''constraint_1_name'' ''short_term'')"

definition zone_read :: "zone \<Rightarrow> string + limits" where
  "zone_read z =
     (case read_u64 z PL1_FILE of
        Inl e \<Rightarrow> Inl e
      | Inr pl1 \<Rightarrow>
          (case read_u64 z PL2_FILE of
             Inl e \<Rightarrow> Inl e
           | Inr pl2 \<Rightarrow>
               (case read_u64 z TAU_FILE of
                  Inl e \<Rightarrow> Inl e
                | Inr tau \<Rightarrow> Inr \<lparr>lim_pl1_uw = pl1, lim_pl2_uw = pl2, lim_tau_us = tau\<rparr>)))"

type_synonym zone_write = "string \<Rightarrow> nat \<Rightarrow> zone \<Rightarrow> string + zone"

fun write_files :: "zone_write \<Rightarrow> (string \<times> nat) list \<Rightarrow> zone \<Rightarrow> string option \<times> zone" where
  "write_files wr [] z = (None, z)"
| "write_files wr ((f, v) # rest) z =
     (case wr f v z of
        Inl e \<Rightarrow> (Some (''writing '' @ f @ '': '' @ e), z)
      | Inr z \<Rightarrow> write_files wr rest z)"

definition write_limits :: "zone_write \<Rightarrow> limits \<Rightarrow> zone \<Rightarrow> string option \<times> zone" where
  "write_limits wr new z =
     (case read_u64 z PL2_FILE of
        Inl e \<Rightarrow> (Some e, z)
      | Inr cur_pl2 \<Rightarrow> write_files wr (write_plan cur_pl2 new) z)"

definition restore_stock :: "zone_write \<Rightarrow> cpu_power_config \<Rightarrow> zone \<Rightarrow> string option \<times> zone" where
  "restore_stock wr cfg z =
     (if \<not> cp_enabled cfg then (None, z)
      else
        (case zone_check z of
           Some e \<Rightarrow> (Some e, z)
         | None \<Rightarrow> write_limits wr (limits_stock cfg) z))"

section \<open>The guard\<close>

datatype limit_mode = Configured | Stock
datatype guard_change = Tripped string | Rearmed

record guard =
  gd_rearm :: duration
  gd_tripped :: bool
  gd_cool_since :: "instant option"

definition guard_new :: "duration \<Rightarrow> guard" where
  "guard_new rearm = \<lparr>gd_rearm = rearm, gd_tripped = False, gd_cool_since = None\<rparr>"

definition guard_mode :: "guard \<Rightarrow> limit_mode" where
  "guard_mode g = (if gd_tripped g then Stock else Configured)"

text \<open>Why an observation is critical, if it is.\<close>

definition critical_reason :: "temperature_config \<Rightarrow> reading list option \<Rightarrow> string option" where
  "critical_reason temps readings =
     (case readings of
        None \<Rightarrow> Some ''no fresh temperature readings''
      | Some rs \<Rightarrow>
          if rs = [] then Some ''no fresh temperature readings''
          else
            map_option (\<lambda>(chip, lbl, t).
                lbl @ '': '' @ fmt_fixed 1 t @ ''C at or above critical (''
                @ fmt_fixed 1 (snd (resolve_temp_threshold temps chip)) @ ''C)'')
              (find (\<lambda>(chip, _, t). snd (resolve_temp_threshold temps chip) \<le> t) rs))"

definition all_cool :: "temperature_config \<Rightarrow> reading list option \<Rightarrow> bool" where
  "all_cool temps readings \<longleftrightarrow>
     (case readings of
        None \<Rightarrow> False
      | Some rs \<Rightarrow> rs \<noteq> [] \<and> list_all (\<lambda>(chip, _, t). t < fst (resolve_temp_threshold temps chip)) rs)"

definition guard_observe ::
  "temperature_config \<Rightarrow> instant \<Rightarrow> reading list option \<Rightarrow> guard \<Rightarrow> guard_change option \<times> guard" where
  "guard_observe temps now readings g =
     (case critical_reason temps readings of
        Some why \<Rightarrow>
          (if gd_tripped g then None else Some (Tripped why), g\<lparr>gd_cool_since := None, gd_tripped := True\<rparr>)
      | None \<Rightarrow>
          if \<not> gd_tripped g then (None, g)
          else if \<not> all_cool temps readings then (None, g\<lparr>gd_cool_since := None\<rparr>)
          else
            let start = (case gd_cool_since g of None \<Rightarrow> now | Some t \<Rightarrow> t) in
            if gd_rearm g \<le> since now start
            then (Some Rearmed, g\<lparr>gd_tripped := False, gd_cool_since := None\<rparr>)
            else (None, g\<lparr>gd_cool_since := Some start\<rparr>))"

section \<open>The controller\<close>

record controller =
  ct_zone :: zone
  ct_configured :: limits
  ct_stock :: limits
  ct_guard :: guard
  ct_applied :: "limit_mode option"
  ct_last_verify :: "instant option"
  ct_trip_reason :: "string option"
  ct_problem :: "string option"
  ct_log :: "log_line list"

definition controller_new :: "zone \<Rightarrow> cpu_power_config \<Rightarrow> controller" where
  "controller_new z cfg =
     \<lparr>ct_zone = z, ct_configured = limits_configured cfg, ct_stock = limits_stock cfg,
      ct_guard = guard_new (secs (cp_rearm_secs cfg)), ct_applied = None, ct_last_verify = None,
      ct_trip_reason = None, ct_problem = None, ct_log = []\<rparr>"

definition limits_of :: "limit_mode \<Rightarrow> controller \<Rightarrow> limits" where
  "limits_of m c = (case m of Configured \<Rightarrow> ct_configured c | Stock \<Rightarrow> ct_stock c)"

definition ctl_logs :: "log_line list \<Rightarrow> controller \<Rightarrow> controller" where
  "ctl_logs ls c = c\<lparr>ct_log := ct_log c @ ls\<rparr>"

definition verify_limits :: "instant \<Rightarrow> controller \<Rightarrow> controller" where
  "verify_limits now c =
     (case ct_applied c of
        None \<Rightarrow> c
      | Some m \<Rightarrow>
          if (case ct_last_verify c of None \<Rightarrow> False | Some t \<Rightarrow> since now t < VERIFY_INTERVAL) then c
          else
            let c = c\<lparr>ct_last_verify := Some now\<rparr>; want = limits_of m c in
            (case zone_read (ct_zone c) of
               Inr cur \<Rightarrow>
                 if limits_match want cur then c
                 else ctl_logs [syslog PWarning ''limits_changed'' [describe cur, describe want] []]
                        (c\<lparr>ct_applied := None\<rparr>)
             | Inl e \<Rightarrow> ctl_logs [syslog PWarning ''cannot_read_limits'' [e] []] (c\<lparr>ct_applied := None\<rparr>)))"

definition apply_limits :: "zone_write \<Rightarrow> instant \<Rightarrow> limit_mode \<Rightarrow> controller \<Rightarrow> controller" where
  "apply_limits wr now m c =
     (let limits = limits_of m c;
          (err, z) = (case zone_check (ct_zone c) of
                        Some e \<Rightarrow> (Some e, ct_zone c)
                      | None \<Rightarrow> write_limits wr limits (ct_zone c));
          c = c\<lparr>ct_zone := z\<rparr>
      in case err of
           None \<Rightarrow>
             let c = ctl_logs [syslog PInfo (case m of Configured \<Rightarrow> ''set_configured'' | Stock \<Rightarrow> ''set_stock'')
                                 [describe limits] []]
                       (c\<lparr>ct_applied := Some m, ct_last_verify := Some now\<rparr>)
             in if ct_problem c \<noteq> None
                then ctl_logs [syslog PNotice ''writes_work_again'' [] []] (c\<lparr>ct_problem := None\<rparr>) else c
         | Some e \<Rightarrow>
             if ct_problem c = Some e then c
             else ctl_logs [syslog (case m of Stock \<Rightarrow> PCritical | Configured \<Rightarrow> PWarning)
                              ''cannot_set_limits'' [describe limits, e] []]
                    (c\<lparr>ct_problem := Some e\<rparr>))"

definition note_change :: "guard_change option \<Rightarrow> controller \<Rightarrow> controller" where
  "note_change change c =
     (case change of
        Some (Tripped why) \<Rightarrow>
          ctl_logs [syslog PCritical ''dropping_to_stock'' [why, describe (ct_stock c)] []]
            (c\<lparr>ct_trip_reason := Some why\<rparr>)
      | Some Rearmed \<Rightarrow>
          ctl_logs [syslog PNotice ''returning_to_configured'' [describe (ct_configured c)] []]
            (c\<lparr>ct_trip_reason := None\<rparr>)
      | None \<Rightarrow> c)"

definition controller_tick ::
  "zone_write \<Rightarrow> temperature_config \<Rightarrow> instant \<Rightarrow> reading list option \<Rightarrow> controller \<Rightarrow> controller" where
  "controller_tick wr temps now readings c =
     (let (change, g) = guard_observe temps now readings (ct_guard c);
          c = note_change change (c\<lparr>ct_guard := g\<rparr>);
          want = guard_mode g;
          c = verify_limits now c
      in if ct_applied c \<noteq> Some want then apply_limits wr now want c else c)"

definition cpu_status_line :: "controller \<Rightarrow> string" where
  "cpu_status_line c =
     (case ct_problem c of
        Some p \<Rightarrow> ''NOT APPLIED: '' @ p
      | None \<Rightarrow>
          (case ct_applied c of
             Some Configured \<Rightarrow> describe (ct_configured c) @ '' (configured)''
           | Some Stock \<Rightarrow> describe (ct_stock c) @ '' (STOCK: ''
               @ (case ct_trip_reason c of Some why \<Rightarrow> why | None \<Rightarrow> ''cooling down'') @ '')''
           | None \<Rightarrow> ''not applied yet''))"

text \<open>What one pass of the control thread hands to the tick: the latest sweep unless it is stale.\<close>

definition fresh_readings ::
  "cpu_power_config \<Rightarrow> instant \<Rightarrow> (instant \<times> reading list) option \<Rightarrow> reading list option" where
  "fresh_readings cfg now sample =
     (case sample of
        None \<Rightarrow> None
      | Some (t, rs) \<Rightarrow>
          if since now t \<le> max MIN_STALE_AFTER (secs (cp_check_secs cfg) * 3) then Some rs else None)"

end
