(* ===== verification/CpuPowerProps.thy ===== *)
theory CpuPowerProps
  imports CpuPower
begin

text \<open>
  What the CPU power limits guarantee: no write ever leaves PL1 above PL2, the guard releases the
  stock limits only after the re-arm time of cool readings, a critical observation puts the stock
  limits into the zone in the same tick, and the case in which it does not.
\<close>

section \<open>The guard\<close>

definition observation_cool :: "temperature_config \<Rightarrow> instant \<times> reading list option \<Rightarrow> bool" where
  "observation_cool temps obs \<longleftrightarrow> critical_reason temps (snd obs) = None \<and> all_cool temps (snd obs)"

definition guard_step :: "temperature_config \<Rightarrow> instant \<times> reading list option \<Rightarrow> guard \<Rightarrow> guard" where
  "guard_step temps obs g = snd (guard_observe temps (fst obs) (snd obs) g)"

lemma guard_rearm_same [simp]: "gd_rearm (guard_step temps obs g) = gd_rearm g"
  by (simp add: guard_step_def guard_observe_def Let_def split: option.split)

interpretation stock_hold: steady_release "guard_step temps" fst "observation_cool temps" gd_tripped
  gd_cool_since "\<lambda>g. gd_rearm g = rearm" rearm
  by unfold_locales
    (auto simp: guard_step_def guard_observe_def observation_cool_def Let_def split: option.splits)

lemma guard_run_untripped:
  "list_all (\<lambda>obs. critical_reason temps (snd obs) = None) history \<Longrightarrow> \<not> gd_tripped g \<Longrightarrow>
     \<not> gd_tripped (fold (guard_step temps) history g)"
proof (induction history arbitrary: g)
  case (Cons obs history)
  then have "\<not> gd_tripped (guard_step temps obs g)" by (simp add: guard_step_def guard_observe_def)
  with Cons show ?case by simp
qed simp

text \<open>The guard trips only on a critical observation (a sensor at or above its critical threshold, or
  no fresh readings); and after one, whatever follows, it goes back to the configured limits
  only after an unbroken stretch of observations with every sensor below its warning threshold
  that spans the re-arm time.\<close>

theorem guard_history:
  assumes "critical_reason temps (snd crit) \<noteq> None"
    "list_all (\<lambda>obs. critical_reason temps (snd obs) = None) before"
  shows "guard_mode (fold (guard_step temps) before (guard_new rearm)) = Configured
    \<and> (guard_mode (fold (guard_step temps) (before @ crit # after) (guard_new rearm)) = Stock
       \<or> steady_stretch fst (observation_cool temps) rearm after)"
proof -
  have r: "gd_rearm (fold (guard_step temps) history g) = gd_rearm g" for history g
    by (induction history arbitrary: g) simp_all
  have u: "\<not> gd_tripped (fold (guard_step temps) before (guard_new rearm))"
    by (rule guard_run_untripped [OF assms(2)]) (simp add: guard_new_def)
  let ?g = "guard_step temps crit (fold (guard_step temps) before (guard_new rearm))"
  have "gd_rearm ?g = rearm" by (simp add: r) (simp add: guard_new_def)
  moreover have "gd_tripped ?g" "gd_cool_since ?g = None"
    using assms(1) by (auto simp: guard_step_def guard_observe_def)
  ultimately have "gd_tripped (fold (guard_step temps) after ?g)
      \<or> steady_stretch fst (observation_cool temps) rearm after"
    by (rule stock_hold.held_until_steady)
  with u show ?thesis by (auto simp: guard_mode_def)
qed

definition hot_drive :: "instant \<times> reading list option" where
  "hot_drive = (secs 10, Some [(''drivetemp'', ''Drive 1'', 61)])"

definition warm_drive :: "instant \<times> reading list option" where
  "warm_drive = (secs 20, Some [(''drivetemp'', ''Drive 1'', 55)])"

lemma default_drive_threshold: "resolve_temp_threshold temperature_default ''drivetemp'' = (50, 60)"
  by (simp add: resolve_temp_threshold_def temperature_default_def default_temp_thresholds_def)

lemma drive_observations:
  "critical_reason temperature_default (snd hot_drive) \<noteq> None"
  "critical_reason temperature_default (snd warm_drive) = None"
  "\<not> observation_cool temperature_default warm_drive"
  by (simp_all add: hot_drive_def warm_drive_def critical_reason_def default_drive_threshold
      observation_cool_def all_cool_def)

theorem guard_history_witness:
  "guard_mode (fold (guard_step temperature_default) [warm_drive, hot_drive, warm_drive] (guard_new (secs 60))) = Stock"
proof -
  have "\<not> steady_stretch fst (observation_cool temperature_default) (secs 60) [warm_drive]"
    by (auto simp: steady_stretch_def drive_observations Cons_eq_append_conv)
  then show ?thesis
    using guard_history [of temperature_default hot_drive "[warm_drive]" "secs 60" "[warm_drive]"]
    by (simp add: drive_observations)
qed

section \<open>The zone\<close>

text \<open>The kernel's side of a write that succeeds: the file reads back as the value, the time window
  within a quarter of it, and nothing else changes. Whole watts are representable.\<close>

definition rapl_kernel :: "zone_write \<Rightarrow> bool" where
  "rapl_kernel wr \<longleftrightarrow>
     (\<forall>f v z z'. wr f v z = Inr z' \<longrightarrow>
        (\<forall>g. g \<noteq> f \<longrightarrow> z' g = z g)
        \<and> (f \<in> {PL1_FILE, PL2_FILE} \<and> UW_PER_W dvd v \<and> v < 2 ^ 64 \<longrightarrow> read_u64 z' f = Inr v)
        \<and> (f = TAU_FILE \<and> v < 2 ^ 64 \<longrightarrow> (\<exists>t. read_u64 z' f = Inr t \<and> abs_diff v t * 4 \<le> v)))"

text \<open>Limits in whole watts and seconds that fit, as the configuration gives them.\<close>

definition sound_limits :: "limits \<Rightarrow> bool" where
  "sound_limits l \<longleftrightarrow> UW_PER_W dvd lim_pl1_uw l \<and> UW_PER_W dvd lim_pl2_uw l
     \<and> lim_pl1_uw l \<le> lim_pl2_uw l \<and> lim_pl2_uw l < 2 ^ 64 \<and> lim_tau_us l < 2 ^ 64"

lemma config_limits_sound:
  "cpu_problems cfg = [] \<Longrightarrow> sound_limits (limits_configured cfg) \<and> sound_limits (limits_stock cfg)"
  by (auto simp: cpu_problems_def cpu_pair_problems_def sound_limits_def limits_configured_def
      limits_stock_def UW_PER_W_def US_PER_S_def MAX_CPU_POWER_W_def MAX_CPU_TAU_SECS_def in_1_to_def
      split: if_splits)

lemma zone_files_distinct [simp]:
  "PL1_FILE \<noteq> PL2_FILE" "PL2_FILE \<noteq> PL1_FILE" "PL1_FILE \<noteq> TAU_FILE" "TAU_FILE \<noteq> PL1_FILE"
  "PL2_FILE \<noteq> TAU_FILE" "TAU_FILE \<noteq> PL2_FILE"
  by (simp_all add: PL1_FILE_def PL2_FILE_def TAU_FILE_def)

lemma read_u64_cong: "z' g = z g \<Longrightarrow> read_u64 z' g = read_u64 z g"
  by (simp add: read_u64_def read_raw_def)

lemma kernel_other:
  "rapl_kernel wr \<Longrightarrow> wr f v z = Inr z' \<Longrightarrow> g \<noteq> f \<Longrightarrow> read_u64 z' g = read_u64 z g"
  using read_u64_cong [of z' g z] unfolding rapl_kernel_def by blast

lemma kernel_power:
  "rapl_kernel wr \<Longrightarrow> wr f v z = Inr z' \<Longrightarrow> f \<in> {PL1_FILE, PL2_FILE} \<Longrightarrow> UW_PER_W dvd v \<Longrightarrow> v < 2 ^ 64 \<Longrightarrow>
     read_u64 z' f = Inr v"
  unfolding rapl_kernel_def by blast

lemma kernel_tau:
  "rapl_kernel wr \<Longrightarrow> wr TAU_FILE v z = Inr z' \<Longrightarrow> v < 2 ^ 64 \<Longrightarrow>
     \<exists>t. read_u64 z' TAU_FILE = Inr t \<and> abs_diff v t * 4 \<le> v"
  unfolding rapl_kernel_def by blast

text \<open>The zones a series of writes passes through, up to the first that fails.\<close>

fun write_states :: "zone_write \<Rightarrow> (string \<times> nat) list \<Rightarrow> zone \<Rightarrow> zone list" where
  "write_states wr [] z = [z]"
| "write_states wr ((f, v) # rest) z =
     z # (case wr f v z of Inl e \<Rightarrow> [] | Inr z' \<Rightarrow> write_states wr rest z')"

lemma write_states_nonempty [simp]: "write_states wr plan z \<noteq> []"
  by (cases "(wr, plan, z)" rule: write_states.cases) auto

lemma write_files_last: "snd (write_files wr plan z) = last (write_states wr plan z)"
  by (induction wr plan z rule: write_files.induct) (auto split: sum.split)

definition not_inverted :: "zone \<Rightarrow> bool" where
  "not_inverted z \<longleftrightarrow>
     (case (read_u64 z PL1_FILE, read_u64 z PL2_FILE) of (Inr p1, Inr p2) \<Rightarrow> p1 \<le> p2 | _ \<Rightarrow> False)"

text \<open>C11. Whatever valid limits are set, the zone is never left with PL1 above PL2: starting from a zone
  that has them in order, every state between two of the writes has, also when one of the
  writes fails and the rest are not made.\<close>

theorem limits_never_inverted:
  assumes "rapl_kernel wr" "cpu_problems cfg = []" "new \<in> {limits_configured cfg, limits_stock cfg}"
    "not_inverted z" "read_u64 z PL2_FILE = Inr cur"
  shows "list_all not_inverted (write_states wr (write_plan cur new) z)
    \<and> not_inverted (snd (write_limits wr new z))"
proof -
  have s: "sound_limits new" using config_limits_sound [OF assms(2)] assms(3) by auto
  have "list_all not_inverted (write_states wr (write_plan cur new) z)"
    using s assms(4,5) kernel_other [OF assms(1)] kernel_power [OF assms(1)]
    by (auto simp: write_plan_def not_inverted_def sound_limits_def Let_def split: sum.splits)
  then show ?thesis
    using last_in_set [OF write_states_nonempty [of wr "write_plan cur new" z]]
    by (simp add: write_limits_def assms(5) write_files_last list_all_iff)
qed

text \<open>A zone that keeps what it is told, and refuses time windows while \<open>stuck\<close>.\<close>

definition echo_kernel :: "bool \<Rightarrow> zone_write" where
  "echo_kernel stuck f v z =
     (if stuck \<and> f = TAU_FILE then Inl ''Invalid argument'' else Inr (z(f := Inr (nat_str v))))"

definition echo_zone :: "nat \<Rightarrow> nat \<Rightarrow> nat \<Rightarrow> zone" where
  "echo_zone p1 p2 t =
     (\<lambda>f. if f = PL1_FILE then Inr (nat_str p1) else if f = PL2_FILE then Inr (nat_str p2)
          else if f = TAU_FILE then Inr (nat_str t)
          else if f = ''constraint_0_name'' then Inr ''long_term'' else Inr ''short_term'')"

lemma trim_nat_str [simp]: "trim (nat_str n) = nat_str n"
proof -
  have "\<not> is_whitespace (hd (nat_str n))" "\<not> is_whitespace (last (nat_str n))"
    using nat_str_digits [of n] nat_str_nonempty [of n]
    by (auto simp: list_all_iff intro!: digit_not_whitespace)
  then have "dropWhile is_whitespace (nat_str n) = nat_str n"
    "dropWhile is_whitespace (rev (nat_str n)) = rev (nat_str n)"
    by (simp_all add: dropWhile_eq_self_iff hd_rev)
  then show ?thesis by (simp add: trim_def trim_start_def trim_end_def)
qed

lemma read_written: "z f = Inr (nat_str v) \<Longrightarrow> v < 2 ^ 64 \<Longrightarrow> read_u64 z f = Inr v"
  by (simp add: read_u64_def read_raw_def)

lemma echo_kernel_ok: "rapl_kernel (echo_kernel stuck)"
  unfolding rapl_kernel_def
proof (intro allI impI)
  fix f v and z z' :: zone
  assume "echo_kernel stuck f v z = Inr z'"
  then have z': "z' = z(f := Inr (nat_str v))" by (simp add: echo_kernel_def split: if_splits)
  have "read_u64 z' f = Inr v" if "v < 2 ^ 64" using that by (intro read_written) (simp_all add: z')
  moreover have "abs_diff v v * 4 \<le> v" by (simp add: abs_diff_def)
  ultimately show "(\<forall>g. g \<noteq> f \<longrightarrow> z' g = z g)
      \<and> (f \<in> {PL1_FILE, PL2_FILE} \<and> UW_PER_W dvd v \<and> v < 2 ^ 64 \<longrightarrow> read_u64 z' f = Inr v)
      \<and> (f = TAU_FILE \<and> v < 2 ^ 64 \<longrightarrow> (\<exists>t. read_u64 z' f = Inr t \<and> abs_diff v t * 4 \<le> v))"
    using z' by auto
qed

lemma default_cpu_ok: "cpu_problems cpu_power_default = []"
  by (simp add: cpu_problems_def cpu_pair_problems_def cpu_power_default_def in_1_to_def
      MAX_CPU_POWER_W_def MAX_CPU_TAU_SECS_def MAX_SECS_def)

theorem limits_never_inverted_witness:
  "not_inverted (snd (write_limits (echo_kernel True) (limits_configured cpu_power_default)
     (echo_zone 10000000 25000000 28000000)))"
proof -
  let ?z = "echo_zone 10000000 25000000 28000000"
  have "read_u64 ?z PL1_FILE = Inr 10000000" "read_u64 ?z PL2_FILE = Inr 25000000"
    by (intro read_written; simp add: echo_zone_def)+
  then show ?thesis
    using limits_never_inverted [OF echo_kernel_ok default_cpu_ok, of "limits_configured cpu_power_default"
        ?z 25000000 True]
    by (simp add: not_inverted_def)
qed

section \<open>The controller\<close>

definition zone_holds :: "limits \<Rightarrow> zone \<Rightarrow> bool" where
  "zone_holds l z \<longleftrightarrow> (case zone_read z of Inl _ \<Rightarrow> False | Inr cur \<Rightarrow> limits_match l cur)"

definition verify_due :: "instant \<Rightarrow> controller \<Rightarrow> bool" where
  "verify_due now c \<longleftrightarrow> (case ct_last_verify c of None \<Rightarrow> True | Some t \<Rightarrow> VERIFY_INTERVAL \<le> since now t)"

text \<open>All writes work, and the zone is the package's with readable limits.\<close>

definition zone_ok :: "zone_write \<Rightarrow> zone \<Rightarrow> bool" where
  "zone_ok wr z \<longleftrightarrow> rapl_kernel wr \<and> (\<forall>f v z. \<exists>z'. wr f v z = Inr z') \<and> zone_check z = None
     \<and> (\<exists>cur. read_u64 z PL2_FILE = Inr cur)"

lemma write_plan_shape:
  "\<exists>f1 v1 f2 v2. write_plan cur l = [(f1, v1), (f2, v2), (TAU_FILE, lim_tau_us l)]
     \<and> ((f1, v1) = (PL1_FILE, lim_pl1_uw l) \<and> (f2, v2) = (PL2_FILE, lim_pl2_uw l)
      \<or> (f1, v1) = (PL2_FILE, lim_pl2_uw l) \<and> (f2, v2) = (PL1_FILE, lim_pl1_uw l))"
  by (cases "cur \<le> lim_pl2_uw l") (simp_all add: write_plan_def)

lemma power_writes:
  assumes "rapl_kernel wr" "sound_limits l" "wr f1 v1 z = Inr z1" "wr f2 v2 z1 = Inr z2"
    "(f1, v1) = (PL1_FILE, lim_pl1_uw l) \<and> (f2, v2) = (PL2_FILE, lim_pl2_uw l)
      \<or> (f1, v1) = (PL2_FILE, lim_pl2_uw l) \<and> (f2, v2) = (PL1_FILE, lim_pl1_uw l)"
  shows "read_u64 z2 PL1_FILE = Inr (lim_pl1_uw l) \<and> read_u64 z2 PL2_FILE = Inr (lim_pl2_uw l)"
proof -
  have fv: "f1 \<in> {PL1_FILE, PL2_FILE}" "UW_PER_W dvd v1" "v1 < 2 ^ 64"
    "f2 \<in> {PL1_FILE, PL2_FILE}" "UW_PER_W dvd v2" "v2 < 2 ^ 64" "f1 \<noteq> f2"
    using assms(2,5) by (auto simp: sound_limits_def)
  have "read_u64 z1 f1 = Inr v1" by (rule kernel_power [OF assms(1,3) fv(1-3)])
  moreover have "read_u64 z2 f2 = Inr v2" by (rule kernel_power [OF assms(1,4) fv(4-6)])
  moreover have "read_u64 z2 f1 = read_u64 z1 f1" by (rule kernel_other [OF assms(1,4) fv(7)])
  ultimately show ?thesis using assms(5) by auto
qed

lemma write_limits_ok:
  assumes "zone_ok wr z" "sound_limits l"
  shows "fst (write_limits wr l z) = None \<and> zone_holds l (snd (write_limits wr l z))"
proof -
  from assms(1) obtain cur where k: "rapl_kernel wr" and w: "\<And>f v z. \<exists>z'. wr f v z = Inr z'"
    and cur: "read_u64 z PL2_FILE = Inr cur"
    by (auto simp: zone_ok_def)
  from write_plan_shape [of cur l] obtain f1 v1 f2 v2 where
    plan: "write_plan cur l = [(f1, v1), (f2, v2), (TAU_FILE, lim_tau_us l)]"
    and fs: "(f1, v1) = (PL1_FILE, lim_pl1_uw l) \<and> (f2, v2) = (PL2_FILE, lim_pl2_uw l)
      \<or> (f1, v1) = (PL2_FILE, lim_pl2_uw l) \<and> (f2, v2) = (PL1_FILE, lim_pl1_uw l)" by blast
  obtain z1 z2 z3 where z: "wr f1 v1 z = Inr z1" "wr f2 v2 z1 = Inr z2"
    "wr TAU_FILE (lim_tau_us l) z2 = Inr z3"
    using w by metis
  have r: "write_limits wr l z = (None, z3)" by (simp add: write_limits_def cur plan z)
  have "lim_tau_us l < 2 ^ 64" using assms(2) by (simp add: sound_limits_def)
  from kernel_tau [OF k z(3) this] obtain t where
    t: "read_u64 z3 TAU_FILE = Inr t" "abs_diff (lim_tau_us l) t * 4 \<le> lim_tau_us l" by auto
  have "read_u64 z3 f = read_u64 z2 f" if "f \<noteq> TAU_FILE" for f by (rule kernel_other [OF k z(3) that])
  with t power_writes [OF k assms(2) z(1,2) fs] show ?thesis
    by (simp add: r zone_holds_def zone_read_def limits_match_def)
qed

lemma ctl_logs_same [simp]:
  "ct_zone (ctl_logs ls c) = ct_zone c" "ct_applied (ctl_logs ls c) = ct_applied c"
  "ct_guard (ctl_logs ls c) = ct_guard c" "ct_stock (ctl_logs ls c) = ct_stock c"
  "ct_configured (ctl_logs ls c) = ct_configured c" "ct_last_verify (ctl_logs ls c) = ct_last_verify c"
  "ct_problem (ctl_logs ls c) = ct_problem c"
  by (simp_all add: ctl_logs_def)

lemma note_change_same [simp]:
  "ct_zone (note_change ch c) = ct_zone c" "ct_applied (note_change ch c) = ct_applied c"
  "ct_guard (note_change ch c) = ct_guard c" "ct_stock (note_change ch c) = ct_stock c"
  "ct_configured (note_change ch c) = ct_configured c"
  "ct_last_verify (note_change ch c) = ct_last_verify c"
  by (simp_all add: note_change_def split: option.split guard_change.split)

lemma verify_same [simp]:
  "ct_zone (verify_limits now c) = ct_zone c" "ct_guard (verify_limits now c) = ct_guard c"
  "ct_stock (verify_limits now c) = ct_stock c" "ct_configured (verify_limits now c) = ct_configured c"
  by (simp_all add: verify_limits_def Let_def split: option.split sum.split)

lemma limits_of_cong:
  "ct_stock c = ct_stock d \<Longrightarrow> ct_configured c = ct_configured d \<Longrightarrow> limits_of m c = limits_of m d"
  by (simp add: limits_of_def split: limit_mode.split)

lemma verify_applied:
  "ct_applied (verify_limits now c) = Some m \<Longrightarrow> ct_applied c = Some m
     \<and> (verify_due now c \<longrightarrow> zone_holds (limits_of m c) (ct_zone c))"
  by (auto simp: verify_limits_def verify_due_def zone_holds_def limits_of_def Let_def not_less
      split: option.splits sum.splits if_splits limit_mode.splits)

lemma apply_same [simp]:
  "ct_guard (apply_limits wr now m c) = ct_guard c" "ct_stock (apply_limits wr now m c) = ct_stock c"
  "ct_configured (apply_limits wr now m c) = ct_configured c"
  by (simp_all add: apply_limits_def Let_def split: option.split prod.split)

lemma apply_ok:
  assumes "zone_ok wr (ct_zone c)" "sound_limits (limits_of m c)"
  shows "ct_applied (apply_limits wr now m c) = Some m
    \<and> zone_holds (limits_of m c) (ct_zone (apply_limits wr now m c))"
proof -
  obtain z where w: "write_limits wr (limits_of m c) (ct_zone c) = (None, z)" "zone_holds (limits_of m c) z"
    using write_limits_ok [OF assms] by (cases "write_limits wr (limits_of m c) (ct_zone c)") auto
  have "zone_check (ct_zone c) = None" using assms(1) by (simp add: zone_ok_def)
  with w show ?thesis by (simp add: apply_limits_def Let_def)
qed

text \<open>One tick in its parts.\<close>

definition observed :: "temperature_config \<Rightarrow> instant \<Rightarrow> reading list option \<Rightarrow> controller \<Rightarrow> controller" where
  "observed temps now readings c =
     verify_limits now (note_change (fst (guard_observe temps now readings (ct_guard c)))
       (c\<lparr>ct_guard := snd (guard_observe temps now readings (ct_guard c))\<rparr>))"

lemma tick_eq:
  "controller_tick wr temps now readings c =
     (let d = observed temps now readings c; want = guard_mode (ct_guard d) in
      if ct_applied d \<noteq> Some want then apply_limits wr now want d else d)"
  by (simp add: controller_tick_def observed_def Let_def case_prod_beta)

lemma observed_same:
  "ct_zone (observed temps now readings c) = ct_zone c"
  "ct_guard (observed temps now readings c) = snd (guard_observe temps now readings (ct_guard c))"
  by (simp_all add: observed_def)

lemma observed_limits: "limits_of m (observed temps now readings c) = limits_of m c"
  by (simp add: observed_def limits_of_def split: limit_mode.split)

text \<open>With a zone that takes writes, every tick leaves the guard's limits in the zone, as far as the
  tick looks at it: when what was last applied differs from what the guard wants, or when the last look
  is a minute old. A critical observation makes that the stock limits.\<close>

theorem tick_enforces_guard:
  assumes "zone_ok wr (ct_zone c)" "sound_limits (ct_configured c)" "sound_limits (ct_stock c)"
    "c' = controller_tick wr temps now readings c"
    "ct_applied c \<noteq> Some (guard_mode (ct_guard c')) \<or> verify_due now c"
  shows "ct_applied c' = Some (guard_mode (ct_guard c'))
    \<and> zone_holds (limits_of (guard_mode (ct_guard c')) c) (ct_zone c')
    \<and> (critical_reason temps readings \<noteq> None \<longrightarrow> guard_mode (ct_guard c') = Stock)"
proof -
  let ?d = "observed temps now readings c"
  let ?want = "guard_mode (ct_guard ?d)"
  have sound: "sound_limits (limits_of m c)" for m using assms(2,3) by (cases m) (simp_all add: limits_of_def)
  have c': "c' = (if ct_applied ?d \<noteq> Some ?want then apply_limits wr now ?want ?d else ?d)"
    by (simp add: assms(4) tick_eq Let_def)
  then have w: "guard_mode (ct_guard c') = ?want" by simp
  have "critical_reason temps readings \<noteq> None \<longrightarrow> ?want = Stock"
    by (auto simp: observed_same guard_observe_def guard_mode_def split: option.split)
  moreover have "ct_applied c' = Some ?want \<and> zone_holds (limits_of ?want c) (ct_zone c')"
  proof (cases "ct_applied ?d = Some ?want")
    case True
    let ?n = "note_change (fst (guard_observe temps now readings (ct_guard c)))
       (c\<lparr>ct_guard := snd (guard_observe temps now readings (ct_guard c))\<rparr>)"
    have "verify_due now ?n = verify_due now c" by (simp add: verify_due_def)
    moreover have "limits_of ?want ?n = limits_of ?want c" by (intro limits_of_cong) simp_all
    ultimately have "zone_holds (limits_of ?want c) (ct_zone c)"
      using verify_applied [of now ?n ?want] True assms(5) w by (simp add: observed_def)
    with True show ?thesis by (simp add: c' observed_same)
  next
    case False
    with apply_ok [of wr ?d ?want now] assms(1) sound show ?thesis by (simp add: c' observed_same observed_limits)
  qed
  ultimately show ?thesis by (simp add: w)
qed

lemma default_limits_sound:
  "sound_limits (limits_configured cpu_power_default)" "sound_limits (limits_stock cpu_power_default)"
  using config_limits_sound [OF default_cpu_ok] by simp_all

lemma echo_zone_names: "zone_check (echo_zone p1 p2 t) = None"
  by (simp add: zone_check_def check_name_def read_raw_def echo_zone_def PL1_FILE_def PL2_FILE_def
      TAU_FILE_def trim_def trim_start_def trim_end_def is_whitespace_def)

lemma echo_zone_pl2: "p2 < 2 ^ 64 \<Longrightarrow> read_u64 (echo_zone p1 p2 t) PL2_FILE = Inr p2"
  by (intro read_written; simp add: echo_zone_def)

definition start_controller :: controller where
  "start_controller = controller_new (echo_zone 10000000 25000000 28000000) cpu_power_default"

theorem tick_enforces_guard_witness:
  "zone_holds (limits_stock cpu_power_default)
     (ct_zone (controller_tick (echo_kernel False) temperature_default (secs 10) (snd hot_drive) start_controller))"
proof -
  let ?c' = "controller_tick (echo_kernel False) temperature_default (secs 10) (snd hot_drive) start_controller"
  have c: "ct_zone start_controller = echo_zone 10000000 25000000 28000000"
    "ct_configured start_controller = limits_configured cpu_power_default"
    "ct_stock start_controller = limits_stock cpu_power_default" "ct_applied start_controller = None"
    by (simp_all add: start_controller_def controller_new_def)
  have "zone_ok (echo_kernel False) (ct_zone start_controller)"
    by (simp add: zone_ok_def echo_kernel_ok c echo_zone_names echo_zone_pl2) (simp add: echo_kernel_def)
  from tick_enforces_guard [OF this _ _ refl, of temperature_default "secs 10" "snd hot_drive"]
  moreover have "limits_of Stock start_controller = limits_stock cpu_power_default" by (simp add: limits_of_def c)
  ultimately show ?thesis using default_limits_sound drive_observations(1) by (auto simp: c)
qed

section \<open>A partial write is forgotten\<close>

lemma write_limits_tau_fails:
  assumes "rapl_kernel wr" "\<And>v z. \<exists>e. wr TAU_FILE v z = Inl e"
    "\<And>f v z. f \<noteq> TAU_FILE \<Longrightarrow> \<exists>z'. wr f v z = Inr z'" "read_u64 z PL2_FILE = Inr cur" "sound_limits l"
  shows "fst (write_limits wr l z) \<noteq> None
    \<and> read_u64 (snd (write_limits wr l z)) PL1_FILE = Inr (lim_pl1_uw l)
    \<and> read_u64 (snd (write_limits wr l z)) PL2_FILE = Inr (lim_pl2_uw l)"
proof -
  from write_plan_shape [of cur l] obtain f1 v1 f2 v2 where
    plan: "write_plan cur l = [(f1, v1), (f2, v2), (TAU_FILE, lim_tau_us l)]"
    and fs: "(f1, v1) = (PL1_FILE, lim_pl1_uw l) \<and> (f2, v2) = (PL2_FILE, lim_pl2_uw l)
      \<or> (f1, v1) = (PL2_FILE, lim_pl2_uw l) \<and> (f2, v2) = (PL1_FILE, lim_pl1_uw l)" by blast
  from fs have "f1 \<noteq> TAU_FILE" "f2 \<noteq> TAU_FILE" by auto
  then obtain z1 z2 e where z: "wr f1 v1 z = Inr z1" "wr f2 v2 z1 = Inr z2"
    "wr TAU_FILE (lim_tau_us l) z2 = Inl e"
    using assms(2,3) by metis
  then have "write_limits wr l z = (Some (''writing '' @ TAU_FILE @ '': '' @ e), z2)"
    by (simp add: write_limits_def assms(4) plan)
  with power_writes [OF assms(1,5) z(1,2) fs] show ?thesis by simp
qed

lemma not_due: "ct_applied c = Some m \<Longrightarrow> \<not> verify_due now c \<Longrightarrow> verify_limits now c = c"
  by (auto simp: verify_limits_def verify_due_def split: option.splits)

lemma observed_not_due:
  assumes "ct_applied c = Some m" "\<not> verify_due now c"
  shows "ct_applied (observed temps now readings c) = Some m"
    "ct_last_verify (observed temps now readings c) = ct_last_verify c"
proof -
  let ?n = "note_change (fst (guard_observe temps now readings (ct_guard c)))
       (c\<lparr>ct_guard := snd (guard_observe temps now readings (ct_guard c))\<rparr>)"
  have "ct_applied ?n = Some m" "\<not> verify_due now ?n" using assms by (simp_all add: verify_due_def)
  then have "observed temps now readings c = ?n" unfolding observed_def by (rule not_due)
  then show "ct_applied (observed temps now readings c) = Some m"
    "ct_last_verify (observed temps now readings c) = ct_last_verify c"
    using assms by simp_all
qed

lemma apply_fails:
  assumes "zone_check (ct_zone c) = None" "fst (write_limits wr (limits_of m c) (ct_zone c)) \<noteq> None"
  shows "ct_applied (apply_limits wr now m c) = ct_applied c"
    "ct_last_verify (apply_limits wr now m c) = ct_last_verify c"
    "ct_zone (apply_limits wr now m c) = snd (write_limits wr (limits_of m c) (ct_zone c))"
  using assms by (auto simp: apply_limits_def Let_def split: prod.split)

text \<open>When the configured limits come back and only the last of the three writes fails, the raised
  PL1 and PL2 are in the zone while the controller still takes stock for applied. A sensor that goes
  critical then does not bring stock back: the tick writes nothing, and the raised limits stay until the
  zone is next looked at, up to a minute later.\<close>

theorem partial_raise_not_undone:
  assumes "rapl_kernel wr" "\<And>v z. \<exists>e. wr TAU_FILE v z = Inl e"
    "\<And>f v z. f \<noteq> TAU_FILE \<Longrightarrow> \<exists>z'. wr f v z = Inr z'"
    "zone_check (ct_zone c) = None" "read_u64 (ct_zone c) PL2_FILE = Inr cur"
    "sound_limits (ct_configured c)" "ct_applied c = Some Stock"
    "\<not> verify_due now1 c" "\<not> verify_due now2 c"
    "guard_mode (snd (guard_observe temps now1 cool (ct_guard c))) = Configured"
    "critical_reason temps hot \<noteq> None"
  shows "let c' = controller_tick wr temps now2 hot (controller_tick wr temps now1 cool c) in
     guard_mode (ct_guard c') = Stock \<and> ct_applied c' = Some Stock
     \<and> read_u64 (ct_zone c') PL1_FILE = Inr (lim_pl1_uw (ct_configured c))
     \<and> read_u64 (ct_zone c') PL2_FILE = Inr (lim_pl2_uw (ct_configured c))"
proof -
  let ?d = "observed temps now1 cool c"
  let ?c1 = "controller_tick wr temps now1 cool c"
  note d = observed_same [of temps now1 cool c] observed_not_due [OF assms(7,8), of temps cool]
  have lim: "limits_of Configured ?d = ct_configured c" by (simp add: observed_limits) (simp add: limits_of_def)
  have c1: "?c1 = apply_limits wr now1 Configured ?d"
    using assms(10) d(3) by (simp add: tick_eq Let_def d(2))
  have tau: "fst (write_limits wr (ct_configured c) (ct_zone c)) \<noteq> None
      \<and> read_u64 (snd (write_limits wr (ct_configured c) (ct_zone c))) PL1_FILE = Inr (lim_pl1_uw (ct_configured c))
      \<and> read_u64 (snd (write_limits wr (ct_configured c) (ct_zone c))) PL2_FILE = Inr (lim_pl2_uw (ct_configured c))"
    by (rule write_limits_tau_fails [OF assms(1-3,5,6)])
  have z1: "ct_applied ?c1 = Some Stock" "ct_last_verify ?c1 = ct_last_verify c"
    "ct_zone ?c1 = snd (write_limits wr (ct_configured c) (ct_zone c))"
    using apply_fails [of ?d wr Configured now1] tau assms(4) d unfolding c1 by (simp_all add: lim)
  let ?e = "observed temps now2 hot ?c1"
  have "\<not> verify_due now2 ?c1" using assms(9) z1(2) by (simp add: verify_due_def)
  note e = observed_same [of temps now2 hot ?c1] observed_not_due [OF z1(1) this, of temps hot]
  have g: "guard_mode (ct_guard ?e) = Stock"
    using assms(11) by (auto simp: e(2) guard_observe_def guard_mode_def)
  have "controller_tick wr temps now2 hot ?c1 = ?e" using g e(3) by (simp add: tick_eq Let_def)
  then show ?thesis using g e tau z1 by (simp add: Let_def)
qed

theorem partial_raise_not_undone_witness:
  "let c = start_controller\<lparr>ct_applied := Some Stock, ct_last_verify := Some (secs 70),
       ct_guard := \<lparr>gd_rearm = secs 60, gd_tripped = True, gd_cool_since = Some (secs 10)\<rparr>\<rparr>;
     c' = controller_tick (echo_kernel True) temperature_default (secs 81) (snd hot_drive)
       (controller_tick (echo_kernel True) temperature_default (secs 80)
         (Some [(''drivetemp'', ''Drive 1'', 40)]) c)
   in ct_applied c' = Some Stock \<and> read_u64 (ct_zone c') PL1_FILE = Inr 12000000"
proof -
  let ?c = "start_controller\<lparr>ct_applied := Some Stock, ct_last_verify := Some (secs 70),
       ct_guard := \<lparr>gd_rearm = secs 60, gd_tripped = True, gd_cool_since = Some (secs 10)\<rparr>\<rparr>"
  let ?cool = "Some [(''drivetemp'', ''Drive 1'', 40 :: rat)]"
  have c: "ct_zone ?c = echo_zone 10000000 25000000 28000000"
    "ct_configured ?c = limits_configured cpu_power_default"
    by (simp_all add: start_controller_def controller_new_def)
  have lim: "lim_pl1_uw (limits_configured cpu_power_default) = 12000000"
    by (simp add: limits_configured_def cpu_power_default_def UW_PER_W_def)
  have due: "\<not> verify_due (secs 80) ?c" "\<not> verify_due (secs 81) ?c"
    by (simp_all add: verify_due_def VERIFY_INTERVAL_def since_def secs_def)
  have cool: "critical_reason temperature_default ?cool = None" "all_cool temperature_default ?cool"
    by (simp_all add: critical_reason_def all_cool_def default_drive_threshold)
  have "guard_mode (snd (guard_observe temperature_default (secs 80) ?cool (ct_guard ?c))) = Configured"
    by (simp add: guard_observe_def cool guard_mode_def since_def secs_def Let_def)
  note wit = partial_raise_not_undone [OF echo_kernel_ok, of True ?c 25000000 "secs 80" "secs 81"
      temperature_default ?cool "snd hot_drive", OF _ _ _ _ _ _ due this drive_observations(1)]
  show ?thesis
    using wit default_limits_sound(1)
    by (simp add: c lim echo_zone_names echo_zone_pl2 Let_def) (simp add: echo_kernel_def)
qed

end
