(* ===== verification/Wol.thy ===== *)
theory Wol
  imports Levels "HOL-Library.Word"
begin

unbundle bit_operations_syntax

text \<open>
  \<open>src/wol.rs\<close>: wake modes as letters and as bits, one NIC brought to the configured mode through the
  driver's two calls, and the keeper that rechecks every configured NIC once a minute. The driver
  is a pair of functions over its own state \<open>'d\<close>: \<open>get\<close> reads a NIC's state, \<open>put\<close> sets its mode; both
  may fail with an error text. The \<open>ioctl\<close> itself is outside.
\<close>

section \<open>Modes\<close>

type_synonym u32 = "32 word"

definition WAKE_PHY :: u32 where "WAKE_PHY = 1"
definition WAKE_UCAST :: u32 where "WAKE_UCAST = 2"
definition WAKE_MCAST :: u32 where "WAKE_MCAST = 4"
definition WAKE_BCAST :: u32 where "WAKE_BCAST = 8"
definition WAKE_ARP :: u32 where "WAKE_ARP = 16"
definition WAKE_MAGIC :: u32 where "WAKE_MAGIC = 32"
definition WAKE_MAGICSECURE :: u32 where "WAKE_MAGICSECURE = 64"
definition WAKE_FILTER :: u32 where "WAKE_FILTER = 128"

lemmas wake_bits = WAKE_PHY_def WAKE_UCAST_def WAKE_MCAST_def WAKE_BCAST_def WAKE_ARP_def
  WAKE_MAGIC_def WAKE_MAGICSECURE_def WAKE_FILTER_def

definition FLAG_LETTERS :: "(char \<times> u32) list" where
  "FLAG_LETTERS =
     [(CHR ''p'', WAKE_PHY), (CHR ''u'', WAKE_UCAST), (CHR ''m'', WAKE_MCAST), (CHR ''b'', WAKE_BCAST),
      (CHR ''a'', WAKE_ARP), (CHR ''g'', WAKE_MAGIC), (CHR ''s'', WAKE_MAGICSECURE), (CHR ''f'', WAKE_FILTER)]"

definition RECHECK_INTERVAL :: duration where "RECHECK_INTERVAL = secs 60"

datatype mode_error = EmptyMode | Unsupported char

definition mode_letter :: "char \<Rightarrow> u32 option" where
  "mode_letter c =
     (case find (\<lambda>(l, _). l = c) FLAG_LETTERS of
        Some (_, flag) \<Rightarrow> if c \<noteq> CHR ''s'' \<and> c \<noteq> CHR ''f'' then Some flag else None
      | None \<Rightarrow> None)"

fun mode_letters :: "string \<Rightarrow> u32 \<Rightarrow> mode_error + u32" where
  "mode_letters [] bits = Inr bits"
| "mode_letters (c # cs) bits =
     (case mode_letter c of
        Some flag \<Rightarrow> mode_letters cs (bits OR flag)
      | None \<Rightarrow> Inl (Unsupported c))"

definition parse_mode :: "string \<Rightarrow> mode_error + u32" where
  "parse_mode m =
     (if m = ''d'' then Inr 0 else if m = [] then Inl EmptyMode else mode_letters m 0)"

definition format_mode :: "u32 \<Rightarrow> string" where
  "format_mode bits =
     (if bits = 0 then ''d'' else map fst (filter (\<lambda>(_, flag). bits AND flag \<noteq> 0) FLAG_LETTERS))"

section \<open>One NIC\<close>

record wol_info =
  wi_supported :: u32
  wi_enabled :: u32

record wol_config =
  wc_nics :: "string list"
  wc_mode :: string

datatype outcome = Unchanged | Applied u32 | Failed string

type_synonym 'd get_wol = "string \<Rightarrow> 'd \<Rightarrow> string + wol_info"
type_synonym 'd put_wol = "string \<Rightarrow> u32 \<Rightarrow> 'd \<Rightarrow> string option \<times> 'd"

definition enforce_one ::
  "'d get_wol \<Rightarrow> 'd put_wol \<Rightarrow> string \<Rightarrow> u32 \<Rightarrow> 'd \<Rightarrow> outcome \<times> 'd" where
  "enforce_one get put iface want d =
     (case get iface d of
        Inl e \<Rightarrow> (Failed (''reading WOL state: '' @ e), d)
      | Inr info \<Rightarrow>
          if wi_enabled info = want then (Unchanged, d)
          else
            let missing = want AND NOT (wi_supported info) in
            if missing \<noteq> 0
            then (Failed (''NIC doesn't support '' @ format_mode missing @ '' (supports ''
                          @ format_mode (wi_supported info) @ '')''), d)
            else
              (case put iface want d of
                 (Some e, d) \<Rightarrow> (Failed (''setting WOL: '' @ e), d)
               | (None, d) \<Rightarrow>
                   (case get iface d of
                      Inl e \<Rightarrow> (Failed (''reading WOL state back: '' @ e), d)
                    | Inr after \<Rightarrow>
                        if wi_enabled after = want then (Applied (wi_enabled info), d)
                        else (Failed (''driver accepted it but reports '' @ format_mode (wi_enabled after)), d))))"

text \<open>\<open>describe\<close>: the line of one interface in the status report.\<close>

definition pad_right :: "nat \<Rightarrow> string \<Rightarrow> string" where
  "pad_right w s = s @ replicate (w - length s) CHR '' ''"

definition describe_wol :: "string + wol_info \<Rightarrow> string \<Rightarrow> wol_config \<Rightarrow> string" where
  "describe_wol state iface cfg =
     (let wanted = (if iface \<in> set (wc_nics cfg)
                    then (case parse_mode (wc_mode cfg) of Inl _ \<Rightarrow> None | Inr b \<Rightarrow> Some b) else None);
          text = (case state of
                    Inl e \<Rightarrow> ''unknown ('' @ e @ '')''
                  | Inr info \<Rightarrow>
                      if wi_supported info = 0 then ''not supported''
                      else pad_right 6 (format_mode (wi_enabled info)) @ '' (supports ''
                           @ format_mode (wi_supported info) @ '')'')
      in pad_right 10 iface @ '' '' @ text
         @ (case wanted of None \<Rightarrow> [] | Some bits \<Rightarrow> ''  managed: keeping at '' @ format_mode bits))"

section \<open>The keeper\<close>

record keeper =
  wk_nics :: "string list"
  wk_want :: u32
  wk_last_check :: "instant option"
  wk_applied :: "string list"
  wk_problems :: "string \<Rightarrow> string option"
  wk_log :: "log_line list"

definition keeper_new :: "wol_config \<Rightarrow> keeper" where
  "keeper_new cfg =
     (let (nics, want) = (case parse_mode (wc_mode cfg) of
                            Inr want \<Rightarrow> (wc_nics cfg, want) | Inl _ \<Rightarrow> ([], 0))
      in \<lparr>wk_nics = nics, wk_want = want, wk_last_check = None, wk_applied = [],
          wk_problems = (\<lambda>_. None), wk_log = []\<rparr>)"

definition wol_logs :: "log_line list \<Rightarrow> keeper \<Rightarrow> keeper" where
  "wol_logs ls k = k\<lparr>wk_log := wk_log k @ ls\<rparr>"

definition log_outcome :: "string \<Rightarrow> outcome \<Rightarrow> keeper \<Rightarrow> keeper" where
  "log_outcome iface out k =
     (let mode = format_mode (wk_want k) in
      case out of
        Failed problem \<Rightarrow>
          if wk_problems k iface = Some problem then k
          else wol_logs [syslog PWarning ''cannot_set_wol'' [iface, mode, problem] []]
                 (k\<lparr>wk_problems := (wk_problems k)(iface := Some problem)\<rparr>)
      | _ \<Rightarrow>
          let k = (if wk_problems k iface \<noteq> None
                   then wol_logs [syslog PNotice ''wol_works_again'' [iface, mode] []]
                          (k\<lparr>wk_problems := (wk_problems k)(iface := None)\<rparr>) else k);
              first = (iface \<notin> set (wk_applied k));
              k = (if first then k\<lparr>wk_applied := wk_applied k @ [iface]\<rparr> else k)
          in (case out of
                Applied was \<Rightarrow>
                  if first then wol_logs [syslog PInfo ''wol_set'' [iface, mode, format_mode was] []] k
                  else wol_logs [syslog PNotice ''wol_reapplied'' [iface, format_mode was, mode] []] k
              | _ \<Rightarrow> k))"

fun enforce_nics :: "'d get_wol \<Rightarrow> 'd put_wol \<Rightarrow> string list \<Rightarrow> keeper \<times> 'd \<Rightarrow> keeper \<times> 'd" where
  "enforce_nics get put [] kd = kd"
| "enforce_nics get put (iface # rest) (k, d) =
     (case enforce_one get put iface (wk_want k) d of
        (out, d) \<Rightarrow> enforce_nics get put rest (log_outcome iface out k, d))"

definition enforce :: "'d get_wol \<Rightarrow> 'd put_wol \<Rightarrow> instant \<Rightarrow> keeper \<times> 'd \<Rightarrow> keeper \<times> 'd" where
  "enforce get put now kd =
     (case kd of (k, d) \<Rightarrow> enforce_nics get put (wk_nics k) (k\<lparr>wk_last_check := Some now\<rparr>, d))"

definition maybe_enforce :: "'d get_wol \<Rightarrow> 'd put_wol \<Rightarrow> instant \<Rightarrow> keeper \<times> 'd \<Rightarrow> keeper \<times> 'd" where
  "maybe_enforce get put now kd =
     (if (case wk_last_check (fst kd) of None \<Rightarrow> True | Some t \<Rightarrow> RECHECK_INTERVAL \<le> since now t)
      then enforce get put now kd else kd)"

section \<open>What the keeper promises\<close>

text \<open>Parsing the letters of the flags that are set collects exactly those flags.\<close>

lemma and_single_bit: "(if x AND 2 ^ n \<noteq> 0 then 2 ^ n else 0) = x AND (2 ^ n :: u32)"
  by (rule bit_word_eqI) (auto simp: bit_simps and_exp_eq_0_iff_not_bit)

lemma letters_of_flags:
  "list_all (\<lambda>(c, flag). mode_letter c = Some flag \<and> (\<exists>n. flag = 2 ^ n)) fs \<Longrightarrow>
     mode_letters (map fst (filter (\<lambda>(_, flag). bits AND flag \<noteq> 0) fs)) acc
     = Inr (acc OR bits AND fold (\<lambda>(_, flag) a. a OR flag) fs 0)"
proof (induction fs arbitrary: acc)
  case (Cons x fs)
  obtain c flag where x: "x = (c, flag)" by fastforce
  with Cons.prems obtain n where f: "mode_letter c = Some flag" "flag = 2 ^ n" by auto
  have g: "fold (\<lambda>(_, flag) a. a OR flag) xs y = y OR fold (\<lambda>(_, flag) a. a OR flag) xs 0"
    for xs :: "(char \<times> u32) list" and y
  proof (induction xs arbitrary: y)
    case (Cons z zs)
    from Cons [of "y OR snd z"] Cons [of "snd z"] show ?case
      by (cases z) (simp add: or.assoc)
  qed simp
  have set: "bits AND flag = flag" if "bits AND flag \<noteq> 0"
    using and_single_bit [of bits n] f(2) that by (simp split: if_splits)
  have "fold (\<lambda>(_, flag) a. a OR flag) (x # fs) 0 = flag OR fold (\<lambda>(_, flag) a. a OR flag) fs 0"
    using g [of fs flag] by (simp add: x)
  then show ?case
    using Cons f(1) set by (cases "bits AND flag = 0") (auto simp: x bit.conj_disj_distrib or.assoc)
qed (simp add: list_all_def)

lemma settable_letters:
  "list_all (\<lambda>(c, flag). mode_letter c = Some flag \<and> (\<exists>n. flag = 2 ^ n)) (take 6 FLAG_LETTERS)"
proof -
  have "\<exists>n. (1 :: u32) = 2 ^ n" "\<exists>n. (2 :: u32) = 2 ^ n" "\<exists>n. (4 :: u32) = 2 ^ n" "\<exists>n. (8 :: u32) = 2 ^ n"
    "\<exists>n. (16 :: u32) = 2 ^ n" "\<exists>n. (32 :: u32) = 2 ^ n"
    by (rule exI [of _ 0], simp, rule exI [of _ 1], simp, rule exI [of _ 2], simp, rule exI [of _ 3], simp,
        rule exI [of _ 4], simp, rule exI [of _ 5], simp)
  then show ?thesis by (simp add: FLAG_LETTERS_def mode_letter_def wake_bits)
qed

lemma mode_letter_cases:
  assumes "mode_letter c = Some flag"
  shows "flag \<in> {1, 2, 4, 8, 16, 32}"
proof -
  have "(c, flag) \<in> set FLAG_LETTERS" "c \<noteq> CHR ''s''" "c \<noteq> CHR ''f''"
    using assms by (auto simp: mode_letter_def find_Some_iff in_set_conv_nth split: option.splits if_splits)
  then show ?thesis unfolding FLAG_LETTERS_def wake_bits by auto
qed

lemma letter_bound: "mode_letter c = Some flag \<Longrightarrow> flag AND NOT 63 = 0"
  using mode_letter_cases [of c flag] by fastforce

lemma letters_bound: "mode_letters m acc = Inr bits \<Longrightarrow> acc AND NOT 63 = 0 \<Longrightarrow> bits AND NOT 63 = 0"
proof (induction m arbitrary: acc)
  case (Cons c m)
  then obtain flag where flag: "mode_letter c = Some flag" "mode_letters m (acc OR flag) = Inr bits"
    by (auto split: option.splits)
  moreover have "(acc OR flag) AND NOT 63 = 0"
    using letter_bound [OF flag(1)] Cons.prems(2) by (simp add: bit.conj_disj_distrib2)
  ultimately show ?case using Cons.IH by blast
qed simp

text \<open>Every mode the configuration accepts is what the daemon prints for it, up to the order of the
  letters: printing the parsed bits and parsing the print gives the same bits, and only the six settable
  flags ever occur.\<close>

theorem wol_mode_roundtrip:
  assumes "parse_mode m = Inr bits"
  shows "parse_mode (format_mode bits) = Inr bits \<and> bits AND NOT 63 = 0"
proof -
  have b: "bits AND NOT 63 = 0"
    using assms letters_bound [of m 0 bits] by (auto simp: parse_mode_def split: if_splits)
  have six: "bits AND 63 = bits"
  proof -
    have "bits = bits AND (63 OR NOT 63)" by simp
    also have "\<dots> = bits AND 63 OR bits AND NOT 63" by (rule bit.conj_disj_distrib)
    also have "\<dots> = bits AND 63" by (simp only: b or.right_neutral)
    finally show ?thesis by (rule sym)
  qed
  have "(bits AND 63) AND 64 = 0" "(bits AND 63) AND 128 = 0" by (simp_all only: and.assoc) simp_all
  then have "bits AND 64 = 0" "bits AND 128 = 0" by (simp_all only: six)
  then have "filter (\<lambda>(_, flag). bits AND flag \<noteq> 0) FLAG_LETTERS
      = filter (\<lambda>(_, flag). bits AND flag \<noteq> 0) (take 6 FLAG_LETTERS)"
    by (simp add: FLAG_LETTERS_def wake_bits)
  moreover have "fold (\<lambda>(_, flag) a. a OR flag) (take 6 FLAG_LETTERS) 0 = (63 :: u32)"
    by (simp add: FLAG_LETTERS_def wake_bits)
  ultimately have l: "mode_letters (map fst (filter (\<lambda>(_, flag). bits AND flag \<noteq> 0) FLAG_LETTERS)) 0 = Inr bits"
    using letters_of_flags [OF settable_letters, of bits 0] six by simp
  show ?thesis
  proof (cases "bits = 0")
    case True
    then show ?thesis by (simp add: format_mode_def parse_mode_def)
  next
    case False
    let ?m = "map fst (filter (\<lambda>(_, flag). bits AND flag \<noteq> 0) FLAG_LETTERS)"
    have "?m \<noteq> []" "?m \<noteq> ''d''"
      using l False by (auto simp: mode_letter_def FLAG_LETTERS_def split: if_splits)
    with l False b show ?thesis by (simp add: format_mode_def parse_mode_def)
  qed
qed

theorem wol_mode_roundtrip_witness: "parse_mode (format_mode 32) = Inr 32 \<and> format_mode 32 = ''g''"
proof -
  have "parse_mode ''g'' = Inr 32" by (simp add: parse_mode_def mode_letter_def FLAG_LETTERS_def wake_bits)
  then show ?thesis
    using wol_mode_roundtrip [of "''g''" 32] by (simp add: format_mode_def FLAG_LETTERS_def wake_bits)
qed

text \<open>A driver that does what it answers: setting a supported mode of a NIC it knows succeeds and reads
  back, leaving what the NIC supports and every other NIC as they were.\<close>

definition honest_driver :: "'d get_wol \<Rightarrow> 'd put_wol \<Rightarrow> bool" where
  "honest_driver get put \<longleftrightarrow>
     (\<forall>iface w d info. get iface d = Inr info \<and> w AND NOT (wi_supported info) = 0 \<longrightarrow>
        (\<exists>d'. put iface w d = (None, d') \<and> get iface d' = Inr (info\<lparr>wi_enabled := w\<rparr>)
           \<and> (\<forall>other. other \<noteq> iface \<longrightarrow> get other d' = get other d)))"

lemma enforce_one_honest:
  assumes "honest_driver get put" "enforce_one get put iface want d = (out, d')"
  shows "(\<forall>other. other \<noteq> iface \<longrightarrow> get other d' = get other d)
    \<and> (case get iface d of
         Inl e \<Rightarrow> d' = d
       | Inr info \<Rightarrow>
           if want AND NOT (wi_supported info) = 0 then get iface d' = Inr (info\<lparr>wi_enabled := want\<rparr>)
           else d' = d)"
proof (cases "get iface d")
  case (Inl e)
  with assms(2) show ?thesis by (simp add: enforce_one_def)
next
  case (Inr info)
  show ?thesis
  proof (cases "want AND NOT (wi_supported info) = 0 \<and> wi_enabled info \<noteq> want")
    case True
    with assms(1) Inr obtain d2 where "put iface want d = (None, d2)"
      "get iface d2 = Inr (info\<lparr>wi_enabled := want\<rparr>)" "\<forall>other. other \<noteq> iface \<longrightarrow> get other d2 = get other d"
      unfolding honest_driver_def by blast
    with assms(2) Inr True show ?thesis by (simp add: enforce_one_def Let_def)
  next
    case False
    with assms(2) Inr show ?thesis by (auto simp: enforce_one_def Let_def split: if_splits)
  qed
qed

lemma log_outcome_same [simp]:
  "wk_want (log_outcome iface out k) = wk_want k" "wk_nics (log_outcome iface out k) = wk_nics k"
  "wk_last_check (log_outcome iface out k) = wk_last_check k"
  by (simp_all add: log_outcome_def wol_logs_def Let_def split: outcome.split)

text \<open>What one NIC reads as after the keeper has been at it.\<close>

definition kept :: "u32 \<Rightarrow> string + wol_info \<Rightarrow> string + wol_info" where
  "kept want r =
     (case r of
        Inl e \<Rightarrow> Inl e
      | Inr info \<Rightarrow> if want AND NOT (wi_supported info) = 0 then Inr (info\<lparr>wi_enabled := want\<rparr>) else Inr info)"

lemma kept_idem [simp]: "kept want (kept want r) = kept want r"
  by (simp add: kept_def split: sum.split)

lemma enforce_nics_honest:
  assumes "honest_driver get put"
  shows "enforce_nics get put nics (k, d) = (k', d') \<Longrightarrow>
     get iface d' = (if iface \<in> set nics then kept (wk_want k) (get iface d) else get iface d)
     \<and> wk_want k' = wk_want k \<and> wk_nics k' = wk_nics k"
proof (induction nics arbitrary: k d)
  case (Cons nic nics)
  obtain out d1 where e: "enforce_one get put nic (wk_want k) d = (out, d1)" by fastforce
  note h = enforce_one_honest [OF assms e]
  have "get iface d1 = (if iface = nic then kept (wk_want k) (get iface d) else get iface d)"
    using h by (auto simp: kept_def split: sum.splits if_splits)
  with Cons.IH [of "log_outcome nic out k" d1] Cons.prems e show ?case by auto
qed simp

text \<open>C39. Over a driver that does what it answers, one check brings every configured NIC that supports the
  configured mode to exactly that mode, leaves a NIC that does not support it, or that is not configured,
  as it was, and a further check changes nothing.\<close>

theorem keeper_settles:
  assumes "honest_driver get put" "enforce get put now (keeper_new cfg, d) = (k', d')"
    "parse_mode (wc_mode cfg) = Inr want"
  shows "get iface d' = (if iface \<in> set (wc_nics cfg) then kept want (get iface d) else get iface d)
    \<and> get iface (snd (enforce get put later (k', d'))) = get iface d'"
proof -
  have k: "wk_nics (keeper_new cfg) = wc_nics cfg" "wk_want (keeper_new cfg) = want"
    using assms(3) by (simp_all add: keeper_new_def)
  have "enforce_nics get put (wc_nics cfg) ((keeper_new cfg)\<lparr>wk_last_check := Some now\<rparr>, d) = (k', d')"
    using assms(2) by (simp add: enforce_def k)
  from enforce_nics_honest [OF assms(1) this]
  have one: "get i d' = (if i \<in> set (wc_nics cfg) then kept want (get i d) else get i d)"
    and k': "wk_want k' = want" "wk_nics k' = wc_nics cfg" for i
    by (simp_all add: k)
  obtain k2 d2 where two: "enforce get put later (k', d') = (k2, d2)" by fastforce
  then have "enforce_nics get put (wc_nics cfg) (k'\<lparr>wk_last_check := Some later\<rparr>, d') = (k2, d2)"
    by (simp add: enforce_def k')
  from enforce_nics_honest [OF assms(1) this, of iface]
  have "get iface d2 = get iface d'" by (simp add: k' one)
  with one two show ?thesis by simp
qed

text \<open>A driver over a table of NICs.\<close>

definition table_get :: "(string \<Rightarrow> wol_info option) get_wol" where
  "table_get iface d = (case d iface of None \<Rightarrow> Inl ''No such device'' | Some info \<Rightarrow> Inr info)"

definition table_put :: "(string \<Rightarrow> wol_info option) put_wol" where
  "table_put iface w d =
     (case d iface of
        None \<Rightarrow> (Some ''No such device'', d)
      | Some info \<Rightarrow> (None, d(iface := Some (info\<lparr>wi_enabled := w\<rparr>))))"

lemma table_honest: "honest_driver table_get table_put"
  by (auto simp: honest_driver_def table_get_def table_put_def split: option.splits)

theorem keeper_settles_witness:
  "table_get ''enp2s0'' (snd (enforce table_get table_put 0
       (keeper_new \<lparr>wc_nics = [''enp2s0''], wc_mode = ''g''\<rparr>,
        \<lambda>_. Some \<lparr>wi_supported = 63, wi_enabled = 0\<rparr>))) = Inr \<lparr>wi_supported = 63, wi_enabled = 32\<rparr>"
proof -
  let ?cfg = "\<lparr>wc_nics = [''enp2s0''], wc_mode = ''g''\<rparr>"
  let ?d = "\<lambda>_ :: string. Some \<lparr>wi_supported = 63 :: u32, wi_enabled = 0\<rparr>"
  have "parse_mode (wc_mode ?cfg) = Inr 32"
    by (simp add: parse_mode_def mode_letter_def FLAG_LETTERS_def wake_bits)
  from keeper_settles [OF table_honest prod.collapse [symmetric] this, where now = 0 and d = ?d and iface = "''enp2s0''" and later = 0]
  show ?thesis by (simp add: kept_def table_get_def)
qed

end
