(* ===== verification/Buzzer.thy ===== *)
theory Buzzer
  imports Hal
begin

text \<open>
  \<open>src/buzzer.rs\<close>: which device to send tones to and why a beep would not sound, the tone events,
  the bounded queue between the main loop and the beeper thread, and what the beeper does with one
  message. What the driver's files say, whether the device opens and what its two writes return
  is the environment of a step; sleeping is time that passes outside.
\<close>

section \<open>Constants and configuration\<close>

definition BEEP_QUEUE_DEPTH :: nat where "BEEP_QUEUE_DEPTH = 8"
definition FIND_ME_INTERVAL :: duration where "FIND_ME_INTERVAL = secs 30"
definition TONE_HZ :: int where "TONE_HZ = 2000"
definition BUZZER_NAME :: string where "BUZZER_NAME = ''ASUSTOR Buzzer''"
definition EV_SND :: nat where "EV_SND = 0x12"
definition SND_TONE :: nat where "SND_TONE = 2"
definition TIMEVAL_SIZE :: nat where "TIMEVAL_SIZE = 16"

record buzzer_config =
  bc_enabled :: bool
  bc_boot :: bool
  bc_power :: bool
  bc_alerts :: bool
  bc_find_me :: bool

definition buzzer_config_default :: buzzer_config where
  "buzzer_config_default =
     \<lparr>bc_enabled = False, bc_boot = True, bc_power = True, bc_alerts = True, bc_find_me = True\<rparr>"

datatype beep = Short | Long

fun beep_duration :: "beep \<Rightarrow> duration" where
  "beep_duration Short = millis 200"
| "beep_duration Long = millis 800"

section \<open>The gate and the device\<close>

datatype gate = GateActive | GateDisabled | GateUnavailable | GateAbsent | GateOther string

text \<open>Reading the \<open>buzzer_gate\<close> attribute: its text, no such file, or another error.\<close>

datatype gate_file = GateText string | GateMissing | GateError string

definition gate_parse :: "string \<Rightarrow> gate" where
  "gate_parse text =
     (let t = trim text in
      if t = ''active'' then GateActive
      else if t = ''disabled'' then GateDisabled
      else if t = ''unavailable'' then GateUnavailable
      else GateOther (CHR 0x22 # t @ [CHR 0x22]))"

definition gate_read :: "gate_file \<Rightarrow> gate" where
  "gate_read file =
     (case file of
        GateText text \<Rightarrow> gate_parse text
      | GateMissing \<Rightarrow> GateAbsent
      | GateError e \<Rightarrow> GateOther (''unreadable ('' @ e @ '')''))"

text \<open>The speaker device, or why a beep would not sound; the sentences are named, not spelled out,
  but for the part that varies.\<close>

datatype silence =
  TurnedOff | DriverTooOld | NoGateAttribute | GateTurnedOff | GateNotClaimed | GateUnknown string

definition availability :: "bool \<Rightarrow> gate \<Rightarrow> string option \<Rightarrow> silence + string" where
  "availability enabled g speaker =
     (if \<not> enabled then Inl TurnedOff
      else
        (case g of
           GateActive \<Rightarrow> (case speaker of Some dev \<Rightarrow> Inr dev | None \<Rightarrow> Inl DriverTooOld)
         | GateAbsent \<Rightarrow> Inl NoGateAttribute
         | GateDisabled \<Rightarrow> Inl GateTurnedOff
         | GateUnavailable \<Rightarrow> Inl GateNotClaimed
         | GateOther v \<Rightarrow> Inl (GateUnknown v)))"

definition is_event_node :: "string \<Rightarrow> bool" where
  "is_event_node name =
     (case strip_prefix ''event'' name of None \<Rightarrow> False | Some n \<Rightarrow> n \<noteq> [] \<and> list_all is_digit n)"

definition trim_quotes :: "string \<Rightarrow> string" where
  "trim_quotes s = (let q = (\<lambda>c. c = CHR 0x22) in rev (dropWhile q (rev (dropWhile q s))))"

text \<open>The scan of \<open>/proc/bus/input/devices\<close>, line by line.\<close>

fun handler_lines :: "bool \<Rightarrow> string list \<Rightarrow> string option" where
  "handler_lines is_buzzer [] = None"
| "handler_lines is_buzzer (line # rest) =
     (if trim line = [] then handler_lines False rest
      else
        (case strip_prefix ''N: Name='' line of
           Some name \<Rightarrow> handler_lines (trim_quotes (trim name) = BUZZER_NAME) rest
         | None \<Rightarrow>
             (case (is_buzzer, strip_prefix ''H: Handlers='' line) of
                (True, Some handlers) \<Rightarrow> find is_event_node (split_whitespace handlers)
              | _ \<Rightarrow> handler_lines is_buzzer rest)))"

definition buzzer_handler :: "string \<Rightarrow> string option" where
  "buzzer_handler text = handler_lines False (str_lines text)"

text \<open>The same from \<open>/sys/class/input\<close>: its entries, each with the text of its \<open>device/name\<close>.\<close>

definition buzzer_in_class :: "(string \<times> string option) list option \<Rightarrow> string option" where
  "buzzer_in_class entries =
     (case entries of
        None \<Rightarrow> None
      | Some es \<Rightarrow>
          map_option fst
            (find (\<lambda>(_, name). case name of None \<Rightarrow> False | Some t \<Rightarrow> trim t = BUZZER_NAME)
              (sort_key fst (filter (\<lambda>(n, _). is_event_node n) es))))"

record beep_env =
  be_gate :: gate_file
  be_input_devices :: "string option"
  be_class :: "(string \<times> string option) list option"
  be_open_error :: "string option"
  be_tone_on :: "string + nat"
  be_tone_off :: "string + nat"

definition buzzer_device :: "beep_env \<Rightarrow> string option" where
  "buzzer_device env =
     (case (case be_input_devices env of None \<Rightarrow> None | Some text \<Rightarrow> buzzer_handler text) of
        Some event \<Rightarrow> Some (''/dev/input/'' @ event)
      | None \<Rightarrow> map_option ((@) ''/dev/input/'') (buzzer_in_class (be_class env)))"

definition check_paths :: "beep_env \<Rightarrow> bool \<Rightarrow> silence + string" where
  "check_paths env enabled = availability enabled (gate_read (be_gate env)) (buzzer_device env)"

section \<open>Tones\<close>

text \<open>\<open>to_ne_bytes\<close> of an \<open>n\<close>-byte value on \<open>x86_64\<close>.\<close>

definition le_bytes :: "nat \<Rightarrow> int \<Rightarrow> int list" where
  "le_bytes n v = map (\<lambda>i. (v div 256 ^ i) mod 256) [0..<n]"

definition input_event :: "nat \<Rightarrow> nat \<Rightarrow> int \<Rightarrow> int list" where
  "input_event kind code v =
     replicate TIMEVAL_SIZE 0 @ le_bytes 2 (int kind) @ le_bytes 2 (int code) @ le_bytes 4 v"

text \<open>\<open>send_tone\<close> writes one event; \<open>written\<close> is what the device returns, the result an error.\<close>

definition send_tone :: "int \<Rightarrow> string + nat \<Rightarrow> int list \<times> string option" where
  "send_tone hz written =
     (let event = input_event EV_SND SND_TONE hz in
      (event,
       (case written of
          Inl e \<Rightarrow> Some e
        | Inr n \<Rightarrow> if n = length event then None
                    else Some (''short input_event write ('' @ nat_str n @ '' of ''
                               @ nat_str (length event) @ '' bytes)''))))"

text \<open>\<open>play\<close>: the events written, how long the tone lasts, and the error if any.\<close>

definition play :: "duration \<Rightarrow> beep_env \<Rightarrow> int list list \<times> duration \<times> string option" where
  "play len env =
     (let (on, started) = send_tone TONE_HZ (be_tone_on env);
          (off, stopped) = send_tone 0 (be_tone_off env)
      in ([on, off], if started = None then len else 0,
          case started of None \<Rightarrow> stopped | Some e \<Rightarrow> Some e))"

section \<open>The queue and the beeper thread\<close>

datatype msg = MBeep beep | MFlush nat

record buzzer =
  bz_running :: bool
  bz_queue :: "msg list"
  bz_find_me_last :: "instant option"
  bz_announced :: "(silence + string) option"
  bz_failed :: bool
  bz_accepted :: "msg list"
  bz_handled :: "msg list"
  bz_answered :: "nat list"
  bz_events :: "int list list"
  bz_log :: "log_line list"

definition try_send :: "msg \<Rightarrow> buzzer \<Rightarrow> bool \<times> buzzer" where
  "try_send m b =
     (if length (bz_queue b) < BEEP_QUEUE_DEPTH
      then (True, b\<lparr>bz_queue := bz_queue b @ [m], bz_accepted := bz_accepted b @ [m]\<rparr>) else (False, b))"

definition beep_request :: "beep \<Rightarrow> buzzer \<Rightarrow> buzzer" where
  "beep_request k b = (if bz_running b then snd (try_send (MBeep k) b) else b)"

text \<open>One attempt of \<open>flush\<close> to queue its marker \<open>n\<close>; it retries until its deadline.\<close>

definition flush_attempt :: "nat \<Rightarrow> buzzer \<Rightarrow> buzzer" where
  "flush_attempt n b = (if bz_running b then snd (try_send (MFlush n) b) else b)"

definition find_me_allowed :: "instant \<Rightarrow> buzzer \<Rightarrow> bool \<times> buzzer" where
  "find_me_allowed now b =
     (if (case bz_find_me_last b of None \<Rightarrow> True | Some t \<Rightarrow> FIND_ME_INTERVAL \<le> since now t)
      then (True, b\<lparr>bz_find_me_last := Some now\<rparr>) else (False, b))"

text \<open>What the rest of the daemon calls, with the configuration given at start.\<close>

definition boot_finished :: "buzzer_config \<Rightarrow> buzzer \<Rightarrow> buzzer" where
  "boot_finished cfg b = (if bc_boot cfg then beep_request Long b else b)"

definition powering_down :: "buzzer_config \<Rightarrow> buzzer \<Rightarrow> buzzer" where
  "powering_down cfg b = (if bc_power cfg then beep_request Short b else b)"

definition alert :: "buzzer_config \<Rightarrow> buzzer \<Rightarrow> buzzer" where
  "alert cfg b = (if bc_alerts cfg then beep_request Short b else b)"

definition find_me :: "buzzer_config \<Rightarrow> instant \<Rightarrow> buzzer \<Rightarrow> buzzer" where
  "find_me cfg now b =
     (if bc_find_me cfg
      then (let (allowed, b) = find_me_allowed now b in if allowed then beep_request Short b else b) else b)"

text \<open>The availability check of the beeper thread, logged when it changes.\<close>

definition announce :: "beep_env \<Rightarrow> buzzer \<Rightarrow> (silence + string) \<times> buzzer" where
  "announce env b =
     (let now = check_paths env True in
      (now,
       if bz_announced b = Some now then b
       else b\<lparr>bz_announced := Some now,
             bz_log := bz_log b @
               [case now of Inr dev \<Rightarrow> syslog PInfo ''buzzer_ready'' [dev] []
                          | Inl _ \<Rightarrow> syslog PWarning ''not_beeping'' [] []]\<rparr>))"

definition buzzer_new :: "bool \<Rightarrow> beep_env \<Rightarrow> buzzer" where
  "buzzer_new enabled env =
     (let b = \<lparr>bz_running = enabled, bz_queue = [], bz_find_me_last = None, bz_announced = None,
               bz_failed = False, bz_accepted = [], bz_handled = [], bz_answered = [], bz_events = [],
               bz_log = []\<rparr>
      in if enabled then snd (announce env b) else b)"

definition play_beep :: "beep_env \<Rightarrow> beep \<Rightarrow> buzzer \<Rightarrow> buzzer" where
  "play_beep env k b =
     (case announce env b of
        (Inl _, b) \<Rightarrow> b
      | (Inr dev, b) \<Rightarrow>
          (let (events, played) = (case be_open_error env of
                 Some e \<Rightarrow> ([], Some e)
               | None \<Rightarrow> (case play (beep_duration k) env of (events, _, err) \<Rightarrow> (events, err)));
               b = b\<lparr>bz_events := bz_events b @ events\<rparr>
           in case played of
                None \<Rightarrow> b\<lparr>bz_failed := False\<rparr>
              | Some e \<Rightarrow>
                  (if bz_failed b then b else b\<lparr>bz_log := bz_log b @ [syslog PWarning ''buzzer'' [dev, e] []]\<rparr>)
                    \<lparr>bz_failed := True\<rparr>))"

definition worker_step :: "beep_env \<Rightarrow> buzzer \<Rightarrow> buzzer" where
  "worker_step env b =
     (case bz_queue b of
        [] \<Rightarrow> b
      | m # q \<Rightarrow>
          (let b = b\<lparr>bz_queue := q, bz_handled := bz_handled b @ [m]\<rparr> in
           case m of
             MFlush n \<Rightarrow> b\<lparr>bz_answered := bz_answered b @ [n]\<rparr>
           | MBeep k \<Rightarrow> play_beep env k b))"

section \<open>What the beeper promises\<close>

datatype beep_op =
  BootFinished | PoweringDown | Alert | FindMe instant | FlushAttempt nat | Work beep_env

fun beep_step :: "buzzer_config \<Rightarrow> beep_op \<Rightarrow> buzzer \<Rightarrow> buzzer" where
  "beep_step cfg BootFinished b = boot_finished cfg b"
| "beep_step cfg PoweringDown b = powering_down cfg b"
| "beep_step cfg Alert b = alert cfg b"
| "beep_step cfg (FindMe now) b = find_me cfg now b"
| "beep_step cfg (FlushAttempt n) b = flush_attempt n b"
| "beep_step cfg (Work env) b = worker_step env b"

definition tone_pair :: "int list list" where
  "tone_pair = [input_event EV_SND SND_TONE 2000, input_event EV_SND SND_TONE 0]"

definition flush_ids :: "msg list \<Rightarrow> nat list" where
  "flush_ids ms = List.map_filter (\<lambda>m. case m of MFlush n \<Rightarrow> Some n | MBeep _ \<Rightarrow> None) ms"

definition buzzer_inv :: "buzzer \<Rightarrow> bool" where
  "buzzer_inv b \<longleftrightarrow> bz_handled b @ bz_queue b = bz_accepted b \<and> length (bz_queue b) \<le> BEEP_QUEUE_DEPTH
     \<and> bz_answered b = flush_ids (bz_handled b) \<and> (\<exists>k. bz_events b = concat (replicate k tone_pair))"

lemma flush_ids_snoc [simp]:
  "flush_ids (ms @ [MFlush n]) = flush_ids ms @ [n]" "flush_ids (ms @ [MBeep k]) = flush_ids ms"
  "flush_ids [] = []"
  by (simp_all add: flush_ids_def List.map_filter_def)

lemma replicate_snoc_concat: "concat (replicate k xs) @ xs = concat (replicate (Suc k) xs)"
  by (metis concat.simps(1,2) concat_append append_Nil2 replicate_Suc replicate_append_same)

lemma try_send_inv: "buzzer_inv b \<Longrightarrow> buzzer_inv (snd (try_send m b))"
  by (auto simp: buzzer_inv_def try_send_def simp flip: append_assoc)

lemma find_me_allowed_inv: "buzzer_inv b \<Longrightarrow> buzzer_inv (snd (find_me_allowed now b))"
  by (simp add: buzzer_inv_def find_me_allowed_def)

lemma request_inv: "buzzer_inv b \<Longrightarrow> buzzer_inv (beep_request k b)"
  by (simp add: beep_request_def try_send_inv)

lemma announce_frame [simp]:
  "bz_queue (snd (announce env b)) = bz_queue b" "bz_accepted (snd (announce env b)) = bz_accepted b"
  "bz_handled (snd (announce env b)) = bz_handled b" "bz_answered (snd (announce env b)) = bz_answered b"
  "bz_events (snd (announce env b)) = bz_events b" "bz_running (snd (announce env b)) = bz_running b"
  by (simp_all add: announce_def Let_def)

lemma play_events: "fst (play len env) = tone_pair"
  by (simp add: play_def send_tone_def tone_pair_def TONE_HZ_def Let_def)

lemma play_beep_frame:
  "bz_queue (play_beep env k b) = bz_queue b" "bz_accepted (play_beep env k b) = bz_accepted b"
  "bz_handled (play_beep env k b) = bz_handled b" "bz_answered (play_beep env k b) = bz_answered b"
  "bz_running (play_beep env k b) = bz_running b"
  "bz_events (play_beep env k b) = bz_events b \<or> bz_events (play_beep env k b) = bz_events b @ tone_pair"
proof -
  obtain c b' where a: "announce env b = (c, b')" by fastforce
  obtain evs d err where p: "play (beep_duration k) env = (evs, d, err)" by (cases "play (beep_duration k) env")
  have "evs = tone_pair" using play_events [of "beep_duration k" env] by (simp add: p)
  moreover note announce_frame [of env b, unfolded a snd_conv]
  ultimately show "bz_queue (play_beep env k b) = bz_queue b" "bz_accepted (play_beep env k b) = bz_accepted b"
    "bz_handled (play_beep env k b) = bz_handled b" "bz_answered (play_beep env k b) = bz_answered b"
    "bz_running (play_beep env k b) = bz_running b"
    "bz_events (play_beep env k b) = bz_events b \<or> bz_events (play_beep env k b) = bz_events b @ tone_pair"
    by (simp_all add: play_beep_def a p Let_def split: sum.split option.split)
qed

lemma worker_inv:
  assumes "buzzer_inv b"
  shows "buzzer_inv (worker_step env b)"
proof (cases "bz_queue b")
  case Nil
  with assms show ?thesis by (simp add: worker_step_def)
next
  case (Cons m q)
  show ?thesis
  proof (cases m)
    case (MFlush n)
    with assms Cons show ?thesis by (auto simp: buzzer_inv_def worker_step_def)
  next
    case (MBeep k)
    let ?b = "b\<lparr>bz_queue := q, bz_handled := bz_handled b @ [m]\<rparr>"
    have "buzzer_inv ?b" using assms Cons MBeep by (auto simp: buzzer_inv_def)
    moreover have "worker_step env b = play_beep env k ?b" using Cons MBeep by (simp add: worker_step_def)
    moreover have "\<exists>k'. concat (replicate n tone_pair) @ tone_pair = concat (replicate k' tone_pair)" for n
      using replicate_snoc_concat by blast
    ultimately show ?thesis
      using play_beep_frame [of env k ?b] unfolding buzzer_inv_def by auto
  qed
qed

lemma beep_step_inv: "buzzer_inv b \<Longrightarrow> buzzer_inv (beep_step cfg op b)"
  by (cases op) (simp_all add: boot_finished_def powering_down_def alert_def find_me_def flush_attempt_def
      request_inv try_send_inv worker_inv find_me_allowed_inv case_prod_beta)

interpretation beeper: step_machine "beep_step cfg" buzzer_inv
  by unfold_locales (rule beep_step_inv)

lemma new_inv: "buzzer_inv (buzzer_new enabled env)"
proof -
  have "\<exists>k. [] = concat (replicate k tone_pair)" by (rule exI [of _ 0]) simp
  then show ?thesis by (simp add: buzzer_inv_def buzzer_new_def announce_def Let_def)
qed

text \<open>C38. Over any run of requests and beeper steps, whatever the speaker device answers, the events
  written to it are pairs of a 2 kHz tone and its end: no failed or short write leaves it sounding.
  What was accepted is handled in order, at most eight messages wait, and a flush marker
  is answered only after everything accepted before it was handled.\<close>

theorem beeper_safe:
  "let b = fold (beep_step cfg) ops (buzzer_new enabled env) in
     (\<exists>k. bz_events b = concat (replicate k
        [input_event EV_SND SND_TONE 2000, input_event EV_SND SND_TONE 0]))
     \<and> bz_handled b @ bz_queue b = bz_accepted b \<and> length (bz_queue b) \<le> 8
     \<and> bz_answered b = flush_ids (bz_handled b)"
  using beeper.run_inv [OF new_inv, of cfg ops enabled env]
  by (simp add: buzzer_inv_def Let_def tone_pair_def BEEP_QUEUE_DEPTH_def)

text \<open>The times at which a run of locate requests is let through.\<close>

fun find_me_times :: "instant list \<Rightarrow> buzzer \<Rightarrow> instant list" where
  "find_me_times [] b = []"
| "find_me_times (now # rest) b =
     (case find_me_allowed now b of
        (True, b) \<Rightarrow> now # find_me_times rest b
      | (False, b) \<Rightarrow> find_me_times rest b)"

lemma find_me_times_apart:
  "(case bz_find_me_last b of None \<Rightarrow> True | Some t \<Rightarrow> \<forall>u\<in>set (find_me_times moments b). t + secs 30 \<le> u)
   \<and> sorted_wrt (\<lambda>t u. t + secs 30 \<le> u) (find_me_times moments b)"
proof (induction moments arbitrary: b)
  case (Cons now moments)
  show ?case
  proof (cases "fst (find_me_allowed now b)")
    case True
    let ?b = "b\<lparr>bz_find_me_last := Some now\<rparr>"
    have "find_me_allowed now b = (True, ?b)" using True by (auto simp: find_me_allowed_def split: if_splits)
    moreover have "t + secs 30 \<le> now" if "bz_find_me_last b = Some t" for t
      using True that by (simp add: find_me_allowed_def FIND_ME_INTERVAL_def since_def secs_def split: if_splits)
    ultimately show ?thesis using Cons.IH [of ?b] by (force split: option.split)
  next
    case False
    then have "find_me_allowed now b = (False, b)" by (auto simp: find_me_allowed_def split: if_splits)
    with Cons.IH [of b] show ?thesis by (cases "bz_find_me_last b") simp_all
  qed
qed (simp split: option.split)

text \<open>However often chassis locates arrive, the beeps let through for them are at least 30 s apart,
  also when the clock readings are not in order.\<close>

theorem find_me_rate: "sorted_wrt (\<lambda>t u. t + secs 30 \<le> u) (find_me_times moments b)"
  using find_me_times_apart [where b = b and moments = moments] by simp

end
