(* ===== verification/Watchdog.thy ===== *)
theory Watchdog
  imports Fan
begin

text \<open>
  \<open>src/sd_notify.rs\<close>: the main loop's progress marker, the decision to feed systemd's watchdog and the
  rate-limited ping. Opening the notification socket and sending the datagram either work or fail
  with an error text, given by the environment.
\<close>

definition MAIN_LOOP_STALL_AFTER :: duration where "MAIN_LOOP_STALL_AFTER = secs 300"

record progress =
  pg_last_ms :: nat
  pg_epoch :: instant

definition progress_new :: "instant \<Rightarrow> progress" where
  "progress_new now = \<lparr>pg_last_ms = 0, pg_epoch = now\<rparr>"

definition bump :: "instant \<Rightarrow> progress \<Rightarrow> progress" where
  "bump now p = p\<lparr>pg_last_ms := millis_since now (pg_epoch p)\<rparr>"

definition progress_age :: "instant \<Rightarrow> progress \<Rightarrow> duration" where
  "progress_age now p = since now (pg_epoch p) - millis (pg_last_ms p)"

definition should_ping :: "instant \<Rightarrow> duration \<Rightarrow> duration \<Rightarrow> progress \<Rightarrow> bool" where
  "should_ping now fan_age fan_limit p \<longleftrightarrow>
     fan_age \<le> fan_limit \<and> progress_age now p \<le> MAIN_LOOP_STALL_AFTER"

datatype notify_addr = AbstractName string | Pathname string

definition parse_addr :: "string \<Rightarrow> notify_addr" where
  "parse_addr path =
     (case strip_prefix ''@'' path of Some name \<Rightarrow> AbstractName name | None \<Rightarrow> Pathname path)"

record watchdog =
  wd_target :: "notify_addr option"
  wd_interval :: duration
  wd_last_sent :: "instant option"
  wd_warned :: bool
  wd_sent :: "instant list"
  wd_log :: "log_line list"

text \<open>\<open>open_error\<close> says why an address cannot be used, if it cannot.\<close>

definition watchdog_new ::
  "(notify_addr \<Rightarrow> string option) \<Rightarrow> string option \<Rightarrow> string option \<Rightarrow> watchdog" where
  "watchdog_new open_error notify_socket watchdog_usec =
     (let disabled = \<lparr>wd_target = None, wd_interval = 0, wd_last_sent = None, wd_warned = False,
                      wd_sent = [], wd_log = []\<rparr>
      in case (notify_socket, watchdog_usec) of
           (Some path, Some usec) \<Rightarrow>
             if path = [] then disabled
             else
               (case parse_uint (2 ^ 64) (trim usec) of
                  Some u \<Rightarrow>
                    if u = 0
                    then disabled\<lparr>wd_log := [syslog PWarning ''invalid_watchdog_usec'' [usec] []]\<rparr>
                    else
                      (case open_error (parse_addr path) of
                         None \<Rightarrow> disabled\<lparr>wd_target := Some (parse_addr path), wd_interval := micros (u div 2)\<rparr>
                       | Some e \<Rightarrow> disabled\<lparr>wd_log := [syslog PWarning ''watchdog_disabled'' [path, e] []]\<rparr>)
                | None \<Rightarrow> disabled\<lparr>wd_log := [syslog PWarning ''invalid_watchdog_usec'' [usec] []]\<rparr>)
         | _ \<Rightarrow> disabled)"

definition ping :: "instant \<Rightarrow> string option \<Rightarrow> watchdog \<Rightarrow> watchdog" where
  "ping now send_error w =
     (if wd_target w = None then w
      else if (case wd_last_sent w of None \<Rightarrow> False | Some t \<Rightarrow> since now t < wd_interval w) then w
      else
        (case send_error of
           None \<Rightarrow> w\<lparr>wd_last_sent := Some now, wd_warned := False, wd_sent := wd_sent w @ [now]\<rparr>
         | Some e \<Rightarrow>
             if wd_warned w then w
             else w\<lparr>wd_warned := True, wd_log := wd_log w @ [syslog PWarning ''could_not_ping'' [e] []]\<rparr>))"

text \<open>One turn of the feeder thread: what it sees of the fan thread and of the main loop, and how a
  datagram sent now would fare.\<close>

record feeder_env =
  wf_time :: instant
  wf_liveness :: fan_liveness
  wf_progress :: progress
  wf_send_error :: "string option"

definition healthy :: "feeder_env \<Rightarrow> bool" where
  "healthy env \<longleftrightarrow> should_ping (wf_time env) (liveness_age (wf_time env) (wf_liveness env))
     FAN_HEARTBEAT_TIMEOUT (wf_progress env)"

definition feeder_turn :: "feeder_env \<Rightarrow> watchdog \<Rightarrow> watchdog" where
  "feeder_turn env w = (if healthy env then ping (wf_time env) (wf_send_error env) w else w)"

section \<open>What the feeder promises\<close>

definition fed_by :: "feeder_env list \<Rightarrow> watchdog \<Rightarrow> bool" where
  "fed_by envs w \<longleftrightarrow>
     list_all (\<lambda>t. list_ex (\<lambda>env. wf_time env = t \<and> healthy env) envs) (wd_sent w)
     \<and> sorted_wrt (\<lambda>t u. t + wd_interval w \<le> u \<or> wd_interval w = 0) (wd_sent w)
     \<and> wd_last_sent w = (if wd_sent w = [] then None else Some (last (wd_sent w)))"

lemma ping_same [simp]:
  "wd_interval (ping now e w) = wd_interval w" "wd_target (ping now e w) = wd_target w"
  by (simp_all add: ping_def split: option.split)

lemma sorted_gap_snoc:
  assumes "sorted_wrt (\<lambda>t u. t + d \<le> u \<or> d = 0) xs" "xs \<noteq> [] \<Longrightarrow> last xs + d \<le> now \<or> d = 0"
  shows "sorted_wrt (\<lambda>t u. t + d \<le> u \<or> d = (0 :: nat)) (xs @ [now])"
proof (cases xs rule: rev_cases)
  case (snoc ys y)
  with assms have "\<forall>x\<in>set ys. x + d \<le> y \<or> d = 0" "y + d \<le> now \<or> d = 0"
    by (simp_all add: sorted_wrt_append)
  then have "\<forall>x\<in>set ys. x + d \<le> now \<or> d = 0" by fastforce
  with assms \<open>y + d \<le> now \<or> d = 0\<close> snoc show ?thesis by (auto simp: sorted_wrt_append)
qed simp

lemma turn_fed: "fed_by envs w \<Longrightarrow> fed_by (envs @ [env]) (feeder_turn env w)"
proof -
  assume w: "fed_by envs w"
  then have more: "fed_by (envs @ [env]) w" by (auto simp: fed_by_def list_all_iff)
  show ?thesis
  proof (cases "wd_sent (feeder_turn env w) = wd_sent w")
    case True
    then have "wd_last_sent (feeder_turn env w) = wd_last_sent w \<and> wd_interval (feeder_turn env w) = wd_interval w"
      by (auto simp: feeder_turn_def ping_def split: option.splits if_splits)
    with True more show ?thesis by (simp add: fed_by_def)
  next
    case False
    then have t: "wd_sent (feeder_turn env w) = wd_sent w @ [wf_time env]" "healthy env"
      "wd_last_sent (feeder_turn env w) = Some (wf_time env)" "wd_interval (feeder_turn env w) = wd_interval w"
      and due: "\<not> (case wd_last_sent w of None \<Rightarrow> False | Some t \<Rightarrow> since (wf_time env) t < wd_interval w)"
      by (auto simp: feeder_turn_def ping_def split: option.splits if_splits)
    have "last (wd_sent w) + wd_interval w \<le> wf_time env \<or> wd_interval w = 0" if "wd_sent w \<noteq> []"
      using due w that by (auto simp: fed_by_def since_def not_less)
    with w t more show ?thesis
      by (simp add: fed_by_def sorted_gap_snoc)
  qed
qed

text \<open>Over any run of the feeder thread every keep-alive was sent at a moment when the fan thread's
  heartbeat was at most 15 s and the main loop's progress at most 300 s old, and two keep-alives are at
  least half the watchdog period apart; and a healthy turn that is due and whose datagram goes out sends
  one.\<close>

theorem watchdog_fed_when_healthy:
  "fed_by envs (fold feeder_turn envs (watchdog_new open_error notify usec))
   \<and> (let w = fold feeder_turn envs (watchdog_new open_error notify usec) in
      wd_sent (feeder_turn env w) = wd_sent w @
        (if healthy env \<and> wd_target w \<noteq> None \<and> wf_send_error env = None
            \<and> (case wd_last_sent w of None \<Rightarrow> True | Some t \<Rightarrow> wd_interval w \<le> since (wf_time env) t)
         then [wf_time env] else []))"
proof -
  have "fed_by [] (watchdog_new open_error notify usec)"
    by (auto simp: fed_by_def watchdog_new_def Let_def split: option.splits)
  then have "fed_by envs (fold feeder_turn envs (watchdog_new open_error notify usec))"
    by (induction envs rule: rev_induct) (simp_all add: turn_fed)
  then show ?thesis
    by (auto simp: Let_def feeder_turn_def ping_def split: option.split)
qed

end
