(* ===== verification/MainLoop.thy ===== *)
theory MainLoop
  imports Protocol Scheduler FrontSpec Socket Wol Buzzer Watchdog
begin

text \<open>
  \<open>src/main.rs\<close>: one pass of the event loop over everything the other theories model, in the order of
  the code, with the effects of \<open>AppState\<close> carried out on the LCD link, the scheduler, the beeper and
  the Wake-on-LAN keeper. What the pass reads from outside is its environment: the clock and the
  local time, the commands the connection threads have sent since the last pass, which threads died or stalled, the fans' health, whether the serial port is readable
  and the devices behind the RTC and the NICs. The bytes of the serial port are the script of \<open>Protocol\<close>'s
  link. The status report is text built from the state and is the function \<open>p_report\<close>. Loading kernel modules
  and logging the board's settings when the driver appears are I/O and left out.
\<close>

section \<open>The daemon\<close>

definition ALERT_BEEP_INTERVAL :: duration where "ALERT_BEEP_INTERVAL = secs 60"
definition LCD_REDRAW_INTERVAL :: duration where "LCD_REDRAW_INTERVAL = secs 60"

definition BOOT_BEEP_WINDOW_SECS :: rat where "BOOT_BEEP_WINDOW_SECS = 300"

record daemon_config =
  dm_app :: app_config
  dm_wol :: wol_config
  dm_power :: "power_rule list"
  dm_sleep :: sleep_config
  dm_buzzer :: buzzer_config

text \<open>\<open>d_rtc\<close> and \<open>d_nics\<close> are the devices; \<open>d_keys\<close> lists the keys handed to \<open>AppState\<close> and \<open>d_ran\<close> the
  actions handed to \<open>systemctl\<close>, in order.\<close>

record ('r, 'n) daemon =
  d_app :: app
  d_lcm :: lcm
  d_power :: scheduler
  d_rtc :: 'r
  d_wol :: keeper
  d_nics :: 'n
  d_buzzer :: buzzer
  d_queue :: "socket_command list"
  d_progress :: progress
  d_last_redraw :: instant
  d_last_alert_beep :: "instant option"
  d_keys :: "key list"
  d_ran :: "action list"
  d_reports :: "string list"
  d_log :: "log_line list"

record ('r, 'n) pass_env =
  p_env :: env
  p_epoch :: int
  p_local :: "int \<Rightarrow> local_time"
  p_rtc_device :: "'r Scheduler.device"
  p_get_wol :: "'n get_wol"
  p_put_wol :: "'n put_wol"
  p_fans_died :: bool
  p_fan_liveness :: fan_liveness
  p_fan_health :: level
  p_cpu :: "(bool \<times> fan_liveness) option"
  p_readable :: bool
  p_report :: "app \<Rightarrow> string"
  p_arrivals :: "socket_command list"

definition p_now :: "('r, 'n) pass_env \<Rightarrow> instant" where
  "p_now p = e_now (p_env p)"

definition daemon_logs :: "log_line list \<Rightarrow> ('r, 'n) daemon \<Rightarrow> ('r, 'n) daemon" where
  "daemon_logs ls d = d\<lparr>d_log := d_log d @ ls\<rparr>"

section \<open>Effects and keys\<close>

definition sync_rtc :: "('r, 'n) pass_env \<Rightarrow> ('r, 'n) daemon \<Rightarrow> ('r, 'n) daemon" where
  "sync_rtc p d =
     (case sync_rtc_with (p_rtc_device p) (p_local p) (p_epoch p) (d_power d, d_rtc d) of
        ((s, r), ls) \<Rightarrow> daemon_logs ls (d\<lparr>d_power := s, d_rtc := r\<rparr>))"

definition apply_effect :: "('r, 'n) pass_env \<Rightarrow> daemon_config \<Rightarrow> effect \<Rightarrow> ('r, 'n) daemon \<Rightarrow> ('r, 'n) daemon" where
  "apply_effect p cfg eff d =
     (let d = d\<lparr>d_lcm := snd (set_display (display_wanted (d_app d)) (d_lcm d))\<rparr> in
      case eff of
        Render line0 line1 \<Rightarrow>
          d\<lparr>d_lcm := snd (set_text 1 line1 0 (snd (set_text 0 line0 0 (d_lcm d))))\<rparr>
      | RunAction action \<Rightarrow>
          (let d = sync_rtc p d; d = d\<lparr>d_buzzer := powering_down (dm_buzzer cfg) (d_buzzer d)\<rparr>
           in d\<lparr>d_ran := d_ran d @ [action]\<rparr>)
      | NoEffect \<Rightarrow> d)"

definition note_mcu_boot :: "frame \<Rightarrow> ('r, 'n) daemon \<Rightarrow> ('r, 'n) daemon" where
  "note_mcu_boot f d =
     (if is_unsolicited f \<and> subcmd f = SUB_VERSION
      then daemon_logs [syslog PNotice ''lcd_rebooted'' [] []]
             (d\<lparr>d_lcm := snd (lcm_init (forget_text (d_lcm d)))\<rparr>)
      else d)"

text \<open>A key is handed to \<open>AppState\<close> and what it answers is carried out.\<close>

definition press :: "('r, 'n) pass_env \<Rightarrow> daemon_config \<Rightarrow> frame \<Rightarrow> ('r, 'n) daemon \<Rightarrow> ('r, 'n) daemon" where
  "press p cfg f d =
     (case frame_key f of
        None \<Rightarrow> d
      | Some key \<Rightarrow>
          (case handle_key (p_env p) key (d_app d) of
             (eff, s) \<Rightarrow> apply_effect p cfg eff (d\<lparr>d_app := s, d_keys := d_keys d @ [key]\<rparr>)))"

definition drain_pending_keys :: "('r, 'n) pass_env \<Rightarrow> daemon_config \<Rightarrow> ('r, 'n) daemon \<Rightarrow> ('r, 'n) daemon" where
  "drain_pending_keys p cfg d =
     (case take_pending (d_lcm d) of
        (frames, l) \<Rightarrow>
          fold (\<lambda>f d. press p cfg f (note_mcu_boot f d)) frames (d\<lparr>d_lcm := l\<rparr>))"

section \<open>One pass\<close>

definition run_command :: "('r, 'n) pass_env \<Rightarrow> daemon_config \<Rightarrow> socket_command \<Rightarrow> ('r, 'n) daemon \<Rightarrow> ('r, 'n) daemon" where
  "run_command p cfg cmd d =
     (case cmd of
        StatusRequest \<Rightarrow> d\<lparr>d_reports := d_reports d @ [p_report p (d_app d)]\<rparr>
      | _ \<Rightarrow>
          let d = (case cmd of
                     Locate None ttl \<Rightarrow> d\<lparr>d_buzzer := find_me (dm_buzzer cfg) (p_now p) (d_buzzer d)\<rparr>
                   | _ \<Rightarrow> d)
          in d\<lparr>d_app := apply_socket_command (p_env p) cmd (d_app d)\<rparr>)"

text \<open>The commands that reached the bounded channel since the last pass: each was offered by
  \<open>try_send\<close>, and one that found the queue full was refused and answered with an error.\<close>

definition arrive :: "('r, 'n) pass_env \<Rightarrow> socket_command list \<Rightarrow> socket_command list" where
  "arrive p q = fold (\<lambda>c q. snd (enqueue True c q)) (p_arrivals p) q"

definition drain_commands :: "('r, 'n) pass_env \<Rightarrow> daemon_config \<Rightarrow> ('r, 'n) daemon \<Rightarrow> ('r, 'n) daemon" where
  "drain_commands p cfg d =
     (case drain (d_queue d) of
        (batch, q) \<Rightarrow> fold (run_command p cfg) batch (d\<lparr>d_queue := q\<rparr>))"

definition apply_sleep :: "('r, 'n) pass_env \<Rightarrow> daemon_config \<Rightarrow> ('r, 'n) daemon \<Rightarrow> ('r, 'n) daemon" where
  "apply_sleep p cfg d =
     (if slp_enabled (dm_sleep cfg)
      then
        let t = p_local p (p_epoch p)
        in d\<lparr>d_app := set_schedule_sleep_wanted (sleep_contains (dm_sleep cfg) (lt_hour t, lt_minute t)) (d_app d)\<rparr>
      else d)"

definition poll_power :: "('r, 'n) pass_env \<Rightarrow> ('r, 'n) daemon \<Rightarrow> ('r, 'n) daemon" where
  "poll_power p d =
     (case poll_with (p_rtc_device p) (p_local p) (p_epoch p) (d_power d, d_rtc d) of
        (due, (s, r), ls) \<Rightarrow>
          let d = daemon_logs ls (d\<lparr>d_power := s, d_rtc := r\<rparr>) in
          (case due of
             None \<Rightarrow> d
           | Some f \<Rightarrow>
               daemon_logs [syslog PWarning ''power_schedule'' [fired_label f, action_label (fired_action f)]
                              [fired_countdown_secs f]]
                 (d\<lparr>d_app := start_countdown (p_env p) (fired_action f) (fired_countdown_secs f)
                              (fired_label f) (d_app d)\<rparr>)))"

datatype guard_error = FansDied | FansStalled | CpuDied | CpuStalled

definition check_guards :: "('r, 'n) pass_env \<Rightarrow> guard_error option" where
  "check_guards p =
     (if p_fans_died p then Some FansDied
      else if is_stalled (p_now p) (p_fan_liveness p) then Some FansStalled
      else
        (case p_cpu p of
           None \<Rightarrow> None
         | Some (died, live) \<Rightarrow>
             if died then Some CpuDied else if is_stalled (p_now p) live then Some CpuStalled else None))"

definition redraw :: "('r, 'n) pass_env \<Rightarrow> ('r, 'n) daemon \<Rightarrow> ('r, 'n) daemon" where
  "redraw p d =
     (if LCD_REDRAW_INTERVAL \<le> since (p_now p) (d_last_redraw d)
      then d\<lparr>d_lcm := forget_text (d_lcm d), d_last_redraw := p_now p\<rparr> else d)"

definition alert_beeps :: "('r, 'n) pass_env \<Rightarrow> daemon_config \<Rightarrow> ('r, 'n) daemon \<Rightarrow> ('r, 'n) daemon" where
  "alert_beeps p cfg d =
     (case take_beep (d_app d) of
        (beep, s) \<Rightarrow>
          let d = d\<lparr>d_app := s\<rparr>;
              sound = d\<lparr>d_buzzer := alert (dm_buzzer cfg) (d_buzzer d), d_last_alert_beep := Some (p_now p)\<rparr>
          in (case beep of
                Some Repeating \<Rightarrow> sound
              | Some Arrival \<Rightarrow>
                  if (case d_last_alert_beep d of None \<Rightarrow> True
                      | Some t \<Rightarrow> ALERT_BEEP_INTERVAL \<le> since (p_now p) t)
                  then sound else d
              | None \<Rightarrow> d))"

definition read_port :: "('r, 'n) pass_env \<Rightarrow> daemon_config \<Rightarrow> ('r, 'n) daemon \<Rightarrow> ('r, 'n) daemon" where
  "read_port p cfg d =
     (if \<not> p_readable p then d
      else
        (case read_frame (millis 50) (d_lcm d) of
           (None, l) \<Rightarrow> d\<lparr>d_lcm := l\<rparr>
         | (Some f, l) \<Rightarrow>
             let l = (if is_unsolicited f then snd (ack (subcmd f) l) else l);
                 d = note_mcu_boot f (d\<lparr>d_lcm := l\<rparr>)
             in (case frame_key f of
                   None \<Rightarrow> d
                 | Some _ \<Rightarrow> drain_pending_keys p cfg (press p cfg f d))))"

text \<open>The part of a pass before the guards are checked, and the rest.\<close>

definition pass_intake :: "('r, 'n) pass_env \<Rightarrow> daemon_config \<Rightarrow> ('r, 'n) daemon \<Rightarrow> ('r, 'n) daemon" where
  "pass_intake p cfg d =
     poll_power p (apply_sleep p cfg (drain_commands p cfg
       (d\<lparr>d_queue := arrive p (d_queue d), d_progress := bump (p_now p) (d_progress d)\<rparr>)))"

definition pass_work :: "('r, 'n) pass_env \<Rightarrow> daemon_config \<Rightarrow> ('r, 'n) daemon \<Rightarrow> ('r, 'n) daemon" where
  "pass_work p cfg d =
     (let d = d\<lparr>d_app := set_fan_health (p_fan_health p) (d_app d)\<rparr>;
          (k, n) = maybe_enforce (p_get_wol p) (p_put_wol p) (p_now p) (d_wol d, d_nics d);
          d = redraw p (d\<lparr>d_wol := k, d_nics := n\<rparr>);
          d = d\<lparr>d_app := snd (check_driver (p_env p) (d_app d))\<rparr>;
          d = d\<lparr>d_progress := bump (p_now p) (d_progress d)\<rparr>;
          (eff, s) = tick (p_env p) (d_app d);
          d = alert_beeps p cfg (d\<lparr>d_app := s\<rparr>);
          d = d\<lparr>d_progress := bump (p_now p) (d_progress d)\<rparr>;
          d = drain_pending_keys p cfg (apply_effect p cfg eff d)
      in read_port p cfg d)"

definition loop_pass ::
  "daemon_config \<Rightarrow> ('r, 'n) pass_env \<Rightarrow> ('r, 'n) daemon \<Rightarrow> guard_error option \<times> ('r, 'n) daemon" where
  "loop_pass cfg p d =
     (let d = pass_intake p cfg d in
      case check_guards p of
        Some e \<Rightarrow> (Some e, d)
      | None \<Rightarrow> (None, pass_work p cfg d))"

text \<open>The loop over the passes until the stop signal (the end of the list) or a guard fails.\<close>

fun event_loop ::
  "daemon_config \<Rightarrow> ('r, 'n) pass_env list \<Rightarrow> ('r, 'n) daemon \<Rightarrow> guard_error option \<times> ('r, 'n) daemon" where
  "event_loop cfg [] d = (None, d)"
| "event_loop cfg (p # ps) d =
     (case loop_pass cfg p d of
        (Some e, d) \<Rightarrow> (Some e, d)
      | (None, d) \<Rightarrow> event_loop cfg ps d)"

text \<open>\<open>run_daemon\<close> after the loop, whatever ended it: WOL and the wake alarm once more.\<close>

definition system_is_stopping :: "string option \<Rightarrow> bool" where
  "system_is_stopping out = (case out of None \<Rightarrow> False | Some s \<Rightarrow> trim s = ''stopping'')"

definition wind_down ::
  "daemon_config \<Rightarrow> bool \<Rightarrow> ('r, 'n) pass_env \<Rightarrow> ('r, 'n) daemon \<Rightarrow> ('r, 'n) daemon" where
  "wind_down cfg system_stopping p d =
     (let d = (if system_stopping then d\<lparr>d_buzzer := powering_down (dm_buzzer cfg) (d_buzzer d)\<rparr> else d);
          (k, n) = enforce (p_get_wol p) (p_put_wol p) (p_now p) (d_wol d, d_nics d)
      in sync_rtc p (d\<lparr>d_wol := k, d_nics := n\<rparr>))"

section \<open>From start to exit\<close>

text \<open>
  \<open>run_daemon\<close> up to the loop: the LCD set up, the boot beep when the box has just come up, the panel
  with its first refresh and its LEDs, Wake-on-LAN and the power schedule. What it reads is the environment
  of a pass, the time since boot and the beeper's environment; the port and the NICs are as they are found.
\<close>

definition daemon_start ::
  "daemon_config \<Rightarrow> rat option \<Rightarrow> beep_env \<Rightarrow> ('r, 'n) pass_env \<Rightarrow> lcm \<Rightarrow> 'r \<Rightarrow> 'n \<Rightarrow> ('r, 'n) daemon" where
  "daemon_start cfg uptime benv p port rtc nics =
     (let now = p_now p;
          b = buzzer_new (bc_enabled (dm_buzzer cfg)) benv;
          b = (case uptime of
                 None \<Rightarrow> b
               | Some up \<Rightarrow> if up < BOOT_BEEP_WINDOW_SECS then boot_finished (dm_buzzer cfg) b else b);
          s = init_leds (p_env p) (refresh_all (p_env p) (app_new (dm_app cfg) now));
          (k, n) = enforce (p_get_wol p) (p_put_wol p) now (keeper_new (dm_wol cfg), nics)
      in \<lparr>d_app = set_fan_health (p_fan_health p) s, d_lcm = snd (lcm_init port),
          d_power = scheduler_new (dm_power cfg), d_rtc = rtc, d_wol = k, d_nics = n, d_buzzer = b,
          d_queue = [], d_progress = bump now (progress_new now), d_last_redraw = now,
          d_last_alert_beep = None, d_keys = [], d_ran = [], d_reports = [], d_log = []\<rparr>)"

end
