(* ===== verification/MainLoopProps.thy ===== *)
theory MainLoopProps
  imports MainLoop FrontProps "HOL-Library.Multiset"
begin

text \<open>
  What the daemon as a whole guarantees: its front panel is a run of \<open>AppState\<close>'s events, so everything
  proved of those runs holds of the daemon; an action needs its confirmation; and a failed guard
  ends the loop before anything else is done.
\<close>

section \<open>The daemon as a run of the front panel\<close>

text \<open>The actions a run of events asks for, and the keys in it.\<close>

fun asked :: "app_op list \<Rightarrow> app \<Rightarrow> action list" where
  "asked [] s = []"
| "asked (op # ops) s =
     (case effect_action (app_effect op s) of None \<Rightarrow> [] | Some a \<Rightarrow> [a]) @ asked ops (app_step op s)"

fun keys_of :: "app_op list \<Rightarrow> key list" where
  "keys_of [] = []"
| "keys_of (OpKey env key # ops) = key # keys_of ops"
| "keys_of (op # ops) = keys_of ops"

lemma asked_append [simp]: "asked (xs @ ys) s = asked xs s @ asked ys (fold app_step xs s)"
  by (induction xs arbitrary: s) simp_all

lemma keys_append [simp]: "keys_of (xs @ ys) = keys_of xs @ keys_of ys"
  by (induction xs rule: keys_of.induct) simp_all

definition acts :: "app_op list \<Rightarrow> ('r, 'n) daemon \<Rightarrow> ('r, 'n) daemon \<Rightarrow> bool" where
  "acts ops d d' \<longleftrightarrow> d_app d' = fold app_step ops (d_app d) \<and> d_ran d' = d_ran d @ asked ops (d_app d)
     \<and> d_keys d' = d_keys d @ keys_of ops \<and> sch_rules (d_power d') = sch_rules (d_power d)
     \<and> (list_ex is_power_off (sch_rules (d_power d)) \<or> \<not> list_ex countdown_start ops)"

lemma acts_trans: "acts xs d d' \<Longrightarrow> acts ys d' d'' \<Longrightarrow> acts (xs @ ys) d d''"
  by (auto simp: acts_def)

text \<open>What leaves the panel, the keys, the actions and the rules alone; and what is one event.\<close>

definition same_front :: "('r, 'n) daemon \<Rightarrow> ('r, 'n) daemon \<Rightarrow> bool" where
  "same_front d d' \<longleftrightarrow> d_app d' = d_app d \<and> d_ran d' = d_ran d \<and> d_keys d' = d_keys d
     \<and> sch_rules (d_power d') = sch_rules (d_power d)"

lemma same_front_acts [simp]: "same_front d d' \<Longrightarrow> acts [] d d'"
  by (simp add: acts_def same_front_def)

lemma same_front_before: "same_front d d' \<Longrightarrow> acts ops d' d'' \<Longrightarrow> acts ops d d''"
  by (simp add: acts_def same_front_def)

lemma same_front_after: "acts ops d d' \<Longrightarrow> same_front d' d'' \<Longrightarrow> acts ops d d''"
  by (simp add: acts_def same_front_def)

lemma one_event:
  "d_app d' = app_step op (d_app d) \<Longrightarrow>
   d_ran d' = d_ran d @ (case effect_action (app_effect op (d_app d)) of None \<Rightarrow> [] | Some a \<Rightarrow> [a]) \<Longrightarrow>
   d_keys d' = d_keys d @ keys_of [op] \<Longrightarrow> sch_rules (d_power d') = sch_rules (d_power d) \<Longrightarrow>
   list_ex is_power_off (sch_rules (d_power d)) \<or> \<not> countdown_start op \<Longrightarrow> acts [op] d d'"
  by (simp add: acts_def)

text \<open>A run of key presses; which keys they were can be read off the daemon.\<close>

definition types :: "('r, 'n) pass_env \<Rightarrow> ('r, 'n) daemon \<Rightarrow> ('r, 'n) daemon \<Rightarrow> bool" where
  "types p d d' \<longleftrightarrow> (\<exists>ks. acts (map (OpKey (p_env p)) ks) d d')"

lemma keys_map [simp]: "keys_of (map (OpKey env) ks) = ks"
  by (induction ks) simp_all

lemma types_acts: "types p d d' \<Longrightarrow> acts (map (OpKey (p_env p)) (drop (length (d_keys d)) (d_keys d'))) d d'"
  by (auto simp: types_def acts_def)

lemma types_refl [simp]: "types p d d"
  unfolding types_def by (rule exI [of _ "[]"]) (simp add: acts_def)

lemma types_trans: "types p d d' \<Longrightarrow> types p d' d'' \<Longrightarrow> types p d d''"
  unfolding types_def by (metis acts_trans map_append)

lemma same_front_types: "same_front d d' \<Longrightarrow> types p d d'"
  unfolding types_def by (rule exI [of _ "[]"]) simp

lemma fold_types: "(\<And>x d. types p d (f x d)) \<Longrightarrow> types p d (fold f xs d)"
proof (induction xs arbitrary: d)
  case (Cons x xs)
  from types_trans [OF Cons.prems Cons.IH [OF Cons.prems]] show ?case by simp
qed simp

lemma daemon_logs_same [simp]:
  "d_app (daemon_logs ls d) = d_app d" "d_ran (daemon_logs ls d) = d_ran d"
  "d_keys (daemon_logs ls d) = d_keys d" "d_power (daemon_logs ls d) = d_power d"
  "d_lcm (daemon_logs ls d) = d_lcm d" "d_wol (daemon_logs ls d) = d_wol d"
  "d_nics (daemon_logs ls d) = d_nics d"
  by (simp_all add: daemon_logs_def)

lemma sync_rtc_front: "same_front d (sync_rtc p d)"
proof -
  obtain sd ls where e: "sync_rtc_with (p_rtc_device p) (p_local p) (p_epoch p) (d_power d, d_rtc d) = (sd, ls)"
    by fastforce
  from sync_rtc_keeps [OF e] show ?thesis
    by (cases sd) (simp add: sync_rtc_def e same_front_def)
qed

lemma effect_front:
  "d_app (apply_effect p cfg eff d) = d_app d"
  "d_ran (apply_effect p cfg eff d) = d_ran d @ (case effect_action eff of None \<Rightarrow> [] | Some a \<Rightarrow> [a])"
  "d_keys (apply_effect p cfg eff d) = d_keys d"
  "sch_rules (d_power (apply_effect p cfg eff d)) = sch_rules (d_power d)"
  using sync_rtc_front [of "d\<lparr>d_lcm := snd (set_display (display_wanted (d_app d)) (d_lcm d))\<rparr>" p]
  by (cases eff; simp add: apply_effect_def same_front_def Let_def)+

lemma boot_front: "same_front d (note_mcu_boot f d)"
  by (simp add: note_mcu_boot_def same_front_def)

lemma press_types: "types p d (press p cfg f d)"
proof (cases "frame_key f")
  case None
  then show ?thesis by (simp add: press_def)
next
  case (Some key)
  have "acts [OpKey (p_env p) key] d (press p cfg f d)"
    by (rule one_event) (simp_all add: press_def Some effect_front case_prod_beta)
  then show ?thesis unfolding types_def by (intro exI [of _ "[key]"]) simp
qed

lemma drain_pending_types: "types p d (drain_pending_keys p cfg d)"
proof -
  obtain frames l where t: "take_pending (d_lcm d) = (frames, l)" by fastforce
  have "types p x (press p cfg f (note_mcu_boot f x))" for f x
    using types_trans [OF same_front_types [OF boot_front] press_types] .
  then have "types p (d\<lparr>d_lcm := l\<rparr>) (drain_pending_keys p cfg d)"
    by (simp add: drain_pending_keys_def t fold_types)
  moreover have "types p d (d\<lparr>d_lcm := l\<rparr>)" by (rule same_front_types) (simp add: same_front_def)
  ultimately show ?thesis using types_trans by blast
qed

section \<open>The events of a pass\<close>

text \<open>
  What a pass feeds the panel, from what the pass reads: the commands taken off the queue (a status
  request is answered and is no event), the sleep window, the countdown of a rule that is due, the
  fans' health, the driver check, the tick and its beep, and the keys it handled.
\<close>

definition taken :: "('r, 'n) pass_env \<Rightarrow> ('r, 'n) daemon \<Rightarrow> socket_command list" where
  "taken p d = fst (drain (arrive p (d_queue d)))"

definition sleep_ops :: "('r, 'n) pass_env \<Rightarrow> daemon_config \<Rightarrow> app_op list" where
  "sleep_ops p cfg =
     (if slp_enabled (dm_sleep cfg)
      then [OpSleepWanted (sleep_contains (dm_sleep cfg)
              (lt_hour (p_local p (p_epoch p)), lt_minute (p_local p (p_epoch p))))] else [])"

definition countdown_ops :: "('r, 'n) pass_env \<Rightarrow> ('r, 'n) daemon \<Rightarrow> app_op list" where
  "countdown_ops p d =
     (case fst (poll_with (p_rtc_device p) (p_local p) (p_epoch p) (d_power d, d_rtc d)) of
        None \<Rightarrow> []
      | Some f \<Rightarrow> [OpCountdown (p_env p) (fired_action f) (fired_countdown_secs f) (fired_label f)])"

definition intake_ops :: "daemon_config \<Rightarrow> ('r, 'n) pass_env \<Rightarrow> ('r, 'n) daemon \<Rightarrow> app_op list" where
  "intake_ops cfg p d =
     map (OpSocket (p_env p)) (filter (\<lambda>c. c \<noteq> StatusRequest) (taken p d)) @ sleep_ops p cfg @ countdown_ops p d"

definition work_ops :: "daemon_config \<Rightarrow> ('r, 'n) pass_env \<Rightarrow> ('r, 'n) daemon \<Rightarrow> app_op list" where
  "work_ops cfg p d =
     [OpFan (p_fan_health p), OpDriver (p_env p), OpTick (p_env p), OpTakeBeep] @
     map (OpKey (p_env p)) (drop (length (d_keys d)) (d_keys (snd (loop_pass cfg p d))))"

fun run_ops :: "daemon_config \<Rightarrow> ('r, 'n) pass_env list \<Rightarrow> ('r, 'n) daemon \<Rightarrow> app_op list" where
  "run_ops cfg [] d = []"
| "run_ops cfg (p # ps) d =
     intake_ops cfg p d @
     (if check_guards p = None then work_ops cfg p d @ run_ops cfg ps (snd (loop_pass cfg p d)) else [])"

lemma command_acts:
  "acts (map (OpSocket (p_env p)) (filter (\<lambda>c. c \<noteq> StatusRequest) [cmd])) d (run_command p cfg cmd d)"
proof (cases "cmd = StatusRequest")
  case True
  then show ?thesis by (simp add: run_command_def same_front_def)
next
  case False
  have "acts [OpSocket (p_env p) cmd] d (run_command p cfg cmd d)"
    by (rule one_event)
      (use False in \<open>simp_all add: run_command_def Let_def split: socket_command.split option.split\<close>)
  with False show ?thesis by simp
qed

lemma commands_acts:
  "acts (map (OpSocket (p_env p)) (filter (\<lambda>c. c \<noteq> StatusRequest) cmds)) d (fold (run_command p cfg) cmds d)"
proof (induction cmds arbitrary: d)
  case (Cons c cmds)
  show ?case using acts_trans [OF command_acts [of p c d cfg] Cons.IH] by (cases "c = StatusRequest") simp_all
qed (simp add: same_front_def)

lemma sleep_acts: "acts (sleep_ops p cfg) d (apply_sleep p cfg d)"
  by (simp add: sleep_ops_def apply_sleep_def Let_def acts_def)

lemma no_off_due: "\<not> list_ex is_power_off rules \<Longrightarrow> due_minutes rules local prev now = []"
proof -
  assume "\<not> list_ex is_power_off rules"
  then have "due_at rules m local is_power_off = []" for m
    by (auto simp: due_at_empty is_due_def list_ex_iff)
  then have "best (due_at rules m local is_power_off) = None" for m
    using best_Some [of "due_at rules m local is_power_off"]
    by (cases "best (due_at rules m local is_power_off)") auto
  then show ?thesis by (simp add: due_minutes_def map_filter_Nil)
qed

text \<open>A countdown starts only with a rule that powers the box off.\<close>

lemma poll_needs_rule:
  "\<not> list_ex is_power_off (sch_rules s) \<Longrightarrow> fst (poll_with D local now (s, d)) = None"
  by (simp add: poll_rules_def no_off_due Let_def split: option.split)

lemma poll_acts: "acts (countdown_ops p d) d (poll_power p d)"
proof -
  obtain due s r ls where t: "poll_with (p_rtc_device p) (p_local p) (p_epoch p) (d_power d, d_rtc d)
      = (due, (s, r), ls)" by (metis prod_cases3 prod.collapse)
  have keeps: "sch_rules s = sch_rules (d_power d)" using poll_with_keeps(1) [OF t] by simp
  show ?thesis
  proof (cases due)
    case None
    with t keeps show ?thesis by (simp add: countdown_ops_def poll_power_def same_front_def Let_def)
  next
    case (Some f)
    have "list_ex is_power_off (sch_rules (d_power d))"
      using poll_needs_rule [of "d_power d" "p_rtc_device p" "p_local p" "p_epoch p" "d_rtc d"] t Some
      by auto
    with t keeps Some show ?thesis by (simp add: acts_def countdown_ops_def poll_power_def Let_def)
  qed
qed

text \<open>The commands and the sleep window leave the scheduler, its device and the link alone.\<close>

lemma command_keeps:
  "d_power (run_command p cfg c d) = d_power d" "d_rtc (run_command p cfg c d) = d_rtc d"
  "d_ran (run_command p cfg c d) = d_ran d" "d_lcm (run_command p cfg c d) = d_lcm d"
  "d_wol (run_command p cfg c d) = d_wol d" "d_nics (run_command p cfg c d) = d_nics d"
  "d_queue (run_command p cfg c d) = d_queue d" "d_keys (run_command p cfg c d) = d_keys d"
  "d_reports (run_command p cfg c d) = d_reports d @ (if c = StatusRequest then [p_report p (d_app d)] else [])"
  by (simp_all add: run_command_def Let_def split: socket_command.split option.split)

lemma commands_keep:
  "d_power (fold (run_command p cfg) cs d) = d_power d" "d_rtc (fold (run_command p cfg) cs d) = d_rtc d"
  "d_ran (fold (run_command p cfg) cs d) = d_ran d" "d_lcm (fold (run_command p cfg) cs d) = d_lcm d"
  "d_wol (fold (run_command p cfg) cs d) = d_wol d" "d_nics (fold (run_command p cfg) cs d) = d_nics d"
  "d_queue (fold (run_command p cfg) cs d) = d_queue d" "d_keys (fold (run_command p cfg) cs d) = d_keys d"
  "length (d_reports (fold (run_command p cfg) cs d)) =
     length (d_reports d) + length (filter (\<lambda>c. c = StatusRequest) cs)"
  by (induction cs arbitrary: d) (simp_all add: command_keeps)

lemma sleep_keeps:
  "d_power (apply_sleep p cfg d) = d_power d" "d_rtc (apply_sleep p cfg d) = d_rtc d"
  "d_ran (apply_sleep p cfg d) = d_ran d" "d_lcm (apply_sleep p cfg d) = d_lcm d"
  "d_wol (apply_sleep p cfg d) = d_wol d" "d_nics (apply_sleep p cfg d) = d_nics d"
  "d_queue (apply_sleep p cfg d) = d_queue d" "d_keys (apply_sleep p cfg d) = d_keys d"
  "d_reports (apply_sleep p cfg d) = d_reports d"
  by (simp_all add: apply_sleep_def Let_def)

lemma poll_power_keeps:
  "d_ran (poll_power p d) = d_ran d" "d_lcm (poll_power p d) = d_lcm d"
  "d_wol (poll_power p d) = d_wol d" "d_nics (poll_power p d) = d_nics d"
  "d_queue (poll_power p d) = d_queue d" "d_keys (poll_power p d) = d_keys d"
  "d_reports (poll_power p d) = d_reports d"
  by (simp_all add: poll_power_def Let_def daemon_logs_def split: prod.split option.split)

lemmas intake_parts = pass_intake_def drain_commands_def Let_def commands_keep sleep_keeps
  poll_power_keeps split_beta

lemma intake_keeps:
  "d_ran (pass_intake p cfg d) = d_ran d" "d_lcm (pass_intake p cfg d) = d_lcm d"
  "d_wol (pass_intake p cfg d) = d_wol d" "d_nics (pass_intake p cfg d) = d_nics d"
  "d_keys (pass_intake p cfg d) = d_keys d"
  "d_queue (pass_intake p cfg d) = snd (drain (arrive p (d_queue d)))"
  "length (d_reports (pass_intake p cfg d)) =
     length (d_reports d) + length (filter (\<lambda>c. c = StatusRequest) (taken p d))"
  by (simp_all add: intake_parts taken_def)

lemma intake_acts: "acts (intake_ops cfg p d) d (pass_intake p cfg d)"
proof -
  let ?d = "d\<lparr>d_progress := bump (p_now p) (d_progress d), d_queue := snd (drain (arrive p (d_queue d)))\<rparr>"
  let ?e = "fold (run_command p cfg) (taken p d) ?d"
  have "same_front d ?d" by (simp add: same_front_def)
  from same_front_before [OF this commands_acts]
  have 1: "acts (map (OpSocket (p_env p)) (filter (\<lambda>c. c \<noteq> StatusRequest) (taken p d))) d ?e" .
  have same: "countdown_ops p (apply_sleep p cfg ?e) = countdown_ops p d"
    by (simp add: countdown_ops_def sleep_keeps commands_keep)
  from acts_trans [OF 1 acts_trans [OF sleep_acts [where p = p and cfg = cfg] poll_acts [where p = p]]] show ?thesis
    by (simp add: same intake_ops_def) (simp add: pass_intake_def drain_commands_def taken_def split_beta)
qed

lemma redraw_front: "same_front d (redraw p d)"
  by (simp add: redraw_def same_front_def)

lemma beeps_front:
  "d_app (alert_beeps p cfg d) = app_step OpTakeBeep (d_app d)" "d_ran (alert_beeps p cfg d) = d_ran d"
  "d_keys (alert_beeps p cfg d) = d_keys d" "d_power (alert_beeps p cfg d) = d_power d"
  by (auto simp: alert_beeps_def Let_def split: prod.split option.split alert_beep.split)

text \<open>The tick: its effect is carried out after the beep it asked for.\<close>

lemma tick_acts:
  assumes "tick (p_env p) (d_app d) = (eff, s)"
  shows "acts [OpTick (p_env p), OpTakeBeep] d (apply_effect p cfg eff ((alert_beeps p cfg (d\<lparr>d_app := s\<rparr>))
      \<lparr>d_progress := bump (p_now p) (d_progress (alert_beeps p cfg (d\<lparr>d_app := s\<rparr>)))\<rparr>))"
  using assms by (simp add: acts_def effect_front beeps_front)

lemma read_types: "types p d (read_port p cfg d)"
proof (cases "p_readable p")
  case True
  obtain got l where t: "read_frame (millis 50) (d_lcm d) = (got, l)" by fastforce
  show ?thesis
  proof (cases got)
    case None
    with True t show ?thesis by (intro same_front_types) (simp add: read_port_def same_front_def)
  next
    case (Some f)
    let ?l = "if is_unsolicited f then snd (ack (subcmd f) l) else l"
    let ?d = "note_mcu_boot f (d\<lparr>d_lcm := ?l\<rparr>)"
    have "types p d (d\<lparr>d_lcm := ?l\<rparr>)" by (rule same_front_types) (simp add: same_front_def)
    then have boot: "types p d ?d" using types_trans [OF _ same_front_types [OF boot_front]] by blast
    have "types p d (drain_pending_keys p cfg (press p cfg f ?d))"
      using types_trans [OF types_trans [OF boot press_types] drain_pending_types] .
    with boot show ?thesis
      by (cases "is_unsolicited f"; cases "frame_key f") (simp_all add: read_port_def True t Some)
  qed
qed (simp add: read_port_def)

text \<open>The stations of the second half of a pass, before the keys are handled.\<close>

definition pass_ticked :: "('r, 'n) pass_env \<Rightarrow> daemon_config \<Rightarrow> ('r, 'n) daemon \<Rightarrow> ('r, 'n) daemon" where
  "pass_ticked p cfg d =
     (let d = d\<lparr>d_app := set_fan_health (p_fan_health p) (d_app d)\<rparr>;
          (k, n) = maybe_enforce (p_get_wol p) (p_put_wol p) (p_now p) (d_wol d, d_nics d);
          d = redraw p (d\<lparr>d_wol := k, d_nics := n\<rparr>);
          d = d\<lparr>d_app := snd (check_driver (p_env p) (d_app d))\<rparr>;
          d = d\<lparr>d_progress := bump (p_now p) (d_progress d)\<rparr>;
          (eff, s) = tick (p_env p) (d_app d);
          d = alert_beeps p cfg (d\<lparr>d_app := s\<rparr>);
          d = d\<lparr>d_progress := bump (p_now p) (d_progress d)\<rparr>
      in apply_effect p cfg eff d)"

lemma work_split: "pass_work p cfg d = read_port p cfg (drain_pending_keys p cfg (pass_ticked p cfg d))"
  by (simp add: pass_work_def pass_ticked_def Let_def split_beta)

lemma ticked_acts:
  "acts [OpFan (p_fan_health p), OpDriver (p_env p), OpTick (p_env p), OpTakeBeep] d (pass_ticked p cfg d)"
proof -
  obtain k n where wol: "maybe_enforce (p_get_wol p) (p_put_wol p) (p_now p) (d_wol d, d_nics d) = (k, n)"
    by fastforce
  define d1 where "d1 = d\<lparr>d_app := set_fan_health (p_fan_health p) (d_app d)\<rparr>"
  define d2 where "d2 = redraw p (d1\<lparr>d_wol := k, d_nics := n\<rparr>)"
  define d3 where "d3 = d2\<lparr>d_app := snd (check_driver (p_env p) (d_app d2))\<rparr>"
  define d4 where "d4 = d3\<lparr>d_progress := bump (p_now p) (d_progress d3)\<rparr>"
  obtain eff s where t: "tick (p_env p) (d_app d4) = (eff, s)" by fastforce
  have 1: "acts [OpFan (p_fan_health p)] d d1" by (rule one_event) (simp_all add: d1_def)
  have 2: "same_front d1 d2" by (simp add: d2_def redraw_def same_front_def)
  have 3: "acts [OpDriver (p_env p)] d2 d3" by (rule one_event) (simp_all add: d3_def)
  have 4: "same_front d3 d4" by (simp add: d4_def same_front_def)
  have "pass_ticked p cfg d = apply_effect p cfg eff ((alert_beeps p cfg (d4\<lparr>d_app := s\<rparr>))
      \<lparr>d_progress := bump (p_now p) (d_progress (alert_beeps p cfg (d4\<lparr>d_app := s\<rparr>)))\<rparr>)"
    using wol t by (simp add: pass_ticked_def d1_def d2_def d3_def d4_def Let_def)
  then show ?thesis
    using acts_trans [OF same_front_after [OF 1 2]
        acts_trans [OF same_front_after [OF 3 4] tick_acts [OF t, of cfg]]] by simp
qed

lemma work_types: "types p (pass_ticked p cfg d) (pass_work p cfg d)"
  unfolding work_split by (rule types_trans [OF drain_pending_types read_types])

lemma ticked_keys: "d_keys (pass_ticked p cfg d) = d_keys d"
  using ticked_acts [of p d cfg] by (simp add: acts_def)

lemma pass_acts:
  "acts (intake_ops cfg p d @ (if check_guards p = None then work_ops cfg p d else [])) d (snd (loop_pass cfg p d))"
proof (cases "check_guards p")
  case None
  let ?i = "pass_intake p cfg d"
  have keys: "d_keys (pass_ticked p cfg ?i) = d_keys d" by (simp add: ticked_keys intake_keeps)
  from acts_trans [OF intake_acts [of cfg p d] acts_trans [OF ticked_acts [of p _ cfg] types_acts [OF work_types]]]
  show ?thesis by (simp add: None loop_pass_def Let_def work_ops_def keys)
qed (use intake_acts [of cfg p d] in \<open>simp add: loop_pass_def Let_def\<close>)

lemma loop_acts: "acts (run_ops cfg ps d) d (snd (event_loop cfg ps d))"
proof (induction ps arbitrary: d)
  case (Cons p ps)
  show ?case
  proof (cases "check_guards p")
    case None
    then have "event_loop cfg (p # ps) d = event_loop cfg ps (snd (loop_pass cfg p d))"
      by (simp add: loop_pass_def Let_def)
    with acts_trans [OF pass_acts Cons.IH, of cfg p d] None show ?thesis by simp
  next
    case (Some e)
    with pass_acts [of cfg p d] show ?thesis by (simp add: loop_pass_def Let_def)
  qed
qed (simp add: same_front_def)

section \<open>What is left to the rest of a pass\<close>

lemma sync_rtc_keeps_loop:
  "d_queue (sync_rtc p d) = d_queue d" "d_reports (sync_rtc p d) = d_reports d" "d_lcm (sync_rtc p d) = d_lcm d"
  by (simp_all add: sync_rtc_def daemon_logs_def split: prod.split)

lemma effect_keeps_loop:
  "d_queue (apply_effect p cfg eff d) = d_queue d" "d_reports (apply_effect p cfg eff d) = d_reports d"
  by (simp_all add: apply_effect_def Let_def sync_rtc_keeps_loop split: effect.split)

lemma press_keeps_loop:
  "d_queue (press p cfg f d) = d_queue d" "d_reports (press p cfg f d) = d_reports d"
  by (simp_all add: press_def effect_keeps_loop split: option.split prod.split)

lemma boot_keeps_loop:
  "d_queue (note_mcu_boot f d) = d_queue d" "d_reports (note_mcu_boot f d) = d_reports d"
  by (simp_all add: note_mcu_boot_def daemon_logs_def)

lemma drain_keeps_loop:
  "d_queue (drain_pending_keys p cfg d) = d_queue d" "d_reports (drain_pending_keys p cfg d) = d_reports d"
proof -
  have "d_queue (fold (\<lambda>f d. press p cfg f (note_mcu_boot f d)) fs x) = d_queue x \<and>
      d_reports (fold (\<lambda>f d. press p cfg f (note_mcu_boot f d)) fs x) = d_reports x" for fs x
    by (induction fs arbitrary: x) (simp_all add: press_keeps_loop boot_keeps_loop)
  then show "d_queue (drain_pending_keys p cfg d) = d_queue d"
    "d_reports (drain_pending_keys p cfg d) = d_reports d"
    by (simp_all add: drain_pending_keys_def split: prod.split)
qed

lemma read_keeps_loop:
  "d_queue (read_port p cfg d) = d_queue d" "d_reports (read_port p cfg d) = d_reports d"
  by (simp_all add: read_port_def Let_def press_keeps_loop boot_keeps_loop drain_keeps_loop
      split: prod.split option.split)

lemma beeps_keep_loop:
  "d_queue (alert_beeps p cfg d) = d_queue d" "d_reports (alert_beeps p cfg d) = d_reports d"
  "d_lcm (alert_beeps p cfg d) = d_lcm d"
  by (simp_all add: alert_beeps_def Let_def split: prod.split option.split alert_beep.split)

lemma work_keeps:
  "d_queue (pass_work p cfg d) = d_queue d" "d_reports (pass_work p cfg d) = d_reports d"
  by (simp_all add: work_split read_keeps_loop drain_keeps_loop pass_ticked_def Let_def split_beta
      effect_keeps_loop beeps_keep_loop redraw_def)

text \<open>The commands the passes take off the queue: in order of arrival, at most
  \<open>MAX_COMMANDS_PER_PASS\<close> a pass, until a guard fails.\<close>

fun served :: "('r, 'n) pass_env list \<Rightarrow> socket_command list \<Rightarrow> socket_command list" where
  "served [] q = []"
| "served (p # ps) q =
     (case drain (arrive p q) of
        (batch, rest) \<Rightarrow> batch @ (if check_guards p = None then served ps rest else []))"

fun sockets_of :: "app_op list \<Rightarrow> socket_command list" where
  "sockets_of [] = []"
| "sockets_of (OpSocket env c # ops) = c # sockets_of ops"
| "sockets_of (op # ops) = sockets_of ops"

lemma sockets_append [simp]: "sockets_of (xs @ ys) = sockets_of xs @ sockets_of ys"
  by (induction xs rule: sockets_of.induct) simp_all

lemma sockets_map [simp]:
  "sockets_of (map (OpSocket env) cs) = cs" "sockets_of (map (OpKey env) ks) = []"
  by (induction cs, simp_all) (induction ks, simp_all)

lemma sockets_other [simp]: "sockets_of (sleep_ops p cfg) = []" "sockets_of (countdown_ops p d) = []"
  by (simp_all add: sleep_ops_def countdown_ops_def split: option.split)

lemma pass_queue:
  "d_queue (snd (loop_pass cfg p d)) = snd (drain (arrive p (d_queue d)))"
  "length (d_reports (snd (loop_pass cfg p d))) =
     length (d_reports d) + length (filter (\<lambda>c. c = StatusRequest) (taken p d))"
  by (simp_all add: loop_pass_def Let_def intake_keeps work_keeps split: option.split)

lemma loop_served:
  "sockets_of (run_ops cfg ps d) = filter (\<lambda>c. c \<noteq> StatusRequest) (served ps (d_queue d)) \<and>
   length (d_reports (snd (event_loop cfg ps d))) =
     length (d_reports d) + length (filter (\<lambda>c. c = StatusRequest) (served ps (d_queue d)))"
proof (induction ps arbitrary: d)
  case (Cons p ps)
  show ?case
  proof (cases "check_guards p")
    case None
    then have "event_loop cfg (p # ps) d = event_loop cfg ps (snd (loop_pass cfg p d))"
      by (simp add: loop_pass_def Let_def)
    with Cons.IH [of "snd (loop_pass cfg p d)"] None show ?thesis
      by (simp add: intake_ops_def work_ops_def pass_queue taken_def split_beta)
  next
    case (Some e)
    then have "event_loop cfg (p # ps) d = (Some e, snd (loop_pass cfg p d))"
      by (simp add: loop_pass_def Let_def)
    with Some show ?thesis by (simp add: intake_ops_def pass_queue taken_def split_beta)
  qed
qed simp

section \<open>Every key heard is handled or waiting\<close>

definition keys_in :: "frame list \<Rightarrow> key list" where
  "keys_in fs = List.map_filter frame_key fs"

lemma keys_in_simps [simp]:
  "keys_in [] = []" "keys_in (f # fs) = (case frame_key f of None \<Rightarrow> [] | Some k \<Rightarrow> [k]) @ keys_in fs"
  "keys_in (fs @ gs) = keys_in fs @ keys_in gs"
  by (simp_all add: keys_in_def List.map_filter_simps map_filter_def split: option.split)

lemma keys_in_unsolicited [simp]: "keys_in (filter is_unsolicited fs) = keys_in fs"
  by (induction fs) (simp_all add: frame_key_def)

text \<open>The books: keys handled, keys queued in the link and keys of the frames in hand are, together,
  the keys of the frames the link has heard.\<close>

definition book :: "frame list \<Rightarrow> ('r, 'n) daemon \<Rightarrow> bool" where
  "book fs d \<longleftrightarrow> mset (d_keys d) + mset (keys_in (lcm_pending (d_lcm d))) + mset (keys_in fs) =
     mset (keys_in (frames_of (lcm_heard (d_lcm d))))"

lemma book_hears:
  "book fs d \<Longrightarrow> d_keys d' = d_keys d \<Longrightarrow> hears (d_lcm d) (d_lcm d') \<Longrightarrow> book fs d'"
  by (auto simp: book_def hears_def ac_simps)

lemma effect_hears: "hears (d_lcm d) (d_lcm (apply_effect p cfg eff d))"
proof -
  let ?l = "snd (set_display (display_wanted (d_app d)) (d_lcm d))"
  have shown: "hears (d_lcm d) ?l" by (rule set_display_hears)
  moreover have "hears (d_lcm d) (snd (set_text 1 b 0 (snd (set_text 0 a 0 ?l))))" for a b
    by (rule hears_trans [OF shown hears_trans [OF set_text_hears set_text_hears]])
  ultimately show ?thesis
    by (cases eff) (simp_all add: apply_effect_def Let_def sync_rtc_keeps_loop)
qed

lemma boot_hears: "hears (d_lcm d) (d_lcm (note_mcu_boot f d))"
  using hears_trans [OF forget_text_hears lcm_init_hears, of "d_lcm d"]
  by (simp add: note_mcu_boot_def)

lemma press_book:
  assumes "book (f # fs) d"
  shows "book fs (press p cfg f d)"
proof (cases "frame_key f")
  case None
  with assms show ?thesis by (simp add: press_def book_def)
next
  case (Some key)
  obtain eff s where k: "handle_key (p_env p) key (d_app d) = (eff, s)" by fastforce
  have "book fs (d\<lparr>d_app := s, d_keys := d_keys d @ [key]\<rparr>)"
    using assms Some by (simp add: book_def ac_simps)
  from book_hears [OF this effect_front(3) effect_hears] show ?thesis
    by (simp add: press_def Some k)
qed

lemma drain_book:
  assumes "book [] d"
  shows "book [] (drain_pending_keys p cfg d)"
proof -
  have one: "book fs (press p cfg f (note_mcu_boot f x))" if "book (f # fs) x" for f fs x
    using press_book [OF book_hears [OF that _ boot_hears]] boot_front [of x f]
    by (simp add: same_front_def)
  have "book [] (fold (\<lambda>f d. press p cfg f (note_mcu_boot f d)) fs x)" if "book fs x" for fs x
    using that by (induction fs arbitrary: x) (auto dest: one)
  moreover have "book (lcm_pending (d_lcm d)) (d\<lparr>d_lcm := (d_lcm d)\<lparr>lcm_pending := []\<rparr>\<rparr>)"
    using assms by (simp add: book_def)
  ultimately show ?thesis by (simp add: drain_pending_keys_def take_pending_def)
qed

lemma read_book:
  assumes "book [] d"
  shows "book [] (read_port p cfg d)"
proof -
  obtain got l where t: "read_frame (millis 50) (d_lcm d) = (got, l)" by fastforce
  show ?thesis
  proof (cases got)
    case None
    with t have "book [] (d\<lparr>d_lcm := l\<rparr>)"
      using book_hears [OF assms, of "d\<lparr>d_lcm := l\<rparr>"] read_frame_hears(1) [OF t] by simp
    with None t assms show ?thesis by (simp add: read_port_def)
  next
    case (Some f)
    let ?l = "if is_unsolicited f then snd (ack (subcmd f) l) else l"
    let ?d = "note_mcu_boot f (d\<lparr>d_lcm := ?l\<rparr>)"
    have "book [f] (d\<lparr>d_lcm := ?l\<rparr>)"
      using assms read_frame_frame [OF t] Some by (simp add: book_def)
    then have "book [f] ?d"
      using boot_front [of "d\<lparr>d_lcm := ?l\<rparr>" f] by (rule_tac book_hears [OF _ _ boot_hears]) (simp_all add: same_front_def)
    moreover from press_book [OF this] have "book [] (press p cfg f ?d)" .
    moreover have "book [] ?d" if "frame_key f = None" using \<open>book [f] ?d\<close> that by (simp add: book_def)
    ultimately show ?thesis using assms Some t
      by (cases "frame_key f") (simp_all add: read_port_def Let_def drain_book)
  qed
qed

lemma redraw_hears: "hears (d_lcm d) (d_lcm (redraw p d))"
  by (simp add: redraw_def forget_text_hears)

lemma ticked_hears: "hears (d_lcm d) (d_lcm (pass_ticked p cfg d))"
  unfolding pass_ticked_def Let_def split_beta
  by (rule hears_trans [OF _ effect_hears]) (simp add: beeps_keep_loop, rule hears_trans [OF _ redraw_hears], simp)

lemma pass_book:
  assumes "book [] d"
  shows "book [] (snd (loop_pass cfg p d))"
proof -
  have i: "book [] (pass_intake p cfg d)"
    by (rule book_hears [OF assms]) (simp_all add: intake_keeps)
  then have "book [] (pass_ticked p cfg (pass_intake p cfg d))"
    by (rule book_hears) (simp_all add: ticked_keys ticked_hears)
  with i show ?thesis by (simp add: loop_pass_def Let_def work_split drain_book read_book split: option.split)
qed

lemma loop_book: "book [] d \<Longrightarrow> book [] (snd (event_loop cfg ps d))"
proof (induction ps arbitrary: d)
  case (Cons p ps)
  with pass_book [of d cfg p] show ?case by (auto split: prod.split option.split)
qed simp

section \<open>What the daemon guarantees\<close>

fun spec_asked :: "app_op list \<Rightarrow> ctl \<Rightarrow> action list" where
  "spec_asked [] c = []"
| "spec_asked (op # ops) c =
     (case spec_action op c of None \<Rightarrow> [] | Some a \<Rightarrow> [a]) @ spec_asked ops (spec_step op c)"

lemma asked_spec: "asked ops s = spec_asked ops (ctl_of s)"
  by (induction ops arbitrary: s) (simp_all add: step_refines)

lemma start_front:
  "d_app (daemon_start cfg up benv p port rtc nics) =
     set_fan_health (p_fan_health p) (init_leds (p_env p) (refresh_all (p_env p) (app_new (dm_app cfg) (p_now p))))"
  "d_ran (daemon_start cfg up benv p port rtc nics) = []"
  "d_keys (daemon_start cfg up benv p port rtc nics) = []"
  "d_power (daemon_start cfg up benv p port rtc nics) = scheduler_new (dm_power cfg)"
  by (simp_all add: daemon_start_def Let_def split_beta)

lemma start_ctl: "ctl_of (d_app (daemon_start cfg up benv p port rtc nics)) = ctl_of (app_new (dm_app cfg) (p_now p))"
  using step_refines(1) [of "OpFan (p_fan_health p)"] step_refines(1) [of "OpRefresh (p_env p)"]
  by (simp add: start_front init_ctl)

lemma start_lit: "lit f (d_app (daemon_start cfg up benv p port rtc nics))"
  using front_lit.step_inv [where i = "OpFan (p_fan_health p)", OF init_lit] by (simp add: start_front)

lemma start_book: "book [] (daemon_start cfg up benv p (with_port rx tx t) rtc nics)"
  using lcm_init_hears [of "with_port rx tx t"]
  by (auto simp: book_def hears_def daemon_start_def Let_def split_beta with_port_def)

lemma start_queue:
  "d_queue (daemon_start cfg up benv p port rtc nics) = []" "d_reports (daemon_start cfg up benv p port rtc nics) = []"
  by (simp_all add: daemon_start_def Let_def split_beta)

text \<open>C5. The daemon is its panel machine, driven by exactly what its passes read. From its start, the
  events a sequence of passes feeds the panel (\<open>run_ops\<close>) are the socket commands taken off the
  queue, the sleep window, the countdown of a schedule rule that is due, the fans' health, the
  driver check, the tick and the keys; and over those events the mode, the messages and the sleep
  of the panel are the run of the abstract machine, and the actions handed to \<open>systemctl\<close> are, in
  order, those it asks for. Every command the connection threads managed to queue is handled, in order,
  sixteen a pass, a status request by one report. Every key of a frame heard on the serial port
  has been handled once or still waits in the link. The status LEDs show the pattern the state asks
  for, whatever the LED files held at the start.\<close>

theorem daemon_refines_panel:
  "let start = daemon_start cfg up benv p (with_port rx tx t) rtc nics;
       d = snd (event_loop cfg ps start); ops = run_ops cfg ps start;
       c = ctl_of (app_new (dm_app cfg) (p_now p)) in
     ctl_of (d_app d) = fold spec_step ops c \<and> d_ran d = spec_asked ops c
     \<and> sockets_of ops = filter (\<lambda>c. c \<noteq> StatusRequest) (served ps [])
     \<and> length (d_reports d) = length (filter (\<lambda>c. c = StatusRequest) (served ps []))
     \<and> keys_of ops = d_keys d
     \<and> mset (d_keys d) + mset (keys_in (lcm_pending (d_lcm d))) =
         mset (keys_in (frames_of (lcm_heard (d_lcm d))))
     \<and> status_shown (files f (d_app d)) = status_table (status_pattern_for (d_app d))"
proof -
  let ?d0 = "daemon_start cfg up benv p (with_port rx tx t) rtc nics"
  define d where "d = snd (event_loop cfg ps ?d0)"
  have acts: "acts (run_ops cfg ps ?d0) ?d0 d" unfolding d_def by (rule loop_acts)
  have "lit f (d_app d)"
    using acts front_lit.run_inv [OF start_lit] by (simp add: acts_def)
  then have leds: "status_shown (files f (d_app d)) = status_table (status_pattern_for (d_app d))"
    by (auto simp: lit_def agrees_def coherent_def)
  have "book [] d" unfolding d_def by (rule loop_book [OF start_book])
  then show ?thesis
    unfolding d_def [symmetric] Let_def using acts leds loop_served [of cfg ps ?d0]
    by (simp add: acts_def run_refines asked_spec start_ctl start_front(2-3) start_queue
        d_def [symmetric] book_def)
qed

text \<open>Every action costs three presses of Enter: two to reach its confirmation and one in it.\<close>

lemma asked_cost:
  "pressed n (c_mode c) \<Longrightarrow> \<not> list_ex countdown_start ops \<Longrightarrow>
     3 * length (spec_asked ops c) \<le> n + length (filter enter_press ops)"
proof (induction ops arbitrary: n c)
  case (Cons op ops)
  show ?case
  proof (cases "spec_action op c")
    case None
    have "pressed (if enter_press op then Suc n else n) (c_mode (spec_step op c))"
      using Cons.prems by (simp add: step_pressed)
    from Cons.IH [OF this] Cons.prems(2) None show ?thesis by (cases "enter_press op") simp_all
  next
    case (Some a)
    then have "enter_press op" "pressed 0 (c_mode (spec_step op c))" "2 \<le> n"
      using Cons.prems by (cases op; auto simp: pressed_def spec_key_def split: mode.splits if_splits)+
    with Cons.IH [of 0 "spec_step op c"] Cons.prems(2) Some show ?thesis by simp
  qed
qed simp

lemma enter_press_key [simp]: "enter_press (OpKey env key) \<longleftrightarrow> key = Enter"
  by (cases key) simp_all

lemma enters_keys: "length (filter enter_press ops) = length (filter (\<lambda>k. k = Enter) (keys_of ops))"
  by (induction ops rule: keys_of.induct) auto

lemma keys_waiting:
  assumes "book [] d"
  shows "length (filter (\<lambda>k. k = Enter) (d_keys d))
     \<le> length (filter (\<lambda>k. k = Enter) (keys_in (frames_of (lcm_heard (d_lcm d)))))"
proof -
  have sizes: "length (filter (\<lambda>k. k = Enter) xs) = size (filter_mset (\<lambda>k. k = Enter) (mset xs))" for xs
    by (metis mset_filter size_mset)
  have "filter_mset (\<lambda>k. k = Enter) (mset (d_keys d)) \<subseteq>#
      filter_mset (\<lambda>k. k = Enter) (mset (keys_in (frames_of (lcm_heard (d_lcm d)))))"
    using assms unfolding book_def by (metis filter_union_mset mset_subset_eq_add_left union_assoc)
  then show ?thesis unfolding sizes by (rule size_mset_mono)
qed

lemma confirmed_run:
  assumes "\<not> list_ex is_power_off (parse_rules (dm_power cfg))"
  shows "3 * length (d_ran (snd (event_loop cfg ps (daemon_start cfg up benv p port rtc nics))))
    \<le> length (filter (\<lambda>k. k = Enter) (d_keys (snd (event_loop cfg ps (daemon_start cfg up benv p port rtc nics)))))"
proof -
  let ?d0 = "daemon_start cfg up benv p port rtc nics" and ?ops = "run_ops cfg ps (daemon_start cfg up benv p port rtc nics)"
  have acts: "acts ?ops ?d0 (snd (event_loop cfg ps ?d0))" by (rule loop_acts)
  then have "\<not> list_ex countdown_start ?ops"
    using assms by (simp add: acts_def start_front scheduler_new_def with_rtc_def)
  moreover have "pressed 0 (c_mode (ctl_of (d_app ?d0)))" by (simp add: start_ctl) (simp add: ctl_of_def app_new_def)
  ultimately have "3 * length (spec_asked ?ops (ctl_of (d_app ?d0))) \<le> 0 + length (filter enter_press ?ops)"
    by (metis asked_cost)
  with acts show ?thesis
    by (simp add: acts_def asked_spec enters_keys start_front(2-3))
qed

text \<open>C7. The daemon never powers the NAS off by itself: with no rule in the configured schedule that
  powers off, it hands an action to \<open>systemctl\<close> at most once for every three presses of Enter the
  panel handled, and it handled no more of them than frames with that key were heard on the serial
  port, whatever commands the socket delivers and whatever the sensors, the alarms and the clock do.\<close>

theorem daemon_actions_confirmed:
  assumes "\<not> list_ex is_power_off (parse_rules (dm_power cfg))"
  shows "let d = snd (event_loop cfg ps (daemon_start cfg up benv p (with_port rx tx t) rtc nics))
     in 3 * length (d_ran d) \<le> length (filter (\<lambda>k. k = Enter) (d_keys d))
      \<and> length (filter (\<lambda>k. k = Enter) (d_keys d))
        \<le> length (filter (\<lambda>k. k = Enter) (keys_in (frames_of (lcm_heard (d_lcm d)))))"
  unfolding Let_def by (intro conjI confirmed_run [OF assms] keys_waiting loop_book start_book)

text \<open>A configuration, a port and an environment in which nothing happens, for concrete runs.\<close>

definition idle_config :: daemon_config where
  "idle_config = \<lparr>dm_app = app_config_default, dm_wol = \<lparr>wc_nics = [], wc_mode = ''g''\<rparr>, dm_power = [],
     dm_sleep = \<lparr>slp_enabled = False, slp_start = [], slp_end = [], slp_lcd_off = False\<rparr>, dm_buzzer = buzzer_config_default\<rparr>"

definition idle_env :: "bool \<Rightarrow> (unit, unit) pass_env" where
  "idle_env died =
     \<lparr>p_env = quiet_env 0, p_epoch = 0, p_local = fixed_zone 0, p_rtc_device = null_device,
      p_get_wol = (\<lambda>_ _. Inl ''no such device''), p_put_wol = (\<lambda>_ _ n. (Some ''no such device'', n)),
      p_fans_died = died, p_fan_liveness = \<lparr>lv_heartbeat_ms = 0, lv_epoch = 0\<rparr>, p_fan_health = Info, p_cpu = None,
      p_readable = False, p_report = (\<lambda>_. []), p_arrivals = []\<rparr>"

definition idle_beeps :: beep_env where
  "idle_beeps = \<lparr>be_gate = GateMissing, be_input_devices = None, be_class = None, be_open_error = None,
     be_tone_on = Inl [], be_tone_off = Inl []\<rparr>"

text \<open>A run in which an action is confirmed: three presses of Enter come in while the LCD is being
  set up, and the first pass handles them.\<close>

definition enter_port :: lcm where
  "enter_port = with_port (concat (replicate 3 (map (got (millis 1)) (encode OP_COMMAND SUB_KEY [4])))) [] 0"

definition enter_start :: "(unit, unit) daemon" where
  "enter_start = daemon_start idle_config None idle_beeps (idle_env False) enter_port () ()"

lemma key_bytes: "encode OP_COMMAND SUB_KEY [4] = [0xF0, 1, 0x80, 4, 0x75]"
  by (simp add: encode_def Let_def checksum_def frame_size_defs opcode_defs)

lemma key_read:
  assumes "lcm_rx l = map (got s) [0xF0, 1, 0x80, 4, 0x75] @ rest" and "n = max (lcm_clock l) s" and "n < dl"
  shows "read_frame (since dl (lcm_clock l)) l = (Some (key_frame 4),
    l\<lparr>lcm_rx := rest, lcm_clock := n, last_rx := Some n,
      lcm_heard := lcm_heard l @ [(lcm_clock l, key_frame 4, n)]\<rparr>)"
proof -
  have n: "lcm_clock l \<le> n" "lcm_clock l < dl" "max n s = n" "n - lcm_clock l < dl - lcm_clock l"
    using assms(2,3) by (auto intro: diff_less_mono)
  have "read_loop (dl - lcm_clock l) (lcm_clock l) (lcm_rx l) [] (lcm_clock l) (last_rx l) =
      ([0xF0, 1, 0x80, 4, 0x75], rest, n, Some n)"
    using n assms(2) by (simp add: assms(1) got_def since_def frame_complete_def opcode_defs frame_size_defs Let_def)
  then show ?thesis
    by (simp add: read_frame_def since_def Let_def decode_def checksum_def key_frame_def opcode_defs)
qed

lemma key_waited:
  assumes "lcm_rx l = map (got (millis 1)) (encode OP_COMMAND SUB_KEY [4]) @ rest" "lcm_tx l = []"
    and "max (lcm_clock l) (millis 1) < dl"
  shows "\<exists>l'. ack_step SUB_DISPLAY dl e l = Inr l' \<and> lcm_rx l' = rest \<and> lcm_tx l' = [] \<and>
    lcm_clock l' = max (lcm_clock l) (millis 1) + SETTLE \<and> lcm_pending l' = lcm_pending l @ [key_frame 4]"
  using key_read [OF assms(1) [unfolded key_bytes] refl assms(3)] assms(2,3)
  by (auto simp: ack_step_def Let_def ack_def send_open_port settle_wait_def key_frame_def since_def
      is_unsolicited_def opcode_defs)

lemma hears_silent: "hears l l' \<Longrightarrow> lcm_rx l = [] \<Longrightarrow> lcm_rx l' = [] \<and> lcm_pending l' = lcm_pending l"
  by (auto simp: hears_def)

lemma enter_init:
  "lcm_rx (snd (lcm_init enter_port)) = [] \<and>
   lcm_pending (snd (lcm_init enter_port)) = [key_frame 4, key_frame 4, key_frame 4]"
proof -
  let ?e = "wire_time 5 + wire_time 5" and ?key = "map (got (millis 1)) (encode OP_COMMAND SUB_KEY [4])"
  have port: "lcm_tx enter_port = []" "lcm_pending enter_port = []" "lcm_clock enter_port = 0"
    "lcm_rx enter_port = ?key @ ?key @ ?key @ []" "last_rx enter_port = None"
    by (simp_all add: enter_port_def with_port_def numeral_3_eq_3)
  obtain l1 where l1: "send OP_COMMAND SUB_DISPLAY [1] enter_port = (Inr (), l1)" "lcm_tx l1 = []"
    "lcm_pending l1 = []" "lcm_clock l1 = 0" "lcm_rx l1 = ?key @ ?key @ ?key @ []"
    using port by (simp add: send_open_port settle_wait_def)
  obtain l2 where l2: "ack_step SUB_DISPLAY ACK_TIMEOUT ?e l1 = Inr l2" "lcm_rx l2 = ?key @ ?key @ []"
    "lcm_tx l2 = []" "lcm_clock l2 = millis 21" "lcm_pending l2 = [key_frame 4]"
    using key_waited [OF l1(5,2), of ACK_TIMEOUT ?e] l1 by (auto simp: ACK_TIMEOUT_def SETTLE_def millis_def)
  obtain l3 where l3: "ack_step SUB_DISPLAY ACK_TIMEOUT ?e l2 = Inr l3" "lcm_rx l3 = ?key @ []"
    "lcm_tx l3 = []" "lcm_clock l3 = millis 41" "lcm_pending l3 = [key_frame 4, key_frame 4]"
    using key_waited [OF l2(2,3), of ACK_TIMEOUT ?e] l2 by (auto simp: ACK_TIMEOUT_def SETTLE_def millis_def)
  obtain l4 where l4: "ack_step SUB_DISPLAY ACK_TIMEOUT ?e l3 = Inr l4" "lcm_rx l4 = []"
    "lcm_pending l4 = [key_frame 4, key_frame 4, key_frame 4]"
    using key_waited [OF l3(2,3), of ACK_TIMEOUT ?e] l3 by (auto simp: ACK_TIMEOUT_def SETTLE_def millis_def)
  have loop: "ack_loop SUB_DISPLAY ACK_TIMEOUT ?e l1 = ack_loop SUB_DISPLAY ACK_TIMEOUT ?e l4"
    using l2(1) l3(1) l4(1) by (simp add: ack_loop.simps [of _ _ _ l1] ack_loop.simps [of _ _ _ l2] ack_loop.simps [of _ _ _ l3])
  obtain b l5 where l5: "ack_loop SUB_DISPLAY ACK_TIMEOUT ?e l4 = (b, l5)" by fastforce
  with ack_loop_hears [of l4 SUB_DISPLAY ACK_TIMEOUT ?e] have h5: "hears l4 l5" by simp
  have first: "send_and_ack OP_COMMAND SUB_DISPLAY [1] ACK_TIMEOUT enter_port = (Inr b, l5)"
    using l1(1,4) loop l5 by (simp add: send_and_ack_def)
  let ?l = "l5\<lparr>display_on := if b then Some True else None\<rparr>"
  obtain r l6 where l6: "send_and_ack OP_COMMAND SUB_INIT_2 [0] ACK_TIMEOUT ?l = (r, l6)" by fastforce
  have "hears l5 ?l" by (rule hears_same) simp_all
  from hears_trans [OF hears_trans [OF h5 this] send_and_ack_hears [OF l6]] have "hears l4 l6" .
  moreover have "snd (lcm_init enter_port) = l6"
    using first l6 by (simp add: lcm_init_def Let_def split: sum.split)
  ultimately show ?thesis using hears_silent [OF _ l4(2)] l4(3) by simp
qed

lemma drained_keys: "d_keys (drain_pending_keys p cfg d) = d_keys d @ keys_in (lcm_pending (d_lcm d))"
proof -
  have "d_keys (press p cfg f (note_mcu_boot f x)) =
      d_keys x @ (case frame_key f of None \<Rightarrow> [] | Some k \<Rightarrow> [k])" for f x
    using boot_front [of x f]
    by (simp add: press_def same_front_def effect_front split: option.split prod.split)
  then have "d_keys (fold (\<lambda>f d. press p cfg f (note_mcu_boot f d)) fs x) = d_keys x @ keys_in fs" for fs x
    by (induction fs arbitrary: x) simp_all
  then show ?thesis by (simp add: drain_pending_keys_def take_pending_def)
qed

lemma enter_guards: "check_guards (idle_env False) = None" "check_guards (idle_env True) = Some FansDied"
  by (simp_all add: check_guards_def idle_env_def is_stalled_def liveness_age_def since_def p_now_def
      FAN_HEARTBEAT_TIMEOUT_def millis_def secs_def quiet_env_def)

lemma enter_lcm: "d_lcm enter_start = snd (lcm_init enter_port)" "d_keys enter_start = []"
  "d_queue enter_start = []" "d_power enter_start = scheduler_new []"
  by (simp_all add: enter_start_def daemon_start_def Let_def split_beta idle_config_def)

lemma enter_keys: "d_keys (snd (loop_pass idle_config (idle_env False) enter_start)) = [Enter, Enter, Enter]"
proof -
  let ?p = "idle_env False" and ?i = "pass_intake (idle_env False) idle_config enter_start"
  have "hears (d_lcm ?i) (d_lcm (pass_ticked ?p idle_config ?i))" by (rule ticked_hears)
  then have "lcm_pending (d_lcm (pass_ticked ?p idle_config ?i)) = [key_frame 4, key_frame 4, key_frame 4]"
    using hears_silent enter_init by (simp add: intake_keeps enter_lcm)
  then show ?thesis
    by (simp add: loop_pass_def Let_def enter_guards work_split read_port_def drained_keys ticked_keys
        intake_keeps enter_lcm frame_key_def key_frame_def is_unsolicited_def key_from_def)
      (simp add: idle_env_def)
qed

lemma enter_ran: "d_ran (snd (event_loop idle_config [idle_env False] enter_start)) = [Shutdown]"
proof -
  let ?p = "idle_env False"
  have "acts (run_ops idle_config [?p] enter_start) enter_start (snd (event_loop idle_config [?p] enter_start))"
    by (rule loop_acts)
  moreover have "intake_ops idle_config ?p enter_start = []"
    using poll_needs_rule [of "scheduler_new []"]
    by (simp add: intake_ops_def taken_def drain_def arrive_def enter_lcm sleep_ops_def countdown_ops_def
        idle_config_def scheduler_new_def with_rtc_def parse_rules_def List.map_filter_simps)
      (simp add: idle_env_def)
  moreover have "d_ran enter_start = []"
    by (simp add: enter_start_def start_front)
  moreover have "ctl_of (d_app enter_start) = ctl_of (app_new app_config_default 0)"
    unfolding enter_start_def start_ctl by (simp add: idle_config_def p_now_def idle_env_def quiet_env_def)
  ultimately have "d_ran (snd (event_loop idle_config [?p] enter_start)) =
      spec_asked (work_ops idle_config ?p enter_start) (ctl_of (app_new app_config_default 0))"
    by (simp add: acts_def asked_spec enter_guards)
  also have "\<dots> = [Shutdown]"
    by (simp add: work_ops_def enter_keys enter_lcm ctl_of_def app_new_def spec_tick_def spec_sleep_def
        spec_expire_def spec_drop_def spec_unconfirm_def spec_key_def spec_home_def Let_def)
  finally show ?thesis .
qed

theorem daemon_actions_confirmed_witness:
  "let d = snd (event_loop idle_config [idle_env False] enter_start)
   in d_ran d = [Shutdown] \<and> d_keys d = [Enter, Enter, Enter] \<and>
     3 * length (d_ran d) \<le> length (filter (\<lambda>k. k = Enter) (d_keys d)) \<and>
     length (filter (\<lambda>k. k = Enter) (d_keys d))
       \<le> length (filter (\<lambda>k. k = Enter) (keys_in (frames_of (lcm_heard (d_lcm d)))))"
proof -
  have "\<not> list_ex is_power_off (parse_rules (dm_power idle_config))"
    by (simp add: idle_config_def parse_rules_def List.map_filter_simps)
  from daemon_actions_confirmed [OF this, where ps = "[idle_env False]" and up = None and benv = idle_beeps
      and p = "idle_env False" and tx = "[]" and t = 0 and rtc = "()" and nics = "()"
      and rx = "concat (replicate 3 (map (got (millis 1)) (encode OP_COMMAND SUB_KEY [4])))"]
  show ?thesis
    using enter_ran enter_keys unfolding enter_start_def enter_port_def
    by (simp add: Let_def enter_guards loop_pass_def del: replicate.simps)
qed

section \<open>Guards\<close>

lemma loop_append:
  "list_all (\<lambda>p. check_guards p = None) qs \<Longrightarrow>
     event_loop cfg (qs @ ps) d = event_loop cfg ps (snd (event_loop cfg qs d))
     \<and> fst (event_loop cfg qs d) = None"
  by (induction qs arbitrary: d) (simp_all add: loop_pass_def Let_def)

text \<open>C10. A daemon that can no longer trust its fan or CPU power thread stops at once: the first pass that
  finds one dead or without a heartbeat in time ends the loop with that error, after the commands
  and the schedule were read and before anything else: nothing is powered off, no byte is sent to
  the LCD and Wake-on-LAN is left alone in that pass, and no later pass happens. As long as every
  guard holds, the loop goes on.\<close>

theorem guard_failure_stops:
  assumes "list_all (\<lambda>q. check_guards q = None) qs"
  shows "fst (event_loop cfg qs d) = None
    \<and> (let before = snd (event_loop cfg qs d); (e, d') = event_loop cfg (qs @ p # ps) d in
       p_fans_died p \<or> FAN_HEARTBEAT_TIMEOUT < liveness_age (p_now p) (p_fan_liveness p)
       \<or> (case p_cpu p of None \<Rightarrow> False
           | Some (died, live) \<Rightarrow> died \<or> FAN_HEARTBEAT_TIMEOUT < liveness_age (p_now p) live)
       \<longrightarrow> e = check_guards p \<and> e \<noteq> None \<and> d' = pass_intake p cfg before
         \<and> d_ran d' = d_ran before \<and> d_lcm d' = d_lcm before \<and> d_wol d' = d_wol before
         \<and> d_nics d' = d_nics before)"
proof -
  let ?before = "snd (event_loop cfg qs d)"
  show ?thesis
  proof (cases "check_guards p")
    case None
    then show ?thesis
      using loop_append [OF assms, where d = d and cfg = cfg]
      by (auto simp: check_guards_def is_stalled_def split: option.splits if_splits prod.splits)
  next
    case (Some e)
    then have "event_loop cfg (p # ps) ?before = (Some e, pass_intake p cfg ?before)"
      by (simp add: loop_pass_def Let_def)
    then show ?thesis
      using loop_append [OF assms, where d = d and cfg = cfg] Some by (simp add: intake_keeps)
  qed
qed

theorem guard_failure_stops_witness:
  "fst (event_loop idle_config [idle_env False, idle_env True]
     (daemon_start idle_config None idle_beeps (idle_env False) (with_port [] [] 0) () ())) = Some FansDied"
proof -
  have died: "p_fans_died (idle_env True)" by (simp add: idle_env_def)
  have "list_all (\<lambda>q. check_guards q = None) [idle_env False]" by (simp add: enter_guards)
  from guard_failure_stops [OF this, where p = "idle_env True" and ps = "[]"] enter_guards died
  show ?thesis by (simp add: Let_def split_beta)
qed

end
