(* ===== verification/Cli.thy ===== *)
theory Cli
  imports Socket
begin

text \<open>
  The command line of \<open>src/main.rs\<close>: \<open>parse_args\<close> with every subcommand and its arguments, and what the
  client makes of a reply. The text of an error message is a constructor with its arguments.
\<close>

section \<open>Command lines\<close>

definition DEFAULT_CONFIG_PATH :: string where
  "DEFAULT_CONFIG_PATH = ''/etc/lcm-status.toml''"

datatype cli =
  CliDaemon string
| CliStatus string
| CliLocate string "nat option" "nat option" bool
| CheckConfig string
| HalTest string
| FanProfile string bool
| FanFailsafe string
| Probe string
| Help

datatype cli_error =
  UnknownCommand string
| UnexpectedArguments "string list"
| TtlMissing
| TtlNotANumber string
| BaysFromOne
| TtlWithOff

definition config_arg :: "string list \<Rightarrow> cli_error + string" where
  "config_arg args =
     (case args of
        [] \<Rightarrow> Inr DEFAULT_CONFIG_PATH
      | [path] \<Rightarrow> if path \<noteq> [] \<and> hd path = CHR ''-'' then Inl (UnexpectedArguments args) else Inr path
      | _ \<Rightarrow> Inl (UnexpectedArguments args))"

text \<open>The loop over the arguments: bay, TTL, \<open>--off\<close> and the positional arguments so far.\<close>

fun locate_args ::
  "nat option \<times> nat option \<times> bool \<times> string list \<Rightarrow> string list
     \<Rightarrow> cli_error + nat option \<times> nat option \<times> bool \<times> string list" where
  "locate_args st [] = Inr st"
| "locate_args (bay, ttl, off, positional) (arg # args) =
     (if arg = ''--off'' then locate_args (bay, ttl, True, positional) args
      else if arg = ''--ttl''
      then
        (case args of
           [] \<Rightarrow> Inl TtlMissing
         | value # args' \<Rightarrow>
             (case parse_uint (2 ^ 64) value of
                None \<Rightarrow> Inl (TtlNotANumber value)
              | Some t \<Rightarrow> locate_args (bay, Some t, off, positional) args'))
      else if bay = None
      then
        (case parse_uint (2 ^ 32) arg of
           None \<Rightarrow> locate_args (bay, ttl, off, positional @ [arg]) args
         | Some b \<Rightarrow> if 0 < b then locate_args (Some b, ttl, off, positional) args else Inl BaysFromOne)
      else locate_args (bay, ttl, off, positional @ [arg]) args)"

definition parse_locate_args :: "string list \<Rightarrow> cli_error + cli" where
  "parse_locate_args args =
     (case locate_args (None, None, False, []) args of
        Inl e \<Rightarrow> Inl e
      | Inr (bay, ttl, off, positional) \<Rightarrow>
          if off \<and> ttl \<noteq> None then Inl TtlWithOff
          else
            (case config_arg positional of
               Inl e \<Rightarrow> Inl e
             | Inr config \<Rightarrow> Inr (CliLocate config bay ttl off)))"

text \<open>\<open>Path::extension\<close> of a path without a separator: what follows its last dot, unless that is its
  first character or the name is \<open>..\<close>.\<close>

definition extension :: "string \<Rightarrow> string option" where
  "extension path =
     (let ext = rev (takeWhile (\<lambda>c. c \<noteq> CHR ''.'') (rev path))
      in if CHR ''.'' \<notin> set path \<or> path = ''..'' \<or> length path = length ext + 1 then None else Some ext)"

definition looks_like_path :: "string \<Rightarrow> bool" where
  "looks_like_path path \<longleftrightarrow> CHR ''/'' \<in> set path
     \<or> (case extension path of None \<Rightarrow> False | Some e \<Rightarrow> eq_ignore_ascii_case e ''toml'')"

definition is_yes :: "string \<Rightarrow> bool" where
  "is_yes a \<longleftrightarrow> a = ''-y'' \<or> a = ''--yes''"

definition with_config :: "(string \<Rightarrow> cli) \<Rightarrow> string list \<Rightarrow> cli_error + cli" where
  "with_config build args = (case config_arg args of Inl e \<Rightarrow> Inl e | Inr path \<Rightarrow> Inr (build path))"

definition parse_args :: "string list \<Rightarrow> cli_error + cli" where
  "parse_args argv =
     (case drop 1 argv of
        [] \<Rightarrow> with_config CliDaemon []
      | cmd # tail \<Rightarrow>
          if cmd = ''daemon'' then with_config CliDaemon tail
          else if cmd = ''status'' then with_config CliStatus tail
          else if cmd = ''locate'' then parse_locate_args tail
          else if cmd = ''check-config'' then with_config CheckConfig tail
          else if cmd = ''hal-test'' then with_config HalTest tail
          else if cmd = ''fan-profile''
          then with_config (\<lambda>path. FanProfile path (list_ex is_yes tail)) (filter (\<lambda>a. \<not> is_yes a) tail)
          else if cmd = ''fan-failsafe'' then with_config FanFailsafe tail
          else if cmd \<in> {''init'', ''settext'', ''listen''} then Inr (Probe cmd)
          else if cmd \<in> {''help'', ''-h'', ''--help''} then Inr Help
          else if tail = [] \<and> looks_like_path cmd then Inr (CliDaemon cmd)
          else Inl (UnknownCommand cmd))"

section \<open>The client\<close>

definition classify_reply :: "string \<Rightarrow> string + string" where
  "classify_reply reply =
     (let line = trim_end reply
      in if line = ''ERR'' \<or> strip_prefix ''ERR '' line \<noteq> None then Inl line else Inr reply)"

definition listen_deadline :: "instant \<Rightarrow> nat \<Rightarrow> nat + instant" where
  "listen_deadline now n = (case checked_add now (secs n) of None \<Rightarrow> Inl n | Some t \<Rightarrow> Inr t)"

section \<open>What the command line does\<close>

lemma with_config_other:
  "(\<And>p. build p \<noteq> cmd) \<Longrightarrow> with_config build args \<noteq> Inr cmd"
  by (simp add: with_config_def split: sum.split)

lemma with_config_daemon:
  "with_config CliDaemon args = Inr (CliDaemon path) \<Longrightarrow>
     args = [] \<and> path = DEFAULT_CONFIG_PATH \<or> args = [path] \<and> (path = [] \<or> hd path \<noteq> CHR ''-'')"
  by (auto simp: with_config_def config_arg_def split: sum.splits list.splits if_splits)

lemma locate_not_daemon: "parse_locate_args args \<noteq> Inr (CliDaemon path)"
  by (auto simp: parse_locate_args_def split: sum.splits prod.splits)

lemma daemon_command:
  "parse_args (prog # cmd # tail) = Inr (CliDaemon path) \<Longrightarrow>
     cmd = ''daemon'' \<and> with_config CliDaemon tail = Inr (CliDaemon path)
     \<or> tail = [] \<and> cmd = path \<and> looks_like_path path"
  unfolding parse_args_def drop_Suc_Cons drop_0 One_nat_def list.case
  by (simp add: with_config_other locate_not_daemon split: if_split_asm)

text \<open>No mistyped command becomes a daemon (which would take the running one's socket away). A
  command line starts a daemon only when it has no arguments, when it says \<open>daemon\<close> with at most a
  config path, or when it is a single argument that looks like a path; and a lone word that is no
  command and holds neither a slash nor a dot is refused by name.\<close>

theorem daemon_only_when_meant:
  "(parse_args (prog # args) = Inr (CliDaemon path) \<longrightarrow>
      args = [] \<and> path = DEFAULT_CONFIG_PATH
      \<or> args = [''daemon''] \<and> path = DEFAULT_CONFIG_PATH
      \<or> args = [''daemon'', path] \<and> (path = [] \<or> hd path \<noteq> CHR ''-'')
      \<or> args = [path] \<and> looks_like_path path)
   \<and> (CHR ''/'' \<notin> set word \<and> CHR ''.'' \<notin> set word
      \<and> word \<notin> {''daemon'', ''status'', ''locate'', ''check-config'', ''hal-test'', ''fan-profile'',
                ''fan-failsafe'', ''init'', ''settext'', ''listen'', ''help'', ''-h'', ''--help''}
      \<longrightarrow> parse_args [prog, word] = Inl (UnknownCommand word))"
proof -
  have daemon: "args = [] \<and> path = DEFAULT_CONFIG_PATH \<or> args = [''daemon''] \<and> path = DEFAULT_CONFIG_PATH
      \<or> args = [''daemon'', path] \<and> (path = [] \<or> hd path \<noteq> CHR ''-'') \<or> args = [path] \<and> looks_like_path path"
    if daemon: "parse_args (prog # args) = Inr (CliDaemon path)"
  proof (cases args)
    case Nil
    with daemon with_config_daemon [of "[]" path] show ?thesis by (simp add: parse_args_def)
  next
    case (Cons cmd tail)
    from daemon_command [OF daemon [unfolded Cons]] show ?thesis
    proof
      assume "cmd = ''daemon'' \<and> with_config CliDaemon tail = Inr (CliDaemon path)"
      then show ?thesis using with_config_daemon [of tail path] Cons by metis
    qed (simp add: Cons)
  qed
  have "\<not> looks_like_path word" if "CHR ''/'' \<notin> set word" "CHR ''.'' \<notin> set word"
    using that by (simp add: looks_like_path_def extension_def Let_def)
  then have "parse_args [prog, word] = Inl (UnknownCommand word)"
    if "CHR ''/'' \<notin> set word" "CHR ''.'' \<notin> set word"
      "word \<notin> {''daemon'', ''status'', ''locate'', ''check-config'', ''hal-test'', ''fan-profile'',
                ''fan-failsafe'', ''init'', ''settext'', ''listen'', ''help'', ''-h'', ''--help''}"
    using that by (simp add: parse_args_def)
  with daemon show ?thesis by (intro conjI impI) (assumption | elim conjE)+
qed

theorem daemon_only_when_meant_witness:
  "parse_args [''lcm-status'', ''stauts''] = Inl (UnknownCommand ''stauts'')"
  by (rule daemon_only_when_meant [THEN conjunct2, THEN mp]) simp

text \<open>The client accepts only what the daemon understands.\<close>

definition locate_ok :: "nat option \<Rightarrow> nat option \<Rightarrow> bool" where
  "locate_ok bay ttl \<longleftrightarrow> bay_ok bay \<and> (case ttl of None \<Rightarrow> True | Some t \<Rightarrow> t < 2 ^ 64)"

lemma locate_ok_bay: "locate_ok bay ttl \<Longrightarrow> parse_uint (2 ^ 32) arg = Some b \<Longrightarrow> 0 < b \<Longrightarrow> locate_ok (Some b) ttl"
  by (auto simp: locate_ok_def bay_ok_def dest: parse_uint_bound)

lemma locate_ok_ttl: "locate_ok bay ttl \<Longrightarrow> parse_uint (2 ^ 64) arg = Some t \<Longrightarrow> locate_ok bay (Some t)"
  by (auto simp: locate_ok_def dest: parse_uint_bound)

lemma locate_args_ok:
  "locate_args (bay, ttl, off, pos) args = Inr (bay', ttl', off', pos') \<Longrightarrow>
     locate_ok bay ttl \<Longrightarrow> locate_ok bay' ttl'"
proof (induction "(bay, ttl, off, pos)" args arbitrary: bay ttl off pos rule: locate_args.induct)
  case (2 bay ttl off pos arg args)
  show ?case
  proof (cases "arg = ''--off''")
    case True
    with 2 show ?thesis by simp
  next
    case off: False
    show ?thesis
    proof (cases "arg = ''--ttl''")
      case True
      with 2 off show ?thesis by (auto dest: locate_ok_ttl split: list.splits option.splits)
    next
      case False
      show ?thesis
      proof (cases "bay = None \<and> parse_uint (2 ^ 32) arg \<noteq> None")
        case True
        with 2 off False show ?thesis by (auto dest: locate_ok_bay split: if_splits)
      next
        case other: False
        with 2 off False show ?thesis by (cases bay) auto
      qed
    qed
  qed
qed simp

text \<open>Whatever \<open>locate\<close> command line the client accepts, with the flags in any order, the request it
  sends is one the daemon parses, into exactly that command: the bay, the given time or the
  default one, or the end of the blinking.\<close>

theorem client_locate_understood:
  assumes "parse_args (prog # ''locate'' # args) = Inr (CliLocate config bay ttl off)"
  shows "parse_message [locate_request bay ttl off] =
    Inr (if off then LocateOff bay
         else Locate bay (case ttl of None \<Rightarrow> DEFAULT_LOCATE_TTL_SECS | Some t \<Rightarrow> t))"
proof -
  obtain pos where l: "locate_args (None, None, False, []) args = Inr (bay, ttl, off, pos)"
    and "\<not> (off \<and> ttl \<noteq> None)"
    using assms by (auto simp: parse_args_def parse_locate_args_def split: sum.splits if_splits)
  moreover have "bay_ok bay" "case ttl of None \<Rightarrow> True | Some t \<Rightarrow> t < 2 ^ 64"
    using locate_args_ok [OF l] by (auto simp: locate_ok_def bay_ok_def)
  ultimately show ?thesis by (simp add: locate_request_roundtrip)
qed

theorem client_locate_understood_witness:
  "parse_message [locate_request (Some 2) (Some 300) False] = Inr (Locate (Some 2) 300)"
proof -
  have "parse_args [''lcm-status'', ''locate'', ''--ttl'', ''300'', ''2''] =
      Inr (CliLocate DEFAULT_CONFIG_PATH (Some 2) (Some 300) False)"
    by (simp add: parse_args_def parse_locate_args_def config_arg_def parse_uint_def is_digit_def
        digits_val_def digit_val_def)
  from client_locate_understood [OF this] show ?thesis by simp
qed

end
