(* ===== verification/Config.thy ===== *)
theory Config
  imports Panel Template CpuPower Wol Buzzer
begin

text \<open>
  \<open>Config::validate\<close> of \<open>src/config.rs\<close>: what the daemon makes of the settings it read. Each problem
  disables or reverts only the piece it concerns and is reported. A floating-point setting is read
  as a \<open>toml_float\<close>, which may be NaN or infinite; what \<open>validate\<close> returns has finite ones only.
  Parsing the file is serde's; a file that is missing or does not parse gives the defaults.
\<close>

section \<open>Settings as read\<close>

datatype toml_float = Finite rat | NotANumber | Infinite bool

text \<open>An entry as read is the checked one but for its temperatures, which the raw fields give.\<close>

record raw_selector =
  rs_selector :: sensor_selector
  rs_min_temp_c :: "toml_float option"
  rs_max_temp_c :: "toml_float option"

record raw_fan =
  rf_profile :: fan_profile
  rf_min_temp_c :: toml_float
  rf_max_temp_c :: toml_float
  rf_sensors :: "raw_selector list"

record raw_override =
  ro_chip :: string
  ro_warn :: toml_float
  ro_critical :: toml_float

record config =
  cf_app :: app_config
  cf_serial_device :: string
  cf_sleep :: sleep_config
  cf_socket_path :: string
  cf_socket_group :: string
  cf_docker_ignore :: "string list"
  cf_fans :: "fan_profile list"
  cf_cpu_power :: cpu_power_config
  cf_wol :: wol_config
  cf_power_schedule :: "power_rule list"
  cf_buzzer :: buzzer_config

record raw_config =
  rw_config :: config
  rw_warn :: toml_float
  rw_critical :: toml_float
  rw_thresholds :: "raw_override list"
  rw_fans :: "raw_fan list"

section \<open>Diagnostics\<close>

datatype template_problem = BadTemplate template_error | UnknownVariable string string "string list"

datatype config_error =
  TemplateReplaced string template_problem
| Clamped string nat nat
| SleepTime string string
| CpuPowerOff "cpu_problem list"
| UpdateSecsClamped string nat nat
| FanTempReplaced string string toml_float rat
| SensorTempDropped string string string
| FixedPwmIgnored string
| FanDisabled string "fan_problem list"
| WolOff string mode_error
| RuleDisabled nat rule_error
| RuleClash lint_warning
| BrightnessClamped string nat
| ThresholdReplaced string toml_float rat
| OverrideDropped string
| ThresholdOrder rat rat
| OverrideWithoutChip
| OverrideOrder string rat rat

text \<open>A check over a list: every element is checked, the messages are in their order.\<close>

definition with_errors :: "('a \<Rightarrow> 'b \<times> 'e list) \<Rightarrow> 'a list \<Rightarrow> 'b list \<times> 'e list" where
  "with_errors f xs = (map (\<lambda>x. fst (f x)) xs, concat (map (\<lambda>x. snd (f x)) xs))"

section \<open>The sections\<close>

definition NETWORK_VARS :: "string list" where
  "NETWORK_VARS = [''iface'', ''ip'', ''link'', ''ip_or_status'']"
definition POOL_VARS :: "string list" where
  "POOL_VARS = [''name'', ''size'', ''alloc'', ''free'', ''cap'', ''health'']"
definition HDD_VARS :: "string list" where
  "HDD_VARS = [''label'', ''bay'', ''dev'', ''status'', ''temp'']"
definition CPU_VARS :: "string list" where "CPU_VARS = [''temp'', ''unit'', ''warn'']"
definition FAN_VARS :: "string list" where "FAN_VARS = [''rpm'']"
definition DOCKER_VARS :: "string list" where "DOCKER_VARS = [''name'', ''status'']"

definition line_problem :: "string list \<Rightarrow> string \<Rightarrow> template_problem option" where
  "line_problem vars line =
     (case placeholders line of
        Inl e \<Rightarrow> Some (BadTemplate e)
      | Inr names \<Rightarrow>
          map_option (\<lambda>n. UnknownVariable n line vars) (find (\<lambda>n. n \<notin> set vars) names))"

definition check_template ::
  "string \<Rightarrow> screen_template \<Rightarrow> string list \<Rightarrow> screen_template \<Rightarrow> screen_template \<times> config_error list" where
  "check_template kind dflt vars tpl =
     (case find_map (line_problem vars) [tpl_line0 tpl, tpl_line1 tpl] of
        None \<Rightarrow> (tpl, [])
      | Some p \<Rightarrow> (dflt, [TemplateReplaced kind p]))"

definition validate_templates :: "templates_config \<Rightarrow> templates_config \<times> config_error list" where
  "validate_templates t =
     (let d = templates_default;
          (network, e1) = check_template ''network'' (tpl_network d) NETWORK_VARS (tpl_network t);
          (pool, e2) = check_template ''pool'' (tpl_pool d) POOL_VARS (tpl_pool t);
          (hdd, e3) = check_template ''hdd'' (tpl_hdd d) HDD_VARS (tpl_hdd t);
          (cpu, e4) = check_template ''cpu'' (tpl_cpu d) CPU_VARS (tpl_cpu t);
          (fan, e5) = check_template ''fan'' (tpl_fan d) FAN_VARS (tpl_fan t);
          (docker, e6) = check_template ''docker'' (tpl_docker d) DOCKER_VARS (tpl_docker t)
      in (\<lparr>tpl_network = network, tpl_pool = pool, tpl_hdd = hdd, tpl_cpu = cpu, tpl_fan = fan,
           tpl_docker = docker\<rparr>, e1 @ e2 @ e3 @ e4 @ e5 @ e6))"

definition clamp_to :: "nat \<Rightarrow> string \<Rightarrow> nat \<Rightarrow> nat \<times> config_error list" where
  "clamp_to limit key value =
     (if limit < value then (limit, [Clamped key value limit]) else (value, []))"

definition clamp_bounds :: "app_config \<Rightarrow> app_config \<times> config_error list" where
  "clamp_bounds c =
     (let r = ac_rotation c; f = ac_refresh c; d = ac_display c;
          (dwell, e1) = clamp_to MAX_SECS ''[rotation] dwell_secs'' (rot_dwell_secs r);
          (resume, e2) = clamp_to MAX_SECS ''[rotation] resume_after_secs'' (rot_resume_after_secs r);
          (confirm, e3) = clamp_to MAX_SECS ''[menu] confirm_timeout_secs'' (ac_confirm_timeout_secs c);
          (network, e4) = clamp_to MAX_SECS ''[refresh] network_min_secs'' (ref_network_min_secs f);
          (pools, e5) = clamp_to MAX_SECS ''[refresh] pools_min_secs'' (ref_pools_min_secs f);
          (hdd, e6) = clamp_to MAX_SECS ''[refresh] hdd_min_secs'' (ref_hdd_min_secs f);
          (temp, e7) = clamp_to MAX_SECS ''[refresh] temperature_min_secs'' (ref_temperature_min_secs f);
          (docker, e8) = clamp_to MAX_SECS ''[refresh] docker_min_secs'' (ref_docker_min_secs f);
          (chars, e9) = clamp_to MAX_SCROLL_CHARS ''[display] scroll_max_chars'' (dc_scroll_max_chars d);
          (gap, e10) = clamp_to MAX_SCROLL_GAP ''[display] scroll_gap'' (dc_scroll_gap d)
      in (c\<lparr>ac_rotation := r\<lparr>rot_dwell_secs := dwell, rot_resume_after_secs := resume\<rparr>,
            ac_confirm_timeout_secs := confirm,
            ac_refresh := f\<lparr>ref_network_min_secs := network, ref_pools_min_secs := pools,
              ref_hdd_min_secs := hdd, ref_temperature_min_secs := temp, ref_docker_min_secs := docker\<rparr>,
            ac_display := d\<lparr>dc_scroll_max_chars := chars, dc_scroll_gap := gap\<rparr>\<rparr>,
          e1 @ e2 @ e3 @ e4 @ e5 @ e6 @ e7 @ e8 @ e9 @ e10))"

definition validate_sleep :: "sleep_config \<Rightarrow> sleep_config \<times> config_error list" where
  "validate_sleep s =
     (if \<not> slp_enabled s then (s, [])
      else
        let bad = concat (map (\<lambda>(key, v). if parse_hhmm v = None then [SleepTime key v] else [])
                    [(''start'', slp_start s), (''end'', slp_end s)])
        in (if parse_hhmm (slp_start s) = None \<or> parse_hhmm (slp_end s) = None
            then s\<lparr>slp_enabled := False\<rparr> else s, bad))"

definition validate_cpu :: "cpu_power_config \<Rightarrow> cpu_power_config \<times> config_error list" where
  "validate_cpu c =
     (if cp_enabled c \<and> cpu_problems c \<noteq> []
      then (c\<lparr>cp_enabled := False\<rparr>, [CpuPowerOff (cpu_problems c)]) else (c, []))"

section \<open>Fans\<close>

definition MIN_FAN_UPDATE_SECS :: nat where "MIN_FAN_UPDATE_SECS = 1"
definition MAX_FAN_UPDATE_SECS :: nat where "MAX_FAN_UPDATE_SECS = 60"

definition clamp_update :: "string \<Rightarrow> nat \<Rightarrow> nat \<times> config_error list" where
  "clamp_update name v =
     (let c = max MIN_FAN_UPDATE_SECS (min MAX_FAN_UPDATE_SECS v)
      in (c, if c = v then [] else [UpdateSecsClamped name v c]))"

fun fan_temp :: "string \<Rightarrow> string \<Rightarrow> rat \<Rightarrow> toml_float \<Rightarrow> rat \<times> config_error list" where
  "fan_temp name key dflt (Finite t) = (t, [])"
| "fan_temp name key dflt v = (dflt, [FanTempReplaced name key v dflt])"

fun sensor_temp :: "string \<Rightarrow> string \<Rightarrow> string \<Rightarrow> toml_float option \<Rightarrow> rat option \<times> config_error list" where
  "sensor_temp name chip key None = (None, [])"
| "sensor_temp name chip key (Some (Finite t)) = (Some t, [])"
| "sensor_temp name chip key (Some v) = (None, [SensorTempDropped name chip key])"

definition sanitize_sensor :: "string \<Rightarrow> raw_selector \<Rightarrow> sensor_selector \<times> config_error list" where
  "sanitize_sensor name r =
     (let s = rs_selector r;
          (lo, e1) = sensor_temp name (sel_chip s) ''min_temp_c'' (rs_min_temp_c r);
          (hi, e2) = sensor_temp name (sel_chip s) ''max_temp_c'' (rs_max_temp_c r)
      in (s\<lparr>sel_min_temp_c := lo, sel_max_temp_c := hi\<rparr>, e1 @ e2))"

definition sanitize_fan :: "raw_fan \<Rightarrow> fan_profile \<times> config_error list" where
  "sanitize_fan r =
     (let p = rf_profile r; d = fan_profile_default;
          (u, e1) = clamp_update (fp_name p) (fp_update_secs p);
          (lo, e2) = fan_temp (fp_name p) ''min_temp_c'' (fp_min_temp_c d) (rf_min_temp_c r);
          (hi, e3) = fan_temp (fp_name p) ''max_temp_c'' (fp_max_temp_c d) (rf_max_temp_c r);
          (sensors, e4) = with_errors (sanitize_sensor (fp_name p)) (rf_sensors r)
      in (p\<lparr>fp_update_secs := u, fp_min_temp_c := lo, fp_max_temp_c := hi, fp_sensors := sensors\<rparr>,
          e1 @ e2 @ e3 @ e4))"

definition validate_fan :: "fan_profile \<Rightarrow> fan_profile \<times> config_error list" where
  "validate_fan f =
     (if \<not> fp_enabled f then (f, [])
      else
        let e = (if fp_mode f = FanCurve \<and> fp_fixed_pwm f \<noteq> None then [FixedPwmIgnored (fp_name f)] else [])
        in if fan_problems f = [] then (f, e)
           else (f\<lparr>fp_enabled := False, fp_disabled_by_config := True\<rparr>,
                 e @ [FanDisabled (fp_name f) (fan_problems f)]))"

section \<open>The rest\<close>

definition validate_wol :: "wol_config \<Rightarrow> wol_config \<times> config_error list" where
  "validate_wol w =
     (if wc_nics w = [] then (w, [])
      else
        case parse_mode (wc_mode w) of
          Inr _ \<Rightarrow> (w, [])
        | Inl e \<Rightarrow> (w\<lparr>wc_nics := []\<rparr>, [WolOff (wc_mode w) e]))"

definition validate_rule :: "nat \<times> power_rule \<Rightarrow> power_rule \<times> config_error list" where
  "validate_rule ir =
     (case ir of (i, r) \<Rightarrow>
        if \<not> pr_enabled r then (r, [])
        else
          case rule_parse i r of
            Inr _ \<Rightarrow> (r, [])
          | Inl e \<Rightarrow> (r\<lparr>pr_enabled := False\<rparr>, [RuleDisabled (i + 1) e]))"

fun clamp_brightness :: "string \<Rightarrow> nat option \<Rightarrow> nat option \<times> config_error list" where
  "clamp_brightness key None = (None, [])"
| "clamp_brightness key (Some v) =
     (if 100 < v then (Some 100, [BrightnessClamped key v]) else (Some v, []))"

definition validate_led :: "led_config \<Rightarrow> led_config \<times> config_error list" where
  "validate_led l =
     (let (day, e1) = clamp_brightness ''brightness'' (led_brightness l);
          (night, e2) = clamp_brightness ''night_brightness'' (led_night_brightness l)
      in (l\<lparr>led_brightness := day, led_night_brightness := night\<rparr>, e1 @ e2))"

fun threshold :: "string \<Rightarrow> rat \<Rightarrow> toml_float \<Rightarrow> rat \<times> config_error list" where
  "threshold key dflt (Finite t) = (t, [])"
| "threshold key dflt v = (dflt, [ThresholdReplaced key v dflt])"

fun retain_override :: "raw_override \<Rightarrow> temp_threshold_override list \<times> config_error list" where
  "retain_override o' =
     (case (ro_warn o', ro_critical o') of
        (Finite w, Finite c) \<Rightarrow> ([\<lparr>tho_chip = ro_chip o', tho_warn = w, tho_critical = c\<rparr>], [])
      | _ \<Rightarrow> ([], [OverrideDropped (ro_chip o')]))"

definition sanitize_thresholds :: "raw_config \<Rightarrow> temperature_config \<times> config_error list" where
  "sanitize_thresholds raw =
     (let t = ac_temperature (cf_app (rw_config raw)); d = temperature_default;
          (w, e1) = threshold ''warn_threshold'' (tmp_warn_threshold d) (rw_warn raw);
          (c, e2) = threshold ''critical_threshold'' (tmp_critical_threshold d) (rw_critical raw);
          (os, e3) = with_errors retain_override (rw_thresholds raw)
      in (t\<lparr>tmp_warn_threshold := w, tmp_critical_threshold := c, tmp_thresholds := concat os\<rparr>,
          e1 @ e2 @ e3))"

definition threshold_warnings :: "temperature_config \<Rightarrow> config_error list" where
  "threshold_warnings t =
     (if tmp_critical_threshold t \<le> tmp_warn_threshold t
      then [ThresholdOrder (tmp_warn_threshold t) (tmp_critical_threshold t)] else [])
     @ concat (map (\<lambda>o'. if tho_chip o' = [] then [OverrideWithoutChip]
                        else if tho_critical o' \<le> tho_warn o'
                        then [OverrideOrder (tho_chip o') (tho_warn o') (tho_critical o')] else [])
         (tmp_thresholds t))"

section \<open>The whole\<close>

definition validate :: "raw_config \<Rightarrow> config \<times> config_error list" where
  "validate raw =
     (let c = rw_config raw; app = cf_app c;
          (tpls, e1) = validate_templates (ac_templates app);
          (app, e2) = clamp_bounds (app\<lparr>ac_templates := tpls\<rparr>);
          (sleep, e3) = validate_sleep (cf_sleep c);
          (cpu, e4) = validate_cpu (cf_cpu_power c);
          (fans, e5) = with_errors sanitize_fan (rw_fans raw);
          (fans, e6) = with_errors validate_fan fans;
          (wol, e7) = validate_wol (cf_wol c);
          (rules, e8) = with_errors validate_rule (zip [0..<length (cf_power_schedule c)] (cf_power_schedule c));
          e9 = map RuleClash (lint (parse_rules rules));
          (led, e10) = validate_led (ac_led app);
          (temps, e11) = sanitize_thresholds raw
      in (c\<lparr>cf_app := app\<lparr>ac_led := led, ac_temperature := temps\<rparr>, cf_sleep := sleep,
            cf_cpu_power := cpu, cf_fans := fans, cf_wol := wol, cf_power_schedule := rules\<rparr>,
          e1 @ e2 @ e3 @ e4 @ e5 @ e6 @ e7 @ e8 @ e9 @ e10 @ e11 @ threshold_warnings temps))"

text \<open>\<open>load\<close>: the file is missing or unreadable, or does not parse, or its settings are validated.\<close>

definition config_default :: config where
  "config_default =
     \<lparr>cf_app = app_config_default, cf_serial_device = ''/dev/ttyS1'', cf_sleep = sleep_default,
      cf_socket_path = ''/run/lcm-status.sock'', cf_socket_group = ''builtin_administrators'',
      cf_docker_ignore = [], cf_fans = default_fans, cf_cpu_power = cpu_power_default,
      cf_wol = \<lparr>wc_nics = [], wc_mode = ''g''\<rparr>, cf_power_schedule = [], cf_buzzer = buzzer_config_default\<rparr>"

datatype load_error = NotFound | ReadFailed string | ParseFailed string | Setting config_error | UnknownKey string

definition load :: "(load_error + (string \<Rightarrow> string list \<times> (string + raw_config)) \<times> string) \<Rightarrow> config \<times> load_error list" where
  "load file =
     (case file of
        Inl e \<Rightarrow> (config_default, [e])
      | Inr (serde, text) \<Rightarrow>
          (case serde text of
             (_, Inl e) \<Rightarrow> (config_default, [ParseFailed e])
           | (unknown, Inr raw) \<Rightarrow>
               (case validate raw of (c, es) \<Rightarrow> (c, map UnknownKey unknown @ map Setting es))))"

end
