(* ===== verification/ConfigProps.thy ===== *)
theory ConfigProps
  imports Config
begin

text \<open>
  What \<open>validate\<close> guarantees. Every section has a check that repairs it; the locale \<open>repair\<close> states
  what a check owes (its result is good, and it leaves alone what is good already and what it has
  nothing to say about) and gives the same for lists. The two properties follow section by section.
\<close>

section \<open>Checks that repair\<close>

locale repair =
  fixes check :: "'a \<Rightarrow> 'b \<times> 'e list"
    and good :: "'b \<Rightarrow> bool"
    and raw :: "'b \<Rightarrow> 'a"
  assumes checked: "good (fst (check x))"
    and kept: "good y \<Longrightarrow> fst (check (raw y)) = y"
    and quiet: "snd (check (raw y)) = [] \<Longrightarrow> good y"
begin

lemma settles: "fst (check (raw (fst (check x)))) = fst (check x)"
  by (rule kept) (rule checked)

lemma list_checked: "list_all good (fst (with_errors check xs))"
  by (simp add: with_errors_def list_all_iff checked)

lemma list_kept: "list_all good ys \<Longrightarrow> fst (with_errors check (map raw ys)) = ys"
  by (induction ys) (simp_all add: with_errors_def kept)

lemma list_quiet: "snd (with_errors check (map raw ys)) = [] \<Longrightarrow> list_all good ys"
  by (induction ys) (simp_all add: with_errors_def quiet)

end

section \<open>What a good section is\<close>

definition template_ok :: "string list \<Rightarrow> screen_template \<Rightarrow> bool" where
  "template_ok vars t \<longleftrightarrow> list_all (\<lambda>l. line_problem vars l = None) [tpl_line0 t, tpl_line1 t]"

definition templates_ok :: "templates_config \<Rightarrow> bool" where
  "templates_ok t \<longleftrightarrow>
     template_ok NETWORK_VARS (tpl_network t) \<and> template_ok POOL_VARS (tpl_pool t)
     \<and> template_ok HDD_VARS (tpl_hdd t) \<and> template_ok CPU_VARS (tpl_cpu t)
     \<and> template_ok FAN_VARS (tpl_fan t) \<and> template_ok DOCKER_VARS (tpl_docker t)"

definition bounds_ok :: "app_config \<Rightarrow> bool" where
  "bounds_ok c \<longleftrightarrow>
     list_all (\<lambda>n. n \<le> MAX_SECS)
       [rot_dwell_secs (ac_rotation c), rot_resume_after_secs (ac_rotation c), ac_confirm_timeout_secs c,
        ref_network_min_secs (ac_refresh c), ref_pools_min_secs (ac_refresh c), ref_hdd_min_secs (ac_refresh c),
        ref_temperature_min_secs (ac_refresh c), ref_docker_min_secs (ac_refresh c)]
     \<and> dc_scroll_max_chars (ac_display c) \<le> MAX_SCROLL_CHARS \<and> dc_scroll_gap (ac_display c) \<le> MAX_SCROLL_GAP"

definition sleep_ok :: "sleep_config \<Rightarrow> bool" where
  "sleep_ok s \<longleftrightarrow> \<not> slp_enabled s \<or> parse_hhmm (slp_start s) \<noteq> None \<and> parse_hhmm (slp_end s) \<noteq> None"

definition cpu_ok :: "cpu_power_config \<Rightarrow> bool" where
  "cpu_ok c \<longleftrightarrow> \<not> cp_enabled c \<or> cpu_problems c = []"

definition update_ok :: "fan_profile \<Rightarrow> bool" where
  "update_ok f \<longleftrightarrow> 1 \<le> fp_update_secs f \<and> fp_update_secs f \<le> 60"

definition drivable :: "fan_profile \<Rightarrow> bool" where
  "drivable f \<longleftrightarrow> \<not> fp_enabled f \<or> fan_problems f = []"

definition wol_ok :: "wol_config \<Rightarrow> bool" where
  "wol_ok w \<longleftrightarrow> wc_nics w = [] \<or> (\<exists>m. parse_mode (wc_mode w) = Inr m)"

definition rule_fine :: "nat \<times> power_rule \<Rightarrow> bool" where
  "rule_fine ir \<longleftrightarrow> \<not> pr_enabled (snd ir) \<or> (\<exists>r. rule_parse (fst ir) (snd ir) = Inr r)"

definition brightness_ok :: "nat option \<Rightarrow> bool" where
  "brightness_ok v = (case v of None \<Rightarrow> True | Some n \<Rightarrow> n \<le> 100)"

definition led_ok :: "led_config \<Rightarrow> bool" where
  "led_ok l \<longleftrightarrow> brightness_ok (led_brightness l) \<and> brightness_ok (led_night_brightness l)"

definition numbered :: "'a list \<Rightarrow> (nat \<times> 'a) list" where
  "numbered xs = zip [0..<length xs] xs"

definition config_ok :: "config \<Rightarrow> bool" where
  "config_ok c \<longleftrightarrow>
     templates_ok (ac_templates (cf_app c)) \<and> bounds_ok (cf_app c) \<and> led_ok (ac_led (cf_app c))
     \<and> sleep_ok (cf_sleep c) \<and> cpu_ok (cf_cpu_power c)
     \<and> list_all (\<lambda>f. update_ok f \<and> drivable f) (cf_fans c)
     \<and> wol_ok (cf_wol c) \<and> list_all rule_fine (numbered (cf_power_schedule c))"

text \<open>Finite settings as a file would give them.\<close>

definition raw_selector_of :: "sensor_selector \<Rightarrow> raw_selector" where
  "raw_selector_of s =
     \<lparr>rs_selector = s, rs_min_temp_c = map_option Finite (sel_min_temp_c s),
      rs_max_temp_c = map_option Finite (sel_max_temp_c s)\<rparr>"

definition raw_fan_of :: "fan_profile \<Rightarrow> raw_fan" where
  "raw_fan_of f =
     \<lparr>rf_profile = f, rf_min_temp_c = Finite (fp_min_temp_c f), rf_max_temp_c = Finite (fp_max_temp_c f),
      rf_sensors = map raw_selector_of (fp_sensors f)\<rparr>"

definition raw_override_of :: "temp_threshold_override \<Rightarrow> raw_override" where
  "raw_override_of t =
     \<lparr>ro_chip = tho_chip t, ro_warn = Finite (tho_warn t), ro_critical = Finite (tho_critical t)\<rparr>"

definition raw_of :: "config \<Rightarrow> raw_config" where
  "raw_of c =
     (let t = ac_temperature (cf_app c) in
      \<lparr>rw_config = c, rw_warn = Finite (tmp_warn_threshold t), rw_critical = Finite (tmp_critical_threshold t),
       rw_thresholds = map raw_override_of (tmp_thresholds t), rw_fans = map raw_fan_of (cf_fans c)\<rparr>)"

section \<open>The checks of the sections\<close>

lemma template_problem_iff:
  "find_map (line_problem vars) [tpl_line0 t, tpl_line1 t] = None \<longleftrightarrow> template_ok vars t"
  by (simp add: template_ok_def split: option.split)

lemma default_templates: "templates_ok templates_default"
  by code_simp

lemma check_template_laws:
  "template_ok vars d \<Longrightarrow> template_ok vars (fst (check_template kind d vars t))"
  "template_ok vars t \<Longrightarrow> check_template kind d vars t = (t, [])"
  "snd (check_template kind d vars t) = [] \<longleftrightarrow> template_ok vars t"
  using template_problem_iff [of vars t]
  by (cases "find_map (line_problem vars) [tpl_line0 t, tpl_line1 t]"; simp add: check_template_def)+

interpretation templates: repair validate_templates templates_ok "\<lambda>t. t"
proof
  fix t show "templates_ok (fst (validate_templates t))"
    using default_templates
    by (simp add: validate_templates_def templates_ok_def Let_def split_beta check_template_laws)
qed (auto simp: validate_templates_def templates_ok_def Let_def split_beta check_template_laws)

lemma clamp_to_laws:
  "fst (clamp_to limit key v) \<le> limit"
  "v \<le> limit \<Longrightarrow> fst (clamp_to limit key v) = v"
  "snd (clamp_to limit key v) = [] \<longleftrightarrow> v \<le> limit"
  by (auto simp: clamp_to_def)

interpretation bounds: repair clamp_bounds bounds_ok "\<lambda>c. c"
  by unfold_locales
    (auto simp: clamp_bounds_def bounds_ok_def Let_def split_beta clamp_to_laws)

interpretation sleep: repair validate_sleep sleep_ok "\<lambda>s. s"
  by unfold_locales (auto simp: validate_sleep_def sleep_ok_def Let_def split: if_splits)

interpretation cpu: repair validate_cpu cpu_ok "\<lambda>c. c"
  by unfold_locales (auto simp: validate_cpu_def cpu_ok_def split: if_splits)

lemma sensor_temp_kept [simp]: "sensor_temp name chip key (map_option Finite t) = (t, [])"
  by (cases t) simp_all

lemma sensor_kept [simp]: "sanitize_sensor name (raw_selector_of s) = (s, [])"
  by (simp add: sanitize_sensor_def raw_selector_of_def)

lemma sensors_kept [simp]: "with_errors (sanitize_sensor name) (map raw_selector_of ss) = (ss, [])"
  by (simp add: with_errors_def comp_def)

lemma clamp_update_laws:
  "Suc 0 \<le> fst (clamp_update name v) \<and> fst (clamp_update name v) \<le> 60"
  "Suc 0 \<le> v \<Longrightarrow> v \<le> 60 \<Longrightarrow> clamp_update name v = (v, [])"
  "snd (clamp_update name v) = [] \<longleftrightarrow> Suc 0 \<le> v \<and> v \<le> 60"
  by (auto simp: clamp_update_def Let_def MIN_FAN_UPDATE_SECS_def MAX_FAN_UPDATE_SECS_def)

interpretation fan_values: repair sanitize_fan update_ok raw_fan_of
  by unfold_locales
    (auto simp: sanitize_fan_def raw_fan_of_def update_ok_def Let_def split_beta clamp_update_laws)

interpretation fan_curve: repair validate_fan drivable "\<lambda>f. f"
  by unfold_locales (auto simp: validate_fan_def drivable_def Let_def split: if_splits)

lemma validate_fan_update [simp]: "update_ok (fst (validate_fan f)) = update_ok f"
  by (simp add: validate_fan_def update_ok_def Let_def)

interpretation wol: repair validate_wol wol_ok "\<lambda>w. w"
  by unfold_locales (auto simp: validate_wol_def wol_ok_def split: if_splits sum.splits)

lemma clamp_brightness_laws:
  "brightness_ok (fst (clamp_brightness key v))"
  "brightness_ok v \<Longrightarrow> clamp_brightness key v = (v, [])"
  "snd (clamp_brightness key v) = [] \<longleftrightarrow> brightness_ok v"
  by (cases v; simp add: brightness_ok_def)+

interpretation led: repair validate_led led_ok "\<lambda>l. l"
  by unfold_locales (auto simp: validate_led_def led_ok_def Let_def split_beta clamp_brightness_laws)

section \<open>The schedule\<close>

text \<open>A rule is checked with its number, which its label holds; disabling one leaves the others theirs.\<close>

lemma validate_rule_laws:
  "rule_fine (i, fst (validate_rule (i, r)))"
  "rule_fine (i, r) \<Longrightarrow> validate_rule (i, r) = (r, [])"
  "snd (validate_rule (i, r)) = [] \<longleftrightarrow> rule_fine (i, r)"
  by (auto simp: validate_rule_def rule_fine_def split: sum.splits)

lemma rules_checked:
  "list_all rule_fine (numbered (fst (with_errors validate_rule (numbered rs))))"
  by (auto simp: list_all_length with_errors_def numbered_def validate_rule_laws)

lemma rules_kept: "list_all rule_fine (numbered rs) \<Longrightarrow> fst (with_errors validate_rule (numbered rs)) = rs"
  by (intro nth_equalityI) (auto simp: list_all_length with_errors_def numbered_def validate_rule_laws)

lemma rules_quiet: "snd (with_errors validate_rule (numbered rs)) = [] \<Longrightarrow> list_all rule_fine (numbered rs)"
  by (auto simp: list_all_iff with_errors_def validate_rule_laws)

section \<open>Thresholds\<close>

lemma overrides_kept: "with_errors retain_override (map raw_override_of os) = (map (\<lambda>x. [x]) os, [])"
  by (simp add: with_errors_def raw_override_of_def comp_def)

lemma thresholds_kept: "sanitize_thresholds (raw_of c) = (ac_temperature (cf_app c), [])"
  by (simp add: sanitize_thresholds_def raw_of_def Let_def overrides_kept comp_def)

section \<open>The whole configuration\<close>

text \<open>The sections of the result, and that it is silent only where every check is.\<close>

lemma validate_fst:
  "fst (validate raw) =
     (let c = rw_config raw; app = cf_app c;
          app' = fst (clamp_bounds (app\<lparr>ac_templates := fst (validate_templates (ac_templates app))\<rparr>))
      in c\<lparr>cf_app := app'\<lparr>ac_led := fst (validate_led (ac_led app)),
                           ac_temperature := fst (sanitize_thresholds raw)\<rparr>,
           cf_sleep := fst (validate_sleep (cf_sleep c)), cf_cpu_power := fst (validate_cpu (cf_cpu_power c)),
           cf_fans := fst (with_errors validate_fan (fst (with_errors sanitize_fan (rw_fans raw)))),
           cf_wol := fst (validate_wol (cf_wol c)),
           cf_power_schedule := fst (with_errors validate_rule (numbered (cf_power_schedule c)))\<rparr>)"
  by (simp add: validate_def Let_def split_beta numbered_def clamp_bounds_def)

lemma clamp_bounds_templates: "ac_templates (fst (clamp_bounds a)) = ac_templates a"
  by (simp add: clamp_bounds_def Let_def split_beta)

lemma bounds_updates [simp]:
  "bounds_ok (a\<lparr>ac_led := l\<rparr>) = bounds_ok a" "bounds_ok (a\<lparr>ac_temperature := t\<rparr>) = bounds_ok a"
  "bounds_ok (a\<lparr>ac_templates := x\<rparr>) = bounds_ok a"
  by (simp_all add: bounds_ok_def)

lemma fans_checked:
  "list_all (\<lambda>f. update_ok f \<and> drivable f) (fst (with_errors validate_fan (fst (with_errors sanitize_fan rs))))"
  using fan_values.list_checked [of rs] fan_curve.list_checked [of "fst (with_errors sanitize_fan rs)"]
  by (auto simp: list_all_iff with_errors_def)

lemma validate_checked: "config_ok (fst (validate raw))"
  using bounds.checked templates.checked led.checked sleep.checked cpu.checked fans_checked wol.checked
    rules_checked
  by (simp add: config_ok_def validate_fst Let_def clamp_bounds_templates)

lemma fans_kept:
  assumes "list_all (\<lambda>f. update_ok f \<and> drivable f) fs"
  shows "fst (with_errors sanitize_fan (map raw_fan_of fs)) = fs" "fst (with_errors validate_fan fs) = fs"
proof -
  have "list_all update_ok fs" "list_all drivable fs" using assms by (auto simp: list_all_iff)
  then show "fst (with_errors sanitize_fan (map raw_fan_of fs)) = fs" "fst (with_errors validate_fan fs) = fs"
    using fan_values.list_kept [of fs] fan_curve.list_kept [of fs] by simp_all
qed

lemma validate_kept:
  assumes "config_ok c" shows "fst (validate (raw_of c)) = c"
proof -
  have ok: "templates_ok (ac_templates (cf_app c))" "bounds_ok (cf_app c)" "led_ok (ac_led (cf_app c))"
    "sleep_ok (cf_sleep c)" "cpu_ok (cf_cpu_power c)"
    "list_all (\<lambda>f. update_ok f \<and> drivable f) (cf_fans c)" "wol_ok (cf_wol c)"
    "list_all rule_fine (numbered (cf_power_schedule c))"
    using assms by (simp_all add: config_ok_def)
  have raw: "rw_config (raw_of c) = c" "rw_fans (raw_of c) = map raw_fan_of (cf_fans c)"
    by (simp_all add: raw_of_def Let_def)
  show ?thesis
    by (simp add: validate_fst raw thresholds_kept templates.kept [OF ok(1)] bounds.kept [OF ok(2)]
        led.kept [OF ok(3)] sleep.kept [OF ok(4)] cpu.kept [OF ok(5)] fans_kept [OF ok(6)]
        wol.kept [OF ok(7)] rules_kept [OF ok(8)] Let_def)
qed

lemma validate_quiet:
  assumes "snd (validate (raw_of c)) = []" shows "config_ok c"
proof -
  have raw: "rw_config (raw_of c) = c" "rw_fans (raw_of c) = map raw_fan_of (cf_fans c)"
    by (simp_all add: raw_of_def Let_def)
  have t: "snd (validate_templates (ac_templates (cf_app c))) = []"
    and b: "snd (clamp_bounds ((cf_app c)\<lparr>ac_templates := fst (validate_templates (ac_templates (cf_app c)))\<rparr>)) = []"
    and l: "snd (validate_led (ac_led (cf_app c))) = []"
    and s: "snd (validate_sleep (cf_sleep c)) = []"
    and p: "snd (validate_cpu (cf_cpu_power c)) = []"
    and f: "snd (with_errors sanitize_fan (map raw_fan_of (cf_fans c))) = []"
    and g: "snd (with_errors validate_fan (fst (with_errors sanitize_fan (map raw_fan_of (cf_fans c))))) = []"
    and w: "snd (validate_wol (cf_wol c)) = []"
    and r: "snd (with_errors validate_rule (numbered (cf_power_schedule c))) = []"
    using assms by (simp_all add: validate_def raw Let_def split_beta numbered_def clamp_bounds_def)
  have u: "list_all update_ok (cf_fans c)" using f by (rule fan_values.list_quiet)
  have "list_all drivable (cf_fans c)"
    using g fan_curve.list_quiet [of "cf_fans c"] by (simp add: fan_values.list_kept [OF u])
  then have "list_all (\<lambda>f. update_ok f \<and> drivable f) (cf_fans c)" using u by (auto simp: list_all_iff)
  then show ?thesis
    using templates.quiet [OF t] bounds.quiet [OF b] led.quiet [OF l] sleep.quiet [OF s] cpu.quiet [OF p]
      wol.quiet [OF w] rules_quiet [OF r]
    by (simp add: config_ok_def)
qed


text \<open>A file that gives its fan NaN as the upper temperature.\<close>

definition nan_fan :: raw_fan where
  "nan_fan = \<lparr>rf_profile = fan_profile_default\<lparr>fp_pwm_chip := ''it8625''\<rparr>, rf_min_temp_c = Finite 50,
     rf_max_temp_c = NotANumber, rf_sensors = []\<rparr>"


text \<open>Validation changes nothing without saying so, and nothing twice: its own result passes through
  it unchanged, and a configuration it has no message about is used exactly as it was written.\<close>

theorem validate_settles:
  "fst (validate (raw_of (fst (validate raw)))) = fst (validate raw)
   \<and> (snd (validate (raw_of c)) = [] \<longrightarrow> fst (validate (raw_of c)) = c)"
  using validate_kept validate_checked validate_quiet by blast

theorem validate_settles_witness: "fst (validate (raw_of config_default)) = config_default"
proof -
  have t: "validate_templates templates_default = (templates_default, [])"
    using default_templates by (simp add: validate_templates_def templates_ok_def Let_def check_template_laws)
  have f: "with_errors sanitize_fan (map raw_fan_of default_fans) = (default_fans, [])"
    by (simp add: with_errors_def sanitize_fan_def raw_fan_of_def default_fans_def fan_profile_default_def
        clamp_update_laws Let_def)
  have g: "with_errors validate_fan default_fans = (default_fans, [])"
    by (simp add: with_errors_def validate_fan_def default_fans_def fan_profile_default_def fan_problems_def
        selector_default_def min_temp_of_def max_temp_of_def)
  have o': "threshold_warnings temperature_default = []"
    by (simp add: threshold_warnings_def temperature_default_def default_temp_thresholds_def)
  have raw: "sanitize_thresholds (raw_of config_default) = (temperature_default, [])"
    unfolding thresholds_kept by (simp add: config_default_def app_config_default_def)
  have c: "cf_app config_default = app_config_default" "cf_fans config_default = default_fans"
    "cf_sleep config_default = sleep_default" "cf_cpu_power config_default = cpu_power_default"
    "cf_power_schedule config_default = []" "wc_nics (cf_wol config_default) = []"
    by (simp_all add: config_default_def)
  have "snd (validate (raw_of config_default)) = []"
    unfolding validate_def Let_def split_beta raw
    by (simp add: raw_of_def Let_def c t f g o' app_config_default_def clamp_bounds_def clamp_to_def
        rotation_default_def refresh_default_def display_default_def confirm_timeout_default_def
        MAX_SECS_def MAX_SCROLL_CHARS_def MAX_SCROLL_GAP_def validate_sleep_def sleep_default_def
        validate_cpu_def cpu_power_default_def validate_wol_def with_errors_def [of validate_rule]
        parse_rules_def lint_def List.map_filter_simps validate_led_def led_default_def)
  with validate_settles show ?thesis by blast
qed

end
