(* ===== verification/Server.thy ===== *)
theory Server
  imports Socket "HOL-Library.Stream" "HOL-Library.Multiset"
begin

text \<open>
  The listener of \<open>src/socket.rs\<close>: how long one connection may take and what it leaves in the queue
  (\<open>Deadline\<close>, \<open>read_request\<close>, \<open>handle_connection\<close>), and the accept loop with its bounded number of
  places (\<open>serve\<close>, \<open>Slot\<close>). The peer is an endless stream of what its socket does: bytes after some
  time (none is the end of the stream) or an error. Only time spent waiting for the peer or for the
  report counts. A call interrupted by a signal is not modelled.
\<close>

section \<open>Deadlines\<close>

record conn_limits =
  cl_max_connections :: nat
  cl_io_timeout :: duration
  cl_request_deadline :: duration
  cl_reply_deadline :: duration

definition CLIENT_IO_TIMEOUT :: duration where "CLIENT_IO_TIMEOUT = secs 2"
definition REQUEST_DEADLINE :: duration where "REQUEST_DEADLINE = secs 5"
definition REPLY_DEADLINE :: duration where "REPLY_DEADLINE = secs 5"
definition STATUS_REPLY_TIMEOUT :: duration where "STATUS_REPLY_TIMEOUT = secs 30"

definition limits_default :: conn_limits where
  "limits_default =
     \<lparr>cl_max_connections = MAX_CONNECTIONS, cl_io_timeout = CLIENT_IO_TIMEOUT,
      cl_request_deadline = REQUEST_DEADLINE, cl_reply_deadline = REPLY_DEADLINE\<rparr>"

definition budget :: "instant \<Rightarrow> duration \<Rightarrow> instant \<Rightarrow> duration option" where
  "budget until idle now =
     (let left = since until now in if left = 0 then None else Some (min left idle))"

lemma budget_Some: "budget until idle now = Some b \<Longrightarrow> now + b \<le> until"
  by (auto simp: budget_def since_def Let_def split: if_splits)

lemma budget_None: "budget until idle now = None \<Longrightarrow> until \<le> now"
  by (auto simp: budget_def since_def Let_def split: if_splits)

section \<open>Reading a request\<close>

datatype read_event = Arrives duration "char list" | ReadFails duration

text \<open>\<open>read_to_end\<close> through \<open>take(MAX_REQUEST_BYTES)\<close>: the bytes, whether it ended well, and when.
  A read returns at least one byte or ends the loop, so at most 4096 reads are made.\<close>

function deadline_read ::
  "instant \<Rightarrow> duration \<Rightarrow> instant \<Rightarrow> char list \<Rightarrow> read_event stream \<Rightarrow> char list \<times> bool \<times> instant" where
  "deadline_read until idle now buf evs =
     (if MAX_REQUEST_BYTES \<le> length buf then (buf, True, now)
      else
        case budget until idle now of
          None \<Rightarrow> (buf, False, now)
        | Some b \<Rightarrow>
            (case shd evs of
               ReadFails d \<Rightarrow> (buf, False, now + min b d)
             | Arrives d bytes \<Rightarrow>
                 if b \<le> d then (buf, False, now + b)
                 else if bytes = [] then (buf, True, now + d)
                 else deadline_read until idle (now + d)
                        (buf @ take (MAX_REQUEST_BYTES - length buf) bytes) (stl evs)))"
  by pat_completeness auto
termination
proof (relation "measure (\<lambda>(until, idle, now, buf, evs). MAX_REQUEST_BYTES - length buf)", goal_cases)
  case (2 until idle now buf evs b d bytes)
  then show ?case by (cases bytes) auto
qed simp

declare deadline_read.simps [simp del]

definition read_request_from ::
  "conn_limits \<Rightarrow> instant \<Rightarrow> read_event stream \<Rightarrow> char list \<times> instant" where
  "read_request_from cl now evs =
     (case deadline_read (now + cl_request_deadline cl) (cl_io_timeout cl) now [] evs of
        (buf, clean, t) \<Rightarrow> (read_request buf clean, t))"

section \<open>Writing the reply\<close>

datatype write_event = Takes duration nat | WriteFails duration

text \<open>\<open>write_all\<close>: what is left to send, and when it ended. A write of nothing is an error.\<close>

function deadline_write ::
  "instant \<Rightarrow> duration \<Rightarrow> instant \<Rightarrow> string \<Rightarrow> write_event stream \<Rightarrow> string \<times> instant" where
  "deadline_write until idle now left evs =
     (if left = [] then (left, now)
      else
        case budget until idle now of
          None \<Rightarrow> (left, now)
        | Some b \<Rightarrow>
            (case shd evs of
               WriteFails d \<Rightarrow> (left, now + min b d)
             | Takes d n \<Rightarrow>
                 if b \<le> d then (left, now + b)
                 else if n = 0 then (left, now + d)
                 else deadline_write until idle (now + d) (drop n left) (stl evs)))"
  by pat_completeness auto
termination
  by (relation "measure (\<lambda>(until, idle, now, left, evs). length left)") auto

declare deadline_write.simps [simp del]

section \<open>One connection\<close>

text \<open>The main loop answers a status request after some time, or never.\<close>

definition awaited :: "(duration \<times> string) option \<Rightarrow> string option" where
  "awaited answer =
     (case answer of None \<Rightarrow> None | Some (d, r) \<Rightarrow> if d < STATUS_REPLY_TIMEOUT then Some r else None)"

definition waited :: "(duration \<times> string) option \<Rightarrow> duration" where
  "waited answer = (case answer of None \<Rightarrow> STATUS_REPLY_TIMEOUT | Some (d, _) \<Rightarrow> min d STATUS_REPLY_TIMEOUT)"

definition waits_for_report :: "(socket_error + string option) \<Rightarrow> bool" where
  "waits_for_report r =
     (case r of Inl e \<Rightarrow> e = StatusTimeout | Inr None \<Rightarrow> False | Inr (Some _) \<Rightarrow> True)"

text \<open>\<open>handle_connection\<close>: what of the reply was sent, the queue, and when it was done. \<open>err\<close> is the
  text of an error and \<open>queue\<close> the queue at the moment the request is acted on.\<close>

definition handle_connection ::
  "conn_limits \<Rightarrow> (socket_error \<Rightarrow> string) \<Rightarrow> (char list \<Rightarrow> string option) \<Rightarrow> bool
     \<Rightarrow> (duration \<times> string) option \<Rightarrow> instant \<Rightarrow> read_event stream \<Rightarrow> write_event stream
     \<Rightarrow> socket_command list \<Rightarrow> string \<times> socket_command list \<times> instant" where
  "handle_connection cl err utf8 alive answer now evs wevs q =
     (case read_request_from cl now evs of
        (raw, t) \<Rightarrow>
          if raw = [] then ([], q, t)
          else
            case process utf8 alive (awaited answer) raw q of
              (r, q') \<Rightarrow>
                let t = (if waits_for_report r then t + waited answer else t) in
                (case (case r of Inr None \<Rightarrow> None | Inr (Some reply) \<Rightarrow> Some reply
                       | Inl e \<Rightarrow> Some (''ERR '' @ err e @ [CHR 0x0A])) of
                   None \<Rightarrow> ([], q', t)
                 | Some reply \<Rightarrow>
                     (case deadline_write (t + cl_reply_deadline cl) (cl_io_timeout cl) t reply wevs of
                        (left, t) \<Rightarrow> (take (length reply - length left) reply, q', t))))"

section \<open>The accept loop\<close>

text \<open>A failed accept and a failed thread are logged once per run of failures. \<open>Finished\<close> is a connection's
  thread ending, which gives its place back.\<close>

datatype accept_result = Accepted nat | AcceptRetry | AcceptFailed string

datatype serve_op = Incoming accept_result "string option" | Finished nat

record server =
  sv_active :: nat
  sv_open :: "nat list"
  sv_rejected :: "nat list"
  sv_closed :: "nat list"
  sv_accept_failing :: bool
  sv_spawn_failing :: bool
  sv_pauses :: nat
  sv_log :: "log_line list"

definition server_new :: server where
  "server_new = \<lparr>sv_active = 0, sv_open = [], sv_rejected = [], sv_closed = [], sv_accept_failing = False,
                 sv_spawn_failing = False, sv_pauses = 0, sv_log = []\<rparr>"

definition slot_drop :: "nat \<Rightarrow> nat" where "slot_drop active = active - 1"

definition accept_failed :: "string \<Rightarrow> server \<Rightarrow> server" where
  "accept_failed e s =
     (let s = (if sv_accept_failing s then s
               else s\<lparr>sv_log := sv_log s @ [syslog PWarning ''accept_failed'' [e] []], sv_accept_failing := True\<rparr>)
      in s\<lparr>sv_pauses := sv_pauses s + 1\<rparr>)"

definition spawn_failed :: "nat \<Rightarrow> string \<Rightarrow> server \<Rightarrow> server" where
  "spawn_failed c e s =
     (let s = s\<lparr>sv_active := slot_drop (sv_active s), sv_closed := sv_closed s @ [c]\<rparr>;
          s = (if sv_spawn_failing s then s
               else s\<lparr>sv_log := sv_log s @ [syslog PWarning ''spawn_failed'' [e] []], sv_spawn_failing := True\<rparr>)
      in s\<lparr>sv_pauses := sv_pauses s + 1\<rparr>)"

definition accepted :: "nat \<Rightarrow> nat \<Rightarrow> string option \<Rightarrow> server \<Rightarrow> server" where
  "accepted limit c spawn s =
     (let s = s\<lparr>sv_accept_failing := False\<rparr> in
      case slot_acquire limit (sv_active s) of
        None \<Rightarrow> s\<lparr>sv_rejected := sv_rejected s @ [c]\<rparr>
      | Some n \<Rightarrow>
          let s = s\<lparr>sv_active := n\<rparr> in
          (case spawn of
             None \<Rightarrow> s\<lparr>sv_open := sv_open s @ [c], sv_spawn_failing := False\<rparr>
           | Some e \<Rightarrow> spawn_failed c e s))"

fun serve_step :: "nat \<Rightarrow> serve_op \<Rightarrow> server \<Rightarrow> server" where
  "serve_step limit (Incoming (Accepted c) spawn) s = accepted limit c spawn s"
| "serve_step limit (Incoming AcceptRetry spawn) s = s"
| "serve_step limit (Incoming (AcceptFailed e) spawn) s = accept_failed e s"
| "serve_step limit (Finished c) s =
     (if c \<in> set (sv_open s)
      then s\<lparr>sv_open := remove1 c (sv_open s), sv_active := slot_drop (sv_active s),
             sv_closed := sv_closed s @ [c]\<rparr>
      else s)"

section \<open>A connection always ends\<close>

lemma read_loop_time: "snd (snd (deadline_read until idle now buf evs)) \<le> max now until"
proof (induction until idle now buf evs rule: deadline_read.induct)
  case (1 until idle now buf evs)
  show ?case
  proof (cases "MAX_REQUEST_BYTES \<le> length buf")
    case False
    show ?thesis
    proof (cases "budget until idle now")
      case (Some b)
      with budget_Some [OF Some] 1 [OF False Some] False show ?thesis
        by (subst deadline_read.simps) (auto simp: split: read_event.split)
    qed (subst deadline_read.simps, simp)
  qed (subst deadline_read.simps, simp)
qed

lemma write_loop_time: "snd (deadline_write until idle now left evs) \<le> max now until"
proof (induction until idle now left evs rule: deadline_write.induct)
  case (1 until idle now left evs)
  show ?case
  proof (cases "budget until idle now")
    case (Some b)
    with budget_Some [OF Some] 1 [OF _ Some] show ?thesis
      by (subst deadline_write.simps) (auto split: write_event.split)
  qed (subst deadline_write.simps, simp)
qed

lemma write_loop_suffix: "\<exists>sent. left = sent @ fst (deadline_write until idle now left evs)"
proof (induction until idle now left evs rule: deadline_write.induct)
  case (1 until idle now left evs)
  show ?case
  proof (cases "budget until idle now")
    case (Some b)
    have "\<exists>sent. left = sent @ fst (deadline_write until idle (now + d) (drop n left) (stl evs))"
      if "left \<noteq> []" "shd evs = Takes d n" "\<not> b \<le> d" "n \<noteq> 0" for d n
      using 1 [OF that(1) Some that(2-4)] by (metis append.assoc append_take_drop_id)
    then show ?thesis
      by (subst deadline_write.simps) (auto simp: Some split: write_event.split)
  qed (subst deadline_write.simps, simp)
qed

lemma last_rev_dropWhile: "x \<in> set xs \<Longrightarrow> last (rev (dropWhile (\<lambda>y. y \<noteq> x) (rev xs))) = x"
proof -
  assume "x \<in> set xs"
  then have "\<exists>y\<in>set (rev xs). \<not> y \<noteq> x" by simp
  then have ne: "dropWhile (\<lambda>y. y \<noteq> x) (rev xs) \<noteq> []" by (simp add: dropWhile_eq_Nil_conv)
  from hd_dropWhile [OF this] show ?thesis by (simp add: last_rev)
qed

lemma read_request_whole: "clean \<or> read_request buf clean = [] \<or> last (read_request buf clean) = CHR 0x0A"
  using last_rev_dropWhile [of "CHR 0x0A" "take MAX_REQUEST_BYTES buf"]
  by (simp add: read_request_def Let_def)

lemma enqueue_grows:
  "enqueue alive c q = (e, q') \<Longrightarrow> q' = q \<or> length q < COMMAND_QUEUE_DEPTH \<and> q' = q @ [c]"
  by (auto simp: enqueue_def split: if_splits)

lemma process_grows:
  "process utf8 alive report raw q = (r, q') \<Longrightarrow>
     q' = q \<or> (\<exists>c. length q < COMMAND_QUEUE_DEPTH \<and> q' = q @ [c])"
  by (auto simp: process_def dest!: enqueue_grows split: option.splits sum.splits request.splits prod.splits)

lemma waited_bound: "waited answer \<le> STATUS_REPLY_TIMEOUT"
  by (simp add: waited_def split: option.split)


section \<open>The places\<close>

fun accepted_ids :: "serve_op list \<Rightarrow> nat list" where
  "accepted_ids [] = []"
| "accepted_ids (Incoming (Accepted c) spawn # ops) = c # accepted_ids ops"
| "accepted_ids (op # ops) = accepted_ids ops"

definition serve_inv :: "nat \<Rightarrow> nat list \<Rightarrow> server \<Rightarrow> bool" where
  "serve_inv limit ids s \<longleftrightarrow>
     sv_active s = length (sv_open s) \<and> sv_active s \<le> limit
     \<and> mset (sv_open s) + mset (sv_rejected s) + mset (sv_closed s) = mset ids
     \<and> length (sv_log s) + of_bool (\<not> sv_accept_failing s) + of_bool (\<not> sv_spawn_failing s)
         \<le> 2 + 2 * length ids"

lemma serve_inv_accepted:
  assumes "serve_inv limit ids s"
  shows "serve_inv limit (ids @ [c]) (accepted limit c spawn s)"
proof (cases "limit \<le> sv_active s")
  case True
  with assms show ?thesis
    by (auto simp: serve_inv_def accepted_def slot_acquire_def Let_def)
next
  case False
  with assms show ?thesis
    by (cases spawn)
      (auto simp: serve_inv_def accepted_def slot_acquire_def spawn_failed_def slot_drop_def Let_def)
qed

lemma serve_inv_step:
  "serve_inv limit ids s \<Longrightarrow> serve_inv limit (ids @ accepted_ids [op]) (serve_step limit op s)"
proof (induction limit op s rule: serve_step.induct)
  case (1 limit c spawn s)
  then show ?case using serve_inv_accepted by simp
next
  case (3 limit e spawn s)
  then show ?case by (auto simp: serve_inv_def accept_failed_def Let_def)
next
  case (4 limit c s)
  show ?case
  proof (cases "c \<in> set (sv_open s)")
    case True
    define rest where "rest = remove1 c (sv_open s)"
    have "mset (sv_open s) = add_mset c (mset rest)" "length (sv_open s) = Suc (length rest)"
      using True by (auto simp: rest_def length_remove1 Suc_pred' [symmetric] dest: length_pos_if_in_set)
    with True 4 show ?thesis by (simp add: serve_inv_def slot_drop_def rest_def [symmetric])
  qed (use 4 in simp)
qed simp

lemma accepted_ids_append: "accepted_ids (xs @ ys) = accepted_ids xs @ accepted_ids ys"
  by (induction xs rule: accepted_ids.induct) simp_all

lemma serve_inv_run: "serve_inv limit (accepted_ids ops) (fold (serve_step limit) ops server_new)"
proof (induction ops rule: rev_induct)
  case (snoc op ops)
  from serve_inv_step [OF this, of op] show ?case by (simp add: accepted_ids_append)
qed (simp add: serve_inv_def server_new_def)

text \<open>C32. The server never serves more connections at once than it has places, and never loses one: over any
  interleaving of connections, failed accepts, threads that cannot start and connections that end,
  the number of taken places is the number of connections being served and at most the limit, and
  every connection accepted is being served, was turned away, or has ended, each exactly once. A
  connection is turned away only when every place is taken, and lasting failures are not logged again
  and again.\<close>

theorem places_accounted:
  "let s = fold (serve_step limit) ops server_new in
     sv_active s = length (sv_open s) \<and> sv_active s \<le> limit
     \<and> mset (sv_open s) + mset (sv_rejected s) + mset (sv_closed s) = mset (accepted_ids ops)
     \<and> sv_rejected (serve_step limit (Incoming (Accepted c) spawn) s)
         = sv_rejected s @ (if length (sv_open s) = limit then [c] else [])
     \<and> length (sv_log s) \<le> 2 + 2 * length (accepted_ids ops)"
proof -
  let ?s = "fold (serve_step limit) ops server_new"
  have inv: "serve_inv limit (accepted_ids ops) ?s" by (rule serve_inv_run)
  then have "sv_rejected (accepted limit c spawn ?s)
      = sv_rejected ?s @ (if length (sv_open ?s) = limit then [c] else [])"
    by (auto simp: serve_inv_def accepted_def slot_acquire_def spawn_failed_def Let_def split: option.split)
  with inv show ?thesis by (simp add: serve_inv_def Let_def)
qed

end
