(* ===== verification/SocketFile.thy ===== *)
theory SocketFile
  imports Server
begin

text \<open>
  The file of the control socket (\<open>src/socket.rs\<close>): binding it with its mode and group in place before it
  appears at its path (\<open>bind_private\<close>, \<open>bind_in_place\<close>, \<open>apply_group\<close>), starting the listener
  (\<open>spawn_with\<close>) and removing the file on the way out (\<open>SocketGuard\<close>). The file system is a map from
  paths to files, every state it passes through is kept, and the outcome of each system call is
  given by the environment. Paths are absolute or relative strings with components separated by
  slashes.
\<close>

section \<open>Files\<close>

datatype file_kind = Directory | SocketNode | OtherFile

record file_node =
  fn_kind :: file_kind
  fn_inode :: nat
  fn_mode :: nat
  fn_gid :: nat

type_synonym files = "string \<Rightarrow> file_node option"

text \<open>The history of the file system, the current state first.\<close>

type_synonym history = "files list"

definition files_now :: "history \<Rightarrow> files" where "files_now h = hd h"

definition alter_files :: "(files \<Rightarrow> files) \<Rightarrow> history \<Rightarrow> history" where
  "alter_files f h = f (files_now h) # h"

definition under :: "string \<Rightarrow> string \<Rightarrow> bool" where
  "under dir p \<longleftrightarrow> p = dir \<or> take (length dir + 1) p = dir @ ''/''"

definition remove_tree :: "string \<Rightarrow> files \<Rightarrow> files" where
  "remove_tree dir fs = (\<lambda>p. if under dir p then None else fs p)"

definition chmod :: "string \<Rightarrow> nat \<Rightarrow> files \<Rightarrow> files" where
  "chmod p mode fs = fs(p := map_option (\<lambda>n. n\<lparr>fn_mode := mode\<rparr>) (fs p))"

definition chgrp :: "string \<Rightarrow> nat \<Rightarrow> files \<Rightarrow> files" where
  "chgrp p gid fs = fs(p := map_option (\<lambda>n. n\<lparr>fn_gid := gid\<rparr>) (fs p))"

definition rename_file :: "string \<Rightarrow> string \<Rightarrow> files \<Rightarrow> files" where
  "rename_file from dest fs = fs(dest := fs from, from := None)"

section \<open>Paths\<close>

text \<open>\<open>Path::file_name\<close> and \<open>parent\<close>, the latter \<open>.\<close> when it would be empty.\<close>

definition path_parts :: "string \<Rightarrow> string list" where
  "path_parts p = filter (\<lambda>c. c \<noteq> [] \<and> c \<noteq> ''.'') (split_on CHR ''/'' p)"

definition file_name :: "string \<Rightarrow> string option" where
  "file_name p = (let cs = path_parts p in if cs = [] \<or> last cs = ''..'' then None else Some (last cs))"

definition parent_dir :: "string \<Rightarrow> string" where
  "parent_dir p =
     (let d = intercalate ''/'' (butlast (path_parts p))
      in if p \<noteq> [] \<and> hd p = CHR ''/'' then CHR ''/'' # d else if d = [] then ''.'' else d)"

definition join_path :: "string \<Rightarrow> string \<Rightarrow> string" where
  "join_path dir name = (if dir \<noteq> [] \<and> last dir = CHR ''/'' then dir @ name else dir @ ''/'' @ name)"

section \<open>Binding\<close>

datatype bind_error = AddrInUse | InvalidInput | BindIo string

text \<open>What the system calls answer: \<open>sb_staged\<close> and \<open>sb_direct\<close> are the two binds, giving the inode and
  the mode the umask leaves; the root's own group is \<open>sb_gid\<close>.\<close>

record bind_env =
  sb_pid :: nat
  sb_debris :: "string option"
  sb_unlink :: "string option"
  sb_mkdir :: "bind_error option"
  sb_staged :: "bind_error + nat \<times> nat"
  sb_chmod :: "bind_error option"
  sb_group_file :: "string + string"
  sb_chown :: "string option"
  sb_rename :: "bind_error option"
  sb_cleanup :: "string option"
  sb_direct :: "bind_error + nat \<times> nat"
  sb_gid :: nat

definition SOCKET_MODE :: nat where "SOCKET_MODE = 0x1B0"
definition STAGING_MODE :: nat where "STAGING_MODE = 0x1C0"

definition bind_at :: "string \<Rightarrow> nat \<Rightarrow> bind_error + nat \<times> nat \<Rightarrow> history \<Rightarrow> bind_error option \<times> history" where
  "bind_at p gid outcome h =
     (case outcome of
        Inl e \<Rightarrow> (Some e, h)
      | Inr (inode, mode) \<Rightarrow>
          (None, alter_files (\<lambda>fs. fs(p \<mapsto> \<lparr>fn_kind = SocketNode, fn_inode = inode, fn_mode = mode, fn_gid = gid\<rparr>)) h))"

definition apply_group :: "string \<Rightarrow> string \<Rightarrow> bind_env \<Rightarrow> history \<Rightarrow> string option \<times> history" where
  "apply_group p grp env h =
     (case sb_group_file env of
        Inl e \<Rightarrow> (Some (''cannot read: '' @ e), h)
      | Inr contents \<Rightarrow>
          (case parse_group_gid contents grp of
             None \<Rightarrow> (Some (''no group '' @ grp), h)
           | Some gid \<Rightarrow>
               (case sb_chown env of
                  Some e \<Rightarrow> (Some (''chown failed: '' @ e), h)
                | None \<Rightarrow> (None, alter_files (chgrp p gid) h))))"

definition warn_root_only :: "string \<Rightarrow> string \<Rightarrow> string \<Rightarrow> log_line list" where
  "warn_root_only path grp reason = [syslog PWarning ''root_only'' [path, grp, reason] []]"

definition bind_in_place ::
  "string \<Rightarrow> string \<Rightarrow> bind_env \<Rightarrow> history \<Rightarrow> bind_error option \<times> history \<times> log_line list" where
  "bind_in_place path grp env h =
     (let ls = [syslog PWarning ''not_staged'' [path] []];
          h = (if sb_unlink env = None then alter_files (\<lambda>fs. fs(path := None)) h else h)
      in case bind_at path (sb_gid env) (sb_direct env) h of
           (Some e, h) \<Rightarrow> (Some e, h, ls)
         | (None, h) \<Rightarrow>
             (case sb_chmod env of
                Some e \<Rightarrow> (Some e, alter_files (\<lambda>fs. fs(path := None)) h, ls)
              | None \<Rightarrow>
                  (case apply_group path grp env (alter_files (chmod path SOCKET_MODE) h) of
                     (None, h) \<Rightarrow> (None, h, ls)
                   | (Some reason, h) \<Rightarrow> (None, h, ls @ warn_root_only path grp reason))))"

text \<open>Everything between the bind in the staging directory and the rename.\<close>

definition stage ::
  "string \<Rightarrow> string \<Rightarrow> string \<Rightarrow> bind_env \<Rightarrow> history \<Rightarrow> bind_error option \<times> history \<times> log_line list" where
  "stage path staged grp env h =
     (case bind_at staged (sb_gid env) (sb_staged env) h of
        (Some e, h) \<Rightarrow> (Some e, h, [])
      | (None, h) \<Rightarrow>
          (case sb_chmod env of
             Some e \<Rightarrow> (Some e, h, [])
           | None \<Rightarrow>
               (case apply_group staged grp env (alter_files (chmod staged SOCKET_MODE) h) of
                  (reason, h) \<Rightarrow>
                    let ls = (case reason of None \<Rightarrow> [] | Some r \<Rightarrow> warn_root_only path grp r)
                    in case sb_rename env of
                         Some e \<Rightarrow> (Some e, h, ls)
                       | None \<Rightarrow> (None, alter_files (rename_file staged path) h, ls))))"

definition staging_dir :: "string \<Rightarrow> string \<Rightarrow> nat \<Rightarrow> string" where
  "staging_dir path name pid = join_path (parent_dir path) (''.'' @ name @ ''.'' @ nat_str pid)"

text \<open>\<open>bind_private\<close> once the staging directory is named.\<close>

definition bind_staged ::
  "string \<Rightarrow> string \<Rightarrow> string \<Rightarrow> bind_env \<Rightarrow> history \<Rightarrow> bind_error option \<times> history \<times> log_line list" where
  "bind_staged path dir grp env h =
     (let h = (if sb_debris env = None then alter_files (remove_tree dir) h else h) in
      case sb_mkdir env of
        Some e \<Rightarrow> (Some e, h, [])
      | None \<Rightarrow>
          (case stage path (join_path dir ''sock'') grp env
                  (alter_files (\<lambda>fs. fs(dir \<mapsto> \<lparr>fn_kind = Directory, fn_inode = 0, fn_mode = STAGING_MODE,
                                          fn_gid = sb_gid env\<rparr>)) h) of
             (r, h, ls) \<Rightarrow>
               let (h, ls) = (case sb_cleanup env of
                                None \<Rightarrow> (alter_files (remove_tree dir) h, ls)
                              | Some e \<Rightarrow> (h, ls @ [syslog PWarning ''could_not_remove'' [dir, e] []]))
               in if r = Some InvalidInput
                  then (case bind_in_place path grp env h of (r, h, ls') \<Rightarrow> (r, h, ls @ ls'))
                  else (r, h, ls)))"

definition bind_private ::
  "string \<Rightarrow> string \<Rightarrow> bind_env \<Rightarrow> history \<Rightarrow> bind_error option \<times> history \<times> log_line list" where
  "bind_private path grp env h =
     (case file_name path of
        None \<Rightarrow> (Some InvalidInput, h, [])
      | Some name \<Rightarrow> bind_staged path (staging_dir path name (sb_pid env)) grp env h)"

section \<open>The listener and its guard\<close>

definition file_identity :: "string \<Rightarrow> history \<Rightarrow> nat option" where
  "file_identity path h = map_option fn_inode (files_now h path)"

record socket_guard =
  sg_path :: string
  sg_identity :: "nat option"

definition socket_guard_new :: "string \<Rightarrow> history \<Rightarrow> socket_guard" where
  "socket_guard_new path h = \<lparr>sg_path = path, sg_identity = file_identity path h\<rparr>"

definition guard_drop :: "socket_guard \<Rightarrow> string option \<Rightarrow> history \<Rightarrow> history \<times> log_line list" where
  "guard_drop g err h =
     (if sg_identity g = None \<or> file_identity (sg_path g) h \<noteq> sg_identity g then (h, [])
      else
        case err of
          None \<Rightarrow> (alter_files (\<lambda>fs. fs(sg_path g := None)) h, [])
        | Some e \<Rightarrow> (h, [syslog PWarning ''could_not_remove'' [sg_path g, e] []]))"

text \<open>\<open>answers\<close>: someone accepts connections at the path; \<open>thread\<close>: why the accept thread cannot start,
  in which case the guard is dropped again.\<close>

definition spawn_with ::
  "string \<Rightarrow> string \<Rightarrow> bool \<Rightarrow> bind_env \<Rightarrow> string option \<Rightarrow> string option \<Rightarrow> history
     \<Rightarrow> (bind_error + socket_guard) \<times> history \<times> log_line list" where
  "spawn_with path grp answers env thread unlink h =
     (if answers then (Inl AddrInUse, h, [])
      else
        case bind_private path grp env h of
          (Some e, h, ls) \<Rightarrow> (Inl e, h, ls)
        | (None, h, ls) \<Rightarrow>
            let g = socket_guard_new path h in
            (case thread of
               None \<Rightarrow> (Inr g, h, ls)
             | Some e \<Rightarrow> (case guard_drop g unlink h of (h, ls') \<Rightarrow> (Inl (BindIo e), h, ls @ ls'))))"

section \<open>The staging directory is not the path\<close>

lemma split_on_append: "split_on c (a @ c # b) = split_on c a @ split_on c b"
proof (induction a)
  case (Cons x a)
  have "split_on c a \<noteq> []" by (cases a) (auto split: list.split)
  with Cons show ?case by (auto split: list.split)
qed simp

lemma split_on_parts: "\<forall>x\<in>set (split_on c s). c \<notin> set x"
proof (induction s)
  case (Cons a s)
  then show ?case by (auto split: list.split)
qed simp

lemma split_on_word: "c \<notin> set s \<Longrightarrow> split_on c s = [s]"
  by (induction s) auto

definition part_ok :: "string \<Rightarrow> bool" where
  "part_ok x \<longleftrightarrow> x \<noteq> [] \<and> x \<noteq> ''.'' \<and> CHR ''/'' \<notin> set x"

lemma path_parts_ok: "\<forall>x\<in>set (path_parts p). part_ok x"
  using split_on_parts [of "CHR ''/''" p] by (auto simp: path_parts_def part_ok_def)

lemma path_parts_slash: "path_parts (a @ CHR ''/'' # b) = path_parts a @ path_parts b"
  by (simp add: path_parts_def split_on_append)

lemma path_parts_word: "part_ok x \<Longrightarrow> path_parts x = [x]"
  by (simp add: path_parts_def part_ok_def split_on_word)

lemma path_parts_join: "\<forall>x\<in>set xs. part_ok x \<Longrightarrow> path_parts (intercalate ''/'' xs) = xs"
proof (induction xs)
  case (Cons x xs)
  then show ?case
    by (cases xs) (simp_all add: path_parts_word path_parts_slash)
qed (simp add: path_parts_def)

lemma path_parts_parent: "path_parts (parent_dir p) = butlast (path_parts p)"
proof -
  have ok: "\<forall>x\<in>set (butlast (path_parts p)). part_ok x"
    using path_parts_ok [of p] in_set_butlastD by fast
  have "path_parts (CHR ''/'' # d) = path_parts d" for d
    using path_parts_slash [of "[]" d] by (simp add: path_parts_def)
  moreover have "path_parts ''.'' = []" by (simp add: path_parts_def)
  moreover have "path_parts [] = []" by (simp add: path_parts_def)
  ultimately show ?thesis
    using path_parts_join [OF ok] by (auto simp: parent_dir_def Let_def)
qed

lemma nat_str_no_slash: "CHR ''/'' \<notin> set (nat_str n)"
  using nat_str_digits [of n] by (auto simp: list_all_iff is_digit_def)

lemma staging_last: "last (staging_dir path name pid) \<noteq> CHR ''/''"
proof -
  have "last (nat_str pid) \<noteq> CHR ''/''" by (metis last_in_set nat_str_no_slash nat_str_nonempty)
  then show ?thesis by (simp add: staging_dir_def join_path_def)
qed

lemma under_join: "last dir \<noteq> CHR ''/'' \<Longrightarrow> under dir (join_path dir x)"
  by (simp add: under_def join_path_def)

lemma parts_of_join: "part_ok x \<Longrightarrow> path_parts (join_path d x) = path_parts d @ [x]"
proof -
  assume x: "part_ok x"
  show ?thesis
  proof (cases "d \<noteq> [] \<and> last d = CHR ''/''")
    case True
    then obtain d' where "d = d' @ [CHR ''/'']" by (metis append_butlast_last_id)
    then show ?thesis
      using x path_parts_slash [of d' x] path_parts_slash [of d' "[]"]
      by (simp add: join_path_def path_parts_word) (simp add: path_parts_def)
  next
    case False
    then show ?thesis using x by (auto simp: join_path_def path_parts_slash path_parts_word)
  qed
qed

lemma staging_apart:
  assumes "file_name path = Some name"
  shows "\<not> under (staging_dir path name pid) path"
proof
  let ?s = "staging_dir path name pid" and ?x = "''.'' @ name @ ''.'' @ nat_str pid"
  assume u: "under ?s path"
  have cs: "path_parts path \<noteq> []" "last (path_parts path) = name"
    using assms by (auto simp: file_name_def Let_def split: if_splits)
  then have "part_ok name" using path_parts_ok [of path] last_in_set [OF cs(1)] by auto
  then have ok: "part_ok ?x" by (auto simp: part_ok_def nat_str_no_slash)
  have parts: "path_parts ?s = butlast (path_parts path) @ [?x]"
    by (simp only: staging_dir_def parts_of_join [OF ok] path_parts_parent)
  from u obtain rest where "path = ?s \<or> path = ?s @ CHR ''/'' # rest"
    unfolding under_def by (metis append_assoc append_Cons append_Nil append_take_drop_id)
  then obtain more where more: "path_parts path = path_parts ?s @ more"
    using path_parts_slash [of ?s rest] by (metis append_Nil2)
  have "length (path_parts path) = length (path_parts ?s)"
    using cs(1) by (simp add: parts)
  with more have "path_parts path = path_parts ?s" by simp
  then have "path_parts path = butlast (path_parts path) @ [?x]" by (simp only: parts)
  then have "last (path_parts path) = ?x" by (metis last_snoc)
  with cs(2) have "length name = length ?x" by simp
  then show False by simp
qed

section \<open>What can be seen at the path\<close>

text \<open>The group the socket gets: the configured one when it can be looked up and set.\<close>

definition reached_gid :: "bind_env \<Rightarrow> string \<Rightarrow> nat" where
  "reached_gid env grp =
     (case sb_group_file env of
        Inl e \<Rightarrow> sb_gid env
      | Inr contents \<Rightarrow>
          (case parse_group_gid contents grp of
             None \<Rightarrow> sb_gid env
           | Some gid \<Rightarrow> if sb_chown env = None then gid else sb_gid env))"

text \<open>\<open>untouched p h h'\<close>: nothing happened at \<open>p\<close> in what \<open>h'\<close> adds to \<open>h\<close>.\<close>

definition untouched :: "string \<Rightarrow> history \<Rightarrow> history \<Rightarrow> bool" where
  "untouched p h h' \<longleftrightarrow> (\<exists>new. h' = new @ h \<and> list_all (\<lambda>fs. fs p = files_now h p) new)"

lemma untouched_refl [simp]: "untouched p h h"
  by (simp add: untouched_def)

lemma untouched_present: "untouched p h h' \<Longrightarrow> files_now h' p = files_now h p"
  by (auto simp: untouched_def files_now_def hd_append list_all_iff)

lemma untouched_change: "untouched p h h' \<Longrightarrow> f (files_now h') p = files_now h' p \<Longrightarrow> untouched p h (alter_files f h')"
  using untouched_present [of p h h'] by (auto simp: untouched_def alter_files_def)

lemma apply_group_result:
  assumes "apply_group p grp env h = (r, h')" "files_now h p = Some n" "fn_gid n = sb_gid env"
  shows "files_now h' p = Some (n\<lparr>fn_gid := reached_gid env grp\<rparr>)" "q \<noteq> p \<Longrightarrow> untouched q h h'"
  using assms
  by (auto simp: apply_group_def reached_gid_def files_now_def alter_files_def chgrp_def untouched_def
      split: sum.splits option.splits if_splits)

lemma untouched_trans: "untouched p h h' \<Longrightarrow> untouched p h' h'' \<Longrightarrow> untouched p h h''"
  using untouched_present [of p h h'] by (auto simp: untouched_def)

lemma bind_at_result:
  "bind_at p gid outcome h = (None, h') \<Longrightarrow>
     \<exists>n. files_now h' p = Some n \<and> fn_kind n = SocketNode \<and> fn_gid n = gid \<and> (q \<noteq> p \<longrightarrow> untouched q h h')"
  "bind_at p gid outcome h = (Some e, h') \<Longrightarrow> h' = h"
  by (auto simp: bind_at_def files_now_def alter_files_def untouched_def split: sum.splits)

lemma stage_result:
  assumes "stage path staged grp env h = (r, h', ls)" "path \<noteq> staged"
  shows "(r \<noteq> None \<longrightarrow> untouched path h h') \<and>
    (r = None \<longrightarrow> (\<exists>h1 n. h' = alter_files (rename_file staged path) h1 \<and> untouched path h h1
       \<and> files_now h1 staged = Some n \<and> fn_kind n = SocketNode \<and> fn_mode n = SOCKET_MODE
       \<and> fn_gid n = reached_gid env grp))"
proof (cases "bind_at staged (sb_gid env) (sb_staged env) h")
  case (Pair b h0)
  show ?thesis
  proof (cases b)
    case (Some e)
    with assms(1) Pair bind_at_result(2) [of staged "sb_gid env" "sb_staged env" h e h0] show ?thesis
      by (auto simp: stage_def)
  next
    case None
    with Pair bind_at_result(1) [of staged "sb_gid env" "sb_staged env" h h0 path] assms(2) obtain n where
      n: "files_now h0 staged = Some n" "fn_kind n = SocketNode" "fn_gid n = sb_gid env" and k: "untouched path h h0"
      by auto
    define h1 where "h1 = alter_files (chmod staged SOCKET_MODE) h0"
    have n1: "files_now h1 staged = Some (n\<lparr>fn_mode := SOCKET_MODE\<rparr>)" and k1: "untouched path h h1"
      using n(1) untouched_change [OF k, of "chmod staged SOCKET_MODE"] assms(2)
      by (simp_all add: h1_def chmod_def files_now_def alter_files_def)
    obtain g h2 where g: "apply_group staged grp env h1 = (g, h2)" by fastforce
    from apply_group_result [OF g n1] n(3) have
      n2: "files_now h2 staged = Some (n\<lparr>fn_mode := SOCKET_MODE, fn_gid := reached_gid env grp\<rparr>)"
      and k2: "untouched path h h2"
      using untouched_trans [OF k1] assms(2) by simp_all
    show ?thesis
    proof (cases "sb_chmod env")
      case (Some e)
      then show ?thesis using assms(1) Pair None k by (auto simp: stage_def)
    next
      case chmod: None
      then show ?thesis
        using assms(1) Pair None k2 n2 n(2) g
        by (cases "sb_rename env") (auto simp: stage_def Let_def h1_def [symmetric])
    qed
  qed
qed

text \<open>The staging path is short enough for a socket address: no call of \<open>stage\<close> says otherwise.\<close>

definition stageable :: "bind_env \<Rightarrow> bool" where
  "stageable env \<longleftrightarrow> sb_staged env \<noteq> Inl InvalidInput \<and> sb_chmod env \<noteq> Some InvalidInput
     \<and> sb_rename env \<noteq> Some InvalidInput"

lemma stage_error: "stageable env \<Longrightarrow> stage path staged grp env h = (r, h', ls) \<Longrightarrow> r \<noteq> Some InvalidInput"
  by (auto simp: stage_def stageable_def bind_at_def Let_def split: sum.splits option.splits prod.splits)

text \<open>\<open>shown\<close>: what the path holds in the states added, and at the end, for the outcome \<open>r\<close>.\<close>

definition shown :: "string \<Rightarrow> string \<Rightarrow> bind_env \<Rightarrow> history \<Rightarrow> bind_error option \<Rightarrow> history \<Rightarrow> bool" where
  "shown path grp env h r h' \<longleftrightarrow>
     (\<exists>new. h' = new @ h \<and> list_all (\<lambda>fs. fs path = files_now h path \<or> fs path = files_now h' path) new)
     \<and> (case r of
          Some e \<Rightarrow> files_now h' path = files_now h path
        | None \<Rightarrow> (\<exists>n. files_now h' path = Some n \<and> fn_kind n = SocketNode \<and> fn_mode n = SOCKET_MODE
                      \<and> fn_gid n = reached_gid env grp))"

lemma shown_failed: "untouched path h h' \<Longrightarrow> shown path grp env h (Some e) h'"
  using untouched_present [of path h h'] by (auto simp: shown_def untouched_def list_all_iff)

text \<open>The rename is the one step that changes what the path holds; cleaning up after it does not.\<close>

lemma shown_staged:
  assumes "stage path staged grp env h2 = (r, h3, ls)" "untouched path h h2" "path \<noteq> staged"
    and "h4 = h3 \<or> (\<exists>f. h4 = alter_files f h3 \<and> (\<forall>fs. f fs path = fs path))"
  shows "shown path grp env h r h4"
proof (cases r)
  case (Some e)
  with stage_result [OF assms(1,3)] have "untouched path h h3" using untouched_trans [OF assms(2)] by simp
  then have "untouched path h h4" using assms(4) by (auto intro: untouched_change)
  then show ?thesis unfolding Some by (rule shown_failed)
next
  case None
  with stage_result [OF assms(1,3)] obtain h' n where h': "h3 = alter_files (rename_file staged path) h'"
    and k: "untouched path h2 h'" and n: "files_now h' staged = Some n" "fn_kind n = SocketNode"
      "fn_mode n = SOCKET_MODE" "fn_gid n = reached_gid env grp" by auto
  from untouched_trans [OF assms(2) k] obtain new where new: "h' = new @ h" "list_all (\<lambda>fs. fs path = files_now h path) new"
    by (auto simp: untouched_def)
  have p3: "files_now h3 path = Some n" using n(1) assms(3) by (simp add: h' alter_files_def files_now_def rename_file_def)
  then have p4: "files_now h4 path = Some n" using assms(4) by (auto simp: alter_files_def files_now_def)
  have "\<exists>new. h4 = new @ h \<and> list_all (\<lambda>fs. fs path = files_now h path \<or> fs path = Some n) new"
    using p3 p4 new assms(4) by (auto simp: h' alter_files_def files_now_def list_all_iff)
  with n(2-4) p4 show ?thesis by (simp add: None shown_def)
qed

lemma bind_staged_shown:
  assumes "stageable env" "\<not> under dir path" "path \<noteq> join_path dir ''sock''"
    and b: "bind_staged path dir grp env h = (r, h', ls)"
  shows "shown path grp env h r h'"
proof -
  have apart: "remove_tree dir fs path = fs path" "path \<noteq> dir" for fs
    using assms(2) by (auto simp: remove_tree_def under_def)
  define h1 where "h1 = (if sb_debris env = None then alter_files (remove_tree dir) h else h)"
  have k1: "untouched path h h1" by (simp add: h1_def untouched_change apart)
  define h2 where "h2 = alter_files (\<lambda>fs. fs(dir \<mapsto> \<lparr>fn_kind = Directory, fn_inode = 0, fn_mode = STAGING_MODE,
                                          fn_gid = sb_gid env\<rparr>)) h1"
  have k2: "untouched path h h2" unfolding h2_def using apart(2) by (intro untouched_change [OF k1]) simp
  obtain s h3 ls3 where st: "stage path (join_path dir ''sock'') grp env h2 = (s, h3, ls3)"
    by (metis prod_cases3)
  show ?thesis
  proof (cases "sb_mkdir env")
    case None
    with b stage_error [OF assms(1) st] have "r = s \<and> h' = (if sb_cleanup env = None then alter_files (remove_tree dir) h3 else h3)"
      by (cases "sb_cleanup env") (simp_all add: bind_staged_def h1_def [symmetric] h2_def [symmetric] st)
    moreover from this have "h' = h3 \<or> (\<exists>f. h' = alter_files f h3 \<and> (\<forall>fs. f fs path = fs path))"
      using apart(1) by auto
    ultimately show ?thesis using shown_staged [OF st k2 assms(3)] by simp
  next
    case (Some e)
    with b have "r = Some e \<and> h' = h1" by (simp add: bind_staged_def h1_def [symmetric])
    then show ?thesis using shown_failed [OF k1] by simp
  qed
qed

lemma bind_private_shown:
  assumes "stageable env" "bind_private path grp env h = (r, h', ls)"
  shows "shown path grp env h r h'"
proof (cases "file_name path")
  case None
  with assms(2) show ?thesis by (auto simp: bind_private_def shown_def)
next
  case (Some name)
  let ?dir = "staging_dir path name (sb_pid env)"
  have apart: "\<not> under ?dir path" by (rule staging_apart [OF Some])
  moreover have "path \<noteq> join_path ?dir ''sock''"
    using under_join [OF staging_last, of path name "sb_pid env" "''sock''"] apart by metis
  ultimately show ?thesis
    using bind_staged_shown [OF assms(1)] assms(2) by (simp add: bind_private_def Some)
qed


text \<open>The guard of a listener knows the file that was bound, and removes no other.\<close>

lemma spawn_guarded:
  assumes "stageable env" "spawn_with path grp answers env thread unlink h = (Inr g, h', ls)"
  shows "sg_path g = path" "sg_identity g \<noteq> None" "sg_identity g = file_identity path h'"
proof -
  obtain r h1 ls1 where b: "bind_private path grp env h = (r, h1, ls1)" by (metis prod_cases3)
  from assms(2) have "r = None" "g = socket_guard_new path h1" "h' = h1"
    by (auto simp: spawn_with_def b Let_def split: if_splits option.splits prod.splits)
  note g = this
  from bind_private_shown [OF assms(1) b] g(1) obtain n where "files_now h1 path = Some n" by (auto simp: shown_def)
  then show "sg_path g = path" "sg_identity g \<noteq> None" "sg_identity g = file_identity path h'"
    by (simp_all add: g socket_guard_new_def file_identity_def)
qed

lemma guard_dropped:
  assumes "sg_identity g \<noteq> None" "guard_drop g None h = (h', ls)"
  shows "file_identity (sg_path g) h' \<noteq> sg_identity g"
  using assms by (auto simp: guard_drop_def file_identity_def files_now_def alter_files_def split: if_splits)

definition plain_bind :: bind_env where
  "plain_bind =
     \<lparr>sb_pid = 7, sb_debris = None, sb_unlink = None, sb_mkdir = None, sb_staged = Inr (42, 0x1ED),
      sb_chmod = None, sb_group_file = Inr ''admins:x:544:'', sb_chown = None, sb_rename = None,
      sb_cleanup = None, sb_direct = Inl (BindIo []), sb_gid = 0\<rparr>"


end
