(* ===== verification/Command.thy ===== *)
theory Command
  imports Socket "HOL-Library.Stream"
begin

text \<open>
  The external commands of \<open>src/hal.rs\<close> (\<open>run_tracked\<close>): they run on the main loop, so one that hangs may
  not hang the loop. The child is an environment: what every \<open>poll\<close> of its output and every
  \<open>try_wait\<close> answers, as endless streams. A round of the loop takes a nanosecond at least.
\<close>

section \<open>Bounds\<close>

definition COMMAND_TIMEOUT :: duration where "COMMAND_TIMEOUT = secs 10"
definition OUTPUT_MAX :: nat where "OUTPUT_MAX = 2 ^ 20"
definition UNREAPED_MAX :: nat where "UNREAPED_MAX = 16"
definition STUCK_WARN_EVERY :: duration where "STUCK_WARN_EVERY = secs 300"
definition KILL_REAP_WAIT :: duration where "KILL_REAP_WAIT = millis 250"

definition warn_due :: "instant option \<Rightarrow> instant \<Rightarrow> duration \<Rightarrow> bool \<times> instant option" where
  "warn_due prev now every =
     (if (case prev of None \<Rightarrow> False | Some t \<Rightarrow> since now t < every) then (False, prev) else (True, Some now))"

text \<open>\<open>still\<close> says which children \<open>try_wait\<close> finds running.\<close>

definition reap :: "(nat \<Rightarrow> bool) \<Rightarrow> nat list \<Rightarrow> nat list" where
  "reap still children = filter still children"

section \<open>Draining the output\<close>

datatype pipe_event = Silent | Bytes duration "char list" | EndOfOutput duration | Interrupted duration

datatype wait_event = Running | Exited bool | WaitFailed

datatype run_end = TimedOut nat | TooMuch | Done "char list option"

definition at_least_1 :: "duration \<Rightarrow> duration" where "at_least_1 d = max 1 d"

text \<open>The loop of \<open>run_tracked\<close>. \<open>poll\<close> rounds its timeout down to milliseconds. A read that fails counts as
  the end of the output; \<open>Done None\<close> is an unsuccessful child or a failed \<open>try_wait\<close>.\<close>

definition poll_slice :: "duration \<Rightarrow> duration" where
  "poll_slice left = min left (millis 100) div millis 1 * millis 1"

text \<open>Every round moves the clock, adds output or closes the pipe.\<close>

lemma since_less: "since deadline now \<noteq> 0 \<Longrightarrow> 0 < d \<Longrightarrow> since deadline (now + d) < since deadline now"
  by (simp add: since_def)

lemma later_less: "(a :: nat) - (b + d) \<noteq> a - b \<Longrightarrow> a - (b + d) < a - b"
  by linarith

lemma later_same: "\<not> (a :: nat) - (b + d) < a - b \<Longrightarrow> a - (b + d) = a - b"
  by linarith

lemma out_grows:
  "xs \<noteq> [] \<Longrightarrow> \<not> m < n + length xs \<Longrightarrow> Suc m - (n + length xs) \<noteq> Suc m - n"
  by (cases xs) auto

lemma at_least_1_pos [simp]: "0 < at_least_1 d"
  by (simp add: at_least_1_def)

function drain_loop ::
  "instant \<Rightarrow> duration \<Rightarrow> instant \<Rightarrow> char list \<Rightarrow> bool \<Rightarrow> pipe_event stream \<Rightarrow> wait_event stream
     \<Rightarrow> run_end \<times> instant" where
  "drain_loop deadline timeout now out eof ps ws =
     (let left = since deadline now in
      if left = 0 then (TimedOut (timeout div secs 1), now)
      else if eof
      then
        (case shd ws of
           Exited ok \<Rightarrow> (Done (if ok then Some out else None), now)
         | Running \<Rightarrow> drain_loop deadline timeout (now + at_least_1 (min left (millis 10))) out eof ps (stl ws)
         | WaitFailed \<Rightarrow> (Done None, now))
      else
        (let slice = poll_slice left in
         case shd ps of
           Silent \<Rightarrow> drain_loop deadline timeout (now + at_least_1 slice) out eof (stl ps) ws
         | Bytes d bytes \<Rightarrow>
             let out' = out @ bytes in
             if bytes = [] then drain_loop deadline timeout (now + min d slice) out True (stl ps) ws
             else if OUTPUT_MAX < length out' then (TooMuch, now + min d slice)
             else drain_loop deadline timeout (now + min d slice) out' eof (stl ps) ws
         | EndOfOutput d \<Rightarrow> drain_loop deadline timeout (now + min d slice) out True (stl ps) ws
         | Interrupted d \<Rightarrow> drain_loop deadline timeout (now + at_least_1 (min d slice)) out eof (stl ps) ws))"
  by pat_completeness auto

termination
  by (relation "measures [\<lambda>(deadline, timeout, now, out, eof, ps, ws). since deadline now,
        \<lambda>(deadline, timeout, now, out, eof, ps, ws). OUTPUT_MAX + 1 - length out,
        \<lambda>(deadline, timeout, now, out, eof, ps, ws). if eof then 0 else 1]")
    (auto simp: since_def at_least_1_def Let_def intro!: later_less later_same dest: out_grows)

declare drain_loop.simps [simp del]

section \<open>Killing\<close>

text \<open>After the kill: whether the child was reaped within \<open>KILL_REAP_WAIT\<close>.\<close>

function reap_loop :: "instant \<Rightarrow> instant \<Rightarrow> wait_event stream \<Rightarrow> bool \<times> instant" where
  "reap_loop deadline now ws =
     (case shd ws of
        Exited ok \<Rightarrow> (True, now)
      | _ \<Rightarrow> if deadline \<le> now then (False, now) else reap_loop deadline (now + millis 5) (stl ws))"
  by pat_completeness auto
termination
  by (relation "measure (\<lambda>(deadline, now, ws). since deadline now)") (auto simp: since_def millis_def)

declare reap_loop.simps [simp del]

section \<open>A command\<close>

record commander =
  cm_unreaped :: "nat list"
  cm_stuck_warned :: "instant option"
  cm_log :: "log_line list"

record child_env =
  ce_id :: nat
  ce_spawned :: bool
  ce_pipe :: "pipe_event stream"
  ce_wait :: "wait_event stream"
  ce_kill_error :: "string option"
  ce_after_kill :: "wait_event stream"

definition cm_logs :: "log_line list \<Rightarrow> commander \<Rightarrow> commander" where
  "cm_logs ls c = c\<lparr>cm_log := cm_log c @ ls\<rparr>"

definition note_stuck :: "nat \<Rightarrow> string \<Rightarrow> instant \<Rightarrow> commander \<Rightarrow> commander" where
  "note_stuck limit cmd now c =
     (if length (cm_unreaped c) < limit then c
      else
        case warn_due (cm_stuck_warned c) now STUCK_WARN_EVERY of
          (due, w) \<Rightarrow>
            let c = c\<lparr>cm_stuck_warned := w\<rparr>
            in if due then cm_logs [syslog PWarning ''stuck_commands'' [cmd] [length (cm_unreaped c)]] c else c)"

definition kill_child :: "string \<Rightarrow> run_end \<Rightarrow> child_env \<Rightarrow> instant \<Rightarrow> commander \<Rightarrow> instant \<times> commander" where
  "kill_child cmd failure env now c =
     (let c = cm_logs [syslog PWarning ''killed'' [cmd, (case failure of TooMuch \<Rightarrow> ''too much'' | _ \<Rightarrow> ''timed out'')]
                         [case failure of TimedOut n \<Rightarrow> n | _ \<Rightarrow> OUTPUT_MAX]] c;
          c = (case ce_kill_error env of None \<Rightarrow> c | Some e \<Rightarrow> cm_logs [syslog PNotice ''kill'' [cmd, e] []] c)
      in case reap_loop (now + KILL_REAP_WAIT) now (ce_after_kill env) of
           (reaped, t) \<Rightarrow> (t, if reaped then c else c\<lparr>cm_unreaped := cm_unreaped c @ [ce_id env]\<rparr>))"

text \<open>\<open>lossy\<close> is \<open>String::from_utf8_lossy\<close>.\<close>

definition run_tracked ::
  "(char list \<Rightarrow> string) \<Rightarrow> nat \<Rightarrow> string \<Rightarrow> duration \<Rightarrow> (nat \<Rightarrow> bool) \<Rightarrow> child_env \<Rightarrow> instant \<Rightarrow> commander
     \<Rightarrow> string option \<times> instant \<times> commander" where
  "run_tracked lossy limit cmd timeout still env now c =
     (let c = note_stuck limit cmd now (c\<lparr>cm_unreaped := reap still (cm_unreaped c)\<rparr>) in
      if \<not> ce_spawned env then (None, now, c)
      else
        case drain_loop (now + timeout) timeout now [] False (ce_pipe env) (ce_wait env) of
          (Done None, t) \<Rightarrow> (None, t, c)
        | (Done (Some out), t) \<Rightarrow> (Some (trim (lossy out)), t, c)
        | (failure, t) \<Rightarrow> (case kill_child cmd failure env t c of (t, c) \<Rightarrow> (None, t, c)))"

section \<open>A command always comes back\<close>

lemma within: "d \<le> since deadline now \<Longrightarrow> since deadline now \<noteq> 0 \<Longrightarrow> now + d \<le> deadline"
  by (simp add: since_def)

lemma poll_slice_le: "poll_slice left \<le> left"
  unfolding poll_slice_def by (metis div_times_less_eq_dividend dual_order.trans min.cobounded1)

lemma drain_loop_end:
  "drain_loop deadline timeout now out eof ps ws = (e, t) \<Longrightarrow> now \<le> deadline \<Longrightarrow> length out \<le> OUTPUT_MAX \<Longrightarrow>
     t \<le> deadline \<and> (\<forall>out'. e = Done (Some out') \<longrightarrow> length out' \<le> OUTPUT_MAX)"
proof (induction deadline timeout now out eof ps ws arbitrary: e t rule: drain_loop.induct)
  case (1 deadline timeout now out eof ps ws)
  define left where "left = since deadline now"
  define slice where "slice = poll_slice left"
  note IH = 1(1-6) [OF left_def]
  show ?case
  proof (cases "left = 0")
    case True
    then show ?thesis using 1(7-9) by (subst (asm) drain_loop.simps) (auto simp: left_def)
  next
    case left: False
    have step: "now + at_least_1 (min left x) \<le> deadline" "now + at_least_1 slice \<le> deadline"
      "now + min x slice \<le> deadline" "now + at_least_1 (min x slice) \<le> deadline" for x
      using left poll_slice_le [of left] by (auto simp: at_least_1_def slice_def left_def since_def min_le_iff_disj)
    show ?thesis
    proof (cases eof)
      case True
      from 1(7) left True show ?thesis
        by (subst (asm) drain_loop.simps)
          (use IH(1) [OF left True] step 1(9) in
            \<open>auto simp: left_def [symmetric] split: wait_event.splits if_splits\<close>)
    next
      case False
      from 1(7) left False show ?thesis
        by (subst (asm) drain_loop.simps)
          (use IH(2-6) [OF left False slice_def] step 1(9) in
            \<open>auto simp: left_def [symmetric] slice_def [symmetric] Let_def split: pipe_event.splits if_splits\<close>)
    qed
  qed
qed

lemma reap_loop_end: "reap_loop deadline now ws = (r, t) \<Longrightarrow> t \<le> max now (deadline + millis 5)"
proof (induction deadline now ws arbitrary: r t rule: reap_loop.induct)
  case (1 deadline now ws)
  show ?case
  proof (cases "(\<exists>ok. shd ws = Exited ok) \<or> deadline \<le> now")
    case True
    with 1(3) show ?thesis
      by (subst (asm) reap_loop.simps) (auto split: wait_event.splits if_splits)
  next
    case False
    then have "shd ws = Running \<or> shd ws = WaitFailed" by (cases "shd ws") auto
    moreover from this False 1(3) have "reap_loop deadline (now + millis 5) (stl ws) = (r, t)"
      by (subst (asm) reap_loop.simps) auto
    ultimately have "t \<le> max (now + millis 5) (deadline + millis 5)" using False 1(1,2) by auto
    with False show ?thesis by simp
  qed
qed

lemma kill_child_end:
  assumes "kill_child cmd failure env now c = (t, c')"
  shows "t \<le> now + KILL_REAP_WAIT + millis 5
    \<and> (cm_unreaped c' = cm_unreaped c \<or> cm_unreaped c' = cm_unreaped c @ [ce_id env])"
proof -
  obtain b t' where r: "reap_loop (now + KILL_REAP_WAIT) now (ce_after_kill env) = (b, t')" by fastforce
  from reap_loop_end [OF r] assms show ?thesis
    by (auto simp: kill_child_def r Let_def cm_logs_def split: option.splits if_splits)
qed

lemma note_stuck_same [simp]: "cm_unreaped (note_stuck limit cmd now c) = cm_unreaped c"
  by (simp add: note_stuck_def cm_logs_def Let_def split: prod.split)


end
