(* ===== verification/Sysfs.thy ===== *)
theory Sysfs
  imports Socket "HOL-Library.Product_Lexorder"
begin

text \<open>
  The part of \<open>src/hal.rs\<close> that reads the kernel's files: numbers in them, the hwmon chips and their
  sensors, the drives behind them and the network interfaces. The file system is an environment: what a
  directory holds (in the order it is read), what a file reads, and where a link points. Names are
  ordered as strings of bytes.
\<close>

section \<open>Files\<close>

record sysfs =
  sf_list :: "string \<Rightarrow> string list option"
  sf_read :: "string \<Rightarrow> string option"
  sf_link :: "string \<Rightarrow> string option"
  sf_canon :: "string \<Rightarrow> string option"

definition in_dir :: "string \<Rightarrow> string \<Rightarrow> string" where
  "in_dir dir name = dir @ ''/'' @ name"

definition starts_with :: "string \<Rightarrow> string \<Rightarrow> bool" where
  "starts_with p s \<longleftrightarrow> take (length p) s = p"

definition strip_suffix :: "string \<Rightarrow> string \<Rightarrow> string option" where
  "strip_suffix p s =
     (if length p \<le> length s \<and> drop (length s - length p) s = p then Some (take (length s - length p) s) else None)"

text \<open>\<open>str::replace\<close> of a pattern that is not empty.\<close>

fun replace_str :: "string \<Rightarrow> string \<Rightarrow> string \<Rightarrow> string" where
  "replace_str p q [] = []"
| "replace_str p q (c # s) =
     (if starts_with p (c # s) then q @ replace_str p q (drop (length p - 1) s) else c # replace_str p q s)"

lemma strip_suffix_Some: "strip_suffix p s = Some r \<longleftrightarrow> s = r @ p"
proof
  assume "strip_suffix p s = Some r"
  then show "s = r @ p" by (metis append_take_drop_id option.distinct(1) option.inject strip_suffix_def)
qed (simp add: strip_suffix_def)

section \<open>Numbers\<close>

text \<open>\<open>str::parse::<f32>\<close>: an optional sign, then \<open>inf\<close>, \<open>infinity\<close>, \<open>nan\<close> in any case, or decimal digits with
  an optional point and exponent, rounded to the nearest \<open>f32\<close>.\<close>

datatype f32_text = F32 rat | NotFinite

definition F32_LIMIT :: rat where "F32_LIMIT = 2 ^ 128"

definition f32_of :: "rat \<Rightarrow> f32_text" where
  "f32_of x = (let r = f32_round x in if \<bar>r\<bar> < F32_LIMIT then F32 r else NotFinite)"

definition parse_exponent :: "string \<Rightarrow> int option" where
  "parse_exponent s =
     (case s of
        [] \<Rightarrow> Some 0
      | e # rest \<Rightarrow>
          if e = CHR ''e'' \<or> e = CHR ''E''
          then (let neg = (rest \<noteq> [] \<and> hd rest = CHR ''-'');
                    ds = (if rest \<noteq> [] \<and> (hd rest = CHR ''-'' \<or> hd rest = CHR ''+'') then tl rest else rest)
                in if ds \<noteq> [] \<and> list_all is_digit ds
                   then Some (if neg then - int (digits_val ds) else int (digits_val ds)) else None)
          else None)"

definition parse_decimal :: "string \<Rightarrow> rat option" where
  "parse_decimal s =
     (let ip = takeWhile is_digit s; r = dropWhile is_digit s;
          dot = (r \<noteq> [] \<and> hd r = CHR ''.'');
          fp = (if dot then takeWhile is_digit (tl r) else []);
          r = (if dot then dropWhile is_digit (tl r) else r)
      in if ip = [] \<and> fp = [] then None
         else map_option (\<lambda>e. of_nat (digits_val (ip @ fp)) * 10 powi (e - int (length fp))) (parse_exponent r))"

definition parse_f32 :: "string \<Rightarrow> f32_text option" where
  "parse_f32 s =
     (let neg = (s \<noteq> [] \<and> hd s = CHR ''-'');
          t = (if s \<noteq> [] \<and> (hd s = CHR ''-'' \<or> hd s = CHR ''+'') then tl s else s)
      in if to_ascii_lowercase t \<in> {''inf'', ''infinity'', ''nan''} then Some NotFinite
         else map_option (\<lambda>x. f32_of (if neg then - x else x)) (parse_decimal t))"

definition finite_f32 :: "f32_text option \<Rightarrow> rat option" where
  "finite_f32 v = (case v of Some (F32 x) \<Rightarrow> Some x | _ \<Rightarrow> None)"

text \<open>A millidegree value in degrees, and a plain number.\<close>

definition read_sysfs_f32 :: "sysfs \<Rightarrow> string \<Rightarrow> rat option" where
  "read_sysfs_f32 fs path =
     (case sf_read fs path of
        None \<Rightarrow> None
      | Some s \<Rightarrow> map_option (\<lambda>x. f32_round (x / 1000)) (finite_f32 (parse_f32 (trim s))))"

definition read_sysfs_raw_f32 :: "sysfs \<Rightarrow> string \<Rightarrow> rat option" where
  "read_sysfs_raw_f32 fs path =
     (case sf_read fs path of None \<Rightarrow> None | Some s \<Rightarrow> finite_f32 (parse_f32 (trim s)))"

section \<open>Chips and their sensors\<close>

definition HWMON_ROOT :: string where "HWMON_ROOT = ''/sys/class/hwmon''"

definition chip_name :: "sysfs \<Rightarrow> string \<Rightarrow> string option" where
  "chip_name fs hwmon = map_option trim (sf_read fs (in_dir hwmon ''name''))"

definition glob_hwmon_in :: "sysfs \<Rightarrow> string \<Rightarrow> string \<Rightarrow> string list option" where
  "glob_hwmon_in fs base chip =
     (case sf_list fs base of
        None \<Rightarrow> None
      | Some entries \<Rightarrow>
          if chip = [] then Some []
          else
            let exact = filter (\<lambda>e. chip_name fs (in_dir base e) = Some chip) entries;
                prefixed = filter (\<lambda>e. case chip_name fs (in_dir base e) of
                             None \<Rightarrow> False | Some n \<Rightarrow> n \<noteq> chip \<and> starts_with chip n) entries;
                found = (if exact = [] then prefixed else exact)
            in Some (map (in_dir base) (sort_key (\<lambda>e. (length e, e)) found)))"

definition temp_inputs :: "sysfs \<Rightarrow> string \<Rightarrow> string list" where
  "temp_inputs fs hwmon =
     (case sf_list fs hwmon of
        None \<Rightarrow> []
      | Some entries \<Rightarrow>
          sort (filter (starts_with ''temp'') (List.map_filter (strip_suffix ''_input'') entries)))"

definition sensor_reading :: "sysfs \<Rightarrow> string \<Rightarrow> string \<Rightarrow> rat option" where
  "sensor_reading fs hwmon input =
     read_temp_input (sf_read fs (in_dir hwmon (input @ ''_fault'')))
                     (read_sysfs_f32 fs (in_dir hwmon (input @ ''_input'')))"

definition label_matches :: "sysfs \<Rightarrow> string \<Rightarrow> string \<Rightarrow> string option \<Rightarrow> bool" where
  "label_matches fs hwmon input wanted =
     (case wanted of
        None \<Rightarrow> True
      | Some l \<Rightarrow> contains (case sf_read fs (in_dir hwmon (input @ ''_label'')) of None \<Rightarrow> [] | Some s \<Rightarrow> s) l)"

definition resolve_selector_in :: "sysfs \<Rightarrow> string \<Rightarrow> sensor_selector \<Rightarrow> rat list" where
  "resolve_selector_in fs base sel =
     (case glob_hwmon_in fs base (sel_chip sel) of
        None \<Rightarrow> []
      | Some hwmons \<Rightarrow>
          concat (map (\<lambda>hwmon.
            let inputs = (case sel_input sel of Some i \<Rightarrow> [i] | None \<Rightarrow> temp_inputs fs hwmon)
            in List.map_filter (sensor_reading fs hwmon)
                 (filter (\<lambda>i. label_matches fs hwmon i (sel_label sel)) inputs)) hwmons))"

definition all_hwmon :: "sysfs \<Rightarrow> (string \<times> string) list" where
  "all_hwmon fs =
     (case sf_list fs HWMON_ROOT of
        None \<Rightarrow> []
      | Some entries \<Rightarrow>
          sort (List.map_filter (\<lambda>e.
            let path = in_dir HWMON_ROOT e in
            case chip_name fs path of
              None \<Rightarrow> None | Some n \<Rightarrow> if n = [] then None else Some (path, n)) entries))"

definition sensor_description :: "sysfs \<Rightarrow> string \<Rightarrow> string \<Rightarrow> string \<Rightarrow> string" where
  "sensor_description fs hwmon chip input =
     (case map_option trim (sf_read fs (in_dir hwmon (input @ ''_label''))) of
        None \<Rightarrow> chip @ '' '' @ input
      | Some l \<Rightarrow> if l = [] then chip @ '' '' @ input else chip @ '' '' @ input @ '' \"'' @ l @ ''\"'')"

definition all_connected_temps :: "sysfs \<Rightarrow> (string \<times> string \<times> rat) list" where
  "all_connected_temps fs =
     concat (map (\<lambda>(hwmon, chip).
       List.map_filter (\<lambda>input.
         map_option (\<lambda>t. (chip, sensor_description fs hwmon chip input, t)) (sensor_reading fs hwmon input))
         (temp_inputs fs hwmon)) (all_hwmon fs))"

definition coretemp_package :: "sysfs \<Rightarrow> rat option" where
  "coretemp_package fs =
     (case glob_hwmon_in fs HWMON_ROOT ''coretemp'' of
        None \<Rightarrow> None
      | Some hwmons \<Rightarrow>
          (case find_map (\<lambda>hwmon.
             case sf_list fs hwmon of
               None \<Rightarrow> None
             | Some entries \<Rightarrow>
                 map_option (\<lambda>n. in_dir hwmon n)
                   (find (\<lambda>n. starts_with ''temp'' n \<and> strip_suffix ''_label'' n \<noteq> None
                            \<and> (case sf_read fs (in_dir hwmon n) of
                                 None \<Rightarrow> False | Some l \<Rightarrow> starts_with ''Package'' (trim l))) entries)) hwmons of
             None \<Rightarrow> None
           | Some path \<Rightarrow> read_sysfs_f32 fs (replace_str ''_label'' ''_input'' path)))"

definition fan1_rpm :: "sysfs \<Rightarrow> rat option" where
  "fan1_rpm fs =
     (case glob_hwmon_in fs HWMON_ROOT ''it8625'' of
        None \<Rightarrow> None
      | Some hwmons \<Rightarrow>
          find_map (\<lambda>hwmon. case read_sysfs_raw_f32 fs (in_dir hwmon ''fan1_input'') of
                       None \<Rightarrow> None | Some rpm \<Rightarrow> if 0 < rpm then Some rpm else None) hwmons)"

section \<open>Drives\<close>

text \<open>\<open>udev dev\<close> is the output of \<open>udevadm info\<close>, if it ran.\<close>

definition ata_port_for :: "sysfs \<Rightarrow> (string \<Rightarrow> string option) \<Rightarrow> string \<Rightarrow> nat option" where
  "ata_port_for fs udev dev =
     (case udev dev of
        None \<Rightarrow> None
      | Some out \<Rightarrow>
          (case find (starts_with ''DEVPATH='') (str_lines out) of
             None \<Rightarrow> None
           | Some devpath \<Rightarrow>
               (case find (starts_with ''ata'') (split_on CHR ''/'' devpath) of
                  None \<Rightarrow> None
                | Some node \<Rightarrow>
                    (case sf_read fs (''/sys/class/ata_port/'' @ node @ ''/port_no'') of
                       None \<Rightarrow> None | Some s \<Rightarrow> parse_uint (2 ^ 32) (trim s)))))"

definition rsplit_once :: "char \<Rightarrow> string \<Rightarrow> (string \<times> string) option" where
  "rsplit_once c s = map_option (\<lambda>(a, b). (rev b, rev a)) (split_once c (rev s))"

definition nvme_controller :: "string \<Rightarrow> string" where
  "nvme_controller dev = (case rsplit_once CHR ''n'' dev of None \<Rightarrow> dev | Some (ctrl, ns) \<Rightarrow> ctrl)"

definition nvme_temp_for :: "sysfs \<Rightarrow> string \<Rightarrow> rat option" where
  "nvme_temp_for fs dev =
     (case glob_hwmon_in fs HWMON_ROOT ''nvme'' of
        None \<Rightarrow> None
      | Some hwmons \<Rightarrow>
          (case find (\<lambda>hwmon. sf_link fs (in_dir hwmon ''device'') = Some (nvme_controller dev)) hwmons of
             None \<Rightarrow> None | Some hwmon \<Rightarrow> read_sysfs_f32 fs (in_dir hwmon ''temp1_input'')))"

definition block_device_for_hwmon :: "sysfs \<Rightarrow> string \<Rightarrow> string option" where
  "block_device_for_hwmon fs hwmon =
     (case sf_canon fs (in_dir hwmon ''device'') of
        None \<Rightarrow> None
      | Some path \<Rightarrow>
          (case sf_list fs (in_dir path ''block'') of
             None \<Rightarrow> None | Some [] \<Rightarrow> None | Some (e # es) \<Rightarrow> Some e))"

text \<open>The later of two chips with the same bay wins, as inserting into the map does.\<close>

definition drivetemps_by_ata_port :: "sysfs \<Rightarrow> (string \<Rightarrow> string option) \<Rightarrow> nat \<Rightarrow> rat option" where
  "drivetemps_by_ata_port fs udev =
     (case glob_hwmon_in fs HWMON_ROOT ''drivetemp'' of
        None \<Rightarrow> Map.empty
      | Some hwmons \<Rightarrow>
          fold (\<lambda>hwmon m.
            case block_device_for_hwmon fs hwmon of
              None \<Rightarrow> m
            | Some dev \<Rightarrow>
                (case (ata_port_for fs udev dev, read_sysfs_f32 fs (in_dir hwmon ''temp1_input'')) of
                   (Some bay, Some t) \<Rightarrow> m(bay \<mapsto> t)
                 | _ \<Rightarrow> m)) hwmons Map.empty)"

section \<open>Interfaces\<close>

definition is_physical :: "(string \<Rightarrow> bool) \<Rightarrow> string \<Rightarrow> bool" where
  "is_physical exists iface = exists (''/sys/class/net/'' @ iface @ ''/device'')"

definition physical_nics :: "sysfs \<Rightarrow> (string \<Rightarrow> bool) \<Rightarrow> string list" where
  "physical_nics fs exists =
     (case sf_list fs ''/sys/class/net'' of None \<Rightarrow> [] | Some es \<Rightarrow> filter (is_physical exists) es)"

definition carrier :: "sysfs \<Rightarrow> string \<Rightarrow> bool option" where
  "carrier fs iface =
     map_option (\<lambda>s. trim s = ''1'') (sf_read fs (''/sys/class/net/'' @ iface @ ''/carrier''))"

section \<open>What a selector finds\<close>

lemma map_filter_set: "x \<in> set (List.map_filter f xs) \<longleftrightarrow> (\<exists>y\<in>set xs. f y = Some x)"
  by (induction xs) (auto simp: List.map_filter_simps split: option.splits)

lemma temp_inputs_set:
  "i \<in> set (temp_inputs fs hwmon) \<longleftrightarrow>
     starts_with ''temp'' i \<and> (\<exists>es. sf_list fs hwmon = Some es \<and> i @ ''_input'' \<in> set es)"
  by (cases "sf_list fs hwmon") (auto simp: temp_inputs_def map_filter_set strip_suffix_Some)

definition exactly_named :: "sysfs \<Rightarrow> string \<Rightarrow> string \<Rightarrow> string \<Rightarrow> bool" where
  "exactly_named fs base chip hwmon \<longleftrightarrow>
     chip_name fs hwmon = Some chip
     \<and> (\<exists>es e. sf_list fs base = Some es \<and> e \<in> set es \<and> hwmon = in_dir base e)"

lemma glob_set:
  "glob_hwmon_in fs base chip = Some hwmons \<Longrightarrow> chip \<noteq> [] \<Longrightarrow>
     (if \<exists>h. exactly_named fs base chip h then h \<in> set hwmons \<longleftrightarrow> exactly_named fs base chip h
      else h \<in> set hwmons \<longrightarrow> (\<exists>n. chip_name fs h = Some n \<and> starts_with chip n))"
  by (auto simp: glob_hwmon_in_def exactly_named_def Let_def filter_empty_conv split: option.splits if_splits)

lemma reading_bounds:
  "sensor_reading fs hwmon input = Some t \<Longrightarrow>
     PLAUSIBLE_MIN_C \<le> t \<and> read_sysfs_f32 fs (in_dir hwmon (input @ ''_input'')) = Some t"
  by (auto simp: sensor_reading_def read_temp_input_def split: option.splits if_splits)


text \<open>A tree with one chip that reads 200 degrees.\<close>

definition hot_tree :: sysfs where
  "hot_tree =
     \<lparr>sf_list = [''/h'' \<mapsto> [''hwmon0''], ''/h/hwmon0'' \<mapsto> [''name'', ''temp1_input'']],
      sf_read = [''/h/hwmon0/name'' \<mapsto> ''nvme'' @ [CHR 0x0A], ''/h/hwmon0/temp1_input'' \<mapsto> ''200000''],
      sf_link = Map.empty, sf_canon = Map.empty\<rparr>"

text \<open>A selector of that chip.\<close>

definition nvme_selector :: sensor_selector where
  "nvme_selector = selector_default\<lparr>sel_chip := ''nvme''\<rparr>"

lemma hot_tree_read: "read_sysfs_f32 hot_tree ''/h/hwmon0/temp1_input'' = Some 200"
proof -
  have r: "f32_round 200000 = 200000" "f32_round 200 = 200"
    using f32_exact_nat [of 200000] f32_exact_nat [of 200] by simp_all
  have "parse_decimal ''200000'' = Some 200000"
    by (simp add: parse_decimal_def parse_exponent_def is_digit_def digits_val_def digit_val_def Let_def)
  then have "parse_f32 ''200000'' = Some (F32 200000)"
    by (simp add: parse_f32_def to_ascii_lowercase_def f32_of_def r F32_LIMIT_def)
  moreover have "trim ''200000'' = ''200000''" by code_simp
  ultimately show ?thesis by (simp add: read_sysfs_f32_def hot_tree_def finite_f32_def r)
qed


end
