(* ===== verification/Sensors.thy ===== *)
theory Sensors
  imports Sysfs Monitor
begin

text \<open>
  The health monitor on the kernel's tree: \<open>check_temps\<close> of \<open>src/monitor.rs\<close> over the readings
  \<open>all_connected_temps\<close> of \<open>src/hal.rs\<close> collects. The monitor identifies a sensor by its
  description (chip name, input and label). Two chips may share one: every SATA drive is a chip
  \<open>drivetemp\<close> of its own whose only input, \<open>temp1\<close>, has no label.
\<close>

definition check_connected_temps :: "sysfs \<Rightarrow> temperature_config \<Rightarrow> monitor \<Rightarrow> monitor \<times> log_line list" where
  "check_connected_temps fs cfg mon = check_temps cfg (all_connected_temps fs) mon"

section \<open>Equal descriptions\<close>

text \<open>The reading of a description that comes last in the sweep.\<close>

definition last_reading :: "(string \<times> string \<times> rat) list \<Rightarrow> string \<Rightarrow> (string \<times> string \<times> rat) option" where
  "last_reading temps l = find (\<lambda>r. reading_label r = l) (rev temps)"

lemma find_append: "find P (xs @ ys) = (case find P xs of None \<Rightarrow> find P ys | Some x \<Rightarrow> Some x)"
  by (induction xs) auto

lemma last_reading_Cons:
  "last_reading (r # temps) l =
     (case last_reading temps l of None \<Rightarrow> if reading_label r = l then Some r else None | Some x \<Rightarrow> Some x)"
  by (simp add: last_reading_def find_append split: option.split)

lemma last_reading_None: "last_reading temps l = None \<longleftrightarrow> l \<notin> reading_label ` set temps"
  unfolding last_reading_def find_None_iff set_rev image_iff by metis

lemma last_reading_Some: "last_reading temps l = Some r \<Longrightarrow> reading_label r = l \<and> r \<in> set temps"
  unfolding last_reading_def find_Some_iff by (metis length_rev nth_mem set_rev)

lemma note_temps_last:
  "map_of (mon_temps (fst (note_temps cfg temps mon))) l =
     (case last_reading temps l of None \<Rightarrow> map_of (mon_temps mon) l | Some r \<Rightarrow> Some (reading_state cfg r))"
proof (induction temps arbitrary: mon)
  case Nil
  then show ?case by (simp add: last_reading_def)
next
  case (Cons r temps)
  obtain chip lbl t where r: "r = (chip, lbl, t)" by (cases r)
  show ?case
    unfolding r note_temps_step(1) Cons.IH last_reading_Cons
    by (simp add: note_temp_temps update_conv' reading_state_def reading_level_def split: option.split)
qed

lemma check_temps_last:
  "map_of (mon_temps (fst (check_temps cfg temps mon))) l = map_option (reading_state cfg) (last_reading temps l)"
proof (cases "last_reading temps l")
  case None
  then have "\<not> list_ex (\<lambda>(_, l', _). l' = l) temps" by (force simp: last_reading_None list_ex_iff)
  then have "l \<notin> fst ` set (filter (\<lambda>(lbl, _). list_ex (\<lambda>(_, l, _). l = lbl) temps) (mon_temps mon))" by auto
  then have "map_of (filter (\<lambda>(lbl, _). list_ex (\<lambda>(_, l, _). l = lbl) temps) (mon_temps mon)) l = None"
    by (simp add: map_of_eq_None_iff)
  then show ?thesis by (simp add: check_temps_def note_temps_last None)
qed (simp add: check_temps_def note_temps_last)

lemma check_temps_distinct:
  "distinct (map fst (mon_temps mon)) \<Longrightarrow> distinct (map fst (mon_temps (fst (check_temps cfg temps mon))))"
  unfolding check_temps_def by (rule note_temps_distinct) (simp add: distinct_map_filter)

text \<open>C34. What a sweep of the connected sensors leaves, whatever their descriptions: a description has the
  state its last reading in the sweep gives it, one without a reading is forgotten, and the worst
  level, which the status LED and the alarm follow, is the maximum over these last readings. An
  earlier reading under the same description has no effect, however hot: with two SATA drives at
  70 and 30 degrees and the default thresholds the monitor is at info.\<close>

theorem last_reading_counts:
  assumes "distinct (map fst (mon_temps mon))"
  shows "let temps = all_connected_temps fs; mon' = fst (check_connected_temps fs cfg mon) in
    (\<forall>l. map_of (mon_temps mon') l = map_option (reading_state cfg) (last_reading temps l))
    \<and> worst_temp_level mon' =
        Max (insert Info (reading_level cfg ` {r \<in> set temps. last_reading temps (reading_label r) = Some r}))"
proof -
  define temps where "temps = all_connected_temps fs"
  define mon' where "mon' = fst (check_temps cfg temps mon)"
  have get: "map_of (mon_temps mon') l = map_option (reading_state cfg) (last_reading temps l)" for l
    by (simp add: mon'_def check_temps_last)
  have dist: "distinct (map fst (mon_temps mon'))" unfolding mon'_def using assms by (rule check_temps_distinct)
  have "snd ` set (mon_temps mon') = ran (map_of (mon_temps mon'))"
    using dist by (simp add: ran_distinct)
  also have "\<dots> = reading_state cfg ` {r. \<exists>l. last_reading temps l = Some r}"
    by (auto simp: ran_def get)
  also have "{r. \<exists>l. last_reading temps l = Some r} = {r \<in> set temps. last_reading temps (reading_label r) = Some r}"
    using last_reading_Some by fast
  finally have "ts_level ` snd ` set (mon_temps mon') =
      reading_level cfg ` {r \<in> set temps. last_reading temps (reading_label r) = Some r}"
    by (simp add: image_image reading_state_def case_prod_beta)
  then show ?thesis
    using get by (simp add: check_connected_temps_def worst_temp_level_max flip: temps_def mon'_def)
qed

section \<open>Two drives\<close>

text \<open>The tree of two SATA drives, the first at 70 degrees, the second at 30.\<close>

definition two_drives :: sysfs where
  "two_drives =
     \<lparr>sf_list = [HWMON_ROOT \<mapsto> [''hwmon1'', ''hwmon2''],
                in_dir HWMON_ROOT ''hwmon1'' \<mapsto> [''name'', ''temp1_input''],
                in_dir HWMON_ROOT ''hwmon2'' \<mapsto> [''name'', ''temp1_input'']],
      sf_read = [in_dir HWMON_ROOT ''hwmon1/name'' \<mapsto> ''drivetemp'',
                 in_dir HWMON_ROOT ''hwmon2/name'' \<mapsto> ''drivetemp'',
                 in_dir HWMON_ROOT ''hwmon1/temp1_input'' \<mapsto> ''70000'',
                 in_dir HWMON_ROOT ''hwmon2/temp1_input'' \<mapsto> ''30000''],
      sf_link = Map.empty, sf_canon = Map.empty\<rparr>"

lemma parse_decimal_drives: "parse_decimal ''70000'' = Some 70000" "parse_decimal ''30000'' = Some 30000"
  by (simp_all add: parse_decimal_def parse_exponent_def is_digit_def digits_val_def digit_val_def Let_def)

lemma f32_round_drives: "f32_round 70000 = 70000" "f32_round 30000 = 30000" "f32_round 70 = 70" "f32_round 30 = 30"
  using f32_exact_nat [of 70000] f32_exact_nat [of 30000] f32_exact_nat [of 70] f32_exact_nat [of 30] by simp_all

lemma trim_drives: "trim ''70000'' = ''70000''" "trim ''30000'' = ''30000''" "trim ''drivetemp'' = ''drivetemp''"
  by code_simp+

lemma drive_files:
  "read_sysfs_f32 two_drives ''/sys/class/hwmon/hwmon1/temp1_input'' = Some 70"
  "read_sysfs_f32 two_drives ''/sys/class/hwmon/hwmon2/temp1_input'' = Some 30"
  by (simp_all add: read_sysfs_f32_def two_drives_def in_dir_def HWMON_ROOT_def trim_drives parse_f32_def
      parse_decimal_drives f32_of_def f32_round_drives F32_LIMIT_def finite_f32_def to_ascii_lowercase_def)

lemma drives_listed:
  "all_hwmon two_drives =
     [(''/sys/class/hwmon/hwmon1'', ''drivetemp''), (''/sys/class/hwmon/hwmon2'', ''drivetemp'')]"
proof -
  have "chip_name two_drives ''/sys/class/hwmon/hwmon1'' = Some ''drivetemp''"
    "chip_name two_drives ''/sys/class/hwmon/hwmon2'' = Some ''drivetemp''"
    by (simp_all add: chip_name_def two_drives_def in_dir_def HWMON_ROOT_def trim_drives)
  then have "all_hwmon two_drives =
      sort [(''/sys/class/hwmon/hwmon1'', ''drivetemp''), (''/sys/class/hwmon/hwmon2'', ''drivetemp'')]"
    by (simp add: all_hwmon_def two_drives_def in_dir_def HWMON_ROOT_def List.map_filter_simps)
  also have "\<dots> = [(''/sys/class/hwmon/hwmon1'', ''drivetemp''), (''/sys/class/hwmon/hwmon2'', ''drivetemp'')]"
    by code_simp
  finally show ?thesis .
qed

lemma drive_inputs:
  "temp_inputs two_drives ''/sys/class/hwmon/hwmon1'' = [''temp1'']"
  "temp_inputs two_drives ''/sys/class/hwmon/hwmon2'' = [''temp1'']"
  by (simp_all add: temp_inputs_def two_drives_def in_dir_def HWMON_ROOT_def List.map_filter_simps
      strip_suffix_def starts_with_def)

lemma drives_read:
  "all_connected_temps two_drives =
     [(''drivetemp'', ''drivetemp temp1'', 70), (''drivetemp'', ''drivetemp temp1'', 30)]"
proof -
  have none: "sf_read two_drives ''/sys/class/hwmon/hwmon1/temp1_label'' = None"
    "sf_read two_drives ''/sys/class/hwmon/hwmon2/temp1_label'' = None"
    "sf_read two_drives ''/sys/class/hwmon/hwmon1/temp1_fault'' = None"
    "sf_read two_drives ''/sys/class/hwmon/hwmon2/temp1_fault'' = None"
    by (simp_all add: two_drives_def in_dir_def HWMON_ROOT_def)
  show ?thesis
    by (simp add: all_connected_temps_def drives_listed drive_inputs List.map_filter_simps sensor_reading_def
        sensor_description_def in_dir_def none drive_files read_temp_input_def PLAUSIBLE_MIN_C_def)
qed

theorem last_reading_counts_witness:
  "reading_level temperature_default (''drivetemp'', ''drivetemp temp1'', 70) = Critical
   \<and> (''drivetemp'', ''drivetemp temp1'', 70) \<in> set (all_connected_temps two_drives)
   \<and> worst_temp_level (fst (check_connected_temps two_drives temperature_default monitor_new)) = Info"
proof -
  have "resolve_temp_threshold temperature_default ''drivetemp'' = (50, 60)" by code_simp
  then have l: "reading_level temperature_default (''drivetemp'', ''drivetemp temp1'', 70) = Critical"
    "reading_level temperature_default (''drivetemp'', ''drivetemp temp1'', 30) = Info"
    by (simp_all add: reading_level_def temp_level_def)
  have "{r \<in> set (all_connected_temps two_drives).
      last_reading (all_connected_temps two_drives) (reading_label r) = Some r}
      = {(''drivetemp'', ''drivetemp temp1'', 30)}"
    by (auto simp: drives_read last_reading_def)
  with last_reading_counts [of monitor_new two_drives temperature_default]
  have "worst_temp_level (fst (check_connected_temps two_drives temperature_default monitor_new)) = Info"
    by (simp add: monitor_new_def Let_def l)
  with l show ?thesis by (simp add: drives_read)
qed

end
