(* ===== verification/Calibrate.thy ===== *)
theory Calibrate
  imports Sysfs
begin

text \<open>
  \<open>src/fan_calibrate.rs\<close> (\<open>lcm-status fan-profile\<close>): which pwm outputs drive a fan, at which value the fan
  stalls and at which it starts again. It runs on real hardware beside a daemon that drives the same
  outputs, and a signal may end it anywhere.

  What is written and which units are stopped and started is a list of events. The environment is the
  tree of kernel files, which depends on everything written so far and on the instant, and whether a
  signal has arrived by then; a sleep takes what it asks for. A tachometer prints an integer; text that reads as no finite number counts as 0.
\<close>

section \<open>Outputs and tachometers\<close>

record pwm_candidate =
  pc_hwmon :: string
  pc_chip_name :: string
  pc_pwm_index :: nat

datatype calibration_result =
  Found pwm_candidate nat nat nat rat
| NoFanDetected pwm_candidate

definition entries_of :: "sysfs \<Rightarrow> string \<Rightarrow> string list" where
  "entries_of fs dir = (case sf_list fs dir of None \<Rightarrow> [] | Some es \<Rightarrow> es)"

definition pwm_indices :: "sysfs \<Rightarrow> string \<Rightarrow> nat list" where
  "pwm_indices fs hwmon =
     sort (List.map_filter (\<lambda>name.
       case strip_prefix ''pwm'' name of
         None \<Rightarrow> None
       | Some n \<Rightarrow> if n \<noteq> [] \<and> list_all is_digit n then parse_uint (2 ^ 32) n else None) (entries_of fs hwmon))"

definition fan_indices :: "sysfs \<Rightarrow> string \<Rightarrow> nat list" where
  "fan_indices fs hwmon =
     sort (List.map_filter (\<lambda>name.
       case strip_prefix ''fan'' name of
         None \<Rightarrow> None
       | Some rest \<Rightarrow>
           (case strip_suffix ''_input'' rest of None \<Rightarrow> None | Some n \<Rightarrow> parse_uint (2 ^ 32) n)) (entries_of fs hwmon))"

definition find_pwm_candidates :: "sysfs \<Rightarrow> pwm_candidate list" where
  "find_pwm_candidates fs =
     concat (map (\<lambda>(hwmon, chip).
       if chip = [] then []
       else map (\<lambda>i. \<lparr>pc_hwmon = hwmon, pc_chip_name = chip, pc_pwm_index = i\<rparr>) (pwm_indices fs hwmon))
       (all_hwmon fs))"

definition read_fan_rpm :: "sysfs \<Rightarrow> string \<Rightarrow> nat \<Rightarrow> rat" where
  "read_fan_rpm fs hwmon i =
     (case sf_read fs (in_dir hwmon (''fan'' @ nat_str i @ ''_input'')) of
        None \<Rightarrow> 0
      | Some s \<Rightarrow> (case finite_f32 (parse_f32 (trim s)) of None \<Rightarrow> 0 | Some x \<Rightarrow> x))"

section \<open>Steps of a sweep\<close>

datatype sweep_event = WriteFile string string | StopUnit string | StartUnit string

record sweep =
  sw_now :: instant
  sw_events :: "sweep_event list"

record sweep_env =
  se_tree :: "sweep_event list \<Rightarrow> instant \<Rightarrow> sysfs"
  se_requested :: "instant \<Rightarrow> bool"

definition tree_now :: "sweep_env \<Rightarrow> sweep \<Rightarrow> sysfs" where
  "tree_now env s = se_tree env (sw_events s) (sw_now s)"

definition record_events :: "sweep_event list \<Rightarrow> sweep \<Rightarrow> sweep" where
  "record_events es s = s\<lparr>sw_events := sw_events s @ es\<rparr>"

definition pwm_path :: "pwm_candidate \<Rightarrow> string" where
  "pwm_path c = in_dir (pc_hwmon c) (''pwm'' @ nat_str (pc_pwm_index c))"

definition enable_path :: "pwm_candidate \<Rightarrow> string" where
  "enable_path c = pwm_path c @ ''_enable''"

definition set_pwm :: "pwm_candidate \<Rightarrow> nat \<Rightarrow> sweep \<Rightarrow> sweep" where
  "set_pwm c v s = record_events [WriteFile (enable_path c) ''1'', WriteFile (pwm_path c) (nat_str v)] s"

function sleep_loop :: "(instant \<Rightarrow> bool) \<Rightarrow> instant \<Rightarrow> instant \<Rightarrow> bool \<times> instant" where
  "sleep_loop requested deadline now =
     (if now < deadline
      then if requested now then (False, now)
           else sleep_loop requested deadline (now + min (millis 100) (since deadline now))
      else (\<not> requested now, now))"
  by pat_completeness auto
termination
  by (relation "measure (\<lambda>(requested, deadline, now). since deadline now)") (auto simp: since_def millis_def)

declare sleep_loop.simps [simp del]

text \<open>True if no signal arrived.\<close>

definition interruptible_sleep :: "sweep_env \<Rightarrow> duration \<Rightarrow> sweep \<Rightarrow> bool \<times> sweep" where
  "interruptible_sleep env d s =
     (case sleep_loop (se_requested env) (sw_now s + d) (sw_now s) of (ok, t) \<Rightarrow> (ok, s\<lparr>sw_now := t\<rparr>))"

section \<open>Restoring an output\<close>

record pwm_restore =
  pr_pwm_path :: string
  pr_enable_path :: string
  pr_orig_pwm :: "string option"
  pr_orig_enable :: "string option"

definition capture :: "sysfs \<Rightarrow> pwm_candidate \<Rightarrow> pwm_restore" where
  "capture fs c =
     \<lparr>pr_pwm_path = pwm_path c, pr_enable_path = enable_path c,
      pr_orig_pwm = sf_read fs (pwm_path c), pr_orig_enable = sf_read fs (enable_path c)\<rparr>"

definition drop_restore :: "pwm_restore \<Rightarrow> sweep \<Rightarrow> sweep" where
  "drop_restore r s =
     record_events
       ((case pr_orig_pwm r of None \<Rightarrow> [] | Some v \<Rightarrow> [WriteFile (pr_pwm_path r) (trim v)])
        @ (case pr_orig_enable r of None \<Rightarrow> [] | Some v \<Rightarrow> [WriteFile (pr_enable_path r) (trim v)])) s"

section \<open>One output\<close>

text \<open>\<open>None\<close> is \<open>Err(Interrupted)\<close>.\<close>

definition probe :: "sweep_env \<Rightarrow> pwm_candidate \<Rightarrow> nat list \<Rightarrow> nat \<Rightarrow> duration \<Rightarrow> sweep \<Rightarrow> (nat \<times> rat) list option \<times> sweep" where
  "probe env c fans v d s =
     (case interruptible_sleep env d (set_pwm c v s) of
        (False, s) \<Rightarrow> (None, s)
      | (True, s) \<Rightarrow> (Some (map (\<lambda>i. (i, read_fan_rpm (tree_now env s) (pc_hwmon c) i)) fans), s))"

definition get_rpm :: "(nat \<times> rat) list \<Rightarrow> nat \<Rightarrow> rat" where
  "get_rpm v i = (case find (\<lambda>(k, r). k = i) v of None \<Rightarrow> 0 | Some (k, r) \<Rightarrow> r)"

definition response :: "(nat \<times> rat) list \<Rightarrow> (nat \<times> rat) list \<Rightarrow> (nat \<times> rat) list \<Rightarrow> nat \<Rightarrow> (nat \<times> rat \<times> rat) option" where
  "response hi1 lo hi2 i =
     (let h1 = get_rpm hi1 i; l = get_rpm lo i; h2 = get_rpm hi2 i; peak = max h1 h2 in
      if peak \<le> 0 then None
      else if l < f32_round (peak * f32_round (7 / 10)) then Some (i, h2, f32_round (peak - l))
      else None)"

definition best_response :: "(nat \<times> rat) list \<Rightarrow> (nat \<times> rat) list \<Rightarrow> (nat \<times> rat) list \<Rightarrow> nat list \<Rightarrow> (nat \<times> rat) option" where
  "best_response hi1 lo hi2 fans =
     map_option (\<lambda>(i, h2, delta). (i, h2))
       (max_by_key (\<lambda>(i, h2, delta). delta) (List.map_filter (response hi1 lo hi2) fans))"

text \<open>The downward ramp: the value it ended at, the lowest value the fan was seen turning at, and whether it
  stalled.\<close>

function ramp_down ::
  "sweep_env \<Rightarrow> pwm_candidate \<Rightarrow> nat \<Rightarrow> nat \<Rightarrow> nat \<Rightarrow> sweep \<Rightarrow> (nat \<times> nat \<times> bool) option \<times> sweep" where
  "ramp_down env c fan pwm min_stop s =
     (let pwm' = pwm - 15 in
      case interruptible_sleep env (millis 1500) (set_pwm c pwm' s) of
        (False, s) \<Rightarrow> (None, s)
      | (True, s) \<Rightarrow>
          if read_fan_rpm (tree_now env s) (pc_hwmon c) fan \<le> 0 then (Some (pwm', min_stop, True), s)
          else if pwm' = 0 then (Some (pwm', pwm', False), s)
          else ramp_down env c fan pwm' pwm' s)"
  by pat_completeness auto
termination
  by (relation "measure (\<lambda>(env, c, fan, pwm, min_stop, s). pwm)") auto

function ramp_up :: "sweep_env \<Rightarrow> pwm_candidate \<Rightarrow> nat \<Rightarrow> nat \<Rightarrow> sweep \<Rightarrow> nat option \<times> sweep" where
  "ramp_up env c fan up s =
     (let up' = min 255 (up + 10) in
      case interruptible_sleep env (millis 1500) (set_pwm c up' s) of
        (False, s) \<Rightarrow> (None, s)
      | (True, s) \<Rightarrow>
          if 0 < read_fan_rpm (tree_now env s) (pc_hwmon c) fan \<or> up' = 255 then (Some up', s)
          else ramp_up env c fan up' s)"
  by pat_completeness auto
termination
  by (relation "measure (\<lambda>(env, c, fan, up, s). 255 - up)") auto

declare ramp_down.simps [simp del] ramp_up.simps [simp del]

definition measure_fan ::
  "sweep_env \<Rightarrow> pwm_candidate \<Rightarrow> nat \<Rightarrow> rat \<Rightarrow> sweep \<Rightarrow> calibration_result option \<times> sweep" where
  "measure_fan env c fan max_rpm s =
     (case ramp_down env c fan 255 255 s of
        (None, s) \<Rightarrow> (None, s)
      | (Some (pwm, min_stop, True), s) \<Rightarrow>
          (case ramp_up env c fan pwm s of
             (None, s) \<Rightarrow> (None, s)
           | (Some min_start, s) \<Rightarrow> (Some (Found c fan min_start (max min_stop 1) max_rpm), s))
      | (Some (pwm, min_stop, False), s) \<Rightarrow> (Some (Found c fan min_stop (max min_stop 1) max_rpm), s))"

definition sweep_output :: "sweep_env \<Rightarrow> pwm_candidate \<Rightarrow> nat list \<Rightarrow> sweep \<Rightarrow> calibration_result option \<times> sweep" where
  "sweep_output env c fans s =
     (case probe env c fans 255 (secs 2) s of
        (None, s) \<Rightarrow> (None, s)
      | (Some hi1, s) \<Rightarrow>
          (case probe env c fans 20 (secs 3) s of
             (None, s) \<Rightarrow> (None, s)
           | (Some lo, s) \<Rightarrow>
               (case probe env c fans 255 (secs 3) s of
                  (None, s) \<Rightarrow> (None, s)
                | (Some hi2, s) \<Rightarrow>
                    (case best_response hi1 lo hi2 fans of
                       None \<Rightarrow> (Some (NoFanDetected c), s)
                     | Some (fan, max_rpm) \<Rightarrow> measure_fan env c fan max_rpm s))))"

definition calibrate_one :: "sweep_env \<Rightarrow> pwm_candidate \<Rightarrow> sweep \<Rightarrow> calibration_result option \<times> sweep" where
  "calibrate_one env c s =
     (let fans = fan_indices (tree_now env s) (pc_hwmon c) in
      if fans = [] then (Some (NoFanDetected c), s)
      else
        let restore = capture (tree_now env s) c in
        case sweep_output env c fans s of (r, s) \<Rightarrow> (r, drop_restore restore s))"

section \<open>The whole pass\<close>

datatype profile_outcome = NotRoot | NoOutputs | Declined | WasInterrupted | NoFans | Proposed "string list"

definition confirmed :: "string option \<Rightarrow> bool" where
  "confirmed answer =
     (case answer of None \<Rightarrow> False | Some l \<Rightarrow> to_ascii_lowercase (trim l) \<in> {''y'', ''yes''})"

text \<open>The block \<open>print_proposed_toml\<close> prints, a line each.\<close>

definition proposed_toml :: "nat \<Rightarrow> pwm_candidate \<Rightarrow> nat \<Rightarrow> nat \<Rightarrow> nat \<Rightarrow> string list" where
  "proposed_toml i c fan min_start min_stop =
     [''[[fans]]'',
      ''name = \"'' @ (if i = 0 then ''chassis'' else ''fan'' @ nat_str i) @ ''\"'',
      ''pwm_chip = \"'' @ pc_chip_name c @ ''\"'',
      ''pwm_index = '' @ nat_str (pc_pwm_index c),
      ''fan_index = '' @ nat_str fan,
      ''update_secs = 1'', ''min_temp_c = 45.0'', ''max_temp_c = 90.0'',
      ''min_start_pwm = '' @ nat_str min_start,
      ''min_stop_pwm = '' @ nat_str min_stop,
      ''min_pwm = '' @ nat_str min_stop,
      ''max_pwm = 255'',
      ''sensors = []  # fill in from the sensor inventory above, e.g.:'',
      ''# [[fans.sensors]]'', ''# chip = \"coretemp\"'', ''# label = \"Package\"'', []]"

fun calibrate_all :: "sweep_env \<Rightarrow> pwm_candidate list \<Rightarrow> sweep \<Rightarrow> calibration_result list option \<times> sweep" where
  "calibrate_all env [] s = (Some [], s)"
| "calibrate_all env (c # cs) s =
     (case calibrate_one env c s of
        (None, s) \<Rightarrow> (None, s)
      | (Some r, s) \<Rightarrow> (case calibrate_all env cs s of (rs, s) \<Rightarrow> (map_option ((#) r) rs, s)))"

definition proposals :: "calibration_result list \<Rightarrow> string list" where
  "proposals results =
     concat (map (\<lambda>(i, r). case r of
       Found c fan min_start min_stop rpm \<Rightarrow> proposed_toml i c fan min_start min_stop
     | NoFanDetected c \<Rightarrow> []) (enumerate 0 results))"

definition was_found :: "calibration_result \<Rightarrow> bool" where
  "was_found r = (case r of Found c fan a b rpm \<Rightarrow> True | NoFanDetected c \<Rightarrow> False)"

definition DAEMON_UNIT :: string where "DAEMON_UNIT = ''lcm-status.service''"

text \<open>\<open>DaemonPause\<close>: the daemon is stopped if it runs, and started again when the pause is dropped.\<close>

definition stop_daemon :: "bool \<Rightarrow> sweep \<Rightarrow> sweep" where
  "stop_daemon was_active s = (if was_active then record_events [StopUnit DAEMON_UNIT] s else s)"

definition resume_daemon :: "bool \<Rightarrow> sweep \<Rightarrow> sweep" where
  "resume_daemon was_active s = (if was_active then record_events [StartUnit DAEMON_UNIT] s else s)"

text \<open>\<open>run\<close>; \<open>active\<close> is what \<open>systemctl is-active\<close> answers.\<close>

definition fan_profile_run ::
  "sweep_env \<Rightarrow> bool \<Rightarrow> bool \<Rightarrow> string option \<Rightarrow> bool \<Rightarrow> sweep \<Rightarrow> profile_outcome \<times> sweep" where
  "fan_profile_run env as_root assume_yes answer active s =
     (if \<not> as_root then (NotRoot, s)
      else
        let candidates = find_pwm_candidates (tree_now env s) in
        if candidates = [] then (NoOutputs, s)
        else if \<not> assume_yes \<and> \<not> confirmed answer then (Declined, s)
        else
          case calibrate_all env candidates (stop_daemon active s) of
            (results, s) \<Rightarrow>
              let s = resume_daemon active s in
              case results of
                None \<Rightarrow> (WasInterrupted, s)
              | Some rs \<Rightarrow> (if list_ex was_found rs then Proposed (proposals rs) else NoFans, s))"

section \<open>What a pass leaves behind\<close>

definition touches :: "pwm_candidate \<Rightarrow> sweep_event \<Rightarrow> bool" where
  "touches c e = (case e of WriteFile p v \<Rightarrow> p = pwm_path c \<or> p = enable_path c | _ \<Rightarrow> False)"

definition last_written :: "string \<Rightarrow> sweep_event list \<Rightarrow> string option" where
  "last_written path es =
     fold (\<lambda>e w. case e of WriteFile p v \<Rightarrow> if p = path then Some v else w | _ \<Rightarrow> w) es None"

lemma last_written_append:
  "last_written path (es @ [e]) =
     (case e of WriteFile p v \<Rightarrow> if p = path then Some v else last_written path es | _ \<Rightarrow> last_written path es)"
  by (cases e) (simp_all add: last_written_def)

definition holds_again :: "string option \<Rightarrow> string \<Rightarrow> sweep_event list \<Rightarrow> bool" where
  "holds_again original path es = (case original of None \<Rightarrow> True | Some v \<Rightarrow> last_written path es = Some (trim v))"

text \<open>The events of one output: only its two files are written, and both end as they were in \<open>fs\<close>.\<close>

definition put_back :: "sysfs \<Rightarrow> pwm_candidate \<Rightarrow> sweep_event list \<Rightarrow> bool" where
  "put_back fs c es \<longleftrightarrow>
     list_all (touches c) es
     \<and> (es = [] \<or> holds_again (sf_read fs (pwm_path c)) (pwm_path c) es
                  \<and> holds_again (sf_read fs (enable_path c)) (enable_path c) es)"

lemma paths_apart [simp]: "pwm_path c \<noteq> enable_path c" "enable_path c \<noteq> pwm_path c"
  by (simp_all add: enable_path_def)

definition wrote :: "pwm_candidate \<Rightarrow> sweep \<Rightarrow> sweep \<Rightarrow> bool" where
  "wrote c s s' \<longleftrightarrow> (\<exists>es. sw_events s' = sw_events s @ es \<and> list_all (touches c) es)"

lemma wrote_refl [simp]: "wrote c s s"
  by (simp add: wrote_def)

lemma wrote_trans: "wrote c s s' \<Longrightarrow> wrote c s' s'' \<Longrightarrow> wrote c s s''"
  by (auto simp: wrote_def)

lemma wrote_now [simp]: "wrote c s (s'\<lparr>sw_now := t\<rparr>) = wrote c s s'"
  by (simp add: wrote_def)

text \<open>The writes that command the output through the values \<open>vs\<close>, in order.\<close>

definition commands :: "pwm_candidate \<Rightarrow> nat list \<Rightarrow> sweep_event list" where
  "commands c vs = concat (map (\<lambda>v. [WriteFile (enable_path c) ''1'', WriteFile (pwm_path c) (nat_str v)]) vs)"

lemma commands_simps [simp]:
  "commands c [] = []" "commands c (vs @ ws) = commands c vs @ commands c ws"
  by (simp_all add: commands_def)

lemma commands_Cons: "commands c (v # vs) = commands c [v] @ commands c vs"
  by (simp add: commands_def)

lemma set_pwm_events: "sw_events (set_pwm c v s) = sw_events s @ commands c [v]"
  by (simp add: set_pwm_def record_events_def commands_def)

lemma wrote_set_pwm [simp]: "wrote c s (set_pwm c v s)"
  by (simp add: wrote_def set_pwm_def record_events_def touches_def)

lemma set_pwm_now [simp]: "sw_now (set_pwm c v s) = sw_now s"
  by (simp add: set_pwm_def record_events_def)

lemma sleep_loop_time:
  "sleep_loop requested deadline now = (ok, t) \<Longrightarrow> now \<le> deadline \<Longrightarrow> t \<le> deadline \<and> (ok \<longrightarrow> t = deadline)"
proof (induction requested deadline now arbitrary: ok t rule: sleep_loop.induct)
  case (1 requested deadline now)
  show ?case
  proof (cases "now < deadline \<and> \<not> requested now")
    case True
    with 1(2) have "sleep_loop requested deadline (now + min (millis 100) (since deadline now)) = (ok, t)"
      by (subst (asm) sleep_loop.simps) auto
    moreover from True have "now + min (millis 100) (since deadline now) \<le> deadline" by (auto simp: since_def min_def)
    ultimately show ?thesis using 1(1) True by blast
  next
    case False
    with 1(2,3) show ?thesis by (subst (asm) sleep_loop.simps) (auto split: if_splits)
  qed
qed

text \<open>A step: set the output, then wait.\<close>

lemma step_time:
  assumes "interruptible_sleep env d (set_pwm c v s) = (ok, s')"
  shows "sw_now s' \<le> sw_now s + d" "ok \<Longrightarrow> sw_now s' = sw_now s + d" "wrote c s s'"
    "sw_events s' = sw_events s @ commands c [v]"
proof -
  obtain t where t: "sleep_loop (se_requested env) (sw_now s + d) (sw_now s) = (ok, t)"
    "s' = (set_pwm c v s)\<lparr>sw_now := t\<rparr>"
    using assms by (auto simp: interruptible_sleep_def split: prod.splits)
  from sleep_loop_time [OF t(1)] t(2)
  show "sw_now s' \<le> sw_now s + d" "ok \<Longrightarrow> sw_now s' = sw_now s + d" "wrote c s s'"
    "sw_events s' = sw_events s @ commands c [v]" by (auto simp: set_pwm_events)
qed

text \<open>The speed a fan shows when, from \<open>s\<close> on, the output has been commanded through \<open>vs\<close>, \<open>d\<close> later.\<close>

definition rpm_after :: "sweep_env \<Rightarrow> pwm_candidate \<Rightarrow> nat \<Rightarrow> sweep \<Rightarrow> nat list \<Rightarrow> duration \<Rightarrow> rat" where
  "rpm_after env c fan s vs d = read_fan_rpm (se_tree env (sw_events s @ commands c vs) (sw_now s + d)) (pc_hwmon c) fan"

text \<open>\<open>s'\<close> is what \<open>s\<close> has become when just that has been done.\<close>

definition commanded_to :: "pwm_candidate \<Rightarrow> sweep \<Rightarrow> nat list \<Rightarrow> duration \<Rightarrow> sweep \<Rightarrow> bool" where
  "commanded_to c s vs d s' \<longleftrightarrow> sw_events s' = sw_events s @ commands c vs \<and> sw_now s' = sw_now s + d"

lemma rpm_now: "commanded_to c s vs d s' \<Longrightarrow> read_fan_rpm (tree_now env s') (pc_hwmon c) fan = rpm_after env c fan s vs d"
  by (simp add: commanded_to_def rpm_after_def tree_now_def)

lemma rpm_later:
  "commanded_to c s vs d s' \<Longrightarrow> rpm_after env c fan s' ws d' = rpm_after env c fan s (vs @ ws) (d + d')"
  by (simp add: commanded_to_def rpm_after_def add.assoc)

lemma commanded_trans:
  "commanded_to c s vs d s' \<Longrightarrow> commanded_to c s' ws d' s'' \<Longrightarrow> commanded_to c s (vs @ ws) (d + d') s''"
  by (simp add: commanded_to_def)

lemma step_commands:
  "interruptible_sleep env d (set_pwm c v s) = (True, s') \<Longrightarrow> commanded_to c s [v] d s'"
  using step_time by (auto simp: commanded_to_def)

lemma probe_step:
  assumes "probe env c fans v d s = (r, s')"
  shows "sw_now s' \<le> sw_now s + d" "wrote c s s'"
    "r = Some m \<Longrightarrow> commanded_to c s [v] d s' \<and> m = map (\<lambda>i. (i, rpm_after env c i s [v] d)) fans"
proof -
  obtain ok s1 where s1: "interruptible_sleep env d (set_pwm c v s) = (ok, s1)" by fastforce
  note step_time [OF s1]
  with assms show "sw_now s' \<le> sw_now s + d" "wrote c s s'"
    by (auto simp: probe_def s1 split: bool.splits)
  show "commanded_to c s [v] d s' \<and> m = map (\<lambda>i. (i, rpm_after env c i s [v] d)) fans" if "r = Some m"
  proof -
    from assms that have ok: "ok" "s' = s1" "m = map (\<lambda>i. (i, read_fan_rpm (tree_now env s1) (pc_hwmon c) i)) fans"
      by (auto simp: probe_def s1 split: bool.splits)
    with s1 have "commanded_to c s [v] d s'" using step_commands by simp
    with ok rpm_now [OF this] show ?thesis by simp
  qed
qed

subsection \<open>The ramps\<close>

definition STEP :: duration where "STEP = millis 1500"

lemma ramp_down_step:
  assumes s1: "interruptible_sleep env STEP (set_pwm c (pwm - 15) s) = (ok, s1)"
  shows "ramp_down env c fan pwm m s =
    (if \<not> ok then (None, s1)
     else if rpm_after env c fan s [pwm - 15] STEP \<le> 0 then (Some (pwm - 15, m, True), s1)
     else if pwm - 15 = 0 then (Some (0, 0, False), s1)
     else ramp_down env c fan (pwm - 15) (pwm - 15) s1)"
  using rpm_now [of c s "[pwm - 15]" STEP s1 env fan] step_commands [of env STEP c "pwm - 15" s s1] s1
  by (subst ramp_down.simps) (simp add: s1 [unfolded STEP_def] STEP_def Let_def split: bool.split)

text \<open>The values the downward ramp commands from \<open>15 * n\<close> in \<open>k\<close> steps, and the upward one from \<open>u\<close>.\<close>

definition downs :: "nat \<Rightarrow> nat \<Rightarrow> nat list" where
  "downs n k = map (\<lambda>j. 15 * (n - Suc j)) [0..<k]"

definition ups :: "nat \<Rightarrow> nat \<Rightarrow> nat list" where
  "ups u k = map (\<lambda>j. min 255 (u + 10 * Suc j)) [0..<k]"

lemma downs_simps [simp]: "downs n 0 = []" "downs (Suc n) (Suc k) = 15 * n # downs n k"
  by (simp_all add: downs_def upt_conv_Cons map_Suc_upt [symmetric] comp_def del: upt_Suc)

lemma ups_simps: "ups u 0 = []" "ups u (Suc k) = min 255 (u + 10) # ups (u + 10) k"
  by (simp_all add: ups_def upt_conv_Cons map_Suc_upt [symmetric] comp_def add.assoc del: upt_Suc)

lemma ramp_down_time:
  "ramp_down env c fan (15 * n) m s = (r, s') \<Longrightarrow> 0 < n \<Longrightarrow> sw_now s' \<le> sw_now s + n * STEP \<and> wrote c s s'"
proof (induction n arbitrary: m s)
  case (Suc n)
  obtain ok s1 where s1: "interruptible_sleep env STEP (set_pwm c (15 * Suc n - 15) s) = (ok, s1)" by fastforce
  note st = step_time [OF s1]
  show ?case
  proof (cases "s' = s1")
    case False
    with Suc(2) have n: "n \<noteq> 0" "ramp_down env c fan (15 * n) (15 * n) s1 = (r, s')"
      unfolding ramp_down_step [OF s1] by (auto split: if_splits)
    with Suc(1) [OF n(2)] st show ?thesis by (auto intro: wrote_trans)
  qed (use st in auto)
qed simp

lemma ramp_down_found:
  "ramp_down env c fan (15 * n) m s = (Some (p, low, stalled), s') \<Longrightarrow> 0 < n \<Longrightarrow>
     (\<exists>k. (\<forall>j<k. 0 < rpm_after env c fan s (downs n (Suc j)) (STEP * Suc j))
        \<and> (if stalled
           then k < n \<and> rpm_after env c fan s (downs n (Suc k)) (STEP * Suc k) \<le> 0 \<and> p = 15 * (n - Suc k)
                \<and> low = (if k = 0 then m else 15 * (n - k)) \<and> commanded_to c s (downs n (Suc k)) (STEP * Suc k) s'
           else k = n \<and> low = 0 \<and> commanded_to c s (downs n n) (STEP * n) s'))"
proof (induction n arbitrary: m s)
  case (Suc n)
  obtain ok s1 where s1: "interruptible_sleep env STEP (set_pwm c (15 * Suc n - 15) s) = (ok, s1)" by fastforce
  note step = Suc(2) [unfolded ramp_down_step [OF s1]]
  from step have ok: "ok" by (auto split: if_splits)
  have t: "commanded_to c s [15 * n] STEP s1" using step_commands [of env STEP c "15 * Suc n - 15" s s1] s1 ok by simp
  show ?case
  proof (cases "rpm_after env c fan s [15 * n] STEP \<le> 0 \<or> n = 0")
    case True
    show ?thesis
    proof (cases "rpm_after env c fan s [15 * n] STEP \<le> 0")
      case True
      with step ok t show ?thesis by (intro exI [of _ 0]) auto
    next
      case False
      with step ok t \<open>_ \<or> n = 0\<close> show ?thesis by (intro exI [of _ 1]) auto
    qed
  next
    case False
    with step ok have r: "ramp_down env c fan (15 * n) (15 * n) s1 = (Some (p, low, stalled), s')" by simp
    have later: "rpm_after env c fan s1 (downs n k) (STEP * k) = rpm_after env c fan s (downs (Suc n) (Suc k)) (STEP * Suc k)"
      "commanded_to c s1 (downs n k) (STEP * k) s' \<Longrightarrow> commanded_to c s (downs (Suc n) (Suc k)) (STEP * Suc k) s'" for k
      using rpm_later [OF t] commanded_trans [OF t] by simp_all
    from Suc(1) [OF r] False obtain k where
      k: "\<forall>j<k. 0 < rpm_after env c fan s1 (downs n (Suc j)) (STEP * Suc j)"
        "if stalled
         then k < n \<and> rpm_after env c fan s1 (downs n (Suc k)) (STEP * Suc k) \<le> 0 \<and> p = 15 * (n - Suc k)
              \<and> low = (if k = 0 then 15 * n else 15 * (n - k)) \<and> commanded_to c s1 (downs n (Suc k)) (STEP * Suc k) s'
         else k = n \<and> low = 0 \<and> commanded_to c s1 (downs n n) (STEP * n) s'" by blast
    have first: "0 < rpm_after env c fan s (downs (Suc n) (Suc 0)) (STEP * Suc 0)" using False by simp
    from k(1) have "\<forall>j<Suc k. 0 < rpm_after env c fan s (downs (Suc n) (Suc j)) (STEP * Suc j)"
      unfolding later(1) less_Suc_eq_0_disj using first by blast
    with k(2) later(2) show ?thesis unfolding later(1) by (intro exI [of _ "Suc k"]) (auto split: if_splits simp del: mult_Suc_right downs_simps(2))
  qed
qed simp

lemma ramp_up_step:
  assumes s1: "interruptible_sleep env STEP (set_pwm c (min 255 (u + 10)) s) = (ok, s1)"
  shows "ramp_up env c fan u s =
    (if \<not> ok then (None, s1)
     else if 0 < rpm_after env c fan s [min 255 (u + 10)] STEP \<or> min 255 (u + 10) = 255 then (Some (min 255 (u + 10)), s1)
     else ramp_up env c fan (min 255 (u + 10)) s1)"
  using rpm_now [of c s "[min 255 (u + 10)]" STEP s1 env fan] step_commands [of env STEP c "min 255 (u + 10)" s s1] s1
  by (subst ramp_up.simps) (simp add: s1 [unfolded STEP_def] STEP_def Let_def split: bool.split)

lemma ramp_up_time:
  "ramp_up env c fan u s = (r, s') \<Longrightarrow> u < 255 \<Longrightarrow>
     sw_now s' \<le> sw_now s + (264 - u) div 10 * STEP \<and> wrote c s s'"
proof (induction "255 - u" arbitrary: u s rule: less_induct)
  case less
  obtain ok s1 where s1: "interruptible_sleep env STEP (set_pwm c (min 255 (u + 10)) s) = (ok, s1)" by fastforce
  note st = step_time [OF s1] and step = less(2) [unfolded ramp_up_step [OF s1]]
  have one: "1 \<le> (264 - u) div 10" using less(3) div_le_mono [of 10 "264 - u" 10] by simp
  show ?case
  proof (cases "s' = s1")
    case True
    from one have "STEP \<le> (264 - u) div 10 * STEP" by (metis mult_le_mono1 mult_1)
    with st(1) have "sw_now s1 \<le> sw_now s + (264 - u) div 10 * STEP" by linarith
    with True st(3) show ?thesis by simp
  next
    case False
    with step have ok: ok and u: "u + 10 < 255" and r: "ramp_up env c fan (u + 10) s1 = (r, s')"
      by (auto simp: min_def split: if_splits)
    from less(1) [OF _ r u] u have
      "sw_now s' \<le> sw_now s1 + (264 - (u + 10)) div 10 * STEP" "wrote c s1 s'" by auto
    moreover have "264 - u = (264 - (u + 10)) + 10" using u by simp
    then have "(264 - u) div 10 = Suc ((264 - (u + 10)) div 10)" by (metis Suc_eq_plus1 div_add_self2 zero_neq_numeral)
    ultimately show ?thesis using st by (auto intro: wrote_trans)
  qed
qed

lemma ramp_up_found:
  "ramp_up env c fan u s = (Some v, s') \<Longrightarrow>
     (\<exists>k. (\<forall>j<k. rpm_after env c fan s (ups u (Suc j)) (STEP * Suc j) \<le> 0)
        \<and> v = min 255 (u + 10 * Suc k)
        \<and> (0 < rpm_after env c fan s (ups u (Suc k)) (STEP * Suc k) \<or> v = 255))"
proof (induction "255 - u" arbitrary: u s rule: less_induct)
  case less
  obtain ok s1 where s1: "interruptible_sleep env STEP (set_pwm c (min 255 (u + 10)) s) = (ok, s1)" by fastforce
  note step = less(2) [unfolded ramp_up_step [OF s1]]
  from step have ok: ok by (auto split: if_splits)
  have t: "commanded_to c s [min 255 (u + 10)] STEP s1" using step_commands s1 ok by simp
  show ?case
  proof (cases "0 < rpm_after env c fan s [min 255 (u + 10)] STEP \<or> 255 \<le> u + 10")
    case True
    with step ok show ?thesis by (intro exI [of _ 0]) (auto simp: min_def ups_simps)
  next
    case False
    with step ok have r: "ramp_up env c fan (u + 10) s1 = (Some v, s')" by (auto simp: min_def)
    have "255 - (u + 10) < 255 - u" using False by arith
    from less(1) [OF this r] obtain k where
      k: "\<forall>j<k. rpm_after env c fan s1 (ups (u + 10) (Suc j)) (STEP * Suc j) \<le> 0"
        "v = min 255 (u + 10 + 10 * Suc k)" "0 < rpm_after env c fan s1 (ups (u + 10) (Suc k)) (STEP * Suc k) \<or> v = 255" by blast
    have later: "rpm_after env c fan s1 (ups (u + 10) n) (STEP * n) = rpm_after env c fan s (ups u (Suc n)) (STEP * Suc n)" for n
      using rpm_later [OF t] by (simp add: ups_simps)
    have "rpm_after env c fan s (ups u (Suc 0)) (STEP * Suc 0) \<le> 0" using False by (auto simp: ups_simps not_less min_def split: if_splits)
    with k(1) have "\<forall>j<Suc k. rpm_after env c fan s (ups u (Suc j)) (STEP * Suc j) \<le> 0"
      unfolding later less_Suc_eq_0_disj by blast
    with k(2,3) show ?thesis unfolding later by (intro exI [of _ "Suc k"]) simp
  qed
qed

subsection \<open>One output\<close>

text \<open>What makes a fan count as driven by the output: it turned with the output at 255, before or after, and had
  fallen below 70 percent of that three seconds after the output was set to 20.\<close>

definition responds :: "sweep_env \<Rightarrow> pwm_candidate \<Rightarrow> sweep \<Rightarrow> nat \<Rightarrow> bool" where
  "responds env c s i \<longleftrightarrow>
     (let peak = max (rpm_after env c i s [255] (secs 2)) (rpm_after env c i s [255, 20, 255] (secs 8))
      in 0 < peak \<and> rpm_after env c i s [255, 20] (secs 5) < f32_round (peak * f32_round (7 / 10)))"

definition restored :: "sweep_env \<Rightarrow> pwm_candidate \<Rightarrow> sweep \<Rightarrow> sweep \<Rightarrow> bool" where
  "restored env c s s' \<longleftrightarrow>
     (\<exists>es. sw_events s' = sw_events s @ es \<and> put_back (tree_now env s) c es)"

lemma drop_restore_puts_back:
  assumes "wrote c s s'"
  shows "restored env c s (drop_restore (capture (tree_now env s) c) s')"
proof -
  obtain es where es: "sw_events s' = sw_events s @ es" "list_all (touches c) es"
    using assms by (auto simp: wrote_def)
  define put where "put = (\<lambda>path. case sf_read (tree_now env s) path of
      None \<Rightarrow> [] | Some v \<Rightarrow> [WriteFile path (trim v)])"
  have "sw_events (drop_restore (capture (tree_now env s) c) s')
      = sw_events s @ (es @ put (pwm_path c) @ put (enable_path c))"
    by (simp add: drop_restore_def capture_def record_events_def es put_def split: option.split)
  moreover have "put_back (tree_now env s) c (es @ put (pwm_path c) @ put (enable_path c))"
    using es(2) by (simp add: put_back_def holds_again_def touches_def put_def last_written_append
        append.assoc [symmetric] del: append_assoc split: option.split)
  ultimately show ?thesis unfolding restored_def by blast
qed

lemma get_rpm_map: "i \<in> set fans \<Longrightarrow> get_rpm (map (\<lambda>i. (i, f i)) fans) i = f i"
  by (induction fans) (auto simp: get_rpm_def)

lemma response_at:
  "i \<in> set fans \<Longrightarrow>
   response (map (\<lambda>i. (i, rpm_after env c i s [255] (secs 2))) fans) (map (\<lambda>i. (i, rpm_after env c i s [255, 20] (secs 5))) fans)
            (map (\<lambda>i. (i, rpm_after env c i s [255, 20, 255] (secs 8))) fans) i =
     (if responds env c s i
      then Some (i, rpm_after env c i s [255, 20, 255] (secs 8),
                 f32_round (max (rpm_after env c i s [255] (secs 2)) (rpm_after env c i s [255, 20, 255] (secs 8)) - rpm_after env c i s [255, 20] (secs 5)))
      else None)"
  by (simp add: response_def responds_def get_rpm_map Let_def not_le max_def)

text \<open>Three probes bring the sweep to the eighth second.\<close>

lemma probed:
  assumes "sweep_output env c fans s = (r, s')"
  shows "(\<exists>s1. sw_now s1 \<le> sw_now s + secs 8 \<and> wrote c s s1 \<and> s' = s1 \<and> r = None)
    \<or> (\<exists>s1. commanded_to c s [255, 20, 255] (secs 8) s1 \<and> wrote c s s1
          \<and> (r, s') =
             (case best_response (map (\<lambda>i. (i, rpm_after env c i s [255] (secs 2))) fans)
                     (map (\<lambda>i. (i, rpm_after env c i s [255, 20] (secs 5))) fans)
                     (map (\<lambda>i. (i, rpm_after env c i s [255, 20, 255] (secs 8))) fans) fans of
                None \<Rightarrow> (Some (NoFanDetected c), s1)
              | Some (fan, max_rpm) \<Rightarrow> measure_fan env c fan max_rpm s1))"
proof -
  have t: "secs 2 + secs 3 = secs 5" "secs 5 + secs 3 = secs 8" "secs 2 \<le> secs 8" "secs 5 \<le> secs 8"
    by (simp_all add: secs_def)
  obtain r1 s1 where p1: "probe env c fans 255 (secs 2) s = (r1, s1)" by fastforce
  obtain r2 s2 where p2: "probe env c fans 20 (secs 3) s1 = (r2, s2)" by fastforce
  obtain r3 s3 where p3: "probe env c fans 255 (secs 3) s2 = (r3, s3)" by fastforce
  note q1 = probe_step [OF p1] and q2 = probe_step [OF p2] and q3 = probe_step [OF p3]
  have w: "wrote c s s1" "wrote c s s2" "wrote c s s3" using q1(2) q2(2) q3(2) by (blast intro: wrote_trans)+
  show ?thesis
  proof (cases "r1 = None \<or> r2 = None \<or> r3 = None")
    case True
    have n1: "r1 \<noteq> None \<Longrightarrow> sw_now s1 = sw_now s + secs 2" and n2: "r2 \<noteq> None \<Longrightarrow> sw_now s2 = sw_now s1 + secs 3"
      using q1(3) q2(3) by (auto simp: commanded_to_def)
    have "s' \<in> {s1, s2, s3}" "r = None" "r1 = None \<longrightarrow> s' = s1" "r1 \<noteq> None \<and> r2 = None \<longrightarrow> s' = s2"
      using assms True by (auto simp: sweep_output_def p1 p2 p3 split: option.splits)
    moreover have "sw_now s' \<le> sw_now s + secs 8"
      using calculation q1(1) q2(1) q3(1) n1 n2 t by (cases "r1 = None"; cases "r2 = None") auto
    ultimately show ?thesis using w by blast
  next
    case False
    then obtain m1 m2 m3 where m: "r1 = Some m1" "r2 = Some m2" "r3 = Some m3" by auto
    note c1 = q1(3) [OF m(1)] and c2 = q2(3) [OF m(2)] and c3 = q3(3) [OF m(3)]
    have c12: "commanded_to c s [255, 20] (secs 5) s2"
      using commanded_trans [OF conjunct1 [OF c1] conjunct1 [OF c2]] t by simp
    then have c123: "commanded_to c s [255, 20, 255] (secs 8) s3"
      using commanded_trans [OF c12 conjunct1 [OF c3]] t by simp
    have "m1 = map (\<lambda>i. (i, rpm_after env c i s [255] (secs 2))) fans"
      "m2 = map (\<lambda>i. (i, rpm_after env c i s [255, 20] (secs 5))) fans"
      "m3 = map (\<lambda>i. (i, rpm_after env c i s [255, 20, 255] (secs 8))) fans"
      using c1 c2 c3 rpm_later [OF conjunct1 [OF c1]] rpm_later [OF c12] t by simp_all
    with assms m c123 w(3) show ?thesis by (intro disjI2 exI [of _ s3]) (simp add: sweep_output_def p1 p2 p3)
  qed
qed

lemma map_filter_same: "xs = ys \<Longrightarrow> (\<And>x. x \<in> set ys \<Longrightarrow> f x = g x) \<Longrightarrow> List.map_filter f xs = List.map_filter g ys"
  by (induction xs arbitrary: ys) (auto simp: List.map_filter_simps split: option.split)

lemma best_response_driven:
  assumes "best_response (map (\<lambda>i. (i, rpm_after env c i s [255] (secs 2))) fans)
      (map (\<lambda>i. (i, rpm_after env c i s [255, 20] (secs 5))) fans) (map (\<lambda>i. (i, rpm_after env c i s [255, 20, 255] (secs 8))) fans) fans = b"
  shows "case b of None \<Rightarrow> list_all (\<lambda>i. \<not> responds env c s i) fans
                 | Some (fan, r) \<Rightarrow> fan \<in> set fans \<and> responds env c s fan \<and> r = rpm_after env c fan s [255, 20, 255] (secs 8)"
proof -
  define rs where "rs = List.map_filter (\<lambda>i. if responds env c s i
      then Some (i, rpm_after env c i s [255, 20, 255] (secs 8),
                 f32_round (max (rpm_after env c i s [255] (secs 2)) (rpm_after env c i s [255, 20, 255] (secs 8)) - rpm_after env c i s [255, 20] (secs 5)))
      else None) fans"
  have "b = map_option (\<lambda>(i, h2, delta). (i, h2)) (max_by_key (\<lambda>(i, h2, delta). delta) rs)"
    using assms unfolding best_response_def rs_def by (simp add: response_at cong: map_filter_same)
  moreover have rs: "x \<in> set rs \<longleftrightarrow> (\<exists>i\<in>set fans. responds env c s i \<and> x = (i, rpm_after env c i s [255, 20, 255] (secs 8),
      f32_round (max (rpm_after env c i s [255] (secs 2)) (rpm_after env c i s [255, 20, 255] (secs 8)) - rpm_after env c i s [255, 20] (secs 5))))" for x
    by (auto simp: rs_def map_filter_set split: if_splits)
  moreover have "rs = [] \<longleftrightarrow> list_all (\<lambda>i. \<not> responds env c s i) fans"
  proof -
    have "rs = [] \<longleftrightarrow> (\<forall>x. x \<notin> set rs)" by (cases rs) auto
    then show ?thesis unfolding rs list_all_iff by blast
  qed
  ultimately show ?thesis
    by (cases "max_by_key (\<lambda>(i, h2, delta). delta) rs") (auto dest!: max_by_key_max)
qed

lemma measure_fan_time:
  assumes "measure_fan env c fan max_rpm s = (r, s')"
  shows "sw_now s' \<le> sw_now s + 43 * STEP \<and> wrote c s s'"
proof -
  obtain d s1 where d: "ramp_down env c fan (15 * 17) 255 s = (d, s1)" by fastforce
  have d': "ramp_down env c fan 255 255 s = (d, s1)" using d by simp
  from ramp_down_time [OF d] have t: "sw_now s1 \<le> sw_now s + 17 * STEP" "wrote c s s1" by auto
  show ?thesis
  proof (cases "\<exists>p low. d = Some (p, low, True)")
    case True
    then obtain p low where p: "d = Some (p, low, True)" by blast
    obtain u s2 where u: "ramp_up env c fan p s1 = (u, s2)" by fastforce
    obtain k where "p = 15 * (17 - Suc k)" using ramp_down_found [OF d [unfolded p]] by auto
    then have "p < 255" by simp
    moreover have "(264 - p) div 10 \<le> 26" using div_le_mono [of "264 - p" 264 10] by simp
    ultimately have "sw_now s2 \<le> sw_now s1 + (264 - p) div 10 * STEP" "wrote c s1 s2"
      "(264 - p) div 10 * STEP \<le> 26 * STEP"
      using ramp_up_time [OF u] mult_le_mono1 [of "(264 - p) div 10" 26 STEP] by blast+
    then have "sw_now s2 \<le> sw_now s1 + 26 * STEP" "wrote c s1 s2" by linarith+
    moreover have "s' = s2" using assms by (auto simp: measure_fan_def d' p u split: option.splits)
    ultimately show ?thesis using t by (auto intro: wrote_trans)
  next
    case False
    then have "s' = s1" using assms by (auto simp: measure_fan_def d' split: option.splits bool.splits)
    with t show ?thesis by auto
  qed
qed

text \<open>What the two ramps measured, from where the output had been commanded through \<open>vs\<close>, \<open>d\<close> after \<open>s\<close>: the
  fan turned at every value commanded on the way down to \<open>min_stop\<close>, stood still at the one
  fifteen below it, and first turned again when \<open>min_start\<close> was commanded, at worst full speed. A fan
  that turns even at 0 gives 0 and the floor of 1.\<close>

definition measured :: "sweep_env \<Rightarrow> pwm_candidate \<Rightarrow> nat \<Rightarrow> sweep \<Rightarrow> nat list \<Rightarrow> duration \<Rightarrow> nat \<Rightarrow> nat \<Rightarrow> bool" where
  "measured env c fan s vs d min_start min_stop \<longleftrightarrow>
     (\<exists>k. (\<forall>j<k. 0 < rpm_after env c fan s (vs @ downs 17 (Suc j)) (d + STEP * Suc j))
        \<and> (k = 17 \<and> min_start = 0 \<and> min_stop = 1
           \<or> k < 17 \<and> rpm_after env c fan s (vs @ downs 17 (Suc k)) (d + STEP * Suc k) \<le> 0 \<and> min_stop = 255 - 15 * k
             \<and> (let stall = 255 - 15 * Suc k; ramp = (\<lambda>n. vs @ downs 17 (Suc k) @ ups stall n) in
                 \<exists>m. (\<forall>j<m. rpm_after env c fan s (ramp (Suc j)) (d + STEP * Suc k + STEP * Suc j) \<le> 0)
                   \<and> min_start = min 255 (stall + 10 * Suc m)
                   \<and> (0 < rpm_after env c fan s (ramp (Suc m)) (d + STEP * Suc k + STEP * Suc m) \<or> min_start = 255))))"

lemma measured_later:
  "commanded_to c s vs d s' \<Longrightarrow> measured env c fan s' ws d' a b = measured env c fan s (vs @ ws) (d + d') a b"
  by (simp add: measured_def rpm_later Let_def add.assoc del: mult_Suc_right)

lemma measure_fan_found:
  assumes "measure_fan env c fan max_rpm s = (Some r, s')"
  shows "\<exists>min_start min_stop. r = Found c fan min_start min_stop max_rpm
           \<and> measured env c fan s [] 0 min_start min_stop"
proof -
  obtain d s1 where d: "ramp_down env c fan (15 * 17) 255 s = (d, s1)" by fastforce
  have d': "ramp_down env c fan 255 255 s = (d, s1)" using d by simp
  from assms obtain p low stalled where p: "d = Some (p, low, stalled)"
    by (auto simp: measure_fan_def d' split: option.splits)
  obtain k where k: "\<forall>j<k. 0 < rpm_after env c fan s (downs 17 (Suc j)) (STEP * Suc j)"
    "if stalled
     then k < 17 \<and> rpm_after env c fan s (downs 17 (Suc k)) (STEP * Suc k) \<le> 0 \<and> p = 15 * (17 - Suc k)
          \<and> low = (if k = 0 then 255 else 15 * (17 - k)) \<and> commanded_to c s (downs 17 (Suc k)) (STEP * Suc k) s1
     else k = 17 \<and> low = 0 \<and> commanded_to c s (downs 17 17) (STEP * 17) s1"
    using ramp_down_found [OF d [unfolded p]] by auto
  show ?thesis
  proof (cases stalled)
    case True
    obtain u s2 where u: "ramp_up env c fan p s1 = (u, s2)" by fastforce
    from assms True obtain v where v: "u = Some v"
      by (auto simp: measure_fan_def d' p u split: option.splits)
    obtain m where m: "\<forall>j<m. rpm_after env c fan s1 (ups p (Suc j)) (STEP * Suc j) \<le> 0"
      "v = min 255 (p + 10 * Suc m)" "0 < rpm_after env c fan s1 (ups p (Suc m)) (STEP * Suc m) \<or> v = 255"
      using ramp_up_found [OF u [unfolded v]] by auto
    from True k(2) have q: "k < 17" "rpm_after env c fan s (downs 17 (Suc k)) (STEP * Suc k) \<le> 0" "p = 255 - 15 * Suc k"
      "max low 1 = 255 - 15 * k" "commanded_to c s (downs 17 (Suc k)) (STEP * Suc k) s1" by auto
    have "measured env c fan s [] 0 v (max low 1)"
      unfolding measured_def q(4) Let_def append_Nil add_0
      using k(1) q(1,2) m unfolding rpm_later [OF q(5)] q(3) by blast
    with assms True show ?thesis by (auto simp: measure_fan_def d' p u v)
  next
    case False
    with k have "measured env c fan s [] 0 low (max low 1)" by (auto simp: measured_def)
    with assms False show ?thesis by (auto simp: measure_fan_def d' p)
  qed
qed

definition truthful :: "sweep_env \<Rightarrow> pwm_candidate \<Rightarrow> nat list \<Rightarrow> sweep \<Rightarrow> calibration_result option \<Rightarrow> bool" where
  "truthful env c fans s r \<longleftrightarrow>
     (case r of
        None \<Rightarrow> True
      | Some (NoFanDetected c') \<Rightarrow> c' = c \<and> list_all (\<lambda>i. \<not> responds env c s i) fans
      | Some (Found c' fan min_start min_stop rpm) \<Rightarrow>
          c' = c \<and> fan \<in> set fans \<and> responds env c s fan \<and> rpm = rpm_after env c fan s [255, 20, 255] (secs 8)
          \<and> measured env c fan s [255, 20, 255] (secs 8) min_start min_stop)"

lemma sweep_time: "secs 8 + 43 * STEP = millis 72500"
  by (simp add: STEP_def time_simps)

lemma sweep_output_result:
  assumes "sweep_output env c fans s = (r, s')"
  shows "sw_now s' \<le> sw_now s + millis 72500 \<and> wrote c s s' \<and> truthful env c fans s r"
  using probed [OF assms]
proof (elim disjE exE conjE)
  fix s1
  assume "sw_now s1 \<le> sw_now s + secs 8" "wrote c s s1" "s' = s1" "r = None"
  then show ?thesis using sweep_time by (simp add: truthful_def)
next
  fix s1
  define b where "b = best_response (map (\<lambda>i. (i, rpm_after env c i s [255] (secs 2))) fans)
      (map (\<lambda>i. (i, rpm_after env c i s [255, 20] (secs 5))) fans) (map (\<lambda>i. (i, rpm_after env c i s [255, 20, 255] (secs 8))) fans) fans"
  assume c1: "commanded_to c s [255, 20, 255] (secs 8) s1" and s1: "wrote c s s1"
    and "(r, s') = (case best_response (map (\<lambda>i. (i, rpm_after env c i s [255] (secs 2))) fans)
      (map (\<lambda>i. (i, rpm_after env c i s [255, 20] (secs 5))) fans) (map (\<lambda>i. (i, rpm_after env c i s [255, 20, 255] (secs 8))) fans) fans of
        None \<Rightarrow> (Some (NoFanDetected c), s1) | Some (fan, max_rpm) \<Rightarrow> measure_fan env c fan max_rpm s1)"
  then have m: "(r, s') = (case b of None \<Rightarrow> (Some (NoFanDetected c), s1)
      | Some (fan, max_rpm) \<Rightarrow> measure_fan env c fan max_rpm s1)" by (simp add: b_def)
  note driven = best_response_driven [of env c s fans, OF b_def [symmetric]]
  have now: "sw_now s1 = sw_now s + secs 8" using c1 by (simp add: commanded_to_def)
  show ?thesis
  proof (cases b)
    case None
    with m driven s1 now sweep_time show ?thesis by (simp add: truthful_def)
  next
    case (Some fr)
    then obtain fan rpm where fr: "b = Some (fan, rpm)" by (cases fr) auto
    with m have mf: "measure_fan env c fan rpm s1 = (r, s')" by simp
    from measure_fan_time [OF mf] s1 now sweep_time
    have time: "sw_now s' \<le> sw_now s + millis 72500" "wrote c s s'" by (auto intro: wrote_trans)
    show ?thesis
    proof (cases r)
      case (Some f)
      from measure_fan_found [OF mf [unfolded Some]] measured_later [OF c1] driven fr time show ?thesis
        by (auto simp: truthful_def Some)
    qed (use time in \<open>simp add: truthful_def\<close>)
  qed
qed


text \<open>A fan that drops at the low point counts as driven also when it does not come back afterwards: its maximum
  speed is then reported as 0.\<close>

lemma unrecovered_fan_responds: "response [(1, 1000)] [(1, 0)] [(1, 0)] 1 = Some (1, 0, f32_round 1000)"
  by (simp add: response_def get_rpm_def Let_def, code_simp)

lemma calibrate_one_restores: "restored env c s (snd (calibrate_one env c s))"
proof -
  define fans where "fans = fan_indices (tree_now env s) (pc_hwmon c)"
  obtain r s1 where r: "sweep_output env c fans s = (r, s1)" by fastforce
  from sweep_output_result [OF r] drop_restore_puts_back [of c s s1 env] show ?thesis
    by (auto simp: calibrate_one_def fans_def [symmetric] r Let_def restored_def put_back_def)
qed

text \<open>The outputs visited, each with the state before and after it, up to the one a signal ended.\<close>

fun visited :: "sweep_env \<Rightarrow> pwm_candidate list \<Rightarrow> sweep \<Rightarrow> (pwm_candidate \<times> sweep \<times> sweep) list" where
  "visited env [] s = []"
| "visited env (c # cs) s =
     (case calibrate_one env c s of
        (r, s') \<Rightarrow> (c, s, s') # (case r of None \<Rightarrow> [] | Some x \<Rightarrow> visited env cs s'))"

definition events_between :: "sweep \<Rightarrow> sweep \<Rightarrow> sweep_event list" where
  "events_between s s' = drop (length (sw_events s)) (sw_events s')"

lemma restored_between: "restored env c s s' \<Longrightarrow> sw_events s' = sw_events s @ events_between s s'"
  by (auto simp: restored_def events_between_def)

lemma visited_restored: "list_all (\<lambda>(c, a, b). restored env c a b) (visited env cs s)"
proof (induction cs arbitrary: s)
  case (Cons c cs)
  obtain r s1 where r: "calibrate_one env c s = (r, s1)" by fastforce
  with calibrate_one_restores [of env c s] Cons show ?case by (simp split: option.split)
qed simp

lemma visited_prefix: "map fst (visited env cs s) = take (length (visited env cs s)) cs"
  by (induction cs arbitrary: s) (auto split: prod.split option.split)

lemma calibrate_all_visited:
  "calibrate_all env cs s = (rs, s') \<Longrightarrow>
     sw_events s' = sw_events s @ concat (map (\<lambda>(c, a, b). events_between a b) (visited env cs s))
     \<and> (case rs of None \<Rightarrow> True | Some rs \<Rightarrow> length rs = length cs \<and> length (visited env cs s) = length cs)"
proof (induction env cs s arbitrary: rs s' rule: calibrate_all.induct)
  case (2 env c cs s)
  obtain r s1 where r: "calibrate_one env c s = (r, s1)" by fastforce
  from calibrate_one_restores [of env c s] r have ev: "sw_events s1 = sw_events s @ events_between s s1"
    by (auto dest: restored_between)
  show ?case
  proof (cases r)
    case None
    with 2(2) ev show ?thesis by (auto simp: r)
  next
    case (Some x)
    obtain rs1 s2 where a: "calibrate_all env cs s1 = (rs1, s2)" by fastforce
    have eq: "rs = map_option ((#) x) rs1" "s' = s2" using 2(2) by (simp_all add: r Some a)
    from 2(1) [OF r [symmetric] Some a] ev show ?thesis unfolding eq
      by (cases rs1) (simp_all add: r Some)
  qed
qed simp

text \<open>C29. A pass leaves the machine as it found it. Without root, outputs or consent nothing at all happens.
  Otherwise the daemon is stopped before the first write, if it ran, and started after the last one;
  between the two, every output visited was written through its two files only and both hold again
  what they held when its turn came, also the one a signal ended. A complete pass visits every output.\<close>

theorem fan_profile_leaves_no_trace:
  "case fan_profile_run env as_root assume_yes answer active s of
     (out, s') \<Rightarrow>
       let cs = find_pwm_candidates (tree_now env s);
           outputs = visited env cs (stop_daemon active s);
           bracketed = (as_root \<and> (assume_yes \<or> confirmed answer)
             \<and> sw_events s' = sw_events s @ (if active then [StopUnit DAEMON_UNIT] else [])
                 @ concat (map (\<lambda>(c, a, b). events_between a b) outputs)
                 @ (if active then [StartUnit DAEMON_UNIT] else [])
             \<and> list_all (\<lambda>(c, a, b). restored env c a b) outputs
             \<and> map fst outputs = take (length outputs) cs)
       in case out of
            NotRoot \<Rightarrow> \<not> as_root \<and> s' = s
          | NoOutputs \<Rightarrow> cs = [] \<and> s' = s
          | Declined \<Rightarrow> \<not> assume_yes \<and> \<not> confirmed answer \<and> s' = s
          | WasInterrupted \<Rightarrow> bracketed
          | NoFans \<Rightarrow> bracketed \<and> length outputs = length cs
          | Proposed ls \<Rightarrow> bracketed \<and> length outputs = length cs"
proof -
  define cs where "cs = find_pwm_candidates (tree_now env s)"
  define s0 where "s0 = stop_daemon active s"
  obtain rs s1 where a: "calibrate_all env cs s0 = (rs, s1)" by fastforce
  note v = calibrate_all_visited [OF a]
  have s0: "sw_events s0 = sw_events s @ (if active then [StopUnit DAEMON_UNIT] else [])"
    by (simp add: s0_def stop_daemon_def record_events_def)
  define s2 where "s2 = resume_daemon active s1"
  have s2: "sw_events s2 = sw_events s1 @ (if active then [StartUnit DAEMON_UNIT] else [])"
    by (simp add: s2_def resume_daemon_def record_events_def)
  have run: "fan_profile_run env as_root assume_yes answer active s =
      (if \<not> as_root then (NotRoot, s) else if cs = [] then (NoOutputs, s)
       else if \<not> assume_yes \<and> \<not> confirmed answer then (Declined, s)
       else case rs of None \<Rightarrow> (WasInterrupted, s2)
            | Some rs \<Rightarrow> (if list_ex was_found rs then Proposed (proposals rs) else NoFans, s2))"
    unfolding fan_profile_run_def Let_def cs_def [symmetric] s0_def [symmetric] a prod.case s2_def [symmetric] ..
  show ?thesis
    using v s0 s2 visited_restored [of env cs s0] visited_prefix [of env cs s0]
    unfolding run Let_def cs_def [symmetric] s0_def [symmetric]
    by (simp del: if_split split: option.split) auto
qed

end
