(* ===== verification/FanThread.thy ===== *)
theory FanThread
  imports FanProps Sysfs
begin

text \<open>
  The fan thread of \<open>src/fan.rs\<close> (\<open>FanService\<close>) and the reader threads that feed it. The main loop must
  not stall fan control and a hung drive must not stall either, so a selector is read on a thread of
  its own that only publishes samples, and the controllers see the last sample published. An event is
  one step of one thread; a run is any interleaving of them. What is read is the kernel's tree at
  that moment.
\<close>

section \<open>Waiting\<close>

text \<open>The three waits of this file sleep in short pauses until something has happened or a limit has passed; a
  pause takes a nanosecond at least.\<close>

definition FAN_THREAD_INTERVAL :: duration where "FAN_THREAD_INTERVAL = millis 100"
definition FIRST_SAMPLES_WAIT :: duration where "FIRST_SAMPLES_WAIT = millis 500"
definition SHUTDOWN_JOIN_TIMEOUT :: duration where "SHUTDOWN_JOIN_TIMEOUT = secs 5"
definition FAILSAFE_TIMEOUT :: duration where "FAILSAFE_TIMEOUT = secs 3"

function wait_until :: "duration \<Rightarrow> (instant \<Rightarrow> bool) \<Rightarrow> instant \<Rightarrow> instant \<Rightarrow> instant" where
  "wait_until pause happened deadline now =
     (if now < deadline \<and> \<not> happened now then wait_until pause happened deadline (now + max 1 pause) else now)"
  by pat_completeness auto
termination
  by (relation "measure (\<lambda>(pause, happened, deadline, now). since deadline now)") (auto simp: since_def)

declare wait_until.simps [simp del]

lemma wait_until_end:
  "now \<le> deadline \<Longrightarrow>
     (happened (wait_until pause happened deadline now) \<or> deadline \<le> wait_until pause happened deadline now)
     \<and> wait_until pause happened deadline now \<le> deadline + max 1 pause"
proof (induction pause happened deadline now rule: wait_until.induct)
  case (1 pause happened deadline now)
  show ?case
  proof (cases "now < deadline \<and> \<not> happened now")
    case False
    with 1(2) show ?thesis by (subst (1 2 3) wait_until.simps) auto
  next
    case True
    let ?t = "now + max 1 pause"
    have eq: "wait_until pause happened deadline now = wait_until pause happened deadline ?t"
      using True by (subst wait_until.simps) simp
    show ?thesis
    proof (cases "?t \<le> deadline")
      case False
      then have "wait_until pause happened deadline ?t = ?t" by (subst wait_until.simps) simp
      with False True show ?thesis unfolding eq by simp
    qed (use 1(1) True in \<open>simp add: eq\<close>)
  qed
qed

section \<open>Samples\<close>

definition no_sample :: sample where "no_sample = \<lparr>sm_at = None, sm_value = None\<rparr>"

definition awaiting_first_samples :: "fan_profile \<Rightarrow> sample list \<Rightarrow> bool" where
  "awaiting_first_samples p samples \<longleftrightarrow> fp_enabled p \<and> list_ex (\<lambda>sm. sm_at sm = None) samples"

text \<open>\<open>samples t\<close> is what the readers have published by \<open>t\<close>.\<close>

definition wait_for_first_samples :: "(instant \<Rightarrow> sample list list) \<Rightarrow> fan list \<Rightarrow> duration \<Rightarrow> instant \<Rightarrow> instant" where
  "wait_for_first_samples samples fans limit now =
     wait_until (millis 5) (\<lambda>t. \<not> list_ex (\<lambda>(f, sms). awaiting_first_samples (fc_profile f) sms) (zip fans (samples t)))
       (now + limit) now"

text \<open>A reader's pause between two samples.\<close>

definition reader_pause :: "duration \<Rightarrow> (instant \<Rightarrow> bool) \<Rightarrow> instant \<Rightarrow> instant" where
  "reader_pause interval stop now = wait_until FAN_THREAD_INTERVAL stop (now + interval) now"

definition reader_sample :: "sysfs \<Rightarrow> string \<Rightarrow> sensor_selector \<Rightarrow> instant \<Rightarrow> sample" where
  "reader_sample fs base sel now = \<lparr>sm_at = Some now, sm_value = reader_value (resolve_selector_in fs base sel)\<rparr>"

section \<open>The hardware a controller sees\<close>

definition resolve_hwmon :: "sysfs \<Rightarrow> string \<Rightarrow> string \<Rightarrow> string option" where
  "resolve_hwmon fs base chip =
     (case glob_hwmon_in fs base chip of None \<Rightarrow> None | Some [] \<Rightarrow> None | Some (h # hs) \<Rightarrow> Some h)"

definition tacho :: "sysfs \<Rightarrow> string option \<Rightarrow> nat option \<Rightarrow> rat option" where
  "tacho fs hwmon fan_index =
     (case (hwmon, fan_index) of
        (Some h, Some n) \<Rightarrow> read_sysfs_raw_f32 fs (in_dir h (''fan'' @ nat_str n @ ''_input''))
      | _ \<Rightarrow> None)"

text \<open>\<open>works\<close>: whether the writes of \<open>pwmN_enable\<close> and of \<open>pwmN\<close> succeed.\<close>

definition fan_view :: "string \<Rightarrow> sysfs \<Rightarrow> instant \<Rightarrow> bool \<times> bool \<Rightarrow> sample list \<Rightarrow> fan \<Rightarrow> fan_env" where
  "fan_view base fs now works samples f =
     (let p = fc_profile f;
          resolved = resolve_hwmon fs base (fp_pwm_chip p);
          hwmon = (case fc_hwmon f of Some h \<Rightarrow> Some h | None \<Rightarrow> resolved)
      in \<lparr>fe_now = now, fe_samples = samples, fe_resolved = resolved, fe_manual_ok = fst works,
          fe_write_ok = snd works, fe_rpm = tacho fs hwmon (fp_fan_index p)\<rparr>)"

section \<open>The service\<close>

record fan_service =
  sv_fans :: "fan list"
  sv_samples :: "sample list list"
  sv_status :: fan_status
  sv_live :: fan_liveness
  sv_stop :: bool
  sv_running :: bool

definition service_spawn :: "instant \<Rightarrow> temperature_config \<Rightarrow> fan_profile list \<Rightarrow> fan_service" where
  "service_spawn now temperature profiles =
     \<lparr>sv_fans = map (fan_new now temperature) profiles,
      sv_samples = map (\<lambda>p. replicate (length (fp_sensors p)) no_sample) profiles,
      sv_status = \<lparr>fs_health = Info, fs_lines = []\<rparr>,
      sv_live = \<lparr>lv_heartbeat_ms = 0, lv_epoch = now\<rparr>, sv_stop = False, sv_running = True\<rparr>"

text \<open>A reader of an enabled fan publishes; the thread makes a pass over its fans; it is asked to stop; it
  panics. The thread drops its controllers when it ends, which leaves their fans at full speed.\<close>

datatype service_event =
  Publish nat nat instant sysfs
| FanPass instant sysfs "nat \<Rightarrow> bool \<times> bool"
| AskStop
| Panic instant sysfs "nat \<Rightarrow> bool \<times> bool"

definition views :: "string \<Rightarrow> sysfs \<Rightarrow> instant \<Rightarrow> (nat \<Rightarrow> bool \<times> bool) \<Rightarrow> fan_service \<Rightarrow> fan_env list" where
  "views base fs now works s =
     map (\<lambda>i. fan_view base fs now (works i) (sv_samples s ! i) (sv_fans s ! i)) [0..<length (sv_fans s)]"

definition publish :: "string \<Rightarrow> nat \<Rightarrow> nat \<Rightarrow> instant \<Rightarrow> sysfs \<Rightarrow> fan_service \<Rightarrow> fan_service" where
  "publish base i j now fs s =
     (if i < length (sv_fans s) \<and> fp_enabled (fc_profile (sv_fans s ! i))
         \<and> j < length (fp_sensors (fc_profile (sv_fans s ! i)))
      then s\<lparr>sv_samples := (sv_samples s)[i := (sv_samples s ! i)[j :=
                reader_sample fs base (fp_sensors (fc_profile (sv_fans s ! i)) ! j) now]]\<rparr>
      else s)"

definition end_thread :: "fan_env list \<Rightarrow> fan_service \<Rightarrow> fan_service" where
  "end_thread envs s = s\<lparr>sv_fans := map2 restore envs (sv_fans s), sv_running := False\<rparr>"

definition service_step :: "string \<Rightarrow> service_event \<Rightarrow> fan_service \<Rightarrow> fan_service" where
  "service_step base ev s =
     (case ev of
        Publish i j t fs \<Rightarrow> publish base i j t fs s
      | FanPass t fs works \<Rightarrow>
          if \<not> sv_running s then s
          else if sv_stop s then end_thread (views base fs t works s) s
          else
            let envs = views base fs t works s;
                rpms = map (\<lambda>f. tacho fs (fc_hwmon f) (fp_fan_index (fc_profile f))) (map2 fan_tick envs (sv_fans s))
            in case fan_pass t envs rpms (sv_fans s) (sv_live s) of
                 (fans, status, live) \<Rightarrow> s\<lparr>sv_fans := fans, sv_status := status, sv_live := live\<rparr>
      | AskStop \<Rightarrow> s\<lparr>sv_stop := True\<rparr>
      | Panic t fs works \<Rightarrow> if sv_running s then end_thread (views base fs t works s) s else s)"

definition service_run :: "string \<Rightarrow> service_event list \<Rightarrow> fan_service \<Rightarrow> fan_service" where
  "service_run base evs s = fold (service_step base) evs s"

definition has_died :: "fan_service \<Rightarrow> bool" where
  "has_died s \<longleftrightarrow> \<not> sv_running s"

text \<open>
  The fail-safe for a thread that does not end: a helper thread sets every enabled fan to full speed by hand.
  Its environment: why it cannot start, the tree it finds the chips in, what a write of a value to a file
  fails with, and how many of the fans it has been through when \<open>FAILSAFE_TIMEOUT\<close> is over. \<open>write_full_speed\<close>
  also says which writes were done.
\<close>

record failsafe_env =
  fz_spawn :: "string option"
  fz_tree :: sysfs
  fz_write :: "string \<Rightarrow> string \<Rightarrow> string option"
  fz_done :: nat

definition pwm_enable_file :: "string \<Rightarrow> fan_profile \<Rightarrow> string" where
  "pwm_enable_file hwmon p = in_dir hwmon (''pwm'' @ nat_str (fp_pwm_index p) @ ''_enable'')"

definition pwm_file :: "string \<Rightarrow> fan_profile \<Rightarrow> string" where
  "pwm_file hwmon p = in_dir hwmon (''pwm'' @ nat_str (fp_pwm_index p))"

definition write_full_speed ::
  "string \<Rightarrow> failsafe_env \<Rightarrow> fan_profile \<Rightarrow> full_speed_outcome \<times> (string \<times> string) list" where
  "write_full_speed base fe p =
     (case resolve_hwmon (fz_tree fe) base (fp_pwm_chip p) of
        None \<Rightarrow> (ChipAbsent, [])
      | Some hwmon \<Rightarrow>
          (case fz_write fe (pwm_enable_file hwmon p) ''1'' of
             Some e \<Rightarrow> (FailedWrite e, [])
           | None \<Rightarrow>
               (case fz_write fe (pwm_file hwmon p) ''255'' of
                  Some e \<Rightarrow> (FailedWrite e, [(pwm_enable_file hwmon p, ''1'')])
                | None \<Rightarrow> (Forced, [(pwm_enable_file hwmon p, ''1''), (pwm_file hwmon p, ''255'')]))))"

definition force_full_speed ::
  "string \<Rightarrow> failsafe_env \<Rightarrow> fan_profile list \<Rightarrow> (string \<times> string) list \<times> log_line list" where
  "force_full_speed base fe profiles =
     (let enabled = filter fp_enabled profiles;
          bad = filter (\<lambda>(name, n, outcome). case outcome of FailedWrite e \<Rightarrow> True | TimedOut \<Rightarrow> True | _ \<Rightarrow> False)
      in case fz_spawn fe of
           Some e \<Rightarrow> ([], syslog PCritical ''failsafe_not_started'' [e] []
                           # map log_one (bad (force_full_speed_bounded profiles (Inl e))))
         | None \<Rightarrow>
             (concat (map (snd \<circ> write_full_speed base fe) (take (fz_done fe) enabled)),
              map log_one (bad (force_full_speed_bounded profiles
                (Inr (helper_reports (fst \<circ> write_full_speed base fe) enabled (fz_done fe)))))))"

text \<open>\<open>shutdown\<close>: it joins a thread that ends in time and forces the fans itself otherwise. \<open>finished t\<close>: the
  thread has ended by \<open>t\<close>. The result is when it was known, the writes of the fail-safe and the log.\<close>

definition service_shutdown ::
  "duration \<Rightarrow> (instant \<Rightarrow> bool) \<Rightarrow> bool \<Rightarrow> instant \<Rightarrow> string \<Rightarrow> failsafe_env \<Rightarrow> fan_profile list
     \<Rightarrow> instant \<times> (string \<times> string) list \<times> log_line list" where
  "service_shutdown join_timeout finished panicked now base fe profiles =
     (let t = wait_until (millis 10) finished (now + join_timeout) now in
      if finished t
      then (t, [], if panicked then [syslog PCritical ''fan_thread_panicked'' [] []] else [])
      else (case force_full_speed base fe profiles of
              (ws, ls) \<Rightarrow> (t, ws, syslog PCritical ''fan_thread_stuck'' [] [join_timeout div secs 1] # ls)))"

text \<open>A fan the fail-safe has dealt with: in manual mode at 255, or its chip is not there. One it has not is in
  the log, with a critical line of its own.\<close>

definition fan_forced :: "string \<Rightarrow> failsafe_env \<Rightarrow> (string \<times> string) list \<Rightarrow> fan_profile \<Rightarrow> bool" where
  "fan_forced base fe ws p \<longleftrightarrow>
     (case resolve_hwmon (fz_tree fe) base (fp_pwm_chip p) of
        None \<Rightarrow> True
      | Some hwmon \<Rightarrow> (pwm_enable_file hwmon p, ''1'') \<in> set ws \<and> (pwm_file hwmon p, ''255'') \<in> set ws)"

definition logged_unforced :: "log_line list \<Rightarrow> fan_profile \<Rightarrow> bool" where
  "logged_unforced ls p \<longleftrightarrow>
     log_one (fp_name p, fp_pwm_index p, TimedOut) \<in> set ls
     \<or> (\<exists>e. log_one (fp_name p, fp_pwm_index p, FailedWrite e) \<in> set ls)"

lemma written_forced:
  assumes "write_full_speed base fe p = (outcome, ws)" "set ws \<subseteq> set all"
  shows "fan_forced base fe all p \<or> (\<exists>e. outcome = FailedWrite e)"
    "(\<And>f v. fz_write fe f v = None) \<Longrightarrow> fan_forced base fe all p"
  using assms by (auto simp: write_full_speed_def fan_forced_def split: option.splits)

lemma reported:
  "i < length ps \<Longrightarrow> i < length os \<Longrightarrow>
     (fp_name (ps ! i), fp_pwm_index (ps ! i), os ! i) \<in> set (map2 (\<lambda>p outcome. (fp_name p, fp_pwm_index p, outcome)) ps os)"
  unfolding in_set_conv_nth by (intro exI [of _ i]) simp

lemma fan_forced_or_logged:
  assumes "force_full_speed base fe profiles = (ws, ls)" "p \<in> set profiles" "fp_enabled p"
  shows "fan_forced base fe ws p \<or> logged_unforced ls p"
    "fz_spawn fe = None \<Longrightarrow> length profiles \<le> fz_done fe \<Longrightarrow> (\<And>f v. fz_write fe f v = None) \<Longrightarrow>
       fan_forced base fe ws p"
proof -
  let ?ps = "filter fp_enabled profiles"
  have "p \<in> set ?ps" using assms(2,3) by simp
  then obtain i where i: "i < length ?ps" "?ps ! i = p" unfolding in_set_conv_nth by blast
  have short: "length ?ps \<le> length profiles" by simp
  obtain outcome vs where w: "write_full_speed base fe p = (outcome, vs)" by fastforce
  have in_ws: "set vs \<subseteq> set ws" if "fz_spawn fe = None" "i < fz_done fe"
  proof -
    have "p \<in> set (take (fz_done fe) ?ps)" using i that(2) by (auto simp: in_set_conv_nth intro!: exI [of _ i])
    with assms(1) that(1) w show ?thesis by (force simp: force_full_speed_def Let_def)
  qed
  show "fan_forced base fe ws p" if "fz_spawn fe = None" "length profiles \<le> fz_done fe" "\<And>f v. fz_write fe f v = None"
  proof -
    from that(2) i(1) short have "i < fz_done fe" by linarith
    from written_forced(2) [OF w in_ws [OF that(1) this] that(3)] show ?thesis .
  qed
  show "fan_forced base fe ws p \<or> logged_unforced ls p"
  proof (cases "fz_spawn fe")
    case (Some e)
    let ?r = "(fp_name p, fp_pwm_index p, FailedWrite (''could not start helper thread: '' @ e))"
    have "?r \<in> set (force_full_speed_bounded profiles (Inl e))"
      using reported [of i ?ps "replicate (length ?ps) (FailedWrite (''could not start helper thread: '' @ e))"] i
      by (simp only: force_full_speed_bounded_def Let_def sum.case length_replicate nth_replicate)
    with assms(1) Some have "log_one ?r \<in> set ls" by (force simp: force_full_speed_def Let_def)
    then show ?thesis unfolding logged_unforced_def by blast
  next
    case None
    let ?os = "map (fst \<circ> write_full_speed base fe) (take (fz_done fe) ?ps)
      @ replicate (length ?ps - fz_done fe) TimedOut"
    let ?o = "if i < fz_done fe then outcome else TimedOut"
    have "?os ! i = ?o" "i < length ?os" using i w by (auto simp: nth_append min_def)
    then have r: "(fp_name p, fp_pwm_index p, ?o) \<in> set (force_full_speed_bounded profiles
        (Inr (helper_reports (fst \<circ> write_full_speed base fe) ?ps (fz_done fe))))"
      unfolding conjunct1 [OF failsafe_outcomes] using reported [of i ?ps ?os] i by simp
    have logged: "log_one (fp_name p, fp_pwm_index p, ?o) \<in> set ls" if "?o = TimedOut \<or> (\<exists>e. ?o = FailedWrite e)"
      using assms(1) None r that by (force simp: force_full_speed_def Let_def)
    show ?thesis
    proof (cases "i < fz_done fe")
      case True
      with written_forced(1) [OF w in_ws [OF None True]] logged show ?thesis by (auto simp: logged_unforced_def)
    qed (use logged in \<open>auto simp: logged_unforced_def\<close>)
  qed
qed

text \<open>A shutdown always ends: the thread is joined, or the fans have been forced.\<close>

lemma shutdown_ends:
  assumes "service_shutdown join_timeout finished panicked now base fe profiles = (t, ws, ls)"
  shows "t \<le> now + join_timeout + millis 10" "finished t \<or> now + join_timeout \<le> t"
    "\<not> finished t \<Longrightarrow> \<exists>ls'. force_full_speed base fe profiles = (ws, ls') \<and> set ls' \<subseteq> set ls"
  using assms wait_until_end [of now "now + join_timeout" finished "millis 10"]
  by (auto simp: service_shutdown_def Let_def time_simps max_def split: if_splits prod.splits)

text \<open>However the thread ends, a fan it drove is left at full speed if its chip is there and takes the write.\<close>

lemma ended_at_full_speed:
  assumes "i < length (sv_fans s)" "sv_running s" "fc_last_pwm (sv_fans s ! i) \<noteq> None" "works i = (True, True)"
    "fc_hwmon (sv_fans s ! i) \<noteq> None \<or> resolve_hwmon fs base (fp_pwm_chip (fc_profile (sv_fans s ! i))) \<noteq> None"
    "ev = Panic t fs works \<or> ev = FanPass t fs works \<and> sv_stop s"
  shows "fc_written (sv_fans (service_step base ev s) ! i) = fc_written (sv_fans s ! i) @ [255]"
  using assms
  by (auto simp: service_step_def end_thread_def views_def fan_view_def restore_def write_fan_def fan_logs_def Let_def)

section \<open>What a pass leaves alone\<close>

definition shape :: "fan \<Rightarrow> fan_profile \<times> (rat \<times> rat) list \<times> duration list" where
  "shape f = (fc_profile f, fc_thresholds f, map fd_max_age (fc_feeds f))"

definition fits :: "sample list \<Rightarrow> fan \<Rightarrow> bool" where
  "fits samples f \<longleftrightarrow> length samples = length (fc_feeds f) \<and> length (fp_sensors (fc_profile f)) = length (fc_feeds f)"

lemma fits_shape: "shape g = shape f \<Longrightarrow> fits samples g = fits samples f"
  by (auto simp: shape_def fits_def dest: map_eq_imp_length_eq)

lemma shape_simps [simp]:
  "shape (fan_logs ls f) = shape f"
  "shape (note_control_lost now why f) = shape f"
  "shape (mark_control_ok now f) = shape f"
  "shape (snd (write_fan env pwm f)) = shape f"
  "shape (snd (update_critical_override rs f)) = shape f"
  "shape (check_low_rpm rpm f) = shape f"
  "shape (snd (plan t rpm f)) = shape f"
  "shape (f\<lparr>fc_hwmon := h\<rparr>) = shape f"
  "shape (f\<lparr>fc_last_pwm := lp\<rparr>) = shape f"
  "shape (f\<lparr>fc_kick_until := k\<rparr>) = shape f"
  "shape (f\<lparr>fc_sensors_lost := b\<rparr>) = shape f"
  "shape (f\<lparr>fc_last_tick := lt\<rparr>) = shape f"
  by (simp_all add: shape_def fan_logs_def note_control_lost_def mark_control_ok_def write_fan_def
      update_critical_override_def check_low_rpm_def plan_def Let_def split: option.split prod.split)

lemma shape_track:
  assumes "fits (fe_samples env) f"
  shows "shape (track_sensors env f) = shape f"
proof -
  have "map fd_max_age (fc_feeds (track_sensors env f)) = map fd_max_age (fc_feeds f)"
    using assms by (auto simp: track_sensors_def Let_def fits_def track_feed_age fan_logs_def
        intro!: nth_equalityI split: prod.split)
  then show ?thesis by (simp add: shape_def)
qed

lemma shape_target: "fits (fe_samples env) f \<Longrightarrow> shape (snd (target_pwm_from_sensors env f)) = shape f"
  by (simp add: target_snd shape_track)

lemma shape_apply [simp]: "shape (apply_pwm env cmd f) = shape f"
  by (simp add: apply_pwm_def write_fan_def Let_def split: pwm_command.split) (simp add: shape_def)

lemma shape_hold [simp]: "shape (hold_full_speed_without_sensors env f) = shape f"
  by (simp add: hold_full_speed_without_sensors_def write_fan_def Let_def) (simp add: shape_def)

lemma shape_update:
  assumes "fits (fe_samples env) f"
  shows "shape (fan_update env f) = shape f"
proof -
  let ?g = "f\<lparr>fc_hwmon := fe_resolved env\<rparr>"
  have "shape (update_resolved env g) = shape f" if "shape g = shape f" for g
  proof -
    from that assms have g: "fits (fe_samples env) g" using fits_shape by blast
    obtain t h where t: "target_pwm_from_sensors env g = (t, h)" by fastforce
    with shape_target [OF g] that have "shape h = shape f" by simp
    then show ?thesis
      by (auto simp: update_resolved_def t Let_def split: option.split prod.split)
        (metis shape_simps shape_apply snd_conv)+
  qed
  then show ?thesis by (simp add: fan_update_def Let_def)
qed

lemma shape_tick: "fits (fe_samples env) f \<Longrightarrow> shape (fan_tick env f) = shape f"
  using shape_update [of env "f\<lparr>fc_last_tick := Some (fe_now env)\<rparr>"]
    fits_shape [of "f\<lparr>fc_last_tick := Some (fe_now env)\<rparr>" f "fe_samples env"]
  by (simp add: fan_tick_def)

lemma shape_restore [simp]: "shape (restore env f) = shape f"
  by (simp add: restore_def write_fan_def Let_def) (simp add: shape_def)

section \<open>Every fan keeps its profile and its samples\<close>

definition set_up :: "instant \<Rightarrow> temperature_config \<Rightarrow> fan_profile list \<Rightarrow> fan_service \<Rightarrow> bool" where
  "set_up now temperature profiles s \<longleftrightarrow>
     map shape (sv_fans s) = map (\<lambda>p. shape (fan_new now temperature p)) profiles
     \<and> list_all2 fits (sv_samples s) (sv_fans s)"

lemma fits_nth: "list_all2 fits sms fs \<Longrightarrow> i < length fs \<Longrightarrow> fits (sms ! i) (fs ! i)"
  by (simp add: list_all2_conv_all_nth)

lemma fits_same: "map shape gs = map shape fs \<Longrightarrow> list_all2 fits sms fs \<Longrightarrow> list_all2 fits sms gs"
proof -
  assume same: "map shape gs = map shape fs" and fits: "list_all2 fits sms fs"
  from same have len: "length gs = length fs" by (rule map_eq_imp_length_eq)
  have "shape (gs ! i) = shape (fs ! i)" if "i < length fs" for i
    using arg_cong [OF same, of "\<lambda>xs. xs ! i"] that len by simp
  moreover have "length sms = length fs" using fits by (rule list_all2_lengthD)
  ultimately have "fits (sms ! i) (gs ! i)" if "i < length sms" for i
    using that fits_shape fits_nth [OF fits] by metis
  with \<open>length sms = _\<close> len show "list_all2 fits sms gs" by (simp add: list_all2_conv_all_nth)
qed

lemma set_up_fans:
  assumes "set_up now temperature profiles s" "map shape gs = map shape (sv_fans s)"
  shows "set_up now temperature profiles (s\<lparr>sv_fans := gs\<rparr>)"
  using assms fits_same [OF assms(2)] by (simp add: set_up_def)

lemma set_up_other [simp]:
  "set_up now temperature profiles (s\<lparr>sv_status := st\<rparr>) = set_up now temperature profiles s"
  "set_up now temperature profiles (s\<lparr>sv_live := l\<rparr>) = set_up now temperature profiles s"
  "set_up now temperature profiles (s\<lparr>sv_stop := b\<rparr>) = set_up now temperature profiles s"
  "set_up now temperature profiles (s\<lparr>sv_running := b\<rparr>) = set_up now temperature profiles s"
  by (simp_all add: set_up_def)

lemma views_length [simp]: "length (views base fs t works s) = length (sv_fans s)"
  by (simp add: views_def)

lemma views_samples:
  "i < length (sv_fans s) \<Longrightarrow> fe_samples (views base fs t works s ! i) = sv_samples s ! i"
  by (simp add: views_def fan_view_def Let_def)

lemma set_up_step: "set_up now temperature profiles s \<Longrightarrow> set_up now temperature profiles (service_step base ev s)"
proof (cases ev)
  case (Publish i j t fs)
  assume "set_up now temperature profiles s"
  then show ?thesis
    by (auto simp: Publish service_step_def publish_def set_up_def fits_def list_all2_conv_all_nth nth_list_update)
next
  case (FanPass t fs works)
  assume s: "set_up now temperature profiles s"
  let ?envs = "views base fs t works s"
  have fit: "i < length (sv_fans s) \<Longrightarrow> fits (sv_samples s ! i) (sv_fans s ! i)" for i
    using s fits_nth by (simp add: set_up_def)
  have "map shape (map2 fan_tick ?envs (sv_fans s)) = map shape (sv_fans s)"
    "map shape (map2 restore ?envs (sv_fans s)) = map shape (sv_fans s)"
    using fit by (auto intro!: nth_equalityI shape_tick simp: views_samples)
  with s set_up_fans [OF s] show ?thesis
    by (simp add: FanPass service_step_def fan_pass_def end_thread_def Let_def)
next
  case AskStop
  assume "set_up now temperature profiles s"
  then show ?thesis by (simp add: AskStop service_step_def)
next
  case (Panic t fs works)
  assume s: "set_up now temperature profiles s"
  have "map shape (map2 restore (views base fs t works s) (sv_fans s)) = map shape (sv_fans s)"
    by (auto intro!: nth_equalityI)
  with s set_up_fans [OF s] show ?thesis by (simp add: Panic service_step_def end_thread_def)
qed

lemma set_up_spawn: "set_up now temperature profiles (service_spawn now temperature profiles)"
  by (auto simp: set_up_def service_spawn_def fits_def list_all2_conv_all_nth fan_new_def starting_unmanaged_def)

lemma set_up_run: "set_up now temperature profiles (service_run base evs (service_spawn now temperature profiles))"
  by (induction evs rule: rev_induct) (simp_all add: service_run_def set_up_spawn set_up_step)

lemma shape_new:
  "shape (fan_new now temperature p) =
     (p, map (\<lambda>sel. resolve_temp_threshold temperature (sel_chip sel)) (fp_sensors p),
      map (\<lambda>sel. max (secs (sampling_secs sel (fp_update_secs p) * 3)) MIN_SENSOR_MAX_AGE) (fp_sensors p))"
  by (simp add: shape_def fan_new_def starting_unmanaged_def feed_new_def comp_def)

text \<open>A sample stays until its reader publishes the next.\<close>

definition republished :: "nat \<Rightarrow> nat \<Rightarrow> service_event \<Rightarrow> bool" where
  "republished i j ev = (case ev of Publish i' j' t fs \<Rightarrow> i' = i \<and> j' = j | _ \<Rightarrow> False)"

lemma nth_nth_update: "(k = i \<Longrightarrow> y ! j = xs ! i ! j) \<Longrightarrow> xs[k := y] ! i ! j = xs ! i ! j"
  by (cases "k < length xs") (auto simp: nth_list_update list_update_beyond)

lemma samples_kept:
  "\<not> list_ex (republished i j) evs \<Longrightarrow> sv_samples (service_run base evs s) ! i ! j = sv_samples s ! i ! j"
proof (induction evs rule: rev_induct)
  case (snoc ev evs)
  have "sv_samples (service_step base ev r) ! i ! j = sv_samples r ! i ! j" if "\<not> republished i j ev" for r
    using that by (cases ev) (auto simp: service_step_def publish_def republished_def fan_pass_def
        end_thread_def Let_def intro!: nth_nth_update)
  with snoc show ?case by (simp add: service_run_def)
qed (simp add: service_run_def)

lemma reader_value_max: "x \<in> set ts \<Longrightarrow> \<exists>v. reader_value ts = Some v \<and> x \<le> v"
  by (cases ts) (simp_all add: reader_value_def Max.set_eq_fold [symmetric] del: Max.set_eq_fold)

lemma reading_in:
  assumes "j < length (fe_samples env)" "j < length (fc_feeds f)"
    "feed_current (fe_now env) (fe_samples env ! j) (fc_feeds f ! j) = Some v"
  shows "(j, v) \<in> set (readings env f)"
  unfolding readings_def map_filter_set
proof (rule bexI)
  show "(j, Some v) \<in> set (enumerate 0 (map2 (feed_current (fe_now env)) (fe_samples env) (fc_feeds f)))"
    using assms by (simp add: in_set_enumerate_eq)
qed simp

section \<open>Heat reaches the fan\<close>

lemma heat_is_unsafe:
  assumes "j < length (fe_samples env)" "fits (fe_samples env) f" "fc_thresholds f ! j = (w, c)"
    "fe_samples env ! j = \<lparr>sm_at = Some t0, sm_value = Some v\<rparr>" "since (fe_now env) t0 \<le> fd_max_age (fc_feeds f ! j)"
    "c \<le> v \<or> is_over_range v"
  shows "unsafe env f" "readings env f \<noteq> []"
proof -
  have "(j, v) \<in> set (readings env f)"
    using assms by (intro reading_in) (auto simp: feed_current_def fits_def)
  moreover have "reading_hot f (j, v)" using assms(3,6) by (simp add: reading_hot_def)
  ultimately show "unsafe env f" "readings env f \<noteq> []" by (auto simp: unsafe_def list_ex_iff)
qed

lemma over_range_mono: "is_over_range x \<Longrightarrow> x \<le> v \<Longrightarrow> is_over_range v"
  by (simp add: is_over_range_def)

text \<open>The pass a fan is due in.\<close>

definition due :: "instant \<Rightarrow> fan \<Rightarrow> bool" where
  "due now f \<longleftrightarrow>
     (case fc_last_tick f of
        None \<Rightarrow> True
      | Some t \<Rightarrow> secs (max (fp_update_secs (fc_profile f)) 1) \<le> since now t)"

lemma unsafe_cong:
  "unsafe env (f\<lparr>fc_last_tick := lt\<rparr>) = unsafe env f" "readings env (f\<lparr>fc_last_tick := lt\<rparr>) = readings env f"
  "kicking env (f\<lparr>fc_last_tick := lt\<rparr>) = kicking env f" "turning env (f\<lparr>fc_last_tick := lt\<rparr>) = turning env f"
proof -
  show r: "readings env (f\<lparr>fc_last_tick := lt\<rparr>) = readings env f" by (simp add: readings_def)
  have h: "reading_hot (f\<lparr>fc_last_tick := lt\<rparr>) = reading_hot f" by (simp add: reading_hot_def fun_eq_iff)
  show "kicking env (f\<lparr>fc_last_tick := lt\<rparr>) = kicking env f" "turning env (f\<lparr>fc_last_tick := lt\<rparr>) = turning env f"
    by (simp_all add: kicking_def turning_def)
  have "fc_feeds (track_sensors env (f\<lparr>fc_last_tick := lt\<rparr>)) = fc_feeds (track_sensors env f)"
    by (simp add: track_sensors_def Let_def fan_logs_def)
  then show "unsafe env (f\<lparr>fc_last_tick := lt\<rparr>) = unsafe env f"
    by (simp add: unsafe_def r h floor_active_def)
qed

lemma step_fan:
  assumes "i < length (sv_fans s)" "sv_running s" "\<not> sv_stop s"
  shows "sv_fans (service_step base (FanPass t fs works) s) ! i
    = fan_tick (fan_view base fs t (works i) (sv_samples s ! i) (sv_fans s ! i)) (sv_fans s ! i)"
  using assms by (simp add: service_step_def fan_pass_def views_def Let_def)

lemma set_up_nth:
  assumes "set_up now temperature profiles s" "i < length profiles"
  shows "i < length (sv_fans s)" "shape (sv_fans s ! i) = shape (fan_new now temperature (profiles ! i))"
    "fits (sv_samples s ! i) (sv_fans s ! i)"
proof -
  have same: "map shape (sv_fans s) = map (\<lambda>p. shape (fan_new now temperature p)) profiles"
    using assms(1) by (simp add: set_up_def)
  then have len: "length (sv_fans s) = length profiles" by (rule map_eq_imp_length_eq)
  with assms(2) show i: "i < length (sv_fans s)" by simp
  show "shape (sv_fans s ! i) = shape (fan_new now temperature (profiles ! i))"
    using arg_cong [OF same, of "\<lambda>xs. xs ! i"] i assms(2) by simp
  show "fits (sv_samples s ! i) (sv_fans s ! i)" using assms(1) i by (simp add: set_up_def fits_nth)
qed

lemma published_sample:
  assumes "set_up now temperature profiles s" "i < length profiles" "fp_enabled (profiles ! i)"
    "j < length (fp_sensors (profiles ! i))"
  shows "sv_samples (publish base i j t fs s) ! i ! j = reader_sample fs base (fp_sensors (profiles ! i) ! j) t"
proof -
  note n = set_up_nth [OF assms(1,2)]
  from n(2) have "fc_profile (sv_fans s ! i) = profiles ! i" by (simp add: shape_new) (simp add: shape_def)
  with n assms(1,3,4) show ?thesis
    by (auto simp: publish_def fits_def set_up_def dest: list_all2_lengthD)
qed

text \<open>C1. A hot sensor reaches its fan, across the two threads between them. Whatever the threads did before
  and do since, if the last sample of a selector was taken of a tree in which one of its sensors read
  its critical temperature or more, or out of range, and that sample is not stale, the next pass the
  fan is due in writes its \<open>max_pwm\<close>, or \<open>min_start_pwm\<close> to a fan that does not turn, unless such a kick
  is still running.\<close>

theorem hot_sensor_reaches_fan:
  assumes "i < length profiles" "fp_enabled (profiles ! i)" "0 < fp_max_pwm (profiles ! i)"
    "j < length (fp_sensors (profiles ! i))" "sel = fp_sensors (profiles ! i) ! j"
    "x \<in> set (resolve_selector_in fs0 base sel)"
    "snd (resolve_temp_threshold temperature (sel_chip sel)) \<le> x \<or> is_over_range x"
    "s = service_run base (evs0 @ Publish i j t0 fs0 # evs) (service_spawn start temperature profiles)"
    "\<not> list_ex (republished i j) evs" "sv_running s" "\<not> sv_stop s" "due t (sv_fans s ! i)"
    "since t t0 \<le> max (secs (sampling_secs sel (fp_update_secs (profiles ! i)) * 3)) MIN_SENSOR_MAX_AGE"
    "works i = (True, True)"
    "fc_hwmon (sv_fans s ! i) \<noteq> None \<or> resolve_hwmon fs base (fp_pwm_chip (profiles ! i)) \<noteq> None"
  shows "let f = sv_fans s ! i; env = fan_view base fs t (works i) (sv_samples s ! i) f in
    fc_written (sv_fans (service_step base (FanPass t fs works) s) ! i) = fc_written f @
      (if kicking env f then []
       else if turning env f then [fp_max_pwm (profiles ! i)] else [fp_min_start_pwm (profiles ! i)])"
proof -
  let ?p = "profiles ! i"
  define f where "f = sv_fans s ! i"
  define env where "env = fan_view base fs t (works i) (sv_samples s ! i) f"
  define s0 where "s0 = service_run base evs0 (service_spawn start temperature profiles)"
  have s: "s = service_run base evs (publish base i j t0 fs0 s0)"
    by (simp add: assms(8) service_run_def s0_def service_step_def)
  have up: "set_up start temperature profiles s" "set_up start temperature profiles s0"
    unfolding assms(8) s0_def by (rule set_up_run)+
  note n = set_up_nth [OF up(1) assms(1), folded f_def]
  have g: "fc_profile f = ?p"
    "fc_thresholds f = map (\<lambda>sel. resolve_temp_threshold temperature (sel_chip sel)) (fp_sensors ?p)"
    "map fd_max_age (fc_feeds f)
      = map (\<lambda>sel. max (secs (sampling_secs sel (fp_update_secs ?p) * 3)) MIN_SENSOR_MAX_AGE) (fp_sensors ?p)"
    "j < length (fc_feeds f)"
    using n(2,3) assms(4) by (simp_all add: shape_new) (simp_all add: shape_def fits_def)
  have f: "fc_thresholds f ! j = resolve_temp_threshold temperature (sel_chip sel)"
    "fd_max_age (fc_feeds f ! j) = max (secs (sampling_secs sel (fp_update_secs ?p) * 3)) MIN_SENSOR_MAX_AGE"
    using arg_cong [OF g(3), of "\<lambda>xs. xs ! j"] g(2,4) assms(4,5) by simp_all
  obtain v where v: "reader_value (resolve_selector_in fs0 base sel) = Some v" "x \<le> v"
    using reader_value_max [OF assms(6)] by blast
  have sample: "fe_samples env ! j = \<lparr>sm_at = Some t0, sm_value = Some v\<rparr>" "fits (fe_samples env) f"
    using samples_kept [OF assms(9)] published_sample [OF up(2) assms(1,2,4)] n(3) v(1) assms(5)
    by (simp_all add: env_def fan_view_def Let_def s reader_sample_def)
  have env: "fe_now env = t" "fc_hwmon f \<noteq> None \<or> fe_resolved env \<noteq> None" "fe_manual_ok env \<and> fe_write_ok env"
    using assms(14,15) g(1) by (simp_all add: env_def fan_view_def Let_def f_def)
  have "unsafe env f" "readings env f \<noteq> []"
    using heat_is_unsafe [OF _ sample(2) _ sample(1), of "fst (fc_thresholds f ! j)" "snd (fc_thresholds f ! j)"]
      sample(2) g(4) f env(1) assms(7,13) v(2) over_range_mono by (auto simp: fits_def)
  moreover have "fan_tick env f = fan_update env (f\<lparr>fc_last_tick := Some t\<rparr>)"
    using assms(12) env(1) unfolding f_def [symmetric] by (auto simp: fan_tick_def due_def split: option.splits)
  ultimately have "fc_written (fan_tick env f) = fc_written f @
      (if kicking env f then []
       else if turning env f then [fp_max_pwm ?p] else [fp_min_start_pwm ?p])"
    using unsafe_written [of "f\<lparr>fc_last_tick := Some t\<rparr>" env] assms(2,3) g(1) env(2,3) sample(2)
    by (simp add: unsafe_cong fits_def)
  moreover have "sv_fans (service_step base (FanPass t fs works) s) ! i = fan_tick env f"
    using step_fan [OF n(1) assms(10,11)] by (simp add: env_def f_def)
  ultimately show ?thesis by (simp add: f_def [symmetric] env_def [symmetric] Let_def)
qed

text \<open>A drive at 200 degrees, and a fan that has just started.\<close>

definition hot_profile :: fan_profile where
  "hot_profile = fan_profile_default\<lparr>fp_pwm_chip := ''nvme'', fp_sensors := [nvme_selector]\<rparr>"

lemma hot_tree_chip: "glob_hwmon_in hot_tree ''/h'' ''nvme'' = Some [''/h/hwmon0'']"
proof -
  have "trim (''nvme'' @ [CHR 0x0A]) = ''nvme''" by code_simp
  then show ?thesis by (simp add: glob_hwmon_in_def chip_name_def hot_tree_def in_dir_def)
qed

lemma hot_tree_inputs: "temp_inputs hot_tree ''/h/hwmon0'' = [''temp1'']"
  by (simp add: temp_inputs_def hot_tree_def strip_suffix_def starts_with_def List.map_filter_simps)

lemma hot_tree_resolves: "resolve_selector_in hot_tree ''/h'' nvme_selector = [200]"
proof -
  have "sensor_reading hot_tree ''/h/hwmon0'' ''temp1'' = Some 200"
    using hot_tree_read by (simp add: sensor_reading_def read_temp_input_def in_dir_def PLAUSIBLE_MIN_C_def)
      (simp add: hot_tree_def)
  then show ?thesis
    by (simp add: resolve_selector_in_def nvme_selector_def selector_default_def hot_tree_chip hot_tree_inputs
        label_matches_def List.map_filter_simps)
qed

theorem hot_sensor_reaches_fan_witness:
  "let s = service_run ''/h'' [Publish 0 0 (secs 1) hot_tree] (service_spawn 0 temperature_default [hot_profile])
   in fc_written (sv_fans (service_step ''/h'' (FanPass (secs 2) hot_tree (\<lambda>i. (True, True))) s) ! 0) = [60]"
proof -
  define s where "s = service_run ''/h'' ([] @ Publish 0 0 (secs 1) hot_tree # [])
      (service_spawn 0 temperature_default [hot_profile])"
  have f: "sv_fans s ! 0 = fan_new 0 temperature_default hot_profile" "sv_running s" "\<not> sv_stop s"
    by (simp_all add: s_def service_run_def service_step_def publish_def service_spawn_def)
  have p: "fp_enabled hot_profile" "fp_max_pwm hot_profile = 255" "fp_sensors hot_profile = [nvme_selector]"
    "fp_min_start_pwm hot_profile = 60" "fp_pwm_chip hot_profile = ''nvme''"
    by (simp_all add: hot_profile_def fan_profile_default_def)
  have n: "due (secs 2) (fan_new 0 temperature_default hot_profile)"
    "fc_written (fan_new 0 temperature_default hot_profile) = []"
    "\<not> kicking env (fan_new 0 temperature_default hot_profile)"
    "\<not> turning env (fan_new 0 temperature_default hot_profile)" for env
    by (simp_all add: due_def fan_new_def starting_unmanaged_def kicking_def turning_def)
  have "is_over_range 200" by (simp add: is_over_range_def PLAUSIBLE_MAX_C_def)
  moreover have "since (secs 2) (secs 1) \<le> max (secs (sampling_secs nvme_selector (fp_update_secs hot_profile) * 3)) MIN_SENSOR_MAX_AGE"
    by (simp add: since_def MIN_SENSOR_MAX_AGE_def secs_def)
  ultimately show ?thesis
    using hot_sensor_reaches_fan [of 0 "[hot_profile]" 0 nvme_selector 200 hot_tree "''/h''" temperature_default s
        "[]" "secs 1" "[]" 0 "secs 2" "\<lambda>i. (True, True)" hot_tree] f p n
    by (simp add: s_def hot_tree_resolves resolve_hwmon_def hot_tree_chip)
qed

end
