(* ===== verification/Report.thy ===== *)
theory Report
  imports Sysfs Front Fan CpuPower Buzzer Scheduler Config
begin

text \<open>
  The status report: \<open>src/platform.rs\<close>, which reads the board's BIOS power settings and says when they
  defeat a configured wake source, the status lines of \<open>src/led.rs\<close> and \<open>src/buzzer.rs\<close>, and \<open>src/report.rs\<close>,
  which puts every component's own summary together. A report is the list of its lines. What is read
  on the way is the kernel's tree, the output of \<open>ip\<close> and each interface's driver.
\<close>

section \<open>Platform settings\<close>

definition PLATFORM_DIR :: string where "PLATFORM_DIR = ''/sys/devices/platform/asustor''"

definition lcd_power_in :: "sysfs \<Rightarrow> string \<Rightarrow> string" where
  "lcd_power_in fs dir =
     (if sf_list fs dir = None then ''unknown (platform driver not loaded)''
      else
        case sf_read fs (in_dir dir ''lcd_power'') of
          None \<Rightarrow> ''not exposed by this driver (no lcd_power)''
        | Some v \<Rightarrow>
            if trim v = ''1'' then ''on (lcd_power = 1, held by the driver)''
            else if trim v = ''0'' then ''OFF (lcd_power = 0: the panel and its buttons are dead)''
            else ''lcd_power = '' @ trim v)"

record power_settings =
  ps_ac_power_resume :: "string option"
  ps_eup :: "string option"

definition settings_from :: "sysfs \<Rightarrow> string \<Rightarrow> power_settings" where
  "settings_from fs dir =
     \<lparr>ps_ac_power_resume = map_option trim (sf_read fs (in_dir dir ''ac_power_resume'')),
      ps_eup = map_option trim (sf_read fs (in_dir dir ''eup''))\<rparr>"

definition eup_on :: "power_settings \<Rightarrow> bool" where
  "eup_on s \<longleftrightarrow> ps_eup s = Some ''1''"

definition settings_fields :: "power_settings \<Rightarrow> (string \<times> string) list" where
  "settings_fields s =
     (case ps_ac_power_resume s of
        None \<Rightarrow> []
      | Some r \<Rightarrow> [(''AC power resume'', r @
           (if r = ''off'' then '' (stay off when power returns)''
            else if r = ''last'' then '' (return to the state before the power loss)''
            else if r = ''on'' then '' (power on when power returns)'' else []))])
     @ (case ps_eup s of
          None \<Rightarrow> []
        | Some e \<Rightarrow> [(''EuP'', e @ (if e = ''0'' then '' (off)''
                                  else if e = ''1'' then '' (on: no standby power in soft-off)'' else []))])"

definition settings_describe :: "power_settings \<Rightarrow> string list" where
  "settings_describe s = map (\<lambda>(lbl, value). lbl @ '': '' @ value) (settings_fields s)"

definition wake_sources :: "config \<Rightarrow> string list" where
  "wake_sources cfg =
     (if wc_nics (cf_wol cfg) \<noteq> []
         \<and> (case parse_mode (wc_mode (cf_wol cfg)) of Inl e \<Rightarrow> False | Inr b \<Rightarrow> b \<noteq> 0)
      then [''Wake-on-LAN''] else [])
     @ (if list_ex is_power_on (parse_rules (cf_power_schedule cfg))
        then [''the power schedule's RTC wake''] else [])"

definition eup_warning :: "power_settings \<Rightarrow> string list \<Rightarrow> string option" where
  "eup_warning s sources =
     (if eup_on s \<and> sources \<noteq> []
      then Some (''EuP is on ('' @ PLATFORM_DIR @ ''/eup = 1): the board cuts standby power in soft-off, so ''
                 @ intercalate '' and '' sources @ '' may not wake it; turn ErP/EuP off in the BIOS'')
      else None)"

section \<open>The front LEDs and the buzzer\<close>

definition LEDS :: string where "LEDS = ''/sys/class/leds''"
definition FRONT_LED :: string where "FRONT_LED = ''front_panel::brightness''"

definition read_attr :: "sysfs \<Rightarrow> string \<Rightarrow> string \<Rightarrow> string option" where
  "read_attr fs led attr = map_option trim (sf_read fs (in_dir (in_dir LEDS led) attr))"

definition number_attr :: "sysfs \<Rightarrow> string \<Rightarrow> nat option" where
  "number_attr fs attr =
     (case read_attr fs FRONT_LED attr of None \<Rightarrow> None | Some v \<Rightarrow> parse_uint (2 ^ 32) v)"

definition front_max_brightness :: "sysfs \<Rightarrow> string + nat" where
  "front_max_brightness fs =
     (case number_attr fs ''max_brightness'' of
        Some m \<Rightarrow> if 0 < m then Inr m else Inl (''no '' @ LEDS @ ''/'' @ FRONT_LED @ '' LED -- front LED brightness needs the asustor-platform-driver fork's it87 loaded with led_pwm=3 led_pwm_invert=1'')
      | None \<Rightarrow> Inl (''no '' @ LEDS @ ''/'' @ FRONT_LED @ '' LED -- front LED brightness needs the asustor-platform-driver fork's it87 loaded with led_pwm=3 led_pwm_invert=1''))"

definition read_front_brightness :: "sysfs \<Rightarrow> nat option" where
  "read_front_brightness fs =
     (case front_max_brightness fs of
        Inl e \<Rightarrow> None
      | Inr m \<Rightarrow> map_option (\<lambda>v. brightness_percent v m) (number_attr fs ''brightness''))"

definition front_brightness_status :: "sysfs \<Rightarrow> string" where
  "front_brightness_status fs =
     (case front_max_brightness fs of
        Inl e \<Rightarrow> ''not available: '' @ e
      | Inr m \<Rightarrow>
          (case number_attr fs ''brightness'' of
             None \<Rightarrow> ''unreadable ('' @ FRONT_LED @ '')''
           | Some v \<Rightarrow> nat_str (brightness_percent v m) @ ''% ('' @ nat_str v @ ''/'' @ nat_str m @ '', '' @ FRONT_LED @ '')''))"

text \<open>The sentences of \<open>availability\<close>.\<close>

definition silence_text :: "silence \<Rightarrow> string" where
  "silence_text s =
     (case s of
        TurnedOff \<Rightarrow> ''turned off ([buzzer] enabled = false)''
      | DriverTooOld \<Rightarrow> ''buzzer_gate is active but there is no \"'' @ BUZZER_NAME @ ''\" input device: the asustor driver is too old (a fork build from before v0.3 that gated pcspkr instead); update it and reload asustor.ko''
      | NoGateAttribute \<Rightarrow> ''the platform driver has no buzzer gate (no buzzer_gate attribute); needs the asustor-platform-driver fork (https://github.com/Brady-Woods/asustor-platform-driver), main, v0.3 or later, with its \"'' @ BUZZER_NAME @ ''\" device''
      | GateTurnedOff \<Rightarrow> ''the platform driver's buzzer gate is disabled (asustor.ko loaded with buzzer=0)''
      | GateNotClaimed \<Rightarrow> ''the platform driver could not claim GP75 for its buzzer gate, most likely because of a stale /sys/class/gpio export (it87_gp75) when asustor.ko loaded; unexport it and reload asustor.ko''
      | GateUnknown v \<Rightarrow> ''the platform driver's buzzer_gate is '' @ v @ '', not \"active\"'')"

definition buzzer_status :: "beep_env \<Rightarrow> bool \<Rightarrow> string" where
  "buzzer_status env enabled =
     (case check_paths env enabled of
        Inr device \<Rightarrow> ''ready: '' @ int_str TONE_HZ @ '' Hz tones to '' @ device @ '' ('' @ BUZZER_NAME @ '')''
      | Inl reason \<Rightarrow> ''not beeping: '' @ silence_text reason)"

section \<open>The report\<close>

record report_inputs =
  ri_fs :: sysfs
  ri_exists :: "string \<Rightarrow> bool"
  ri_ip :: "string option"
  ri_wol :: "string \<Rightarrow> string + wol_info"
  ri_beep :: beep_env
  ri_env :: env
  ri_power :: "string list"

definition pad_left :: "nat \<Rightarrow> string \<Rightarrow> string" where
  "pad_left w s = replicate (w - length s) CHR '' '' @ s"

definition temp_tag :: "rat \<Rightarrow> rat \<times> rat \<Rightarrow> string" where
  "temp_tag t th = (if snd th \<le> t then ''CRITICAL'' else if fst th \<le> t then ''WARNING'' else ''ok'')"

definition temperature_line :: "temperature_config \<Rightarrow> string \<times> string \<times> rat \<Rightarrow> string" where
  "temperature_line cfg r =
     (case r of (chip, lbl, t) \<Rightarrow>
        let th = resolve_temp_threshold cfg chip in
        ''  '' @ pad_right 40 lbl @ '' '' @ pad_left 6 (fmt_fixed 1 t) @ ''C  ['' @ pad_right 8 (temp_tag t th)
        @ ''] (warn '' @ fmt_fixed 1 (fst th) @ ''C / crit '' @ fmt_fixed 1 (snd th) @ ''C)'')"

definition temperatures_section :: "report_inputs \<Rightarrow> config \<Rightarrow> string list" where
  "temperatures_section ri cfg =
     (let temps = sort_key (\<lambda>(chip, lbl, t). lbl) (all_connected_temps (ri_fs ri)) in
      [''-- Temperatures --''] @ (if temps = [] then [''  (no connected sensors found)''] else [])
      @ map (temperature_line (ac_temperature (cf_app cfg))) temps @ [[]])"

text \<open>What the report says of an interface: its address or its link in words, whether it is monitored, and its link.\<close>

definition nic_fields :: "report_inputs \<Rightarrow> config \<Rightarrow> string \<Rightarrow> string \<times> string \<times> string" where
  "nic_fields ri cfg iface =
     (let net = ac_network (cf_app cfg);
          monitored = monitored_nics net (configured_nics (is_physical (ri_exists ri)) (ri_ip ri))
      in (case map_of (ip_by_iface (ri_ip ri)) iface of
            Some ip \<Rightarrow> ip | None \<Rightarrow> nic_link_text (carrier (ri_fs ri)) iface,
          if net_enabled net \<and> iface \<in> set monitored then ''monitored'' else ''not monitored'',
          if link_is_down (carrier (ri_fs ri)) iface then ''down'' else ''up''))"

definition nic_line :: "report_inputs \<Rightarrow> config \<Rightarrow> string \<Rightarrow> string" where
  "nic_line ri cfg iface =
     (case nic_fields ri cfg iface of (addr, tag, link) \<Rightarrow>
        ''  '' @ pad_right 10 iface @ '' '' @ pad_right 20 addr @ '' '' @ tag @ '', link '' @ link)"

definition network_section :: "report_inputs \<Rightarrow> config \<Rightarrow> string list" where
  "network_section ri cfg =
     (let nics = physical_nics (ri_fs ri) (ri_exists ri) in
      [''-- Network --''] @ map (nic_line ri cfg) nics @ [[], ''-- Wake-on-LAN --'']
      @ map (\<lambda>i. ''  '' @ describe_wol (ri_wol ri i) i (cf_wol cfg)) (sort nics) @ [[]])"

definition platform_section :: "report_inputs \<Rightarrow> config \<Rightarrow> string list" where
  "platform_section ri cfg =
     (let settings = settings_from (ri_fs ri) PLATFORM_DIR; fields = settings_fields settings in
      if fields = [] then []
      else [''-- Platform power (BIOS) --'']
           @ map (\<lambda>(lbl, value). ''  '' @ pad_right 16 (lbl @ '':'') @ '' '' @ value) fields
           @ (case eup_warning settings (wake_sources cfg) of None \<Rightarrow> [] | Some w \<Rightarrow> [''  WARNING: '' @ w])
           @ [[]])"

definition pattern_debug :: "status_pattern \<Rightarrow> string" where
  "pattern_debug p =
     (case p of StatusOk \<Rightarrow> ''Ok'' | StatusWarning \<Rightarrow> ''Warning'' | StatusGreenFlashing \<Rightarrow> ''GreenFlashing''
      | StatusWarningFlashing \<Rightarrow> ''WarningFlashing'' | StatusDegraded \<Rightarrow> ''Degraded'' | StatusFailed \<Rightarrow> ''Failed''
      | StatusCriticalFlashing \<Rightarrow> ''CriticalFlashing'' | StatusLocate \<Rightarrow> ''Locate'' | StatusOff \<Rightarrow> ''Off'')"

definition bay_state_debug :: "bay_state \<Rightarrow> string" where
  "bay_state_debug b =
     (case b of BayNormal \<Rightarrow> ''Normal'' | BayFailed \<Rightarrow> ''Failed'' | BayAlert \<Rightarrow> ''Alert''
      | BayStandby \<Rightarrow> ''Standby'' | BayLocate \<Rightarrow> ''Locate'')"

definition bool_text :: "bool \<Rightarrow> string" where
  "bool_text b = (if b then ''true'' else ''false'')"

definition status_section :: "health_summary \<Rightarrow> string list" where
  "status_section h =
     [''-- Overall status LED --'', ''  pattern: '' @ pattern_debug (hs_pattern h),
      ''  severity: '' @ level_debug (hs_overall h) @ ''  (fan='' @ level_debug (hs_fan_health h)
        @ '' temp='' @ level_debug (hs_temp_level h) @ '' network='' @ level_debug (hs_network_level h)
        @ '' pool_degraded='' @ bool_text (hs_pool_degraded h) @ '' pool_faulted='' @ bool_text (hs_pool_faulted h)
        @ '' bay_failed='' @ bool_text (hs_bay_failed h) @ '')'']
     @ map (\<lambda>a. ''  alarm ['' @ level_debug (al_level a) @ '']: '' @ al_line0 a @ '' / '' @ al_line1 a) (hs_alarms h)"

definition or_none :: "string option \<Rightarrow> string" where
  "or_none x = ''  '' @ (case x of None \<Rightarrow> ''none'' | Some t \<Rightarrow> t)"

definition listed :: "string \<Rightarrow> string list \<Rightarrow> string list" where
  "listed none ls = (if ls = [] then [none] else ls)"

definition report_build ::
  "report_inputs \<Rightarrow> app \<Rightarrow> fan_status \<Rightarrow> string option \<Rightarrow> nat \<times> nat \<times> nat \<Rightarrow> config \<Rightarrow> string list" where
  "report_build ri st fans cpu_power stats cfg =
     (let h = health_summary (ri_env ri) st; now = e_now (ri_env ri) in
      [''=== lcm-status report ==='', [], ''-- Fans --'']
      @ listed ''  (none configured)'' (map ((@) ''  '') (fs_lines fans))
      @ [[], ''-- CPU power limits --'',
         ''  '' @ (case cpu_power of None \<Rightarrow> ''not managed ([cpu_power] enabled = false)'' | Some l \<Rightarrow> l), []]
      @ temperatures_section ri cfg
      @ [''-- Pools --''] @ listed ''  (none found)'' (map (\<lambda>(n, x). ''  '' @ pad_right 16 n @ '' '' @ x) (hs_pool_healths h))
      @ [[], ''-- Drive bays (SMART) --'']
      @ listed ''  (none found)'' (map (\<lambda>(b, x). ''  bay '' @ nat_str b @ '': '' @ bay_state_debug x) (bay_states st))
      @ [[]] @ network_section ri cfg @ [''-- Power schedule --'']
      @ (case countdown_summary now st of None \<Rightarrow> [] | Some c \<Rightarrow> [''  COUNTING DOWN: '' @ c])
      @ map ((@) ''  '') (ri_power ri) @ [[]] @ platform_section ri cfg
      @ [''-- Front panel --'', ''  LCD power:      '' @ lcd_power_in (ri_fs ri) PLATFORM_DIR,
         ''  LED brightness: '' @ front_brightness_status (ri_fs ri), [],
         ''-- Buzzer --'', ''  '' @ buzzer_status (ri_beep ri) (bc_enabled (cf_buzzer cfg)), [],
         ''-- LCD link --'']
      @ (case stats of (w, r, f) \<Rightarrow>
           [''  '' @ nat_str w @ '' text writes, '' @ nat_str r @ '' retried, '' @ nat_str f @ '' failed'', []])
      @ [''-- On the LCD and LED --'',
         ''  '' @ (case alarm_summary st of None \<Rightarrow> ''no alarm: the status screens rotate'' | Some a \<Rightarrow> a), [],
         ''-- Active override --'', or_none (override_summary st), [],
         ''-- Locate --'', or_none (locate_summary now st), []]
      @ status_section h)"

section \<open>What it warns of\<close>

lemma settings_no_warning:
  "\<not> list_ex (starts_with ''  WARNING: '') (map (\<lambda>(lbl, value). ''  '' @ pad_right 16 (lbl @ '':'') @ '' '' @ value) (settings_fields s))"
  by (auto simp: settings_fields_def starts_with_def pad_right_def split: option.split)

text \<open>The report warns that the BIOS defeats a configured wake source exactly when it does: the driver reads
  \<open>eup\<close> as 1, and Wake-on-LAN is kept on for some interface with a mode other than off or a rule that
  switches the power on is in the schedule.\<close>

theorem report_warns_of_eup:
  "list_ex (starts_with ''  WARNING: '') (platform_section ri cfg) \<longleftrightarrow>
     map_option trim (sf_read (ri_fs ri) ''/sys/devices/platform/asustor/eup'') = Some ''1''
     \<and> (wc_nics (cf_wol cfg) \<noteq> []
         \<and> (case parse_mode (wc_mode (cf_wol cfg)) of Inl e \<Rightarrow> False | Inr b \<Rightarrow> b \<noteq> 0)
        \<or> list_ex is_power_on (parse_rules (cf_power_schedule cfg)))"
proof -
  let ?s = "settings_from (ri_fs ri) PLATFORM_DIR"
  have eup: "eup_on ?s \<longleftrightarrow> map_option trim (sf_read (ri_fs ri) ''/sys/devices/platform/asustor/eup'') = Some ''1''"
    by (simp add: eup_on_def settings_from_def in_dir_def PLATFORM_DIR_def)
  have "eup_on ?s \<Longrightarrow> settings_fields ?s \<noteq> []" by (simp add: eup_on_def settings_fields_def)
  then have "list_ex (starts_with ''  WARNING: '') (platform_section ri cfg) \<longleftrightarrow> eup_on ?s \<and> wake_sources cfg \<noteq> []"
    using settings_no_warning [of ?s]
    by (auto simp: platform_section_def eup_warning_def Let_def starts_with_def)
  then show ?thesis unfolding eup by (auto simp: wake_sources_def)
qed

text \<open>An interface without an address whose carrier cannot be read is called disconnected and up in one line.\<close>

lemma unreadable_carrier_contradicts:
  "map_of (ip_by_iface (ri_ip ri)) iface = None \<Longrightarrow> carrier (ri_fs ri) iface = None \<Longrightarrow>
     fst (nic_fields ri cfg iface) = ''disconnected'' \<and> snd (snd (nic_fields ri cfg iface)) = ''up''"
  by (simp add: nic_fields_def nic_link_text_def link_is_down_def Let_def)

end
