(* ===== verification/PanelProbe.thy ===== *)
theory PanelProbe
  imports Cli Protocol
begin

text \<open>
  The panel probes of \<open>src/main.rs\<close> (\<open>init\<close>, \<open>settext\<close>, \<open>listen\<close>) and the opening of the serial device,
  \<open>open_exclusive\<close> and \<open>Lcm::open\<close> of \<open>src/protocol.rs\<close>. A printed line is a constructor with its values.
\<close>

section \<open>Opening the device\<close>

datatype lock_result = Locked | WouldBlock | LockError string

datatype open_error = OsError string | InUse string

text \<open>What opening the file, locking it and setting the line parameters answer, and the port behind it.\<close>

record serial_device =
  dv_open :: "string option"
  dv_lock :: lock_result
  dv_attributes :: "string option"
  dv_rx :: "rx_event list"
  dv_tx :: "tx_event list"
  dv_now :: instant

definition open_exclusive :: "string \<Rightarrow> serial_device \<Rightarrow> open_error option" where
  "open_exclusive path d =
     (case dv_open d of
        Some e \<Rightarrow> Some (OsError e)
      | None \<Rightarrow>
          (case dv_lock d of
             Locked \<Rightarrow> None
           | WouldBlock \<Rightarrow> Some (InUse path)
           | LockError e \<Rightarrow> Some (OsError e)))"

definition lcm_open :: "string \<Rightarrow> serial_device \<Rightarrow> open_error + lcm" where
  "lcm_open path d =
     (case open_exclusive path d of
        Some e \<Rightarrow> Inl e
      | None \<Rightarrow>
          (case dv_attributes d of
             Some e \<Rightarrow> Inl (OsError e)
           | None \<Rightarrow> Inr (with_port (dv_rx d) (dv_tx d) (dv_now d))))"

section \<open>The probes\<close>

datatype frame_note = KeyNote key | VersionNote u8 u8 u8 | NoNote

datatype probe_line =
  InitLine bool bool
| SetTextLine u8 bool
| ListeningFor nat
| FrameLine frame frame_note

definition note_of :: "frame \<Rightarrow> frame_note" where
  "note_of f =
     (case frame_key f of
        Some k \<Rightarrow> KeyNote k
      | None \<Rightarrow>
          (case payload f of
             major # minor # patch # rest \<Rightarrow>
               if is_unsolicited f \<and> subcmd f = SUB_VERSION then VersionNote major minor patch else NoNote
           | _ \<Rightarrow> NoNote))"

text \<open>One round of \<open>listen\<close>: the frame read, if any, and the port after its acknowledgement.\<close>

definition listen_round :: "lcm \<Rightarrow> frame option \<times> lcm" where
  "listen_round l =
     (case read_frame (millis 500) l of
        (None, l') \<Rightarrow> (None, l')
      | (Some f, l') \<Rightarrow> (Some f, if opcode f = OP_COMMAND then snd (ack (subcmd f) l') else l'))"

lemma round_progress:
  assumes "listen_round l = (r, l')"
  shows "length (lcm_rx l') < length (lcm_rx l) \<or> lcm_rx l' = lcm_rx l \<and> lcm_clock l < lcm_clock l'"
proof (cases r)
  case (Some f)
  with assms obtain l1 where l1: "read_frame (millis 500) l = (Some f, l1)" "lcm_rx l' = lcm_rx l1"
    by (auto simp: listen_round_def split: prod.splits option.splits if_splits)
  with read_frame_shorter [OF l1(1)] show ?thesis by simp
next
  case None
  with assms have l': "read_frame (millis 500) l = (None, l')"
    by (auto simp: listen_round_def split: prod.splits option.splits)
  show ?thesis
  proof (cases "lcm_rx l")
    case Nil
    with l' show ?thesis by (auto simp: read_frame_def since_def time_simps FRAME_MAX_def)
  next
    case (Cons ev evs)
    have shorter: "length rxs < length (ev # evs)"
      if "read_loop t n evs b m s = (buf, rxs, now, seen)" for t n b m s buf rxs now seen
      using read_loop_rx [OF that] by simp
    from l' Cons have "length (lcm_rx l') < length (ev # evs)"
      by (auto simp: read_frame_def since_def time_simps FRAME_MAX_def Let_def dest: shorter
          split: prod.splits if_splits read_result.splits)
    with Cons show ?thesis by simp
  qed
qed

function listen_loop :: "instant \<Rightarrow> lcm \<Rightarrow> probe_line list \<times> lcm" where
  "listen_loop deadline l =
     (if deadline \<le> lcm_clock l then ([], l)
      else
        (case listen_round l of
           (r, l') \<Rightarrow>
             (case listen_loop deadline l' of
                (ls, l'') \<Rightarrow> ((case r of None \<Rightarrow> ls | Some f \<Rightarrow> FrameLine f (note_of f) # ls), l''))))"
  by pat_completeness auto
termination
proof (relation "measures [\<lambda>(d, l). length (lcm_rx l), \<lambda>(d, l). since d (lcm_clock l)]", goal_cases)
  case (2 deadline l r l')
  from round_progress [of l r l'] 2 show ?case by (auto simp: since_def)
qed simp

declare listen_loop.simps [simp del]

text \<open>What the probe prints, its exit code, and the port it leaves.\<close>

definition LCM_DEVICE :: string where "LCM_DEVICE = ''/dev/ttyS1''"

definition run_probe_command :: "string \<Rightarrow> string list \<Rightarrow> serial_device \<Rightarrow> probe_line list \<times> nat \<times> lcm option" where
  "run_probe_command cmd argv d =
     (case lcm_open LCM_DEVICE d of
        Inl e \<Rightarrow> ([], 1, None)
      | Inr l \<Rightarrow>
          if cmd = ''init'' then
            (case lcm_init l of
               (r, l') \<Rightarrow>
                 (case (case r of Inl e \<Rightarrow> (False, False) | Inr b \<Rightarrow> b) of
                    (ok1, ok2) \<Rightarrow> ([InitLine ok1 ok2], 0, Some l')))
          else if cmd = ''settext'' then
            (let line = (if 2 < length argv then (case parse_uint 256 (argv ! 2) of None \<Rightarrow> 0 | Some n \<Rightarrow> of_nat n) else 0);
                 txt = (if 3 < length argv then argv ! 3 else [])
             in case set_text line txt 0 l of
                  (r, l') \<Rightarrow> ([SetTextLine line (case r of Inl e \<Rightarrow> False | Inr b \<Rightarrow> b)], 0, Some l'))
          else
            (let n = (if 2 < length argv then (case parse_uint (2 ^ 64) (argv ! 2) of None \<Rightarrow> 300 | Some n \<Rightarrow> n) else 300)
             in case listen_deadline (lcm_clock l) n of
                  Inl e \<Rightarrow> ([ListeningFor n], 2, Some l)
                | Inr deadline \<Rightarrow>
                    (case listen_loop deadline l of (ls, l') \<Rightarrow> (ListeningFor n # ls, 0, Some l'))))"

section \<open>What a probe does\<close>

lemma listening_ends: "deadline \<le> lcm_clock (snd (listen_loop deadline l))"
proof (induction deadline l rule: listen_loop.induct)
  case (1 deadline l)
  show ?case
  proof (cases "deadline \<le> lcm_clock l")
    case True
    then show ?thesis by (simp add: listen_loop.simps [of deadline l])
  next
    case False
    obtain r l1 where r: "listen_round l = (r, l1)" by fastforce
    from "1.IH" [OF False r [symmetric]] show ?thesis
      using False by (simp add: listen_loop.simps [of deadline l] r case_prod_beta)
  qed
qed

text \<open>The frames a list of printed lines shows.\<close>

definition shown_frames :: "probe_line list \<Rightarrow> frame list" where
  "shown_frames ls = List.map_filter (\<lambda>x. case x of FrameLine f n \<Rightarrow> Some f | _ \<Rightarrow> None) ls"

text \<open>With a port that takes everything, \<open>listen\<close> acknowledges the commands it prints, in their order, and
  writes nothing else: corrupted ones too, unlike the daemon.\<close>

lemma listen_answers:
  "lcm_tx l = [] \<Longrightarrow> listen_loop deadline l = (ls, l') \<Longrightarrow>
     lcm_tx l' = [] \<and> lcm_wire l' = lcm_wire l @ acks_of (filter (\<lambda>f. opcode f = OP_COMMAND) (shown_frames ls))"
proof (induction deadline l arbitrary: ls l' rule: listen_loop.induct)
  case (1 deadline l)
  show ?case
  proof (cases "deadline \<le> lcm_clock l")
    case True
    with 1 show ?thesis by (simp add: listen_loop.simps [of deadline l] acks_of_def shown_frames_def List.map_filter_simps)
  next
    case False
    obtain r l1 where r: "listen_round l = (r, l1)" by fastforce
    obtain ls1 l2 where rest: "listen_loop deadline l1 = (ls1, l2)" by fastforce
    have ls: "ls = (case r of None \<Rightarrow> ls1 | Some f \<Rightarrow> FrameLine f (note_of f) # ls1)" "l' = l2"
      using "1.prems"(2) False r rest by (simp_all add: listen_loop.simps [of deadline l])
    have step: "lcm_tx l1 = []" "lcm_wire l1 = lcm_wire l
        @ (case r of None \<Rightarrow> [] | Some f \<Rightarrow> if opcode f = OP_COMMAND then encode OP_ACK (subcmd f) [0] else [])"
      using r "1.prems"(1)
      by (auto simp: listen_round_def ack_def send_open_port split: prod.splits option.splits if_splits
          dest!: read_frame_frame)
    from "1.IH" [OF False r [symmetric] step(1) rest] step(2) show ?thesis
      by (simp add: ls acks_of_def shown_frames_def List.map_filter_simps split: option.split)
  qed
qed

text \<open>While another process holds the device, a probe writes nothing.\<close>

lemma probe_excluded: "dv_lock d = WouldBlock \<Longrightarrow> run_probe_command cmd argv d = ([], 1, None)"
  by (simp add: run_probe_command_def lcm_open_def open_exclusive_def split: option.split)

end
