(* ===== verification/Startup.thy ===== *)
theory Startup
  imports Report PanelProbe FanProps
begin

text \<open>
  What happens around the daemon: the exit code of every subcommand of \<open>src/main.rs\<close>, the requests to a
  running daemon, the power-off, and what a start logs and prepares: the summaries of \<open>src/config.rs\<close>, the
  board's power settings, and the LED triggers and ports of \<open>src/led.rs\<close>.
\<close>

section \<open>Summaries of the configuration\<close>

text \<open>\<open>Display\<close> of an \<open>f32\<close>: the fewest decimals that read back as the same number (below 2^24, where no digit
  before the point is in doubt).\<close>

definition reads_back :: "rat \<Rightarrow> nat \<Rightarrow> bool" where
  "reads_back x d \<longleftrightarrow> f32_round (of_int (round_even (\<bar>x\<bar> * 10 ^ d)) / 10 ^ d) = \<bar>x\<bar>"

definition f32_display :: "rat \<Rightarrow> string" where
  "f32_display x = fmt_fixed (case find (reads_back x) [0..<60] of None \<Rightarrow> 60 | Some d \<Rightarrow> d) x"

definition fmt_c :: "rat \<Rightarrow> string" where "fmt_c v = f32_display v @ ''C''"

definition describe_thresholds :: "temperature_config \<Rightarrow> string" where
  "describe_thresholds cfg =
     intercalate '', ''
       (map (\<lambda>t. tho_chip t @ '' '' @ fmt_c (tho_warn t) @ ''/'' @ fmt_c (tho_critical t)) (tmp_thresholds cfg)
        @ [''other chips '' @ fmt_c (tmp_warn_threshold cfg) @ ''/'' @ fmt_c (tmp_critical_threshold cfg)])"

definition describe_sensors :: "temperature_config \<Rightarrow> (string \<times> string \<times> rat) list \<Rightarrow> string" where
  "describe_sensors cfg temps =
     (if temps = [] then ''sensors: none detected''
      else ''sensors: '' @ intercalate ''; '' (map (\<lambda>(chip, desc, t).
             case resolve_temp_threshold cfg chip of (w, c) \<Rightarrow>
               desc @ '' '' @ fmt_fixed 0 t @ ''C (warn '' @ fmt_c w @ '', crit '' @ fmt_c c @ '')'') temps))"

definition describe_selector :: "fan_profile \<Rightarrow> sensor_selector \<Rightarrow> string" where
  "describe_selector f s =
     sel_chip s
     @ (case sel_input s of None \<Rightarrow> [] | Some i \<Rightarrow> '' '' @ i)
     @ (case sel_label s of None \<Rightarrow> [] | Some l \<Rightarrow> '' \"'' @ l @ ''\"'')
     @ '' '' @ f32_display (min_temp_of f s) @ ''-'' @ f32_display (max_temp_of f s) @ ''C''"

definition describe_control :: "fan_profile \<Rightarrow> string" where
  "describe_control f =
     (case fp_mode f of
        FanFixed \<Rightarrow>
          (case fp_fixed_pwm f of
             Some p \<Rightarrow> ''fixed pwm '' @ nat_str p @ '', pwm '' @ nat_str (fp_max_pwm f) @ '' while any sensor is critical''
           | None \<Rightarrow> ''fixed mode without fixed_pwm'')
      | FanCurve \<Rightarrow>
          ''curve: pwm '' @ nat_str (fp_min_pwm f) @ '' at/below '' @ fmt_c (fp_min_temp_c f) @ '', ramp ''
          @ nat_str (fp_min_stop_pwm f) @ ''..'' @ nat_str (fp_max_pwm f) @ '' up to '' @ fmt_c (fp_max_temp_c f)
          @ '', pwm '' @ nat_str (fp_max_pwm f) @ '' at/above it (a stopped fan is kicked at pwm ''
          @ nat_str (fp_min_start_pwm f) @ '')'')"

definition fan_head :: "fan_profile \<Rightarrow> string" where
  "fan_head f =
     ''fan '' @ [CHR 0x27] @ fp_name f @ [CHR 0x27] @ '' ('' @ fp_pwm_chip f @ '' pwm'' @ nat_str (fp_pwm_index f) @ '', ''
     @ (case fp_fan_index f of None \<Rightarrow> ''no tach'' | Some i \<Rightarrow> ''tach fan'' @ nat_str i) @ '')''"

definition describe_fan :: "fan_profile \<Rightarrow> string" where
  "describe_fan f =
     (if \<not> fp_enabled f then fan_head f @ '': disabled''
      else if fp_disabled_by_config f then fan_head f @ '': disabled by config, left in BIOS/driver mode''
      else
        let sensors = intercalate '', '' (map (describe_selector f) (fp_sensors f)) in
        fan_head f @ '': '' @ describe_control f @ ''; sensors (ramp start-full speed): ''
        @ (if sensors = [] then ''none'' else sensors))"

section \<open>The LEDs at a start\<close>

definition driver_present :: "sysfs \<Rightarrow> bool" where
  "driver_present fs \<longleftrightarrow> sf_list fs PLATFORM_DIR \<noteq> None
     \<and> sf_list fs ''/sys/class/leds/sata1:red:disk'' \<noteq> None \<and> sf_list fs ''/sys/class/leds/green:status'' \<noteq> None"

definition nic_led_ports :: "sysfs \<Rightarrow> string list" where
  "nic_led_ports fs =
     (case sf_list fs LEDS of None \<Rightarrow> [] | Some es \<Rightarrow> sort (List.map_filter (strip_suffix ''-0::lan'') es))"

definition TRIGGER_MODULES :: "(string \<times> string) list" where
  "TRIGGER_MODULES = [(''timer'', ''ledtrig-timer''), (''netdev'', ''ledtrig-netdev'')]"

definition trigger_word :: "string \<Rightarrow> string" where
  "trigger_word w = rev (dropWhile (\<lambda>c. c = CHR '']'') (rev (dropWhile (\<lambda>c. c = CHR ''['') w)))"

definition trigger_registered :: "sysfs \<Rightarrow> string \<Rightarrow> bool" where
  "trigger_registered fs name \<longleftrightarrow>
     (case sf_list fs LEDS of
        None \<Rightarrow> False
      | Some es \<Rightarrow> list_ex (\<lambda>e. case sf_read fs (in_dir (in_dir LEDS e) ''trigger'') of
                        None \<Rightarrow> False | Some t \<Rightarrow> list_ex (\<lambda>w. trigger_word w = name) (split_whitespace t)) es)"

text \<open>\<open>modprobe\<close>: whether it succeeded, and the tree afterwards.\<close>

fun ensure_triggers ::
  "(string \<Rightarrow> sysfs \<Rightarrow> bool \<times> sysfs) \<Rightarrow> (string \<times> string) list \<Rightarrow> sysfs \<Rightarrow> log_line list \<times> sysfs" where
  "ensure_triggers modprobe [] fs = ([], fs)"
| "ensure_triggers modprobe ((trigger, kmod) # rest) fs =
     (if trigger_registered fs trigger then ensure_triggers modprobe rest fs
      else
        case modprobe kmod fs of
          (loaded, fs1) \<Rightarrow>
            (case ensure_triggers modprobe rest fs1 of
               (ls, fs2) \<Rightarrow>
                 ((if \<not> loaded \<or> \<not> trigger_registered fs1 trigger
                   then [syslog PWarning ''trigger_unavailable'' [trigger, kmod] []] else []) @ ls, fs2)))"

definition ensure_trigger_modules :: "(string \<Rightarrow> sysfs \<Rightarrow> bool \<times> sysfs) \<Rightarrow> sysfs \<Rightarrow> log_line list \<times> sysfs" where
  "ensure_trigger_modules modprobe fs = ensure_triggers modprobe TRIGGER_MODULES fs"

text \<open>The value written, if any; \<open>wrt v\<close> is the error of writing \<open>v\<close>.\<close>

definition set_front_brightness :: "sysfs \<Rightarrow> (string \<Rightarrow> string option) \<Rightarrow> nat \<Rightarrow> string option \<times> string list" where
  "set_front_brightness fs wrt percent =
     (case front_max_brightness fs of
        Inl e \<Rightarrow> (Some e, [])
      | Inr m \<Rightarrow>
          let v = nat_str (brightness_value percent m) in
          (map_option (\<lambda>e. LEDS @ ''/'' @ FRONT_LED @ ''/brightness: '' @ e) (wrt v), [v]))"

definition DISK_LED_READY :: string where "DISK_LED_READY = ''/sys/module/asustor/parameters/disk_led_ready''"

definition set_bay_mode :: "string + string \<Rightarrow> (string \<Rightarrow> string option) \<Rightarrow> bay_led_mode \<Rightarrow> string option \<times> string list" where
  "set_bay_mode current wrt mode =
     (let want = (case mode of BayReady \<Rightarrow> ''Y'' | BayActivity \<Rightarrow> ''N'') in
      case current of
        Inl e \<Rightarrow> (Some (DISK_LED_READY @ '': '' @ e @ '' (asustor driver not loaded?)''), [])
      | Inr v \<Rightarrow>
          if trim v = want then (None, [])
          else
            let v = (if want = ''Y'' then ''1'' else ''0'') in
            (map_option (\<lambda>e. DISK_LED_READY @ '': '' @ e
               @ '' -- this asustor driver only reads it at load; it needs the runtime-writable disk_led_ready change'') (wrt v), [v]))"

section \<open>What the daemon logs and runs\<close>

definition log_temperature_setup :: "config \<Rightarrow> (string \<times> string \<times> rat) list \<Rightarrow> log_line list" where
  "log_temperature_setup cfg temps =
     map (\<lambda>f. syslog PInfo (describe_fan f) [] []) (cf_fans cfg)
     @ [syslog PInfo (describe_sensors (ac_temperature (cf_app cfg)) temps) [] []]"

definition log_platform_settings :: "sysfs \<Rightarrow> config \<Rightarrow> log_line list" where
  "log_platform_settings fs cfg =
     (let settings = settings_from fs PLATFORM_DIR; ls = settings_describe settings in
      (if ls = [] then [] else [syslog PInfo (''platform: '' @ intercalate ''; '' ls) [] []])
      @ (case eup_warning settings (wake_sources cfg) of None \<Rightarrow> [] | Some w \<Rightarrow> [syslog PWarning w [] []]))"

text \<open>The verb \<open>systemctl\<close> is run with and what is logged; \<open>run verb\<close> is \<open>None\<close> if it succeeds, else its
  status or why it could not be run.\<close>

definition run_action :: "(string \<Rightarrow> (string + string) option) \<Rightarrow> action \<Rightarrow> string \<times> log_line list" where
  "run_action run a =
     (let verb = (case a of Shutdown \<Rightarrow> ''poweroff'' | Restart \<Rightarrow> ''reboot'') in
      (verb, case run verb of
               None \<Rightarrow> []
             | Some (Inl status) \<Rightarrow> [syslog PCritical ''systemctl_failed'' [verb, status] []]
             | Some (Inr e) \<Rightarrow> [syslog PCritical ''systemctl_failed_to_run'' [verb, e] []]))"

section \<open>Subcommands\<close>

text \<open>A request to the daemon: what went wrong, which exits with 1, or its reply.\<close>

datatype request_error = ConnectFailed string | SendFailed string | ResponseFailed string

record client_socket =
  ck_connect :: "string option"
  ck_send :: "string \<Rightarrow> string option"
  ck_reply :: "string \<Rightarrow> string + string"

definition socket_request :: "client_socket \<Rightarrow> string \<Rightarrow> request_error + string" where
  "socket_request k request =
     (let line = request @ [CHR 0x0A] in
      case ck_connect k of
        Some e \<Rightarrow> Inl (ConnectFailed e)
      | None \<Rightarrow>
          (case ck_send k line of
             Some e \<Rightarrow> Inl (SendFailed e)
           | None \<Rightarrow> (case ck_reply k line of Inl e \<Rightarrow> Inl (ResponseFailed e) | Inr r \<Rightarrow> Inr r)))"

text \<open>The code a request ends with: 0, or 1 if it failed or was answered with an error.\<close>

definition request_exit :: "client_socket \<Rightarrow> string \<Rightarrow> nat" where
  "request_exit k request =
     (case socket_request k request of
        Inl e \<Rightarrow> 1
      | Inr reply \<Rightarrow> (case classify_reply reply of Inl e \<Rightarrow> 1 | Inr t \<Rightarrow> 0))"

record main_env =
  me_load :: "string \<Rightarrow> config \<times> load_error list"
  me_socket :: "string \<Rightarrow> client_socket"
  me_write :: zone_write
  me_zone :: zone
  me_failsafe :: "string + (nat \<times> full_speed_outcome) list"
  me_device :: serial_device
  me_other :: "cli \<Rightarrow> nat"

text \<open>\<open>me_other\<close> is the code of the subcommands that exit by themselves: the daemon and the
  calibration.\<close>

definition fan_failsafe_exit :: "main_env \<Rightarrow> config \<Rightarrow> nat" where
  "fan_failsafe_exit env cfg =
     (if fst (restore_stock (me_write env) (cf_cpu_power cfg) (me_zone env)) = None
         \<and> all_present_fans_set (force_full_speed_bounded (cf_fans cfg) (me_failsafe env))
      then 0 else 1)"

definition main_exit :: "main_env \<Rightarrow> string list \<Rightarrow> nat" where
  "main_exit env argv =
     (case parse_args argv of
        Inl e \<Rightarrow> 2
      | Inr cmd \<Rightarrow>
          (case cmd of
             Help \<Rightarrow> 0
           | CheckConfig path \<Rightarrow> (if snd (me_load env path) = [] then 0 else 1)
           | HalTest path \<Rightarrow> 0
           | FanFailsafe path \<Rightarrow> fan_failsafe_exit env (fst (me_load env path))
           | CliStatus path \<Rightarrow> request_exit (me_socket env (cf_socket_path (fst (me_load env path)))) ''STATUS''
           | CliLocate path bay ttl off \<Rightarrow>
               request_exit (me_socket env (cf_socket_path (fst (me_load env path)))) (locate_request bay ttl off)
           | Probe p \<Rightarrow> fst (snd (run_probe_command p argv (me_device env)))
           | FanProfile path yes \<Rightarrow> me_other env cmd
           | CliDaemon path \<Rightarrow> me_other env cmd))"

section \<open>The stop hook\<close>

text \<open>C37. The unit's stop hook succeeds only when the hardware is safe: \<open>lcm-status fan-failsafe\<close> exits with 0
  exactly when restoring the stock power limits worked (or they are not managed) and, of the helper's
  reports, one arrived in time for every enabled fan and none of a fan whose chip is there failed.\<close>

theorem failsafe_exit_code:
  "let cfg = fst (me_load env DEFAULT_CONFIG_PATH); enabled = filter fp_enabled (cf_fans cfg)
   in main_exit (env\<lparr>me_failsafe := Inr (helper_reports wrt enabled k)\<rparr>) [program, ''fan-failsafe''] =
     (if fst (restore_stock (me_write env) (cf_cpu_power cfg) (me_zone env)) = None
         \<and> length enabled \<le> k \<and> list_all (\<lambda>p. wrt p \<in> {Forced, ChipAbsent}) enabled
      then 0 else 1)"
proof -
  have "parse_args [program, ''fan-failsafe''] = Inr (FanFailsafe DEFAULT_CONFIG_PATH)"
    by (simp add: parse_args_def with_config_def config_arg_def)
  then show ?thesis
    using conjunct2 [OF failsafe_outcomes [of "cf_fans (fst (me_load env DEFAULT_CONFIG_PATH))" wrt k]]
    by (simp add: main_exit_def fan_failsafe_exit_def Let_def)
qed

text \<open>A profile that \<open>validate\<close> switched off for being inconsistent is announced at a start as one that was
  switched off on purpose.\<close>

lemma disabled_profile_described:
  "fp_enabled f \<Longrightarrow> fan_problems f \<noteq> [] \<Longrightarrow>
     fp_disabled_by_config (fst (validate_fan f))
     \<and> describe_fan (fst (validate_fan f)) = fan_head f @ '': disabled''"
  by (simp add: validate_fan_def describe_fan_def fan_head_def)

end
