(* ===== verification/Daemon.thy ===== *)
theory Daemon
  imports Startup MainLoopProps FanThread SocketFile
begin

text \<open>
  \<open>run_daemon\<close> of \<open>src/main.rs\<close> as a whole: the checks a start has to pass, the loop, and the way out
  that every end of the loop takes, a signal, a dead guard thread or a panic. The fan thread and its
  readers run beside the loop: their steps until the loop has ended, and after it, are given by the
  environment, as is what other processes do to the socket's directory meanwhile.
\<close>

section \<open>Leaving\<close>

definition CPU_JOIN_TIMEOUT :: duration where "CPU_JOIN_TIMEOUT = secs 3"
definition FLUSH_TIMEOUT :: duration where "FLUSH_TIMEOUT = secs 5"

text \<open>\<open>CpuPowerService::shutdown\<close>; \<open>finished t\<close>: the control thread has ended by \<open>t\<close>.\<close>

definition cpu_shutdown :: "(instant \<Rightarrow> bool) \<Rightarrow> instant \<Rightarrow> instant" where
  "cpu_shutdown finished now = wait_until (millis 10) finished (now + CPU_JOIN_TIMEOUT) now"

text \<open>\<open>flush\<close> of the beeper, if it runs: \<open>room t\<close> says whether the marker fits into the queue at \<open>t\<close>, \<open>answer\<close>
  when the thread answers it, if ever.\<close>

definition beeper_flush :: "bool \<Rightarrow> (instant \<Rightarrow> bool) \<Rightarrow> instant option \<Rightarrow> instant \<Rightarrow> instant" where
  "beeper_flush running room answer now =
     (if \<not> running then now
      else
        let deadline = now + FLUSH_TIMEOUT;
            t = wait_until (millis 10) room deadline now
        in if \<not> room t then t
           else max t (case answer of None \<Rightarrow> deadline | Some a \<Rightarrow> min a deadline))"

section \<open>From the command to the exit\<close>

definition daemon_config_of :: "config \<Rightarrow> daemon_config" where
  "daemon_config_of cfg =
     \<lparr>dm_app = cf_app cfg, dm_wol = cf_wol cfg, dm_power = cf_power_schedule cfg, dm_sleep = cf_sleep cfg,
      dm_buzzer = cf_buzzer cfg\<rparr>"

datatype daemon_exit = Exits nat | Panics

datatype loop_end = Signalled | GuardFailed guard_error | LoopPanicked

text \<open>
  The environment of a run. \<open>ru_answers\<close>: a daemon answers at the socket's path already; \<open>ru_accept\<close>,
  \<open>ru_fan_thread\<close>, \<open>ru_cpu_thread\<close>: why these threads cannot start; \<open>ru_passes\<close>: the passes until the signal;
  \<open>ru_panic\<close>: what a pass that panics has done by then; \<open>ru_signal\<close>: a signal had arrived when a loop
  without one ended; \<open>ru_failsafe\<close>: the helper that forces the fans of a stuck thread, and \<open>ru_forcing\<close> how long
  it is waited for; \<open>ru_left\<close>: when the loop had ended.
\<close>

record ('r, 'n) run_env =
  ru_answers :: bool
  ru_bind :: bind_env
  ru_accept :: "string option"
  ru_unlink :: "string option"
  ru_meanwhile :: "history \<Rightarrow> history"
  ru_port :: "string + lcm"
  ru_uptime :: "rat option"
  ru_beeper :: beep_env
  ru_rtc :: 'r
  ru_nics :: 'n
  ru_fan_thread :: "string option"
  ru_cpu_thread :: "string option"
  ru_first :: "('r, 'n) pass_env"
  ru_passes :: "('r, 'n) pass_env list"
  ru_panic :: "(('r, 'n) daemon \<Rightarrow> ('r, 'n) daemon) option"
  ru_signal :: bool
  ru_systemctl :: "string option"
  ru_base :: string
  ru_fan_run :: "service_event list"
  ru_fan_after :: "instant \<Rightarrow> service_event list"
  ru_panicked :: bool
  ru_failsafe :: failsafe_env
  ru_forcing :: duration
  ru_cpu_done :: "instant \<Rightarrow> bool"
  ru_room :: "instant \<Rightarrow> bool"
  ru_answer :: "instant option"
  ru_left :: instant
  ru_last :: "('r, 'n) pass_env"
  ru_fs :: sysfs

text \<open>The fan service by \<open>t\<close>, after it has been asked to stop.\<close>

definition fans_by :: "config \<Rightarrow> ('r, 'n) run_env \<Rightarrow> instant \<Rightarrow> fan_service" where
  "fans_by cfg env t =
     service_run (ru_base env) (ru_fan_run env @ AskStop # ru_fan_after env t)
       (service_spawn (p_now (ru_first env)) (ac_temperature (cf_app cfg)) (cf_fans cfg))"

definition run_loop ::
  "config \<Rightarrow> ('r, 'n) run_env \<Rightarrow> ('r, 'n) daemon \<Rightarrow> loop_end \<times> ('r, 'n) daemon" where
  "run_loop cfg env d =
     (case event_loop (daemon_config_of cfg) (ru_passes env) d of
        (Some e, d) \<Rightarrow> (GuardFailed e, d)
      | (None, d) \<Rightarrow> (case ru_panic env of None \<Rightarrow> (Signalled, d) | Some f \<Rightarrow> (LoopPanicked, f d)))"

definition signal_requested :: "loop_end \<Rightarrow> ('r, 'n) run_env \<Rightarrow> bool" where
  "signal_requested how env \<longleftrightarrow> how = Signalled \<or> ru_signal env"

definition exit_of :: "loop_end \<Rightarrow> daemon_exit" where
  "exit_of how = (case how of Signalled \<Rightarrow> Exits 0 | GuardFailed e \<Rightarrow> Exits 1 | LoopPanicked \<Rightarrow> Panics)"

definition exit_log :: "loop_end \<Rightarrow> log_line list" where
  "exit_log how =
     (case how of
        Signalled \<Rightarrow> [syslog PInfo ''stopping'' [] []]
      | GuardFailed e \<Rightarrow> [syslog PCritical ''exiting_so_systemd_restarts'' [] []]
      | LoopPanicked \<Rightarrow> [])"

text \<open>What is handed back on the way out, and when each part of it was over; \<open>ho_forced\<close> are the files the
  fail-safe wrote for a thread that had not ended, with the values.\<close>

record ('r, 'n) handover =
  ho_end :: loop_end
  ho_guard :: "socket_guard option"
  ho_fans :: instant
  ho_forced :: "(string \<times> string) list"
  ho_cpu :: instant
  ho_over :: instant
  ho_daemon :: "('r, 'n) daemon"

record ('r, 'n) run_result =
  rr_exit :: daemon_exit
  rr_files :: history
  rr_port_opened :: bool
  rr_handover :: "('r, 'n) handover option"
  rr_log :: "log_line list"

definition hand_over ::
  "config \<Rightarrow> ('r, 'n) run_env \<Rightarrow> socket_guard option \<Rightarrow> loop_end \<Rightarrow> ('r, 'n) daemon \<Rightarrow> history
     \<Rightarrow> ('r, 'n) run_result" where
  "hand_over cfg env g how d h =
     (let (h, gl) = (case g of None \<Rightarrow> (h, []) | Some g \<Rightarrow> guard_drop g (ru_unlink env) h);
          finished = (\<lambda>t. has_died (fans_by cfg env t));
          (t, forced, fl) = service_shutdown SHUTDOWN_JOIN_TIMEOUT finished (ru_panicked env) (ru_left env)
                      (ru_base env) (ru_failsafe env) (cf_fans cfg);
          fans = (if finished t then t else t + min (ru_forcing env) FAILSAFE_TIMEOUT);
          cpu = (if cp_enabled (cf_cpu_power cfg) then cpu_shutdown (ru_cpu_done env) fans else fans);
          stopping = (signal_requested how env \<and> system_is_stopping (ru_systemctl env));
          d' = wind_down (daemon_config_of cfg) stopping (ru_last env) d
      in \<lparr>rr_exit = exit_of how, rr_files = h, rr_port_opened = True,
          rr_handover = Some
            \<lparr>ho_end = how, ho_guard = g, ho_fans = t, ho_forced = forced, ho_cpu = cpu,
             ho_over = beeper_flush (bz_running (d_buzzer d')) (ru_room env) (ru_answer env) cpu, ho_daemon = d'\<rparr>,
          rr_log = gl @ fl @ exit_log how\<rparr>)"

text \<open>The lines a start logs before the socket is tried, and before the loop.\<close>

definition start_log :: "config \<Rightarrow> sysfs \<Rightarrow> log_line list" where
  "start_log cfg fs =
     syslog PInfo ''starting'' [describe_thresholds (ac_temperature (cf_app cfg))] [length (filter fp_enabled (cf_fans cfg))]
     # log_temperature_setup cfg (all_connected_temps fs)"

definition schedule_log :: "rule list \<Rightarrow> int \<Rightarrow> (int \<Rightarrow> local_time) \<Rightarrow> log_line list" where
  "schedule_log rules now local =
     (if rules = [] then []
      else [syslog PInfo ''power_schedule''
             [intercalate ''; '' [''next power on:   '' @ describe_next rules now local is_power_on,
                                ''next power off:  '' @ describe_next rules now local is_power_off]] [length rules]])"

text \<open>A start that fails exits at once: nothing is dropped, so a socket file that is bound stays.\<close>

definition start_failed :: "history \<Rightarrow> bool \<Rightarrow> log_line list \<Rightarrow> ('r, 'n) run_result" where
  "start_failed h opened ls =
     \<lparr>rr_exit = Exits 1, rr_files = h, rr_port_opened = opened, rr_handover = None, rr_log = ls\<rparr>"

text \<open>The start once the socket has been tried, and the run.\<close>

definition run_bound ::
  "config \<Rightarrow> ('r, 'n) run_env \<Rightarrow> socket_guard option \<Rightarrow> history \<Rightarrow> log_line list \<Rightarrow> ('r, 'n) run_result" where
  "run_bound cfg env g h ls =
     (case ru_port env of
        Inl e \<Rightarrow> start_failed h False ls
      | Inr port \<Rightarrow>
          if ru_fan_thread env \<noteq> None \<or> cp_enabled (cf_cpu_power cfg) \<and> ru_cpu_thread env \<noteq> None
          then start_failed h True ls
          else
            let d = daemon_start (daemon_config_of cfg) (ru_uptime env) (ru_beeper env) (ru_first env) port
                      (ru_rtc env) (ru_nics env);
                (how, d) = run_loop cfg env d;
                p = ru_first env;
                ls = ls @ schedule_log (parse_rules (cf_power_schedule cfg)) (p_epoch p) (p_local p)
                       @ log_platform_settings (ru_fs env) cfg;
                r = hand_over cfg env g how d (ru_meanwhile env h)
            in r\<lparr>rr_log := ls @ rr_log r\<rparr>)"

definition run_daemon :: "config \<Rightarrow> ('r, 'n) run_env \<Rightarrow> history \<Rightarrow> ('r, 'n) run_result" where
  "run_daemon cfg env h =
     (case spawn_with (cf_socket_path cfg) (cf_socket_group cfg) (ru_answers env) (ru_bind env) (ru_accept env)
             (ru_unlink env) h of
        (Inr g, h, ls) \<Rightarrow> run_bound cfg env (Some g) h (start_log cfg (ru_fs env) @ ls)
      | (Inl e, h, ls) \<Rightarrow>
          let ls = start_log cfg (ru_fs env) @ ls in
          if e = AddrInUse then start_failed h False ls else run_bound cfg env None h ls)"

section \<open>The fans are let go at full speed\<close>

definition drive :: "fan \<Rightarrow> nat list \<times> nat option" where
  "drive f = (fc_written f, fc_last_pwm f)"

lemma drive_simps [simp]:
  "drive (fan_logs ls f) = drive f"
  "drive (note_control_lost now why f) = drive f"
  "drive (mark_control_ok now f) = drive f"
  "drive (track_sensors env f) = drive f"
  "drive (snd (update_critical_override rs f)) = drive f"
  "drive (check_low_rpm rpm f) = drive f"
  "drive (snd (plan t rpm f)) = drive f"
  "drive (f\<lparr>fc_hwmon := h\<rparr>) = drive f"
  "drive (f\<lparr>fc_kick_until := k\<rparr>) = drive f"
  "drive (f\<lparr>fc_sensors_lost := b\<rparr>) = drive f"
  "drive (f\<lparr>fc_no_sensor_critical_logged := b\<rparr>) = drive f"
  "drive (f\<lparr>fc_last_tick := lt\<rparr>) = drive f"
  by (simp_all add: drive_def fan_logs_def note_control_lost_def mark_control_ok_def track_sensors_def
      update_critical_override_def check_low_rpm_def plan_def Let_def split: option.split prod.split)

text \<open>A fan that was written has a commanded speed.\<close>

definition commanded :: "fan \<Rightarrow> bool" where
  "commanded f \<longleftrightarrow> fc_written f = [] \<or> fc_last_pwm f \<noteq> None"

lemma commanded_drive: "drive g = drive f \<Longrightarrow> commanded g = commanded f"
  by (simp add: commanded_def drive_def)

lemma commanded_target: "commanded (snd (target_pwm_from_sensors env f)) = commanded f"
  by (rule commanded_drive) (simp add: target_snd)

lemma write_fan_fails: "write_fan env pwm f = (False, g) \<Longrightarrow> g = f"
  by (simp add: write_fan_def split: if_splits)

lemma commanded_apply:
  assumes "commanded f"
  shows "commanded (apply_pwm env cmd f)"
proof -
  obtain ok g where w: "write_fan env (case cmd of SetPwm p \<Rightarrow> p | Kick p \<Rightarrow> p) f = (ok, g)" by fastforce
  show ?thesis
  proof (cases ok)
    case True
    then show ?thesis by (auto simp: apply_pwm_def w Let_def commanded_def split: pwm_command.split)
  next
    case False
    with w have "g = f" using write_fan_fails by simp
    then have "drive (apply_pwm env cmd f) = drive f" using False by (simp add: apply_pwm_def w)
    with assms show ?thesis using commanded_drive by blast
  qed
qed

lemma commanded_hold:
  assumes "commanded f"
  shows "commanded (hold_full_speed_without_sensors env f)"
proof (cases "fe_manual_ok env \<and> fe_write_ok env")
  case True
  with assms show ?thesis by (auto simp: hold_full_speed_without_sensors_def write_fan_def Let_def commanded_def)
next
  case False
  then have "write_fan env pwm g = (False, g)" for pwm g by (auto simp: write_fan_def)
  then have "drive (hold_full_speed_without_sensors env f) = drive f"
    by (simp add: hold_full_speed_without_sensors_def Let_def)
  from commanded_drive [OF this] assms show ?thesis by simp
qed

lemma commanded_resolved:
  assumes "commanded f"
  shows "commanded (update_resolved env f)"
proof -
  obtain t g where t: "target_pwm_from_sensors env f = (t, g)" by fastforce
  then have g: "commanded g" using commanded_target [of env f] assms by simp
  show ?thesis
  proof (cases t)
    case None
    then show ?thesis using commanded_hold [OF g] by (simp add: update_resolved_def t)
  next
    case (Some x)
    define k where "k = (if fc_sensors_lost g
        then fan_logs [syslog PNotice ''sensors_back'' [] []] (g\<lparr>fc_sensors_lost := False\<rparr>) else g)"
    have k: "drive k = drive g" by (simp add: k_def)
    define rpm where "rpm = (case fp_fan_index (fc_profile k) of None \<Rightarrow> None | Some _ \<Rightarrow> fe_rpm env)"
    let ?k = "k\<lparr>fc_kick_until := None\<rparr>"
    have plan: "commanded (snd (plan x rpm ?k))"
      using g k commanded_drive [of "snd (plan x rpm ?k)" g] by simp
    have "update_resolved env f =
        (if (case fc_kick_until k of None \<Rightarrow> False | Some u \<Rightarrow> fe_now env < u) then k
         else apply_pwm env (fst (plan x rpm ?k)) (snd (plan x rpm ?k)))"
      by (simp add: update_resolved_def t Some Let_def case_prod_beta flip: k_def) (simp add: rpm_def)
    then show ?thesis using commanded_apply [OF plan] commanded_drive [OF k] g by simp
  qed
qed

lemma commanded_update:
  assumes "commanded f"
  shows "commanded (fan_update env f)"
proof -
  define g where "g = (if fc_hwmon f = None then f\<lparr>fc_hwmon := fe_resolved env\<rparr> else f)"
  have "drive g = drive f" by (simp add: g_def)
  then have "commanded g" "commanded (note_control_lost now why g)" for now why
    using assms commanded_drive [of g f] commanded_drive [of "note_control_lost now why g" f] by simp_all
  then show ?thesis
    using assms commanded_resolved by (simp add: fan_update_def Let_def flip: g_def)
qed

lemma commanded_tick: "commanded f \<Longrightarrow> commanded (fan_tick env f)"
  using commanded_update [of "f\<lparr>fc_last_tick := Some (fe_now env)\<rparr>" env]
    commanded_drive [of "f\<lparr>fc_last_tick := Some (fe_now env)\<rparr>" f]
  by (simp add: fan_tick_def)

lemma fan_tick_profile [simp]: "fc_profile (fan_tick env f) = fc_profile f"
proof -
  have n: "fc_profile (note_control_lost now why g) = fc_profile g" "fc_profile (mark_control_ok now g) = fc_profile g"
    "fc_profile (fan_logs ls g) = fc_profile g" "fc_profile (snd (write_fan env p g)) = fc_profile g"
    "fc_profile (snd (plan t rpm g)) = fc_profile g" "fc_profile (track_sensors env g) = fc_profile g"
    "fc_profile (snd (update_critical_override rs g)) = fc_profile g" for now why ls p t rpm rs and g :: fan
    by (simp_all add: note_control_lost_def mark_control_ok_def fan_logs_def write_fan_def plan_def check_low_rpm_def
        track_sensors_def update_critical_override_def Let_def split: option.split)
  have h: "fc_profile (hold_full_speed_without_sensors env g) = fc_profile g" for g
    by (simp add: hold_full_speed_without_sensors_def write_fan_def Let_def n)
  have a: "fc_profile (apply_pwm env cmd g) = fc_profile g" for cmd g
    by (simp add: apply_pwm_def write_fan_def Let_def n split: pwm_command.split)
  have "fc_profile (snd (target_pwm_from_sensors env g)) = fc_profile g" for g
    by (simp add: target_snd n)
  then have "fc_profile (update_resolved env g) = fc_profile g" for g
    by (simp add: update_resolved_def Let_def case_prod_beta h a n split: option.split)
  then show ?thesis by (simp add: fan_tick_def fan_update_def Let_def n)
qed

text \<open>An event at which the hardware would take a fan that is let go.\<close>

definition hardware_takes :: "string \<Rightarrow> fan_profile list \<Rightarrow> service_event \<Rightarrow> bool" where
  "hardware_takes base profiles ev \<longleftrightarrow>
     (case ev of
        FanPass t fs works \<Rightarrow>
          list_all (\<lambda>i. works i = (True, True) \<and> resolve_hwmon fs base (fp_pwm_chip (profiles ! i)) \<noteq> None)
            [0..<length profiles]
      | Panic t fs works \<Rightarrow>
          list_all (\<lambda>i. works i = (True, True) \<and> resolve_hwmon fs base (fp_pwm_chip (profiles ! i)) \<noteq> None)
            [0..<length profiles]
      | _ \<Rightarrow> True)"

definition at_full_speed :: "fan \<Rightarrow> bool" where
  "at_full_speed f \<longleftrightarrow> fc_written f = [] \<or> List.last (fc_written f) = 255"

definition well_run :: "fan_profile list \<Rightarrow> fan_service \<Rightarrow> bool" where
  "well_run profiles s \<longleftrightarrow>
     map fc_profile (sv_fans s) = profiles
     \<and> list_all commanded (sv_fans s) \<and> (sv_running s \<or> list_all at_full_speed (sv_fans s))"

lemma well_run_ended:
  assumes "well_run profiles s" "sv_running s" "hardware_takes base profiles ev"
    "ev = Panic t fs works \<or> ev = FanPass t fs works"
  shows "well_run profiles (end_thread (views base fs t works s) s)"
proof -
  have p: "fc_profile (sv_fans s ! i) = profiles ! i" if "i < length (sv_fans s)" for i
    using assms(1) that by (auto simp: well_run_def)
  have n: "length (sv_fans s) = length profiles" using assms(1) by (auto simp: well_run_def)
  have g: "fc_profile (restore env f) = fc_profile f" "commanded (restore env f) = commanded f" for env f
    by (auto simp: restore_def write_fan_def fan_logs_def commanded_def)
  have "at_full_speed (restore (fan_view base fs t (works i) (sv_samples s ! i) (sv_fans s ! i)) (sv_fans s ! i))"
    if i: "i < length (sv_fans s)" for i
  proof -
    have "commanded (sv_fans s ! i)" using assms(1) i by (auto simp: well_run_def list_all_length)
    moreover have "works i = (True, True)" "resolve_hwmon fs base (fp_pwm_chip (profiles ! i)) \<noteq> None"
      using assms(3,4) i n by (auto simp: hardware_takes_def list_all_iff)
    ultimately show ?thesis
      by (auto simp: restore_def fan_view_def Let_def write_fan_def fan_logs_def at_full_speed_def commanded_def p [OF i])
  qed
  then show ?thesis
    using assms(1) by (auto simp: well_run_def end_thread_def views_def list_all_length g intro!: nth_equalityI)
qed

lemma well_run_step:
  assumes "well_run profiles s" "hardware_takes base profiles ev"
  shows "well_run profiles (service_step base ev s)"
proof (cases ev)
  case (Publish i j t fs)
  then show ?thesis using assms(1) by (simp add: service_step_def publish_def well_run_def)
next
  case (FanPass t fs works)
  note ended = well_run_ended [OF assms(1) _ assms(2) disjI2 [OF FanPass]]
  have n: "length (views base fs t works s) = length (sv_fans s)" by (simp add: views_def)
  have "map fc_profile (map2 fan_tick (views base fs t works s) (sv_fans s)) = map fc_profile (sv_fans s)"
    using n by (auto intro!: nth_equalityI)
  moreover have "list_all commanded (map2 fan_tick (views base fs t works s) (sv_fans s))"
    using assms(1) n by (auto simp: well_run_def list_all_length intro!: commanded_tick)
  ultimately show ?thesis
    using assms(1) ended by (auto simp: FanPass service_step_def Let_def fan_pass_def well_run_def)
next
  case (Panic t fs works)
  with well_run_ended [OF assms(1) _ assms(2) disjI1 [OF Panic]] assms(1) show ?thesis
    by (simp add: service_step_def)
qed (use assms(1) in \<open>simp add: service_step_def well_run_def\<close>)

lemma well_run_service:
  "well_run profiles s \<Longrightarrow> list_all (hardware_takes base profiles) evs \<Longrightarrow> well_run profiles (service_run base evs s)"
  by (induction evs arbitrary: s) (simp_all add: service_run_def well_run_step)

lemma well_run_spawn: "well_run profiles (service_spawn now temperature profiles)"
  by (auto simp: well_run_def service_spawn_def fan_new_def commanded_def list_all_iff starting_unmanaged_def comp_def
      note_control_lost_def Let_def intro!: map_idI)

section \<open>Every end of the loop\<close>

lemma cpu_shutdown_end: "cpu_shutdown finished now \<le> now + secs 3 + millis 10"
  using wait_until_end [where now = now and deadline = "now + CPU_JOIN_TIMEOUT" and pause = "millis 10" and happened = finished]
  by (simp add: cpu_shutdown_def CPU_JOIN_TIMEOUT_def time_simps max_def)

lemma beeper_flush_end: "beeper_flush running room answer now \<le> now + secs 5 + millis 10"
  using wait_until_end [where now = now and deadline = "now + FLUSH_TIMEOUT" and pause = "millis 10" and happened = room]
  by (auto simp: beeper_flush_def FLUSH_TIMEOUT_def time_simps max_def Let_def split: option.split)

lemma hand_over_fields:
  "\<exists>ho. rr_handover (hand_over cfg env g how d h) = Some ho \<and> ho_end ho = how \<and> ho_guard ho = g"
  "rr_exit (hand_over cfg env g how d h) = exit_of how"
  "rr_files (hand_over cfg env g how d h) =
     (case g of None \<Rightarrow> h | Some x \<Rightarrow> fst (guard_drop x (ru_unlink env) h))"
  by (simp_all add: hand_over_def Let_def case_prod_beta split: option.split)

lemma hand_over_times:
  assumes "rr_handover (hand_over cfg env g how d h) = Some ho"
  shows "ho_over ho \<le> ru_left env + secs 16 + millis 30"
    "has_died (fans_by cfg env (ho_fans ho)) \<or> ru_left env + SHUTDOWN_JOIN_TIMEOUT \<le> ho_fans ho"
    "\<not> has_died (fans_by cfg env (ho_fans ho)) \<Longrightarrow> \<exists>ls. force_full_speed (ru_base env) (ru_failsafe env) (cf_fans cfg) = (ho_forced ho, ls)
       \<and> set ls \<subseteq> set (rr_log (hand_over cfg env g how d h))"
proof -
  obtain t ws ls where t: "service_shutdown SHUTDOWN_JOIN_TIMEOUT (\<lambda>t. has_died (fans_by cfg env t)) (ru_panicked env)
      (ru_left env) (ru_base env) (ru_failsafe env) (cf_fans cfg) = (t, ws, ls)" by (metis prod_cases3)
  note b = shutdown_ends [OF t]
  have f: "ho_fans ho = t" "ho_forced ho = ws" "set ls \<subseteq> set (rr_log (hand_over cfg env g how d h))"
    using assms by (auto simp: hand_over_def Let_def t split: prod.splits)
  with b(2) show "has_died (fans_by cfg env (ho_fans ho)) \<or> ru_left env + SHUTDOWN_JOIN_TIMEOUT \<le> ho_fans ho" by simp
  show "\<not> has_died (fans_by cfg env (ho_fans ho)) \<Longrightarrow> \<exists>ls. force_full_speed (ru_base env) (ru_failsafe env) (cf_fans cfg) = (ho_forced ho, ls)
       \<and> set ls \<subseteq> set (rr_log (hand_over cfg env g how d h))"
    using b(3) f by blast
  define fans where "fans = (if has_died (fans_by cfg env t) then t else t + min (ru_forcing env) FAILSAFE_TIMEOUT)"
  have "fans \<le> ru_left env + secs 8 + millis 10"
    using b(1,2) by (auto simp: fans_def SHUTDOWN_JOIN_TIMEOUT_def FAILSAFE_TIMEOUT_def time_simps)
  moreover define running where "running = bz_running (d_buzzer (ho_daemon ho))"
  have "ho_over ho = beeper_flush running (ru_room env) (ru_answer env)
      (if cp_enabled (cf_cpu_power cfg) then cpu_shutdown (ru_cpu_done env) fans else fans)"
    using assms by (auto simp: hand_over_def Let_def t fans_def running_def split: prod.splits)
  ultimately show "ho_over ho \<le> ru_left env + secs 16 + millis 30"
    using cpu_shutdown_end [of "ru_cpu_done env" fans]
      beeper_flush_end [of running "ru_room env" "ru_answer env" "cpu_shutdown (ru_cpu_done env) fans"]
      beeper_flush_end [of running "ru_room env" "ru_answer env" fans]
    by (auto simp: time_simps split: if_splits)
qed

text \<open>The fans of a thread that has not ended are forced, or the log says of each why not.\<close>

lemma hand_over_forces:
  assumes "rr_handover (hand_over cfg env g how d h) = Some ho" "\<not> has_died (fans_by cfg env (ho_fans ho))"
    "p \<in> set (cf_fans cfg)" "fp_enabled p"
  shows "fan_forced (ru_base env) (ru_failsafe env) (ho_forced ho) p
      \<or> logged_unforced (rr_log (hand_over cfg env g how d h)) p"
    "fz_spawn (ru_failsafe env) = None \<Longrightarrow> length (cf_fans cfg) \<le> fz_done (ru_failsafe env) \<Longrightarrow>
       (\<And>f v. fz_write (ru_failsafe env) f v = None) \<Longrightarrow> fan_forced (ru_base env) (ru_failsafe env) (ho_forced ho) p"
proof -
  obtain ls where ls: "force_full_speed (ru_base env) (ru_failsafe env) (cf_fans cfg) = (ho_forced ho, ls)"
    "set ls \<subseteq> set (rr_log (hand_over cfg env g how d h))"
    using hand_over_times(3) [OF assms(1,2)] by blast
  show "fan_forced (ru_base env) (ru_failsafe env) (ho_forced ho) p
      \<or> logged_unforced (rr_log (hand_over cfg env g how d h)) p"
    using fan_forced_or_logged(1) [OF ls(1) assms(3,4)] ls(2) by (auto simp: logged_unforced_def)
  show "fan_forced (ru_base env) (ru_failsafe env) (ho_forced ho) p"
    if "fz_spawn (ru_failsafe env) = None" "length (cf_fans cfg) \<le> fz_done (ru_failsafe env)"
      "\<And>f v. fz_write (ru_failsafe env) f v = None"
    by (rule fan_forced_or_logged(2) [OF ls(1) assms(3,4) that])
qed

lemma run_bound_cases:
  obtains (failed) opened where "run_bound cfg env g h ls = start_failed h opened ls"
  | (ran) how d ls' where
      "run_bound cfg env g h ls = (let r = hand_over cfg env g how d (ru_meanwhile env h) in r\<lparr>rr_log := ls' @ rr_log r\<rparr>)"
proof (cases "ru_port env")
  case (Inl e)
  then show ?thesis using failed by (simp add: run_bound_def)
next
  case (Inr port)
  obtain how d where l: "run_loop cfg env (daemon_start (daemon_config_of cfg) (ru_uptime env) (ru_beeper env)
      (ru_first env) port (ru_rtc env) (ru_nics env)) = (how, d)" by fastforce
  show ?thesis
  proof (cases "ru_fan_thread env \<noteq> None \<or> cp_enabled (cf_cpu_power cfg) \<and> ru_cpu_thread env \<noteq> None")
    case True
    then have "run_bound cfg env g h ls = start_failed h True ls" unfolding run_bound_def Inr sum.case by (rule if_P)
    then show ?thesis by (rule failed)
  next
    case False
    show ?thesis
      by (rule ran [of how d "ls @ schedule_log (parse_rules (cf_power_schedule cfg)) (p_epoch (ru_first env))
            (p_local (ru_first env)) @ log_platform_settings (ru_fs env) cfg"])
        (unfold run_bound_def Inr sum.case if_not_P [OF False] Let_def l, simp)
  qed
qed

lemma fans_let_go:
  assumes "list_all (hardware_takes (ru_base env) (cf_fans cfg)) (ru_fan_run env)"
    "list_all (hardware_takes (ru_base env) (cf_fans cfg)) (ru_fan_after env t)" "has_died (fans_by cfg env t)"
  shows "list_all at_full_speed (sv_fans (fans_by cfg env t))"
proof -
  have "list_all (hardware_takes (ru_base env) (cf_fans cfg)) (ru_fan_run env @ AskStop # ru_fan_after env t)"
    using assms(1,2) by (simp add: hardware_takes_def)
  from well_run_service [OF well_run_spawn this, of "p_now (ru_first env)" "ac_temperature (cf_app cfg)"] assms(3)
  show ?thesis by (auto simp: fans_by_def well_run_def has_died_def)
qed


text \<open>A run with the fan of a hot drive, stopped by a signal after one pass.\<close>

definition hot_config :: config where
  "hot_config =
     config_default\<lparr>cf_fans := [hot_profile], cf_socket_path := ''/run/lcm.sock'', cf_socket_group := ''admins''\<rparr>"

definition stopped_run :: "(unit, unit) run_env" where
  "stopped_run =
     \<lparr>ru_answers = False, ru_bind = plain_bind, ru_accept = None, ru_unlink = None, ru_meanwhile = id,
      ru_port = Inr (with_port [] [] 0), ru_uptime = None, ru_beeper = idle_beeps, ru_rtc = (), ru_nics = (),
      ru_fan_thread = None, ru_cpu_thread = None, ru_first = idle_env False, ru_passes = [idle_env False],
      ru_panic = None, ru_signal = False, ru_systemctl = None, ru_base = ''/h'',
      ru_fan_run = [Publish 0 0 (secs 1) hot_tree, FanPass (secs 2) hot_tree (\<lambda>i. (True, True))],
      ru_fan_after = (\<lambda>t. [FanPass (secs 3) hot_tree (\<lambda>i. (True, True))]), ru_panicked = False,
      ru_failsafe = \<lparr>fz_spawn = None, fz_tree = hot_tree, fz_write = (\<lambda>f v. None), fz_done = 1\<rparr>, ru_forcing = 0, ru_cpu_done = (\<lambda>t. True), ru_room = (\<lambda>t. True), ru_answer = None,
      ru_left = secs 3, ru_last = idle_env False, ru_fs = hot_tree\<rparr>"

lemma stopped_run_ends: "\<exists>ho. rr_handover (run_daemon hot_config stopped_run [\<lambda>_. None]) = Some ho"
proof -
  have "file_name ''/run/lcm.sock'' = Some ''lcm.sock''" by code_simp
  then have "fst (bind_private ''/run/lcm.sock'' ''admins'' plain_bind [\<lambda>_. None]) = None"
    by (simp add: bind_private_def bind_staged_def stage_def plain_bind_def bind_at_def Let_def split_beta)
  then obtain h ls where b: "bind_private ''/run/lcm.sock'' ''admins'' plain_bind [\<lambda>_. None] = (None, h, ls)"
    by (metis prod_cases3 fst_conv)
  have run: "run_daemon hot_config stopped_run [\<lambda>_. None] =
      run_bound hot_config stopped_run (Some (socket_guard_new ''/run/lcm.sock'' h)) h (start_log hot_config (ru_fs stopped_run) @ ls)"
    by (simp add: run_daemon_def spawn_with_def stopped_run_def hot_config_def b Let_def)
  have cpu: "\<not> cp_enabled (cf_cpu_power hot_config)"
    by (simp add: hot_config_def config_default_def cpu_power_default_def)
  have start: "ru_port stopped_run = Inr (with_port [] [] 0)" "ru_fan_thread stopped_run = None"
    by (simp_all add: stopped_run_def)
  show ?thesis
    using hand_over_fields(1) by (simp add: run run_bound_def cpu start Let_def case_prod_beta) blast
qed


end
