(* ===== verification/CpuThread.thy ===== *)
theory CpuThread
  imports CpuPowerProps FanThread
begin

text \<open>
  The two threads of \<open>src/cpu_power.rs\<close>: one sweeps the sensors and publishes what it read, the other
  ticks the controller on the latest sweep, unless that is stale. Their steps interleave in any order;
  between them the firmware, or another program, may change the limits behind the daemon's back.
\<close>

section \<open>The service\<close>

definition TICK :: duration where "TICK = secs 1"
definition FIRST_SWEEP_WAIT :: duration where "FIRST_SWEEP_WAIT = secs 10"

record cpu_service =
  cs_ctl :: controller
  cs_latest :: "(instant \<times> reading list) option"
  cs_status :: string
  cs_live :: fan_liveness
  cs_stop :: bool
  cs_running :: bool

definition cpu_spawn :: "instant \<Rightarrow> zone \<Rightarrow> cpu_power_config \<Rightarrow> cpu_service" where
  "cpu_spawn now z cfg =
     \<lparr>cs_ctl = controller_new z cfg, cs_latest = None, cs_status = ''starting'',
      cs_live = \<lparr>lv_heartbeat_ms = 0, lv_epoch = now\<rparr>, cs_stop = False, cs_running = True\<rparr>"

text \<open>The pauses of both threads: the sensors' between two sweeps, cut short by the stop flag, and the
  control thread's before its first tick; \<open>published t\<close>: a sweep has been published by \<open>t\<close>, or the stop
  flag is set.\<close>

definition sleep_unless :: "(instant \<Rightarrow> bool) \<Rightarrow> duration \<Rightarrow> instant \<Rightarrow> instant" where
  "sleep_unless stop pause now = wait_until (millis 200) stop (now + pause) now"

definition first_tick :: "(instant \<Rightarrow> bool) \<Rightarrow> instant \<Rightarrow> instant" where
  "first_tick published now = wait_until (millis 5) published (now + FIRST_SWEEP_WAIT) now"

text \<open>A sweep is published; the control thread goes round once; it is asked to stop; it panics; something
  else writes the zone.\<close>

datatype cpu_event =
  Sweep instant "reading list"
| ControlPass instant
| AskCpuStop
| CpuPanic
| Disturb zone

definition control_pass ::
  "zone_write \<Rightarrow> temperature_config \<Rightarrow> cpu_power_config \<Rightarrow> instant \<Rightarrow> cpu_service \<Rightarrow> cpu_service" where
  "control_pass wr temps cfg now s =
     (if \<not> cs_running s then s
      else if cs_stop s then s\<lparr>cs_running := False\<rparr>
      else
        let c = controller_tick wr temps now (fresh_readings cfg now (cs_latest s)) (cs_ctl s)
        in s\<lparr>cs_ctl := c, cs_status := cpu_status_line c, cs_live := beat now (cs_live s)\<rparr>)"

fun cpu_step ::
  "zone_write \<Rightarrow> temperature_config \<Rightarrow> cpu_power_config \<Rightarrow> cpu_event \<Rightarrow> cpu_service \<Rightarrow> cpu_service" where
  "cpu_step wr temps cfg (Sweep t rs) s = s\<lparr>cs_latest := Some (t, rs)\<rparr>"
| "cpu_step wr temps cfg (ControlPass t) s = control_pass wr temps cfg t s"
| "cpu_step wr temps cfg AskCpuStop s = s\<lparr>cs_stop := True\<rparr>"
| "cpu_step wr temps cfg CpuPanic s = s\<lparr>cs_running := False\<rparr>"
| "cpu_step wr temps cfg (Disturb z) s = s\<lparr>cs_ctl := (cs_ctl s)\<lparr>ct_zone := z\<rparr>\<rparr>"

definition cpu_run ::
  "zone_write \<Rightarrow> temperature_config \<Rightarrow> cpu_power_config \<Rightarrow> cpu_event list \<Rightarrow> cpu_service \<Rightarrow> cpu_service" where
  "cpu_run wr temps cfg evs s = fold (cpu_step wr temps cfg) evs s"

section \<open>Over a run\<close>

lemma control_pass_limits:
  "limits_of m (cs_ctl (control_pass wr temps cfg t s)) = limits_of m (cs_ctl s)"
  by (auto simp: control_pass_def Let_def tick_eq observed_limits intro: limits_of_cong [THEN trans])

interpretation cpu_limits: related_machine "cpu_step wr temps cfg" "\<lambda>_. True"
    "\<lambda>s s'. limits_of m (cs_ctl s') = limits_of m (cs_ctl s)" for wr temps cfg m
proof unfold_locales
  fix i s
  show "limits_of m (cs_ctl (cpu_step wr temps cfg i s)) = limits_of m (cs_ctl s)"
  proof (cases i)
    case (ControlPass t)
    then show ?thesis by (simp only: cpu_step.simps control_pass_limits)
  qed (simp_all add: limits_of_def split: limit_mode.split)
qed simp_all

lemma run_limits: "limits_of m (cs_ctl (cpu_run wr temps cfg evs s)) = limits_of m (cs_ctl s)"
  unfolding cpu_run_def by (rule cpu_limits.run_rel) simp

text \<open>What the sensor thread has published.\<close>

definition swept :: "cpu_event list \<Rightarrow> (instant \<times> reading list) list" where
  "swept evs = List.map_filter (\<lambda>ev. case ev of Sweep t rs \<Rightarrow> Some (t, rs) | _ \<Rightarrow> None) evs"

definition latest_sweep :: "cpu_event list \<Rightarrow> (instant \<times> reading list) option" where
  "latest_sweep evs = (if swept evs = [] then None else Some (last (swept evs)))"

lemma control_pass_latest: "cs_latest (control_pass wr temps cfg t s) = cs_latest s"
  by (simp add: control_pass_def Let_def)

lemma swept_snoc:
  "swept (evs @ [ev]) = swept evs @ (case ev of Sweep t rs \<Rightarrow> [(t, rs)] | _ \<Rightarrow> [])"
  by (cases ev) (simp_all add: swept_def List.map_filter_def)

lemma latest_run:
  "cs_latest (cpu_run wr temps cfg evs (cpu_spawn now z cfg)) = latest_sweep evs"
proof (induction evs rule: rev_induct)
  case Nil
  then show ?case by (simp add: cpu_run_def cpu_spawn_def latest_sweep_def swept_def List.map_filter_simps)
next
  case (snoc ev evs)
  then show ?case
    by (cases ev) (simp_all add: cpu_run_def latest_sweep_def swept_snoc control_pass_latest)
qed

text \<open>No sweep, a stale one, one without a reading, or one with a critical reading.\<close>

definition cpu_unsafe :: "temperature_config \<Rightarrow> cpu_power_config \<Rightarrow> instant \<Rightarrow> cpu_event list \<Rightarrow> bool" where
  "cpu_unsafe temps cfg now evs \<longleftrightarrow>
     (case latest_sweep evs of
        None \<Rightarrow> True
      | Some (t, rs) \<Rightarrow>
          max (secs 30) (secs (cp_check_secs cfg) * 3) < since now t
          \<or> rs = [] \<or> list_ex (\<lambda>(chip, _, temp). snd (resolve_temp_threshold temps chip) \<le> temp) rs)"

lemma critical_iff:
  "critical_reason temps (Some rs) \<noteq> None \<longleftrightarrow>
     rs = [] \<or> list_ex (\<lambda>(chip, _, temp). snd (resolve_temp_threshold temps chip) \<le> temp) rs"
proof -
  let ?P = "\<lambda>(chip, _ :: string, temp). snd (resolve_temp_threshold temps chip) \<le> temp"
  have "find ?P rs = None \<longleftrightarrow> \<not> list_ex ?P rs" unfolding find_None_iff list_ex_iff by blast
  then show ?thesis by (cases "find ?P rs") (auto simp: critical_reason_def)
qed

lemma unsafe_critical:
  "cpu_unsafe temps cfg now evs \<Longrightarrow>
     critical_reason temps (fresh_readings cfg now (latest_sweep evs)) \<noteq> None"
  using critical_iff [of temps]
  by (cases "latest_sweep evs") (auto simp: cpu_unsafe_def fresh_readings_def MIN_STALE_AFTER_def not_le [symmetric]
      critical_reason_def [of temps None])

text \<open>C12. Heat reaches the CPU's power limits. From the spawn of the two threads, whatever their steps and
  whatever else writes the zone: when the latest sweep has a critical reading, or there is none that is
  fresh, the next pass of the control thread wants the stock limits and, the zone taking writes, leaves
  them in it; only if it took stock for applied and looked at the zone less than a minute ago does it
  leave the zone alone.\<close>

theorem heat_restores_stock:
  assumes "cpu_problems cfg = []" "zone_ok wr (ct_zone (cs_ctl s))"
    "s = cpu_run wr temps cfg evs (cpu_spawn now0 z cfg)" "cs_running s" "\<not> cs_stop s"
    "cpu_unsafe temps cfg now evs"
  shows "let s' = cpu_step wr temps cfg (ControlPass now) s in
    guard_mode (ct_guard (cs_ctl s')) = Stock
    \<and> (ct_applied (cs_ctl s') = Some Stock \<and> zone_holds (limits_stock cfg) (ct_zone (cs_ctl s'))
       \<or> ct_applied (cs_ctl s) = Some Stock
         \<and> (case ct_last_verify (cs_ctl s) of None \<Rightarrow> False | Some t \<Rightarrow> since now t < secs 60))"
proof -
  let ?r = "fresh_readings cfg now (latest_sweep evs)"
  let ?c' = "controller_tick wr temps now ?r (cs_ctl s)"
  have step: "cs_ctl (control_pass wr temps cfg now s) = ?c'"
    using assms(4,5) latest_run [of wr temps cfg evs now0 z]
    by (simp add: control_pass_def Let_def assms(3))
  have limits: "limits_of m (cs_ctl s) = (case m of Configured \<Rightarrow> limits_configured cfg | Stock \<Rightarrow> limits_stock cfg)" for m
    by (cases m) (simp_all add: assms(3) run_limits, simp_all add: limits_of_def cpu_spawn_def controller_new_def)
  have sound: "sound_limits (ct_configured (cs_ctl s))" "sound_limits (ct_stock (cs_ctl s))"
    using config_limits_sound [OF assms(1)] limits [of Configured] limits [of Stock]
    by (simp_all add: limits_of_def)
  have "gd_tripped (snd (guard_observe temps now ?r (ct_guard (cs_ctl s))))"
    using unsafe_critical [OF assms(6)] by (auto simp: guard_observe_def)
  then have mode: "guard_mode (ct_guard ?c') = Stock"
    by (simp add: tick_eq Let_def observed_same guard_mode_def)
  have "ct_applied ?c' = Some Stock \<and> zone_holds (limits_stock cfg) (ct_zone ?c')"
    if "ct_applied (cs_ctl s) \<noteq> Some Stock \<or> verify_due now (cs_ctl s)"
    using tick_enforces_guard [OF assms(2) sound refl, of temps now ?r] that by (simp add: mode limits)
  with mode show ?thesis
    by (auto simp: step Let_def verify_due_def VERIFY_INTERVAL_def not_le split: option.splits)
qed

lemma idle_cpu_zone: "zone_ok (echo_kernel False) (echo_zone 10000000 25000000 28000000)"
  by (simp add: zone_ok_def echo_kernel_ok echo_zone_names echo_zone_pl2) (simp add: echo_kernel_def)

theorem heat_restores_stock_witness:
  "let s' = cpu_run (echo_kernel False) temperature_default cpu_power_default
       [Sweep (secs 1) [(''drivetemp'', ''drivetemp temp1'', 61)], ControlPass (secs 2)]
       (cpu_spawn 0 (echo_zone 10000000 25000000 28000000) cpu_power_default)
   in zone_holds (limits_stock cpu_power_default) (ct_zone (cs_ctl s'))"
proof -
  let ?evs = "[Sweep (secs 1) [(''drivetemp'', ''drivetemp temp1'', 61)]]"
  let ?s = "cpu_run (echo_kernel False) temperature_default cpu_power_default ?evs
    (cpu_spawn 0 (echo_zone 10000000 25000000 28000000) cpu_power_default)"
  have s: "cs_running ?s" "\<not> cs_stop ?s" "zone_ok (echo_kernel False) (ct_zone (cs_ctl ?s))"
    "ct_applied (cs_ctl ?s) = None"
    by (simp_all add: cpu_run_def cpu_spawn_def controller_new_def idle_cpu_zone)
  have "cpu_unsafe temperature_default cpu_power_default (secs 2) ?evs"
    by (simp add: cpu_unsafe_def latest_sweep_def swept_def List.map_filter_def default_drive_threshold)
  from heat_restores_stock [OF default_cpu_ok s(3) refl s(1,2) this] s(4)
  show ?thesis by (simp add: cpu_run_def Let_def)
qed

end
