(* ===== verification/Threads.thy ===== *)
theory Threads
  imports CpuThread MainLoopProps
begin

text \<open>
  The daemon's threads beside each other: the fan thread with its readers, the two CPU power threads, the
  main loop and the feeder of systemd's watchdog, interleaved in any order on one monotonic clock, from the
  spawn of the fan thread on. They share what the code shares: the loop reads the heartbeats and the fan
  status, the feeder the fan heartbeat and the loop's progress. Against them stands a small machine of deadlines that knows only
  when each thread last showed life.
\<close>

section \<open>The threads\<close>

record box_setup =
  bs_base :: string
  bs_daemon :: daemon_config
  bs_write :: zone_write
  bs_temps :: temperature_config
  bs_cpu :: cpu_power_config

record ('r, 'n) box =
  bx_now :: instant
  bx_fans :: fan_service
  bx_cpu :: "cpu_service option"
  bx_progress :: progress
  bx_daemon :: "('r, 'n) daemon option"
  bx_dog :: watchdog
  bx_on :: bool
  bx_feeder_stop :: bool

text \<open>Until the first screens have been read the loop has no daemon. What of a step can be seen: a thread starts, shows life or
  is gone, the main thread gets on with the start, its loop does a pass, ends over a guard or
  leaves (a signal, or a panic that \<open>run_daemon\<close> catches), systemd gets a keep-alive.\<close>

datatype observation =
  Silent
| FanBeat instant
| FanGone
| CpuStarted instant
| CpuBeat instant
| CpuGone
| Prepared instant
| Worked instant
| Ended instant guard_error
| Left instant
| KeptAlive instant

fun fan_time :: "service_event \<Rightarrow> instant option" where
  "fan_time (Publish i j t fs) = Some t"
| "fan_time (FanPass t fs works) = Some t"
| "fan_time AskStop = None"
| "fan_time (Panic t fs works) = Some t"

fun cpu_time :: "cpu_event \<Rightarrow> instant option" where
  "cpu_time (Sweep t rs) = Some t"
| "cpu_time (ControlPass t) = Some t"
| "cpu_time AskCpuStop = None"
| "cpu_time CpuPanic = None"
| "cpu_time (Disturb z) = None"

definition fan_shows :: "service_event \<Rightarrow> fan_service \<Rightarrow> fan_service \<Rightarrow> observation" where
  "fan_shows ev s s' =
     (if \<not> sv_running s then Silent
      else if \<not> sv_running s' then FanGone
      else (case ev of FanPass t fs works \<Rightarrow> FanBeat t | _ \<Rightarrow> Silent))"

definition cpu_shows :: "cpu_event \<Rightarrow> cpu_service \<Rightarrow> cpu_service \<Rightarrow> observation" where
  "cpu_shows ev s s' =
     (if \<not> cs_running s then Silent
      else if \<not> cs_running s' then CpuGone
      else (case ev of ControlPass t \<Rightarrow> CpuBeat t | _ \<Rightarrow> Silent))"

text \<open>What a pass of the loop reads of the other threads.\<close>

definition sees :: "('r, 'n) pass_env \<Rightarrow> ('r, 'n) box \<Rightarrow> bool" where
  "sees p b \<longleftrightarrow>
     p_fans_died p = has_died (bx_fans b) \<and> p_fan_liveness p = sv_live (bx_fans b)
     \<and> p_fan_health p = fs_health (sv_status (bx_fans b))
     \<and> p_cpu p = map_option (\<lambda>c. (\<not> cs_running c, cs_live c)) (bx_cpu b)"

definition fed_at :: "instant \<Rightarrow> string option \<Rightarrow> ('r, 'n) box \<Rightarrow> watchdog" where
  "fed_at t err b =
     feeder_turn \<lparr>wf_time = t, wf_liveness = sv_live (bx_fans b), wf_progress = bx_progress b,
                  wf_send_error = err\<rparr> (bx_dog b)"

inductive box_step :: "box_setup \<Rightarrow> ('r, 'n) box \<Rightarrow> observation \<Rightarrow> ('r, 'n) box \<Rightarrow> bool" for S where
  fan_moves:
  "bx_now b \<le> t \<Longrightarrow> fan_time ev \<in> {None, Some t} \<Longrightarrow> s = service_step (bs_base S) ev (bx_fans b) \<Longrightarrow>
     box_step S b (fan_shows ev (bx_fans b) s) (b\<lparr>bx_now := t, bx_fans := s\<rparr>)"
| cpu_moves:
  "bx_now b \<le> t \<Longrightarrow> cpu_time ev \<in> {None, Some t} \<Longrightarrow> bx_cpu b = Some c \<Longrightarrow>
     s = cpu_step (bs_write S) (bs_temps S) (bs_cpu S) ev c \<Longrightarrow>
     box_step S b (cpu_shows ev c s) (b\<lparr>bx_now := t, bx_cpu := Some s\<rparr>)"
| cpu_starts:
  "bx_now b \<le> t \<Longrightarrow> bx_cpu b = None \<Longrightarrow> bx_daemon b = None \<Longrightarrow>
     box_step S b (CpuStarted t) (b\<lparr>bx_now := t, bx_cpu := Some (cpu_spawn t z (bs_cpu S))\<rparr>)"
| start_goes_on:
  "bx_now b \<le> t \<Longrightarrow> bx_daemon b = None \<Longrightarrow>
     box_step S b (Prepared t) (b\<lparr>bx_now := t, bx_progress := bump t (bx_progress b)\<rparr>)"
| start_done:
  "bx_now b \<le> p_now p \<Longrightarrow> bx_daemon b = None \<Longrightarrow> sees p b \<Longrightarrow>
     box_step S b (Prepared (p_now p))
       (b\<lparr>bx_now := p_now p, bx_progress := bump (p_now p) (bx_progress b),
          bx_daemon := Some (daemon_start (bs_daemon S) up benv p port rtc nics)\<rparr>)"
| loop_works:
  "bx_now b \<le> p_now p \<Longrightarrow> bx_on b \<Longrightarrow> sees p b \<Longrightarrow> bx_daemon b = Some d \<Longrightarrow>
     loop_pass (bs_daemon S) p (d\<lparr>d_progress := bx_progress b\<rparr>) = (None, d') \<Longrightarrow>
     box_step S b (Worked (p_now p)) (b\<lparr>bx_now := p_now p, bx_progress := d_progress d', bx_daemon := Some d'\<rparr>)"
| loop_ends:
  "bx_now b \<le> p_now p \<Longrightarrow> bx_on b \<Longrightarrow> sees p b \<Longrightarrow> bx_daemon b = Some d \<Longrightarrow>
     loop_pass (bs_daemon S) p (d\<lparr>d_progress := bx_progress b\<rparr>) = (Some e, d') \<Longrightarrow>
     box_step S b (Ended (p_now p) e)
       (b\<lparr>bx_now := p_now p, bx_progress := d_progress d', bx_daemon := Some d', bx_on := False\<rparr>)"
| loop_leaves:
  "bx_now b \<le> t \<Longrightarrow> bx_on b \<Longrightarrow> box_step S b (Left t) (b\<lparr>bx_now := t, bx_on := False\<rparr>)"
| feeder_told:
  "bx_now b \<le> t \<Longrightarrow> \<not> bx_on b \<Longrightarrow> box_step S b Silent (b\<lparr>bx_now := t, bx_feeder_stop := True\<rparr>)"
| feeder_turns:
  "bx_now b \<le> t \<Longrightarrow> \<not> bx_feeder_stop b \<Longrightarrow>
     box_step S b (if wd_sent (fed_at t err b) = wd_sent (bx_dog b) then Silent else KeptAlive t)
       (b\<lparr>bx_now := t, bx_dog := fed_at t err b\<rparr>)"

inductive box_run :: "box_setup \<Rightarrow> ('r, 'n) box \<Rightarrow> observation list \<Rightarrow> ('r, 'n) box \<Rightarrow> bool" for S b where
  here: "box_run S b [] b"
| on: "box_run S b obs b' \<Longrightarrow> box_step S b' x b'' \<Longrightarrow> box_run S b (obs @ [x]) b''"

text \<open>The fan thread has just been spawned, the watchdog opened.\<close>

definition box_start :: "box_setup \<Rightarrow> fan_profile list \<Rightarrow> watchdog \<Rightarrow> instant \<Rightarrow> ('r, 'n) box" where
  "box_start S profiles dog now =
     \<lparr>bx_now = now, bx_fans = service_spawn now (bs_temps S) profiles, bx_cpu = None, bx_progress = progress_new now,
      bx_daemon = None, bx_dog = dog, bx_on = True, bx_feeder_stop = False\<rparr>"

section \<open>The deadlines\<close>

record deadlines =
  dl_fans :: instant
  dl_fans_run :: bool
  dl_cpu :: "(instant \<times> bool) option"
  dl_pass :: instant
  dl_on :: bool

definition in_time :: "deadlines \<Rightarrow> instant \<Rightarrow> bool" where
  "in_time a t \<longleftrightarrow> dl_fans_run a \<and> t \<le> dl_fans a + secs 15
     \<and> (case dl_cpu a of None \<Rightarrow> True | Some (c, runs) \<Rightarrow> runs \<and> t \<le> c + secs 15)"

text \<open>Overdue, to the millisecond the heartbeats are kept in; the last case is a clock that has run for
  584 million years.\<close>

definition overdue :: "instant \<Rightarrow> instant \<Rightarrow> bool" where
  "overdue mark t \<longleftrightarrow> mark + secs 15 < t + millis 1 \<or> millis (2 ^ 64) \<le> t"

fun justified :: "guard_error \<Rightarrow> deadlines \<Rightarrow> instant \<Rightarrow> bool" where
  "justified FansDied a t = (\<not> dl_fans_run a)"
| "justified FansStalled a t = overdue (dl_fans a) t"
| "justified CpuDied a t = (case dl_cpu a of None \<Rightarrow> False | Some (c, runs) \<Rightarrow> \<not> runs)"
| "justified CpuStalled a t = (case dl_cpu a of None \<Rightarrow> False | Some (c, runs) \<Rightarrow> overdue c t)"

text \<open>\<open>None\<close>: what has been seen is not allowed.\<close>

fun deadline_step :: "observation \<Rightarrow> deadlines \<Rightarrow> deadlines option" where
  "deadline_step Silent a = Some a"
| "deadline_step (FanBeat t) a = Some (a\<lparr>dl_fans := t\<rparr>)"
| "deadline_step FanGone a = Some (a\<lparr>dl_fans_run := False\<rparr>)"
| "deadline_step (CpuStarted t) a = Some (a\<lparr>dl_cpu := Some (t, True)\<rparr>)"
| "deadline_step (Prepared t) a = Some (a\<lparr>dl_pass := t\<rparr>)"
| "deadline_step (CpuBeat t) a = Some (a\<lparr>dl_cpu := map_option (\<lambda>(c, runs). (t, runs)) (dl_cpu a)\<rparr>)"
| "deadline_step CpuGone a = Some (a\<lparr>dl_cpu := map_option (\<lambda>(c, runs). (c, False)) (dl_cpu a)\<rparr>)"
| "deadline_step (Worked t) a = (if dl_on a \<and> in_time a t then Some (a\<lparr>dl_pass := t\<rparr>) else None)"
| "deadline_step (Ended t e) a = (if dl_on a \<and> justified e a t then Some (a\<lparr>dl_pass := t, dl_on := False\<rparr>) else None)"
| "deadline_step (Left t) a = (if dl_on a then Some (a\<lparr>dl_on := False\<rparr>) else None)"
| "deadline_step (KeptAlive t) a =
     (if t \<le> dl_fans a + secs 15 \<and> t \<le> dl_pass a + secs 300 then Some a else None)"

fun deadline_run :: "observation list \<Rightarrow> deadlines \<Rightarrow> deadlines option" where
  "deadline_run [] a = Some a"
| "deadline_run (x # obs) a = (case deadline_step x a of None \<Rightarrow> None | Some a' \<Rightarrow> deadline_run obs a')"

definition deadlines_start :: "instant \<Rightarrow> deadlines" where
  "deadlines_start now = \<lparr>dl_fans = now, dl_fans_run = True, dl_cpu = None, dl_pass = now, dl_on = True\<rparr>"

lemma deadline_run_snoc:
  "deadline_run (obs @ [x]) a = (case deadline_run obs a of None \<Rightarrow> None | Some a' \<Rightarrow> deadline_step x a')"
  by (induction obs arbitrary: a) (auto split: option.split)

section \<open>Heartbeats\<close>

text \<open>A heartbeat counts the milliseconds from its epoch to the moment it was last set.\<close>

definition shown_at :: "instant \<Rightarrow> fan_liveness \<Rightarrow> instant \<Rightarrow> bool" where
  "shown_at t l now \<longleftrightarrow> lv_heartbeat_ms l = millis_since t (lv_epoch l) \<and> lv_epoch l \<le> t \<and> t \<le> now"

lemma shown_beat: "shown_at t l now \<Longrightarrow> now \<le> t' \<Longrightarrow> t' \<le> now' \<Longrightarrow> shown_at t' (beat t' l) now'"
  by (simp add: shown_at_def beat_def)

lemma shown_later: "shown_at t l now \<Longrightarrow> now \<le> now' \<Longrightarrow> shown_at t l now'"
  by (simp add: shown_at_def)

lemma shown_new: "shown_at t \<lparr>lv_heartbeat_ms = 0, lv_epoch = t\<rparr> t"
  by (simp add: shown_at_def millis_since_def since_def)

lemma millis_since_le: "millis (millis_since t e) \<le> since t e"
proof -
  have "millis_since t e \<le> since t e div millis 1" by (simp add: millis_since_def)
  then have "millis (millis_since t e) \<le> millis (since t e div millis 1)" by (simp add: time_simps)
  also have "\<dots> \<le> since t e" by (simp add: time_simps)
  finally show ?thesis .
qed

lemma millis_since_gt:
  assumes "since t e < millis (2 ^ 64)"
  shows "since t e < millis (millis_since t e) + millis 1"
proof -
  have "since t e div millis 1 \<le> 2 ^ 64 - 1" using assms by (simp add: time_simps div_less_iff_less_mult less_Suc_eq_le [symmetric])
  then have "millis_since t e = since t e div millis 1" by (simp add: millis_since_def)
  moreover have "since t e < millis (since t e div millis 1) + millis 1"
    by (simp add: time_simps)
  ultimately show ?thesis by simp
qed

lemma age_fresh:
  assumes "shown_at t l n" "n \<le> now" "liveness_age now l \<le> d"
  shows "now \<le> t + d"
  using assms millis_since_le [of t "lv_epoch l"] by (auto simp: shown_at_def liveness_age_def since_def)

lemma age_late:
  assumes "shown_at t l n" "n \<le> now" "is_stalled now l"
  shows "overdue t now"
proof (cases "since t (lv_epoch l) < millis (2 ^ 64)")
  case True
  then show ?thesis
    using assms millis_since_gt [OF True]
    by (auto simp: shown_at_def is_stalled_def liveness_age_def since_def overdue_def FAN_HEARTBEAT_TIMEOUT_def)
next
  case False
  then show ?thesis using assms(1,2) by (auto simp: shown_at_def since_def overdue_def)
qed

section \<open>What a step leaves alone\<close>

lemma fan_step_live:
  "sv_live (service_step base ev s) =
     (case fan_shows ev s (service_step base ev s) of FanBeat t \<Rightarrow> beat t (sv_live s) | _ \<Rightarrow> sv_live s)"
  "sv_running (service_step base ev s) \<Longrightarrow> sv_running s"
  by (cases ev; auto simp: fan_shows_def service_step_def publish_def end_thread_def fan_pass_def Let_def
      split: if_splits)+

lemma cpu_step_live:
  "cs_live (cpu_step k temps cfg ev s) =
     (case cpu_shows ev s (cpu_step k temps cfg ev s) of CpuBeat t \<Rightarrow> beat t (cs_live s) | _ \<Rightarrow> cs_live s)"
  "cs_running (cpu_step k temps cfg ev s) \<Longrightarrow> cs_running s"
  by (cases ev; simp add: cpu_shows_def control_pass_def Let_def split: if_splits)+

lemma fold_keeps: "(\<And>x d. f (g x d) = f d) \<Longrightarrow> f (fold g xs d) = f d"
  by (induction xs arbitrary: d) simp_all

lemma effect_progress [simp]: "d_progress (apply_effect p cfg eff d) = d_progress d"
  by (simp add: apply_effect_def MainLoop.sync_rtc_def daemon_logs_def Let_def split: effect.split prod.split)

lemma boot_progress [simp]: "d_progress (note_mcu_boot f d) = d_progress d"
  by (simp add: note_mcu_boot_def daemon_logs_def)

lemma press_progress [simp]: "d_progress (press p cfg f d) = d_progress d"
  by (simp add: press_def split: option.split prod.split)

lemma keys_progress [simp]: "d_progress (drain_pending_keys p cfg d) = d_progress d"
  by (auto simp: drain_pending_keys_def fold_keeps [where f = d_progress] split: prod.split)

lemma command_progress [simp]: "d_progress (run_command p cfg c d) = d_progress d"
  by (simp add: run_command_def Let_def split: socket_command.split option.split)

lemma intake_progress: "d_progress (pass_intake p cfg d) = bump (p_now p) (d_progress d)"
  by (auto simp: pass_intake_def poll_power_def apply_sleep_def drain_commands_def daemon_logs_def Let_def
      fold_keeps [where f = d_progress] split: prod.split option.split)

lemma read_progress [simp]: "d_progress (read_port p cfg d) = d_progress d"
  by (simp add: read_port_def Let_def split: option.split prod.split)

lemma beeps_progress [simp]: "d_progress (alert_beeps p cfg d) = d_progress d"
  by (simp add: alert_beeps_def Let_def split: option.split prod.split alert_beep.split)

lemma redraw_progress [simp]: "d_progress (redraw p d) = d_progress d"
  by (simp add: redraw_def)

lemma bump_bump [simp]: "bump t (bump t p) = bump t p"
  by (simp add: bump_def)

lemma work_progress: "d_progress (pass_work p cfg d) = bump (p_now p) (d_progress d)"
  by (simp add: pass_work_def Let_def case_prod_beta)

lemma pass_progress:
  "loop_pass cfg p d = (e, d') \<Longrightarrow> d_progress d' = bump (p_now p) (d_progress d)"
  by (auto simp: loop_pass_def Let_def intake_progress work_progress split: option.splits)

section \<open>The simulation\<close>

definition tracks :: "('r, 'n) box \<Rightarrow> deadlines \<Rightarrow> bool" where
  "tracks b a \<longleftrightarrow>
     shown_at (dl_fans a) (sv_live (bx_fans b)) (bx_now b) \<and> dl_fans_run a = sv_running (bx_fans b)
     \<and> (case bx_cpu b of
           None \<Rightarrow> dl_cpu a = None
         | Some c \<Rightarrow> \<exists>t. dl_cpu a = Some (t, cs_running c) \<and> shown_at t (cs_live c) (bx_now b))
     \<and> bx_progress b = bump (dl_pass a) (bx_progress b)
     \<and> pg_epoch (bx_progress b) \<le> dl_pass a \<and> dl_pass a \<le> bx_now b
     \<and> dl_on a = bx_on b"

lemma bump_epoch [simp]: "pg_epoch (bump t p) = pg_epoch p"
  by (simp add: bump_def)

lemma progress_fresh:
  assumes "p = bump t p" "pg_epoch p \<le> t" "t \<le> n" "n \<le> now" "progress_age now p \<le> d"
  shows "now \<le> t + d"
proof -
  have "pg_last_ms p = millis_since t (pg_epoch p)" using arg_cong [OF assms(1), of pg_last_ms] by (simp add: bump_def)
  with assms(2-5) millis_since_le [of t "pg_epoch p"] show ?thesis
    by (auto simp: progress_age_def since_def)
qed

text \<open>What the loop's check of its guards means in terms of the deadlines.\<close>

lemma guards_hold:
  assumes "tracks b a" "sees p b" "bx_now b \<le> p_now p" "check_guards p = None"
  shows "in_time a (p_now p)"
proof -
  have stale: "now \<le> t + secs 15" if "shown_at t l n" "n \<le> now" "\<not> is_stalled now l" for t l n now
    using age_fresh [OF that(1,2), of "secs 15"] that(3) by (simp add: is_stalled_def FAN_HEARTBEAT_TIMEOUT_def not_less)
  show ?thesis
    using assms stale
    by (auto simp: tracks_def sees_def check_guards_def in_time_def has_died_def split: option.splits if_splits)
qed

lemma guards_fail:
  assumes "tracks b a" "sees p b" "bx_now b \<le> p_now p" "check_guards p = Some e"
  shows "justified e a (p_now p)"
  using assms age_late
  by (auto simp: tracks_def sees_def check_guards_def has_died_def split: option.splits if_splits)

lemma fan_simulated:
  assumes "tracks b a" "bx_now b \<le> t" "fan_time ev \<in> {None, Some t}" "s = service_step base ev (bx_fans b)"
  shows "\<exists>a'. deadline_step (fan_shows ev (bx_fans b) s) a = Some a' \<and> tracks (b\<lparr>bx_now := t, bx_fans := s\<rparr>) a'"
proof -
  let ?x = "fan_shows ev (bx_fans b) s"
  note live = fan_step_live [of base ev "bx_fans b", folded assms(4)]
  have x: "?x = Silent \<and> sv_running s = sv_running (bx_fans b) \<or> ?x = FanBeat t \<and> sv_running s = sv_running (bx_fans b)
      \<or> ?x = FanGone \<and> \<not> sv_running s"
    using assms(3) live(2) by (auto simp: fan_shows_def split: service_event.split)
  then show ?thesis
    using assms(1,2) live(1) shown_beat shown_later
    by (auto simp: tracks_def split: option.splits; meson le_trans order_refl)
qed

lemma cpu_simulated:
  assumes "tracks b a" "bx_now b \<le> t" "cpu_time ev \<in> {None, Some t}" "bx_cpu b = Some c"
    "s = cpu_step k temps cfg ev c"
  shows "\<exists>a'. deadline_step (cpu_shows ev c s) a = Some a' \<and> tracks (b\<lparr>bx_now := t, bx_cpu := Some s\<rparr>) a'"
proof -
  let ?x = "cpu_shows ev c s"
  note live = cpu_step_live [of k temps cfg ev c, folded assms(5)]
  have x: "?x = Silent \<and> cs_running s = cs_running c \<or> ?x = CpuBeat t \<and> cs_running s = cs_running c
      \<or> ?x = CpuGone \<and> \<not> cs_running s"
    using assms(3) live(2) by (auto simp: cpu_shows_def split: cpu_event.split)
  then show ?thesis
    using assms(1,2,4) live(1) shown_beat shown_later
    by (auto simp: tracks_def; meson le_trans order_refl)
qed

lemma loop_simulated:
  assumes "tracks b a" "bx_now b \<le> p_now p" "bx_on b" "sees p b" "loop_pass cfg p (d0\<lparr>d_progress := bx_progress b\<rparr>) = (e, d)"
  shows "\<exists>a'. deadline_step (case e of None \<Rightarrow> Worked (p_now p) | Some x \<Rightarrow> Ended (p_now p) x) a = Some a'
    \<and> tracks (b\<lparr>bx_now := p_now p, bx_progress := d_progress d, bx_daemon := Some d, bx_on := (e = None)\<rparr>) a'"
proof -
  have e: "e = check_guards p" using assms(5) by (auto simp: loop_pass_def Let_def split: option.splits)
  have later: "tracks (b\<lparr>bx_now := p_now p, bx_progress := d_progress d, bx_daemon := Some d, bx_on := (e = None)\<rparr>)
      (a\<lparr>dl_pass := p_now p, dl_on := (e = None)\<rparr>)"
    using assms(1,2) pass_progress [OF assms(5)] shown_later by (auto simp: tracks_def split: option.splits)
  show ?thesis
  proof (cases e)
    case None
    have on: "dl_on a" using assms(1,3) by (simp add: tracks_def)
    then have "a\<lparr>dl_pass := p_now p, dl_on := True\<rparr> = a\<lparr>dl_pass := p_now p\<rparr>" by (cases a) simp
    with guards_hold [OF assms(1,4,2)] e on later None show ?thesis by simp
  next
    case (Some x)
    have "dl_on a" using assms(1,3) by (simp add: tracks_def)
    moreover have "check_guards p = Some x" using e Some by simp
    from guards_fail [OF assms(1,4,2) this] have "justified x a (p_now p)" .
    ultimately show ?thesis using later by (simp add: Some)
  qed
qed

lemma feeder_simulated:
  assumes "tracks b a" "bx_now b \<le> t"
  shows "\<exists>a'. deadline_step (if wd_sent (fed_at t err b) = wd_sent (bx_dog b) then Silent else KeptAlive t) a = Some a'
    \<and> tracks (b\<lparr>bx_now := t, bx_dog := fed_at t err b\<rparr>) a'"
proof -
  have "t \<le> dl_fans a + secs 15 \<and> t \<le> dl_pass a + secs 300" if "wd_sent (fed_at t err b) \<noteq> wd_sent (bx_dog b)"
  proof -
    from that have h: "liveness_age t (sv_live (bx_fans b)) \<le> secs 15" "progress_age t (bx_progress b) \<le> secs 300"
      by (auto simp: fed_at_def feeder_turn_def healthy_def should_ping_def FAN_HEARTBEAT_TIMEOUT_def
          MAIN_LOOP_STALL_AFTER_def split: if_splits)
    from assms(1,2) h progress_fresh [of "bx_progress b" "dl_pass a" "bx_now b" t "secs 300"]
      age_fresh [of "dl_fans a" "sv_live (bx_fans b)" "bx_now b" t "secs 15"]
    show ?thesis by (simp add: tracks_def)
  qed
  moreover have "tracks (b\<lparr>bx_now := t, bx_dog := fed_at t err b\<rparr>) a"
    using assms(1,2) shown_later by (auto simp: tracks_def split: option.splits)
  ultimately show ?thesis using assms(1) by (auto simp: tracks_def)
qed

lemma step_simulated:
  assumes "box_step S b x b'" "tracks b a"
  shows "\<exists>a'. deadline_step x a = Some a' \<and> tracks b' a'"
  using assms
proof cases
  case (fan_moves t ev s)
  with fan_simulated [OF assms(2) fan_moves(3,4)] show ?thesis by simp
next
  case (cpu_moves t ev c s)
  with cpu_simulated [OF assms(2) cpu_moves(3,4,5)] show ?thesis by simp
next
  case (cpu_starts t z)
  then show ?thesis using assms(2) shown_new [of t] shown_later by (auto simp: tracks_def cpu_spawn_def)
next
  case (start_goes_on t)
  then show ?thesis using assms(2) shown_later by (auto simp: tracks_def split: option.splits)
next
  case (start_done p up benv port rtc nics)
  then show ?thesis using assms(2) shown_later by (auto simp: tracks_def split: option.splits)
next
  case (loop_works p d d')
  then have "b\<lparr>bx_now := p_now p, bx_progress := d_progress d', bx_daemon := Some d', bx_on := True\<rparr>
      = b\<lparr>bx_now := p_now p, bx_progress := d_progress d', bx_daemon := Some d'\<rparr>"
    by (cases b) simp
  with loop_simulated [OF assms(2) loop_works(3,4,5,7)] loop_works(1,2) show ?thesis by simp
next
  case (loop_ends p d e d')
  with loop_simulated [OF assms(2) loop_ends(3,4,5,7)] show ?thesis by simp
next
  case (loop_leaves t)
  then show ?thesis using assms(2) shown_later by (auto simp: tracks_def split: option.splits)
next
  case (feeder_told t)
  then show ?thesis using assms(2) shown_later by (auto simp: tracks_def split: option.splits)
next
  case (feeder_turns t err)
  with feeder_simulated [OF assms(2) feeder_turns(3)] show ?thesis by simp
qed

lemma run_simulated:
  "box_run S b obs b' \<Longrightarrow> tracks b a \<Longrightarrow> \<exists>a'. deadline_run obs a = Some a' \<and> tracks b' a'"
proof (induction rule: box_run.induct)
  case (on obs b' x b'')
  then show ?case using step_simulated by (fastforce simp: deadline_run_snoc)
qed simp

text \<open>C6. The threads watch each other in time. Whatever the interleaving, what is seen of the daemon from the
  spawn of its fan thread on is a run of the machine of deadlines: the main loop does a pass only within 15
  seconds of the last pass of a fan thread that runs, and of the last pass of the CPU power thread if there
  is one; short of a signal or a panic of its own it ends over a dead thread or one that is overdue, to
  the millisecond, and no pass follows its end; and every keep-alive to systemd comes within 15 seconds of a
  pass of the fan thread and within 300 seconds of a pass of the loop, or of the last thing done to
  start it.\<close>

theorem threads_keep_deadlines:
  assumes "box_run S (box_start S profiles dog now) obs b"
  shows "\<exists>a. deadline_run obs (deadlines_start now) = Some a \<and> dl_on a = bx_on b"
proof -
  have "tracks (box_start S profiles dog now) (deadlines_start now)"
    using shown_new [of now]
    by (simp add: tracks_def box_start_def deadlines_start_def service_spawn_def progress_new_def bump_def
        millis_since_def since_def)
  from run_simulated [OF assms this] show ?thesis by (auto simp: tracks_def)
qed

definition calm_box :: box_setup where
  "calm_box = \<lparr>bs_base = ''/h'', bs_daemon = idle_config, bs_write = (\<lambda>_ _ _. Inl ''read-only''), bs_temps = temperature_default,
     bs_cpu = cpu_power_default\<rparr>"

text \<open>A keep-alive at the start, then nothing for 16 seconds, then the loop finds the fan thread overdue.\<close>

definition fine_dog :: watchdog where
  "fine_dog = watchdog_new (\<lambda>_. None) (Some ''/run/notify'') (Some ''30000000'')"

definition calm_start :: "(unit, unit) box" where
  "calm_start = box_start calm_box [] fine_dog 0"

definition late_env :: "(unit, unit) pass_env" where
  "late_env = (idle_env False)\<lparr>p_env := quiet_env (secs 20), p_fan_liveness := \<lparr>lv_heartbeat_ms = 1000, lv_epoch = 0\<rparr>\<rparr>"

lemma calm_facts:
  "p_now (idle_env False) = 0" "p_now late_env = secs 20"
  "check_guards (idle_env False) = None" "check_guards late_env = Some FansStalled"
  "bx_now calm_start = 0" "bx_on calm_start" "\<not> bx_feeder_stop calm_start" "bx_dog calm_start = fine_dog"
  "bx_fans calm_start = service_spawn 0 temperature_default []" "bx_cpu calm_start = None"
  "bx_progress calm_start = progress_new 0" "bx_daemon calm_start = None"
  by (simp_all add: late_env_def p_now_def idle_env_def quiet_env_def check_guards_def is_stalled_def
      liveness_age_def since_def FAN_HEARTBEAT_TIMEOUT_def time_simps calm_start_def box_start_def calm_box_def)

lemma calm_dog: "wd_target fine_dog \<noteq> None" "wd_last_sent fine_dog = None"
proof -
  have "parse_uint (2 ^ 64) (trim ''30000000'') = Some 30000000"
    by (simp add: parse_uint_def trim_def trim_start_def trim_end_def is_whitespace_def is_digit_def digits_val_def digit_val_def)
  then show "wd_target fine_dog \<noteq> None" "wd_last_sent fine_dog = None" by (simp_all add: fine_dog_def watchdog_new_def)
qed

lemma calm_sees:
  "bx_fans b = service_spawn 0 temperature_default [] \<Longrightarrow> bx_cpu b = None \<Longrightarrow> sees (idle_env False) b"
  "bx_fans b = (service_spawn 0 temperature_default [])\<lparr>sv_live := beat (secs 1) \<lparr>lv_heartbeat_ms = 0, lv_epoch = 0\<rparr>\<rparr>
     \<Longrightarrow> bx_cpu b = None \<Longrightarrow> sees late_env b"
  by (simp_all add: sees_def late_env_def idle_env_def service_spawn_def has_died_def beat_def millis_since_def
      since_def time_simps)

lemma spawn_runs: "sv_running (service_spawn now temps profiles)"
  by (simp add: service_spawn_def)

lemma calm_pass:
  "service_step base (FanPass t fs works) (service_spawn 0 temperature_default [])
   = (service_spawn 0 temperature_default [])\<lparr>sv_live := beat t \<lparr>lv_heartbeat_ms = 0, lv_epoch = 0\<rparr>\<rparr>"
  by (simp add: service_step_def service_spawn_def views_def fan_pass_def worst_health_def)

lemma calm_box_run:
  "\<exists>b. box_run calm_box calm_start [KeptAlive 0, Prepared 0, Worked 0, FanBeat (secs 1), Ended (secs 20) FansStalled] b
     \<and> \<not> bx_on b"
proof -
  let ?b = "calm_start :: (unit, unit) box" and ?p = "idle_env False"
  let ?b1 = "?b\<lparr>bx_now := 0, bx_dog := fed_at 0 None ?b\<rparr>"
  have "wd_sent (fed_at 0 None ?b) \<noteq> wd_sent (bx_dog ?b)"
    by (simp add: calm_facts fed_at_def feeder_turn_def healthy_def should_ping_def ping_def calm_dog progress_age_def
        progress_new_def liveness_age_def since_def service_spawn_def)
  with box_step.feeder_turns [of ?b 0 calm_box None] have "box_step calm_box ?b (KeptAlive 0) ?b1"
    by (simp add: calm_facts)
  from box_run.on [OF box_run.here this] have r1: "box_run calm_box ?b [KeptAlive 0] ?b1" by simp
  let ?d0 = "daemon_start (bs_daemon calm_box) None idle_beeps ?p (with_port [] [] 0) () ()"
  let ?b2 = "?b1\<lparr>bx_now := p_now ?p, bx_progress := bump (p_now ?p) (bx_progress ?b1), bx_daemon := Some ?d0\<rparr>"
  have "box_step calm_box ?b1 (Prepared (p_now ?p)) ?b2"
    by (rule box_step.start_done) (simp_all add: calm_facts calm_sees)
  from box_run.on [OF r1 this] have r2: "box_run calm_box ?b [KeptAlive 0, Prepared 0] ?b2" by (simp add: calm_facts)
  obtain d where d: "loop_pass (bs_daemon calm_box) ?p (?d0\<lparr>d_progress := bx_progress ?b2\<rparr>) = (None, d)"
    by (simp add: loop_pass_def calm_facts)
  let ?b3 = "?b2\<lparr>bx_now := p_now ?p, bx_progress := d_progress d, bx_daemon := Some d\<rparr>"
  have "box_step calm_box ?b2 (Worked (p_now ?p)) ?b3"
    by (rule box_step.loop_works [OF _ _ _ _ d]) (simp_all add: calm_facts calm_sees)
  from box_run.on [OF r2 this] have r3: "box_run calm_box ?b [KeptAlive 0, Prepared 0, Worked 0] ?b3"
    by (simp add: calm_facts)
  let ?b4 = "?b3\<lparr>bx_now := secs 1,
    bx_fans := service_step (bs_base calm_box) (FanPass (secs 1) hot_tree (\<lambda>_. (True, True))) (bx_fans ?b3)\<rparr>"
  have "box_step calm_box ?b3 (FanBeat (secs 1)) ?b4"
    using box_step.fan_moves [of ?b3 "secs 1" "FanPass (secs 1) hot_tree (\<lambda>_. (True, True))" _ calm_box, OF _ _ refl]
    by (simp add: calm_facts calm_pass fan_shows_def spawn_runs)
  from box_run.on [OF r3 this] have r4: "box_run calm_box ?b [KeptAlive 0, Prepared 0, Worked 0, FanBeat (secs 1)] ?b4" by simp
  obtain e where e: "loop_pass (bs_daemon calm_box) late_env (d\<lparr>d_progress := bx_progress ?b4\<rparr>) = (Some FansStalled, e)"
    by (simp add: loop_pass_def calm_facts Let_def)
  have "\<exists>b'. box_step calm_box ?b4 (Ended (p_now late_env) FansStalled) b' \<and> \<not> bx_on b'"
    by (intro exI conjI, rule box_step.loop_ends [OF _ _ _ _ e])
      (simp_all add: calm_facts calm_sees calm_pass time_simps)
  then obtain b' where "box_step calm_box ?b4 (Ended (p_now late_env) FansStalled) b'" and off: "\<not> bx_on b'" by blast
  from box_run.on [OF r4 this(1)] off show ?thesis by (auto simp: calm_facts)
qed

theorem threads_keep_deadlines_witness:
  "\<exists>a. deadline_run [KeptAlive 0, Prepared 0, Worked 0, FanBeat (secs 1), Ended (secs 20) FansStalled] (deadlines_start 0)
     = Some a \<and> \<not> dl_on a"
proof -
  obtain b where b: "box_run calm_box calm_start
      [KeptAlive 0, Prepared 0, Worked 0, FanBeat (secs 1), Ended (secs 20) FansStalled] b"
    and off: "\<not> bx_on b"
    using calm_box_run by blast
  from threads_keep_deadlines [OF b [unfolded calm_start_def]] off show ?thesis by simp
qed

end
