(* ===== verification/Process.thy ===== *)
theory Process
  imports Levels Sysfs
begin

text \<open>
  What the process asks of libc, from \<open>src/shutdown.rs\<close> and \<open>src/syslog.rs\<close>: the handler of the two
  signals that stop the daemon, and the text of a log line as it reaches \<open>syslog(3)\<close>.
\<close>

section \<open>Signals\<close>

definition SIGINT :: nat where "SIGINT = 2"
definition SIGTERM :: nat where "SIGTERM = 15"

text \<open>Which signals have the handler, the flag, and the signals whose default action was taken.\<close>

record signal_state =
  sg_handled :: "nat list"
  sg_requested :: bool
  sg_defaulted :: "nat list"

definition signals_new :: signal_state where
  "signals_new = \<lparr>sg_handled = [], sg_requested = False, sg_defaulted = []\<rparr>"

definition install :: "signal_state \<Rightarrow> signal_state" where
  "install s = fold (\<lambda>signal s. s\<lparr>sg_handled := signal # sg_handled s\<rparr>) [SIGTERM, SIGINT] s"

definition on_signal :: "signal_state \<Rightarrow> signal_state" where
  "on_signal s = s\<lparr>sg_requested := True\<rparr>"

definition deliver :: "nat \<Rightarrow> signal_state \<Rightarrow> signal_state" where
  "deliver signal s =
     (if signal \<in> set (sg_handled s) then on_signal s
      else s\<lparr>sg_defaulted := sg_defaulted s @ [signal]\<rparr>)"

definition requested :: "signal_state \<Rightarrow> bool" where
  "requested s = sg_requested s"

text \<open>Once installed, the flag is set exactly by one of the two signals, and neither takes its default
  action, which would end the process on the spot.\<close>

lemma deliver_does [simp]:
  "sg_handled (deliver signal s) = sg_handled s"
  "requested (deliver signal s) \<longleftrightarrow> signal \<in> set (sg_handled s) \<or> requested s"
  "sg_defaulted (deliver signal s) = sg_defaulted s @ (if signal \<in> set (sg_handled s) then [] else [signal])"
  by (simp_all add: deliver_def on_signal_def requested_def)

lemma installed_new: "install signals_new = \<lparr>sg_handled = [SIGINT, SIGTERM], sg_requested = False, sg_defaulted = []\<rparr>"
  by (simp add: install_def signals_new_def)

lemma handled_run: "sg_handled (fold deliver signals s) = sg_handled s"
  by (induction signals arbitrary: s) simp_all

lemma requested_iff:
  "requested (fold deliver signals (install signals_new)) \<longleftrightarrow> SIGTERM \<in> set signals \<or> SIGINT \<in> set signals"
proof (induction signals rule: rev_induct)
  case Nil
  then show ?case by (simp add: installed_new requested_def)
qed (auto simp: handled_run installed_new)

lemma defaults_are_others:
  "sg_defaulted (fold deliver signals (install signals_new)) = filter (\<lambda>x. x \<noteq> SIGTERM \<and> x \<noteq> SIGINT) signals"
  by (induction signals rule: rev_induct) (auto simp: handled_run installed_new)

section \<open>The system log\<close>

definition NUL :: char where "NUL = CHR 0x00"

definition LOG_CRIT :: int where "LOG_CRIT = 2"
definition LOG_WARNING :: int where "LOG_WARNING = 4"
definition LOG_NOTICE :: int where "LOG_NOTICE = 5"
definition LOG_INFO :: int where "LOG_INFO = 6"

text \<open>\<open>CString::new\<close> refuses a text with a NUL in it.\<close>

definition cstring_new :: "string \<Rightarrow> string option" where
  "cstring_new s = (if NUL \<in> set s then None else Some s)"

definition escape_nul :: "string \<Rightarrow> string" where
  "escape_nul msg = replace_str [NUL] (CHR 0x5C # ''0'') msg"

text \<open>What \<open>send\<close> hands to \<open>syslog(3)\<close>, as the argument of its \<open>%s\<close>, if anything.\<close>

definition log_send :: "int \<Rightarrow> string \<Rightarrow> (int \<times> string) option" where
  "log_send p msg = map_option (Pair p) (cstring_new (escape_nul msg))"

fun log_by :: "priority \<Rightarrow> string \<Rightarrow> (int \<times> string) option" where
  "log_by PInfo msg = log_send LOG_INFO msg"
| "log_by PNotice msg = log_send LOG_NOTICE msg"
| "log_by PWarning msg = log_send LOG_WARNING msg"
| "log_by PCritical msg = log_send LOG_CRIT msg"

lemma escaped: "escape_nul msg = concat (map (\<lambda>c. if c = NUL then CHR 0x5C # ''0'' else [c]) msg)"
  by (induction msg) (simp_all add: escape_nul_def NUL_def starts_with_def)

lemma escaped_clean: "NUL \<notin> set (escape_nul msg)"
  by (induction msg) (auto simp: escaped NUL_def)

text \<open>No message is dropped or cut short, and one without a NUL arrives as it is.\<close>

lemma log_reaches: "\<exists>p. log_by pr msg = Some (p, escape_nul msg)"
  using escaped_clean by (cases pr) (simp_all add: log_send_def cstring_new_def)

lemma escape_plain: "NUL \<notin> set msg \<Longrightarrow> escape_nul msg = msg"
  by (induction msg) (auto simp: escaped)

end
