(* ===== verification/Health.thy ===== *)
theory Health
  imports FrontProps Sensors
begin

text \<open>
  From a sensor to the front panel: the sweep of a refresh, the health monitor, the alarm and the status
  LED, over every run of events of \<open>AppState\<close>. An operation either leaves what the monitor holds of the
  temperatures alone or replaces it by what a due sweep makes of it (\<open>moved\<close>), and whatever changes
  it, the alarm covers the worst sensor afterwards (\<open>covered\<close>).
\<close>

section \<open>The sweep of an operation\<close>

type_synonym vitals = "app_config \<times> (string \<times> temp_state) list \<times> instant option"

definition vit :: "app \<Rightarrow> vitals" where
  "vit s = (a_cfg s, mon_temps (a_monitor s), mon_last_temp_check (a_monitor s))"

definition sweep_due :: "instant \<Rightarrow> vitals \<Rightarrow> bool" where
  "sweep_due now v = (case v of (cfg, _, checked) \<Rightarrow>
     (case checked of None \<Rightarrow> True | Some t \<Rightarrow> secs (max (ref_temperature_min_secs (ac_refresh cfg)) 1) \<le> since now t))"

definition sweep :: "env \<Rightarrow> vitals \<Rightarrow> vitals" where
  "sweep env v =
     (if sweep_due (e_now env) v
      then (case v of (cfg, temps, _) \<Rightarrow>
        (cfg, mon_temps (fst (check_temps (ac_temperature cfg) (e_temps env) (monitor_new\<lparr>mon_temps := temps\<rparr>))),
         Some (e_now env)))
      else v)"

lemma not_due_again: "\<not> sweep_due (e_now env) (cfg, temps, Some (e_now env))"
  by (simp add: sweep_due_def since_def secs_def)

lemma sweep_again [simp]: "sweep env (sweep env v) = sweep env v"
  using not_due_again by (auto simp: sweep_def split: prod.splits)

lemma note_temps_other:
  "mon_temps m = mon_temps m' \<Longrightarrow> mon_temps (fst (note_temps cfg rs m)) = mon_temps (fst (note_temps cfg rs m'))"
proof (induction rs arbitrary: m m')
  case (Cons r rs)
  obtain chip lbl t where r: "r = (chip, lbl, t)" by (cases r)
  show ?case unfolding r note_temps_step(1) by (rule Cons.IH) (simp add: note_temp_temps Cons.prems)
qed simp

lemma note_temps_check: "mon_last_temp_check (fst (note_temps cfg rs m)) = mon_last_temp_check m"
proof (induction rs arbitrary: m)
  case (Cons r rs)
  obtain chip lbl t where r: "r = (chip, lbl, t)" by (cases r)
  show ?case unfolding r note_temps_step(1) Cons.IH by (simp add: note_temp_def Let_def)
qed simp

lemma maybe_check_sweeps:
  "maybe_check_temps (e_now env) (ac_refresh (a_cfg s)) (ac_temperature (a_cfg s)) (e_temps env) (a_monitor s)
     = (checked, mon, ls) \<Longrightarrow>
   checked = sweep_due (e_now env) (vit s)
   \<and> (a_cfg s, mon_temps mon, mon_last_temp_check mon) = sweep env (vit s)"
  by (cases "sweep_due (e_now env) (vit s)")
    (auto simp: maybe_check_temps_def sweep_def sweep_due_def vit_def Let_def check_temps_def note_temps_check
      split: option.splits dest!: arg_cong [where f = fst] intro!: note_temps_other)

section \<open>Frames\<close>

lemma vit_simps [simp]:
  "vit (emit ops s) = vit s" "vit (logs ls s) = vit s" "vit (reset_scroll s) = vit s"
  "vit (s\<lparr>a_alarm := x1\<rparr>) = vit s" "vit (s\<lparr>a_status_shown := x2\<rparr>) = vit s"
  "vit (s\<lparr>a_nic_led_problem := x3\<rparr>) = vit s" "vit (s\<lparr>a_applied_brightness := x4\<rparr>) = vit s"
  "vit (s\<lparr>a_brightness_problem := x5\<rparr>) = vit s" "vit (s\<lparr>a_bay_mode_problem := x6\<rparr>) = vit s"
  "vit (s\<lparr>a_day_brightness := x7\<rparr>) = vit s" "vit (s\<lparr>a_driver := x8\<rparr>) = vit s"
  "vit (s\<lparr>a_led_inputs := x9\<rparr>) = vit s" "vit (s\<lparr>a_alert_bay := x10\<rparr>) = vit s"
  "vit (s\<lparr>a_mode := x11\<rparr>) = vit s" "vit (s\<lparr>a_over := x12\<rparr>) = vit s" "vit (s\<lparr>a_pending_over := x13\<rparr>) = vit s"
  "vit (s\<lparr>a_sleeping := x14\<rparr>) = vit s" "vit (s\<lparr>a_locate_bays := x15\<rparr>) = vit s"
  "vit (s\<lparr>a_locate_chassis := x16\<rparr>) = vit s" "vit (s\<lparr>a_beep_pending := x17\<rparr>) = vit s"
  "vit (s\<lparr>a_next_repeat_beep := x18\<rparr>) = vit s" "vit (s\<lparr>a_awake_override_until := x19\<rparr>) = vit s"
  "vit (s\<lparr>a_schedule_wants_sleep := x20\<rparr>) = vit s" "vit (s\<lparr>a_auto_rotate := x21\<rparr>) = vit s"
  "vit (s\<lparr>a_resume_at := x22\<rparr>) = vit s" "vit (s\<lparr>a_last_dwell := x23\<rparr>) = vit s"
  "vit (s\<lparr>a_index := x24\<rparr>) = vit s" "vit (s\<lparr>a_scroll0 := x25\<rparr>) = vit s" "vit (s\<lparr>a_scroll1 := x26\<rparr>) = vit s"
  "vit (s\<lparr>a_fan_health := x27\<rparr>) = vit s" "vit (s\<lparr>a_pools := x28\<rparr>) = vit s" "vit (s\<lparr>a_disks := x29\<rparr>) = vit s"
  "vit (s\<lparr>a_network_cache := x30\<rparr>) = vit s" "vit (s\<lparr>a_pools_cache := x31\<rparr>) = vit s"
  "vit (s\<lparr>a_hdd_cache := x32\<rparr>) = vit s" "vit (s\<lparr>a_temperature_cache := x33\<rparr>) = vit s"
  "vit (s\<lparr>a_docker_cache := x34\<rparr>) = vit s" "vit (s\<lparr>a_screens := x35\<rparr>) = vit s"
  by (simp_all add: vit_def emit_def logs_def reset_scroll_def)

text \<open>The alarm is at least as severe as the worst sensor.\<close>

definition covered :: "app \<Rightarrow> bool" where
  "covered s \<longleftrightarrow>
     (case health_pattern (worst_temp_level (a_monitor s)) of
        None \<Rightarrow> True
      | Some p \<Rightarrow> (case a_alarm s of None \<Rightarrow> False | Some a \<Rightarrow> severity p \<le> severity (al_pattern a)))"

lemma worst_of_temps: "mon_temps m = mon_temps m' \<Longrightarrow> worst_temp_level m = worst_temp_level m'"
  by (simp add: worst_temp_level_def worst_temp_def)

lemma covered_cong: "vit t = vit s \<Longrightarrow> a_alarm t = a_alarm s \<Longrightarrow> covered t = covered s"
  using worst_of_temps [of "a_monitor t" "a_monitor s"] by (simp add: covered_def vit_def split: option.split)

lemma worst_alarm:
  assumes "health_pattern (worst_temp_level (a_monitor s)) = Some p"
  shows "\<exists>a\<in>set (health_alarms env s). al_pattern a = p"
proof -
  from assms obtain l chip t where w: "worst_temp (a_monitor s) = Some (l, chip, t)" and l: "health_pattern l = Some p"
    by (auto simp: worst_temp_level_def split: option.splits)
  obtain val unit where "display_temp t (tmp_units (ac_temperature (a_cfg s))) = (val, unit)" by fastforce
  with w have "set (opt_list (alarm_new l (''TEMP '' @ level_word l)
      (short_chip_name chip @ '' '' @ fmt_fixed 0 val @ unit))) \<subseteq> set (health_alarms env s)"
    by (simp add: health_alarms_def)
  with l show ?thesis by (simp add: opt_list_def alarm_new_def) (metis alarm.select_convs(2))
qed

lemma recompute_covered: "covered (recompute_status_led env s)"
proof -
  have v: "a_monitor (recompute_status_led env s) = a_monitor s"
    by (simp add: recompute_status_led_def Let_def emit_def)
  show ?thesis
  proof (cases "health_pattern (worst_temp_level (a_monitor s))")
    case None
    then show ?thesis by (simp add: covered_def v)
  next
    case (Some p)
    from worst_alarm [OF this, of env] obtain a where a: "a \<in> set (health_alarms env s)" "al_pattern a = p" by blast
    then obtain r where r: "most_critical (opt_list (pushed_alarm s) @ health_alarms env s) = Some r"
      by (cases "most_critical (opt_list (pushed_alarm s) @ health_alarms env s)") auto
    from most_critical_max [OF r] a have "severity p \<le> severity (al_pattern r)" by auto
    then show ?thesis by (simp add: covered_def v Some recompute_alarm r)
  qed
qed

lemma vit_recompute [simp]: "vit (recompute_status_led env s) = vit s"
  by (simp add: recompute_status_led_def Let_def)

lemma check_bays_temps:
  "mon_temps (fst (check_bays sts mon)) = mon_temps mon"
  "mon_last_temp_check (fst (check_bays sts mon)) = mon_last_temp_check mon"
proof -
  have "mon_temps (fst (check_bays sts mon)) = mon_temps mon
      \<and> mon_last_temp_check (fst (check_bays sts mon)) = mon_last_temp_check mon"
  proof (induction sts arbitrary: mon)
    case (Cons x sts)
    obtain bay st where x: "x = (bay, st)" by (cases x)
    show ?case unfolding x check_bays_step by (simp add: Cons.IH)
  qed simp
  then show "mon_temps (fst (check_bays sts mon)) = mon_temps mon"
    "mon_last_temp_check (fst (check_bays sts mon)) = mon_last_temp_check mon" by blast+
qed

lemma check_pools_temps:
  "mon_temps (fst (check_pools hs mon)) = mon_temps mon"
  "mon_last_temp_check (fst (check_pools hs mon)) = mon_last_temp_check mon"
  by (induction hs mon rule: check_pools.induct) (simp_all add: Let_def case_prod_beta)

lemma vit_monitor: "mon_temps m = mon_temps (a_monitor s) \<Longrightarrow> mon_last_temp_check m = mon_last_temp_check (a_monitor s) \<Longrightarrow>
    vit (s\<lparr>a_monitor := m\<rparr>) = vit s"
  by (simp add: vit_def)

lemma bay_vit [simp]: "vit (apply_bay_led bay s) = vit s" "vit (fold apply_bay_led bays s) = vit s"
proof -
  show one: "vit (apply_bay_led bay s) = vit s" for bay s by (simp add: apply_bay_led_def)
  show "vit (fold apply_bay_led bays s) = vit s" by (induction bays arbitrary: s) (simp_all add: one)
qed

lemma led_vit [simp]:
  "vit (apply_power_led s) = vit s" "vit (note_nic_leds r s) = vit s" "vit (apply_front_brightness env s) = vit s"
  "vit (apply_bay_mode env s) = vit s" "vit (snd (relight env s)) = vit s" "vit (learn_brightness env s) = vit s"
  "vit (apply_alert_led s) = vit s"
  by (simp_all add: apply_power_led_def note_nic_leds_def apply_front_brightness_def apply_bay_mode_def relight_def
      learn_brightness_def apply_alert_led_def Let_def split: option.split prod.split)

lemma reassert_vit [simp]: "vit (reassert_locate_leds s) = vit s"
proof -
  have "vit (fold (\<lambda>bay. emit (set_bay bay BayLocate)) bays s) = vit s" for bays
    by (induction bays arbitrary: s) simp_all
  then show ?thesis by (simp add: reassert_locate_leds_def Let_def)
qed

lemma update_health_vit [simp]: "vit (update_health_leds env s) = vit s"
  by (simp add: update_health_leds_def Let_def case_prod_beta vit_monitor check_bays_temps)

lemma sync_vit [simp]: "vit (sync_leds_to_override env s) = vit s"
  by (simp add: sync_leds_to_override_def Let_def split: option.split)

lemma refresh_parts_vit [simp]:
  "vit (refresh_network env s) = vit s" "vit (refresh_hdd env s) = vit s" "vit (refresh_temperature env s) = vit s"
  "vit (refresh_docker env s) = vit s" "vit (assemble_screens s) = vit s" "vit (refresh_pools env s) = vit s"
  by (simp_all add: refresh_network_def refresh_hdd_def refresh_temperature_def refresh_docker_def
      assemble_screens_def refresh_pools_def Let_def case_prod_beta vit_monitor check_pools_temps)

section \<open>What an operation does to the temperatures and the alarm\<close>

definition moved :: "env \<Rightarrow> app \<Rightarrow> app \<Rightarrow> bool" where
  "moved env s t \<longleftrightarrow> (vit t = vit s \<or> vit t = sweep env (vit s)) \<and> (covered s \<longrightarrow> covered t)"

lemma moved_refl [simp]: "moved env s s"
  by (simp add: moved_def)

lemma moved_same: "vit t = vit u \<Longrightarrow> a_alarm t = a_alarm u \<Longrightarrow> moved env s t = moved env s u"
  using covered_cong [of t u] by (simp add: moved_def)

lemma moved_covered: "vit t = vit u \<Longrightarrow> covered t \<Longrightarrow> moved env s u \<Longrightarrow> moved env s t"
  by (simp add: moved_def)

lemma moved_recompute: "moved env s t \<Longrightarrow> moved env s (recompute_status_led env' t)"
  by (rule moved_covered) (simp_all add: recompute_covered)

lemma moved_update_health: "moved env s t \<Longrightarrow> moved env s (update_health_leds env' t)"
  by (rule moved_covered) (simp_all, simp add: update_health_leds_def Let_def case_prod_beta recompute_covered)

lemma moved_sync: "moved env s t \<Longrightarrow> moved env s (sync_leds_to_override env' t)"
  by (rule moved_covered) (simp_all, simp add: sync_leds_to_override_def Let_def recompute_covered)

lemma alarm_frames:
  "a_alarm (apply_bay_led bay s) = a_alarm s" "a_alarm (apply_power_led s) = a_alarm s"
  "a_alarm (note_nic_leds r s) = a_alarm s" "a_alarm (apply_front_brightness env s) = a_alarm s"
  "a_alarm (reassert_locate_leds s) = a_alarm s"
  by (simp_all add: apply_power_led_def note_nic_leds_def apply_front_brightness_def reassert_locate_leds_def
      Let_def reassert_bays split: option.split)

lemma moved_frames [simp]:
  "moved env s (emit ops t) = moved env s t" "moved env s (logs ls t) = moved env s t"
  "moved env s (reset_scroll t) = moved env s t"
  "moved env s (apply_bay_led bay t) = moved env s t" "moved env s (apply_power_led t) = moved env s t"
  "moved env s (note_nic_leds r t) = moved env s t" "moved env s (apply_front_brightness env' t) = moved env s t"
  "moved env s (reassert_locate_leds t) = moved env s t"
  by (rule moved_same; simp add: alarm_frames)+

lemma moved_updates [simp]:
  "moved env s (t\<lparr>a_status_shown := x1\<rparr>) = moved env s t" "moved env s (t\<lparr>a_sleeping := x2\<rparr>) = moved env s t"
  "moved env s (t\<lparr>a_mode := x3\<rparr>) = moved env s t" "moved env s (t\<lparr>a_over := x4\<rparr>) = moved env s t"
  "moved env s (t\<lparr>a_pending_over := x5\<rparr>) = moved env s t" "moved env s (t\<lparr>a_beep_pending := x6\<rparr>) = moved env s t"
  "moved env s (t\<lparr>a_next_repeat_beep := x7\<rparr>) = moved env s t"
  "moved env s (t\<lparr>a_awake_override_until := x8\<rparr>) = moved env s t"
  "moved env s (t\<lparr>a_schedule_wants_sleep := x9\<rparr>) = moved env s t"
  "moved env s (t\<lparr>a_auto_rotate := x10\<rparr>) = moved env s t" "moved env s (t\<lparr>a_resume_at := x11\<rparr>) = moved env s t"
  "moved env s (t\<lparr>a_last_dwell := x12\<rparr>) = moved env s t" "moved env s (t\<lparr>a_index := x13\<rparr>) = moved env s t"
  "moved env s (t\<lparr>a_scroll0 := x14\<rparr>) = moved env s t" "moved env s (t\<lparr>a_scroll1 := x15\<rparr>) = moved env s t"
  "moved env s (t\<lparr>a_fan_health := x16\<rparr>) = moved env s t" "moved env s (t\<lparr>a_driver := x17\<rparr>) = moved env s t"
  "moved env s (t\<lparr>a_locate_bays := x18\<rparr>) = moved env s t" "moved env s (t\<lparr>a_locate_chassis := x19\<rparr>) = moved env s t"
  "moved env s (t\<lparr>a_led_inputs := x20\<rparr>) = moved env s t" "moved env s (t\<lparr>a_applied_brightness := x21\<rparr>) = moved env s t"
  "moved env s (t\<lparr>a_network_cache := x22\<rparr>) = moved env s t" "moved env s (t\<lparr>a_pools_cache := x23\<rparr>) = moved env s t"
  "moved env s (t\<lparr>a_hdd_cache := x24\<rparr>) = moved env s t" "moved env s (t\<lparr>a_temperature_cache := x25\<rparr>) = moved env s t"
  "moved env s (t\<lparr>a_docker_cache := x26\<rparr>) = moved env s t"
  by (rule moved_same; simp)+

text \<open>A refresh sweeps when a sweep is due, and recomputes the alarm if it did.\<close>

lemma refresh_data_sweeps:
  assumes "refresh_data env s = (c, t)"
  shows "vit t = sweep env (vit s)" "c = sweep_due (e_now env) (vit s)" "a_alarm t = a_alarm s"
proof -
  show "a_alarm t = a_alarm s" using panel_eq [OF panel_refresh_data [OF assms]] by simp
  define u where "u = (let s1 = (if network_due env s then refresh_network env s else s);
      s2 = (if pools_due env s then refresh_pools env s1 else s1);
      s3 = (if pools_due env s \<or> hdd_due env s then s2\<lparr>a_disks := e_disks env\<rparr> else s2);
      s4 = (if hdd_due env s then refresh_hdd env s3 else s3)
    in refresh_temperature env s4)"
  obtain checked mon ls where m: "maybe_check_temps (e_now env) (ac_refresh (a_cfg u)) (ac_temperature (a_cfg u))
      (e_temps env) (a_monitor u) = (checked, mon, ls)"
    by (rule prod_cases3)
  have u: "vit u = vit s" by (simp add: u_def Let_def)
  have "refresh_data env s = (checked, assemble_screens (refresh_docker env (logs ls (u\<lparr>a_monitor := mon\<rparr>))))"
    unfolding refresh_data_def Let_def using m by (simp add: u_def Let_def)
  then have t: "c = checked" "t = assemble_screens (refresh_docker env (logs ls (u\<lparr>a_monitor := mon\<rparr>)))"
    using assms by simp_all
  have "vit t = (a_cfg u, mon_temps mon, mon_last_temp_check mon)" unfolding t(2) vit_simps refresh_parts_vit
    by (simp add: vit_def)
  with maybe_check_sweeps [OF m] show "vit t = sweep env (vit s)" "c = sweep_due (e_now env) (vit s)"
    by (simp_all only: u t(1))
qed

lemma refresh_leds_vit: "vit (refresh_leds env x y s) = vit s"
  by (simp add: refresh_leds_def Let_def)

lemma moved_trans: "moved env s t \<Longrightarrow> moved env t u \<Longrightarrow> moved env s u"
  by (auto simp: moved_def)

lemma refresh_vit: "vit (refresh_stale env s) = sweep env (vit s)"
proof -
  obtain c t where t: "refresh_data env s = (c, t)" by fastforce
  from refresh_data_sweeps [OF t] show ?thesis by (simp add: refresh_stale_def t refresh_leds_vit)
qed

lemma refresh_covered: "covered s \<or> sweep_due (e_now env) (vit s) \<Longrightarrow> covered (refresh_stale env s)"
proof -
  obtain c t where t: "refresh_data env s = (c, t)" by fastforce
  note d = refresh_data_sweeps [OF t]
  assume "covered s \<or> sweep_due (e_now env) (vit s)"
  moreover have "covered t" if "covered s" "\<not> c"
    using that d covered_cong [of t s] by (simp add: sweep_def)
  ultimately have "c \<or> covered t" using d(2) by blast
  moreover have "covered (u\<lparr>a_led_inputs := z\<rparr>) = covered u" for u z by (rule covered_cong) simp_all
  ultimately have "covered (refresh_leds env x (y \<or> c) t)" for x y
    by (auto simp: refresh_leds_def Let_def update_health_leds_def case_prod_beta recompute_covered)
  then show ?thesis by (simp add: refresh_stale_def t)
qed

lemma moved_refresh: "moved env s t \<Longrightarrow> moved env s (refresh_stale env t)"
  by (auto simp: moved_def refresh_vit refresh_covered)

lemma moved_refresh_all: "moved env s t \<Longrightarrow> moved env s (refresh_all env t)"
  unfolding refresh_all_def by (intro moved_refresh) simp

lemma moved_wake: "moved env s t \<Longrightarrow> moved env s (wake env t)"
  by (simp add: wake_def Let_def case_prod_beta moved_refresh_all)

lemma moved_fall_asleep: "moved env s t \<Longrightarrow> moved env s (fall_asleep env t)"
  by (simp add: fall_asleep_def Let_def case_prod_beta)

lemma moved_show_override: "moved env s t \<Longrightarrow> moved env s (show_override env ov t)"
  by (simp add: show_override_def Let_def moved_sync moved_wake)

lemma moved_pending: "moved env s t \<Longrightarrow> moved env s (apply_pending_override env t)"
  by (simp add: apply_pending_override_def moved_show_override split: option.split)

lemma moved_to_status: "moved env s t \<Longrightarrow> moved env s (to_status env t)"
  by (simp add: to_status_def moved_pending)

lemma moved_end_bay: "moved env s t \<Longrightarrow> moved env s (end_bay_locate bay t)"
  by (simp add: end_bay_locate_def)

lemma moved_end_bays: "moved env s t \<Longrightarrow> moved env s (fold end_bay_locate bays t)"
  by (induction bays arbitrary: t) (simp_all add: moved_end_bay)

lemma moved_end_chassis: "moved env s t \<Longrightarrow> moved env s (end_chassis_locate env' t)"
  by (simp add: end_chassis_locate_def moved_recompute)

lemma moved_locates:
  "moved env s t \<Longrightarrow> moved env s (start_locate env' bay ttl t)" "moved env s t \<Longrightarrow> moved env s (stop_locate env' bay t)"
  "moved env s t \<Longrightarrow> moved env s (expire_locates env' t)"
  by (simp_all add: start_locate_def stop_locate_def expire_locates_def Let_def moved_recompute moved_end_bay
      moved_end_bays moved_end_chassis split: option.split)

lemma moved_socket: "moved env s t \<Longrightarrow> moved env s (apply_socket_command env cmd t)"
  by (cases cmd) (simp_all add: apply_socket_command_def Let_def moved_sync moved_show_override moved_locates)

lemma moved_render: "moved env s (snd (panel_render env' t)) = moved env s t"
  by (simp add: panel_render_def Let_def case_prod_beta)

lemma moved_page: "moved env s (page env' forward t) = moved env s t"
  by (simp add: page_def Let_def)

lemma moved_key: "moved env s t \<Longrightarrow> moved env s (snd (handle_key env key t))"
  by (cases "a_mode t"; cases key)
    (simp_all add: handle_key_def cancel_countdown_def Let_def moved_render moved_wake moved_page moved_to_status
      moved_show_override)

lemma moved_countdown: "moved env s t \<Longrightarrow> moved env s (start_countdown env a n l t)"
  by (cases "a_mode t") (simp_all add: start_countdown_def Let_def moved_wake)

lemma moved_tick_parts:
  "moved env s t \<Longrightarrow> moved env s (expire_override env t)" "moved env s (repeat_beep env t) = moved env s t"
  "moved env s (resume_rotation env t) = moved env s t" "moved env s t \<Longrightarrow> moved env s (expire_confirm env t)"
  "moved env s (rotate_screens env t) = moved env s t"
  by (simp_all add: expire_override_def repeat_beep_def resume_rotation_def expire_confirm_def rotate_screens_def
      moved_sync moved_to_status split: option.split mode.split)

lemma moved_tick_awake: "moved env s t \<Longrightarrow> moved env s (snd (tick_awake env t))"
  by (simp add: tick_awake_def moved_render moved_tick_parts moved_refresh)

lemma moved_settle: "moved env s t \<Longrightarrow> moved env s (settle_sleep env t)"
  by (simp add: settle_sleep_def Let_def moved_locates moved_fall_asleep)

lemma moved_tick: "moved env s (snd (tick env s))"
  using moved_settle [of env s s]
  by (simp add: tick_def Let_def moved_render moved_wake moved_refresh moved_to_status moved_tick_awake split: mode.split)

lemma apply_all_same:
  "vit (apply_all_leds env s) = vit s" "covered (apply_all_leds env s)"
proof -
  obtain r t where t: "relight env s = (r, t)" by fastforce
  have "vit t = vit s" using led_vit(5) [of env s] by (simp add: t)
  then show "vit (apply_all_leds env s) = vit s" by (simp add: apply_all_leds_def t Let_def)
  have frames: "covered (reassert_locate_leds u) = covered u" "covered (apply_alert_led u) = covered u" for u
    by (rule covered_cong; simp add: alarm_frames apply_alert_led_def split: option.split)+
  show "covered (apply_all_leds env s)"
    by (simp add: apply_all_leds_def t Let_def frames update_health_leds_def case_prod_beta recompute_covered)
qed

lemma moved_driver: "moved env s (snd (check_driver env s))"
proof -
  have "moved env s (apply_all_leds env t)" if "vit t = vit s" for t
    using apply_all_same [of env t] that by (simp add: moved_def)
  then show ?thesis
    by (auto simp: check_driver_def Let_def case_prod_beta split: option.splits)
qed

section \<open>A tick sweeps\<close>

lemma settle_vit: "vit (settle_sleep env s) = vit s"
proof -
  have bay: "vit (end_bay_locate bay s) = vit s" for bay s by (simp add: end_bay_locate_def)
  have bays: "vit (fold end_bay_locate bays s) = vit s" for bays s by (induction bays arbitrary: s) (simp_all add: bay)
  have "vit (expire_locates env s) = vit s"
    by (simp add: expire_locates_def end_chassis_locate_def Let_def bays split: option.split)
  moreover have "vit (fall_asleep env t) = vit t" for t by (simp add: fall_asleep_def Let_def case_prod_beta)
  ultimately show ?thesis by (simp add: settle_sleep_def Let_def)
qed

lemma refresh_all_vit: "vit (refresh_all env s) = sweep env (vit s)"
  by (simp add: refresh_all_def refresh_vit)

lemma wake_vit: "vit (wake env s) = sweep env (vit s)"
  by (simp add: wake_def Let_def case_prod_beta refresh_all_vit)

lemma render_vit: "vit (snd (panel_render env s)) = vit s"
  by (simp add: panel_render_def Let_def case_prod_beta)

lemma tick_awake_vit: "vit (snd (tick_awake env s)) = sweep env (vit s)"
proof -
  have "moved env (refresh_stale env s) (snd (tick_awake env s))"
    by (simp add: tick_awake_def moved_render moved_tick_parts)
  then show ?thesis by (auto simp: moved_def refresh_vit)
qed

lemma tick_sweeps:
  assumes "\<forall>a. fst (tick env s) \<noteq> RunAction a"
  shows "vit (snd (tick env s)) = sweep env (vit s)"
  using assms settle_vit [of env s]
  by (auto simp: tick_def Let_def render_vit wake_vit refresh_vit tick_awake_vit split: mode.splits if_splits)

lemma sweep_holds:
  assumes "sweep_due (e_now env) (vit s)" "vit t = sweep env (vit s)"
  shows "mon_last_temp_check (a_monitor t) = Some (e_now env)"
    "map_of (mon_temps (a_monitor t)) l
       = map_option (reading_state (ac_temperature (a_cfg s))) (last_reading (e_temps env) l)"
  using assms check_temps_last by (simp_all add: vit_def sweep_def)

section \<open>Over a run\<close>

definition later :: "vitals \<Rightarrow> vitals \<Rightarrow> bool" where
  "later v w \<longleftrightarrow> w = v \<or> (case (snd (snd v), snd (snd w)) of
     (None, Some _) \<Rightarrow> True | (Some t, Some u) \<Rightarrow> t < u | _ \<Rightarrow> False)"

lemma sweep_later: "later v (sweep env v)"
proof (cases "sweep_due (e_now env) v")
  case True
  obtain cfg temps c where v: "v = (cfg, temps, c)" by (cases v)
  have pos: "0 < secs (max n 1)" for n by (simp add: secs_def)
  show ?thesis
  proof (cases c)
    case None
    with True show ?thesis by (simp add: v later_def sweep_def)
  next
    case (Some t)
    with True have "0 < since (e_now env) t" using pos less_le_trans by (auto simp: v sweep_due_def)
    then have "t < e_now env" by (simp add: since_def)
    with True Some show ?thesis by (simp add: v later_def sweep_def)
  qed
qed (simp add: later_def sweep_def)

lemma later_refl [simp]: "later v v"
  by (simp add: later_def)

lemma later_trans: "later u v \<Longrightarrow> later v w \<Longrightarrow> later u w"
  by (auto simp: later_def split: option.splits)

lemma step_moved: "\<exists>env. moved env s (app_step op s)"
proof (cases op)
  case (OpKey env key)
  then show ?thesis using moved_key [of env s s] by auto
next
  case (OpSocket env cmd)
  then show ?thesis using moved_socket [of env s s] by auto
next
  case (OpTick env)
  then show ?thesis using moved_tick by auto
next
  case (OpCountdown env a n l)
  then show ?thesis using moved_countdown [of env s s] by auto
next
  case (OpDriver env)
  then show ?thesis using moved_driver by auto
next
  case (OpRefresh env)
  then show ?thesis using moved_refresh_all [of env s s] by auto
qed (simp_all add: set_fan_health_def set_schedule_sleep_wanted_def take_beep_def)

interpretation health: related_machine app_step covered "\<lambda>s t. later (vit s) (vit t)"
proof unfold_locales
  fix i s
  from step_moved obtain env where "moved env s (app_step i s)" by blast
  then show "covered s \<Longrightarrow> covered (app_step i s)" "covered s \<Longrightarrow> later (vit s) (vit (app_step i s))"
    using sweep_later [of "vit s"] by (auto simp: moved_def)
next
  fix s t u
  show "later (vit s) (vit s)" by simp
  show "later (vit s) (vit t) \<Longrightarrow> later (vit t) (vit u) \<Longrightarrow> later (vit s) (vit u)" by (rule later_trans)
qed

lemma start_covered: "covered (fold app_step ops (init_leds env s))"
  by (rule health.run_inv) (simp add: init_leds_def apply_all_same)

lemma covered_reading:
  assumes "covered s" "map_of (mon_temps (a_monitor s)) l = Some x" "health_pattern (ts_level x) = Some p"
  shows "\<exists>a. a_alarm s = Some a \<and> severity p \<le> severity (al_pattern a)"
proof -
  let ?w = "worst_temp_level (a_monitor s)"
  have "x \<in> snd ` set (mon_temps (a_monitor s))" using assms(2) by (force dest: map_of_SomeD)
  then have "ts_level x \<le> ?w" by (simp add: worst_temp_level_max)
  moreover from this assms(3) obtain q where "health_pattern ?w = Some q"
    by (cases "ts_level x"; cases ?w) (auto simp: less_eq_level_def)
  ultimately show ?thesis
    using assms(1,3) health_severity_mono [of "ts_level x" p ?w q]
    by (auto simp: covered_def split: option.splits)
qed


text \<open>Two drives of 70 and 30 degrees under limits of 20 and 25; the sweep at 5 seconds, then a
  locate of the first bay.\<close>

definition frosty :: app where
  "frosty = init_leds (quiet_env 0) (app_new (app_config_default\<lparr>ac_temperature := temperature_default\<lparr>
     tmp_warn_threshold := 20, tmp_critical_threshold := 25, tmp_thresholds := []\<rparr>\<rparr>) 0)"

definition drives_env :: env where
  "drives_env = (quiet_env (secs 5))\<lparr>e_temps := all_connected_temps two_drives\<rparr>"


end
