(* ===== verification/Spec2Isabelle.thy ===== *)
theory Spec2Isabelle
  imports Protocol Alarm Template Calendar Scheduler FrontProps FanProps CpuPowerProps MainLoopProps Cli
    ConfigProps SocketFile Command Sensors Calibrate FanThread Report Startup Daemon
    CpuThread Threads Process Health
begin

text \<open>
  A model of \<open>lcm-status\<close>, the chassis daemon of an ASUSTOR NAS running TrueNAS (\<open>src/src\<close>, Rust). One process
  drives the LCD panel over a serial line, the front, bay and NIC LEDs, the buzzer, the fans, the CPU power
  limits, Wake on LAN and the RTC wake alarm, watches the health of the machine, and answers a control
  socket.

  \<^bold>\<open>How the program is put together.\<close> The main loop (\<open>main.rs\<close>) owns the panel state machine (\<open>state.rs\<close>),
  the serial link (\<open>protocol.rs\<close>), the power scheduler (\<open>power.rs\<close>) and the Wake-on-LAN keeper (\<open>wol.rs\<close>). A
  pass drains the socket's queue, lets the schedule fire, checks the guard threads, refreshes what the
  panel shows (\<open>hal.rs\<close>, \<open>monitor.rs\<close>), redraws, beeps, and reads the keys. Three groups of threads must not
  depend on it: the fan thread with its sensor readers (\<open>fan.rs\<close>), the CPU power thread (\<open>cpu_power.rs\<close>) and
  the feeder of systemd's watchdog (\<open>sd_notify.rs\<close>); the loop sees only their heartbeat and what they
  publish, and exits when one of them is dead or stalled. The socket (\<open>socket.rs\<close>) has a thread per
  connection and a bounded queue towards the loop.

  \<^bold>\<open>Conventions.\<close> Time is a natural number of nanoseconds. \<open>u8\<close> and \<open>u32\<close> values whose wrap-around or bits
  matter are words, other unsigned integers are \<open>nat\<close> with the bound of the parser written out, \<open>i64\<close>
  seconds are \<open>int\<close> with saturating operations. An \<open>f32\<close> is the rational it denotes and every operation
  rounds to 24 bits (\<open>Floats\<close>); infinities and subnormal numbers are not represented. A \<open>Result\<close> is a sum
  with the error on the left, a map that is only looked up is a function. What the program reads from the
  outside (files, child processes, the serial port, clients, the clock) is an argument: an event list, a
  stream, a tree of files or a function; what it writes is appended to a list of the state. A log line is
  a name with its arguments.

  \<^bold>\<open>Theories and sources.\<close>

  \<^item> \<open>Prelude\<close>: durations, saturating and checked arithmetic, strings, number parsing and printing. \<open>Floats\<close>: the
    rounding of \<open>f32\<close> and its laws, as an interpretation of a locale of monotone roundings. \<open>Levels\<close>: severity
    levels, looks, and the choice of a maximum, first or last, as one locale with two interpretations.
  \<^item> \<open>Protocol\<close> (\<open>protocol.rs\<close>): frames, the byte-wise reader, sending with acknowledgement and retries, the
    text caches. Decoding inverts encoding, the reader finds a frame behind noise, an exchange succeeds only on
    its own acknowledgement and answers whatever else arrives.
  \<^item> \<open>Led\<close>, \<open>DriverWatch\<close> (\<open>led.rs\<close>, \<open>driver_watch.rs\<close>): the writes of every pattern and what the LEDs then show.
  \<^item> \<open>Alarm\<close>, \<open>Template\<close>, \<open>Settings\<close>, \<open>Hal\<close>, \<open>Monitor\<close> (\<open>alarm.rs\<close>, \<open>template.rs\<close>, \<open>config.rs\<close>, \<open>hal.rs\<close>, \<open>monitor.rs\<close>):
    alarms, screens, the data of the configuration, the parsers of command output, the health monitor.
  \<^item> \<open>Command\<close>, \<open>Sysfs\<close> (\<open>hal.rs\<close>): running a command that may hang, and walking the kernel's files over an
    arbitrary tree. A command comes back in bounded time; a selector finds exactly the sensors it names. \<open>Sensors\<close>:
    the health monitor on such a tree, where a description stands for its last reading.
  \<^item> \<open>Schedule\<close>, \<open>Calendar\<close>, \<open>Scheduler\<close> (\<open>power.rs\<close>): rules, local time, the next occurrence, polling, the RTC
    alarm over an arbitrary device. The occurrence found is the earliest, a poll fires exactly what became due,
    no occurrence fires twice, and the alarm is armed for the next power-on.
  \<^item> \<open>Socket\<close>, \<open>Server\<close>, \<open>SocketFile\<close> (\<open>socket.rs\<close>): requests, the queue, one connection with its deadlines, the
    accounting of connections, and binding the socket file without ever exposing it.
  \<^item> \<open>Panel\<close>, \<open>Front\<close> (\<open>state.rs\<close>): the state of the panel and every operation on it. \<open>FrontFrame\<close>, \<open>FrontLeds\<close>, \<open>FrontLit\<close>:
    which fields an operation leaves alone, and that the LEDs follow the state. \<open>FrontSpec\<close>, \<open>FrontProps\<close>: an
    abstract machine of modes, messages, sleep and countdown, the simulation, and its invariants. \<open>Health\<close>:
    from a sensor in the kernel's tree over the monitor to the alarm and the status LED, over any run.
  \<^item> \<open>Fan\<close>, \<open>Steady\<close>, \<open>FanProps\<close>, \<open>FanThread\<close> (\<open>fan.rs\<close>): one controller, histories of its override and floor, full
    speed when the temperatures are not known to be safe; the reader threads and the fan thread as steps of
    any interleaving, up to a hot sensor reaching its fan; the end of the thread and the fail-safe.
  \<^item> \<open>Calibrate\<close> (\<open>fan_calibrate.rs\<close>): the calibration of the fans, interrupted or not, over the kernel's tree at
    every instant: what it reports was measured, and it leaves nothing changed.
  \<^item> \<open>CpuPower\<close>, \<open>CpuPowerProps\<close>, \<open>CpuThread\<close> (\<open>cpu_power.rs\<close>): the guard, the order of the writes, the controller over an
    arbitrary kernel; the sensor thread and the control thread as steps of any interleaving, up to a hot sensor
    bringing the stock limits back.
  \<^item> \<open>Wol\<close> (\<open>wol.rs\<close>), \<open>Buzzer\<close> (\<open>buzzer.rs\<close>), \<open>Watchdog\<close> (\<open>sd_notify.rs\<close>): the keeper over an arbitrary driver, the
    beeper thread and its queue, the feeder. \<open>Process\<close> (\<open>shutdown.rs\<close>, \<open>syslog.rs\<close>): the handled signals and
    the text of a log line.
  \<^item> \<open>Config\<close>, \<open>ConfigProps\<close> (\<open>config.rs\<close>): loading and validating. Validation establishes what the components
    assume of their configuration and changes nothing that was sound.
  \<^item> \<open>MainLoop\<close>, \<open>MainLoopProps\<close>, \<open>Cli\<close>, \<open>PanelProbe\<close>, \<open>Startup\<close> (\<open>main.rs\<close>): start, passes and end of the daemon, the command
    line, the panel probes, the exit codes, what a start logs. A run of the loop is a run of the panel's abstract machine, a power
    action needs its key presses, and a dead guard ends the loop. \<open>Daemon\<close>: \<open>run_daemon\<close> from the socket to the
    exit code, next to the fan thread; however it ends, the hardware is handed back in time.
  \<^item> \<open>Threads\<close>: the fan thread, the CPU power threads, the main loop and the feeder in any interleaving, from the
    spawn of the first on, as an inductive step relation (\<open>box_step\<close>); what is seen of them is a run of a
    machine of deadlines that knows only when each last showed life.
  \<^item> \<open>Report\<close> (\<open>report.rs\<close>, \<open>platform.rs\<close>): the status report and the board's BIOS settings.

  \<^bold>\<open>Bounds and fuel.\<close> No function runs on fuel that may be short. The loops of the program are total functions
  with a measure: the remaining time to a deadline (the waits, a child's output, a connection), the bytes
  left, the distance of a pwm value to its end. Where the program sleeps, a round takes a nanosecond at least.
  The search for the next occurrence walks the minute boundaries of the eight days the code walks.

  \<^bold>\<open>Not modelled.\<close> The \<open>termios\<close> settings of the serial port, the ioctls, starting a thread, and the
  deserialisation of TOML by serde are outside the sources or are I/O; a configuration starts as the values
  read. What \<open>hal-test\<close> prints is left out. Threads interleave at the granularity of one published sample,
  one pass or one queue operation, which is what the mutexes and atomics of the program make atomic. A log
  line is the name of its format with its arguments; only \<open>Process\<close> has texts.
\<close>

end
